(* ===== verification/Prelude.thy ===== *)
theory Prelude
  imports Main "HOL-Library.Word"
begin

unbundle bit_operations_syntax

text \<open>
  Shared vocabulary of the development: the C integer types, memory as a function from
  addresses to bytes, and the window lemmas behind every ring buffer of the firmware.
\<close>

section \<open>C types\<close>

type_synonym u8 = "8 word"
type_synonym u16 = "16 word"
type_synonym u32 = "32 word"
type_synonym u64 = "64 word"

text \<open>
  An array is a function from the index to the element: the object itself is the range of
  its valid indices, and what lies beyond is whatever the linker put next to it.  That an
  operation stays inside its object is a theorem (it changes no index past the end), not a
  convention of the model.
\<close>

type_synonym 'a arr = "nat \<Rightarrow> 'a"

named_theorems wf_intros \<open>preservation of well-formedness, one fact per operation\<close>
named_theorems frame_simps \<open>what an operation leaves unchanged\<close>

section \<open>Words\<close>

lemma unat_and_mask:
  "unat ((x :: 'a::len word) AND mask k) = unat x mod 2 ^ k"
  by (metis take_bit_eq_mask take_bit_eq_mod unsigned_take_bit_eq)

lemma unat_of_nat_small: "n < 2 ^ LENGTH('a) \<Longrightarrow> unat (of_nat n :: 'a::len word) = n"
  by (simp add: unat_of_nat take_bit_nat_eq_self)

lemma unat_of_int_u8: "0 \<le> x \<Longrightarrow> x < 256 \<Longrightarrow> unat (of_int x :: u8) = nat x"
  by (simp add: unsigned_of_int take_bit_int_eq_self unsigned_word_eqI)

lemma mod_pow2_mod: "k \<le> n \<Longrightarrow> (x :: nat) mod 2 ^ n mod 2 ^ k = x mod 2 ^ k"
  by (simp add: mod_mod_cancel le_imp_power_dvd)

text \<open>
  The two index computations of every ring of the firmware: \<open>(h + n) & MASK\<close> advances an
  index, \<open>(h - t) & MASK\<close> is the distance between two, also when the unsigned
  subtraction wraps.
\<close>

lemma unat_add_mask:
  assumes "k \<le> LENGTH('a)"
  shows "unat (((h :: 'a::len word) + n) AND mask k) = (unat h + unat n) mod 2 ^ k"
  using assms by (simp add: unat_and_mask unat_word_ariths(1) mod_pow2_mod)

lemma unat_sub_mask:
  fixes h t :: "'a::len word"
  assumes k: "k \<le> LENGTH('a)" and t: "unat t < 2 ^ k"
  shows "unat ((h - t) AND mask k) = (unat h + 2 ^ k - unat t) mod 2 ^ k"
proof -
  have u: "uint (h - t) = (uint h - uint t) mod 2 ^ LENGTH('a)"
    by (simp add: uint_word_ariths)
  have "int (unat ((h - t) AND mask k)) = uint (h - t) mod 2 ^ k"
    by (simp add: unat_and_mask zmod_int)
  also have "\<dots> = (uint h - uint t) mod 2 ^ k"
    using k by (simp add: u mod_mod_cancel le_imp_power_dvd)
  also have "\<dots> = (uint h - uint t + 2 ^ k) mod 2 ^ k" by simp
  also have "\<dots> = int ((unat h + 2 ^ k - unat t) mod 2 ^ k)"
  proof -
    have "int (unat h + 2 ^ k - unat t) = uint h - uint t + 2 ^ k"
      using t by (simp add: of_nat_diff)
    then show ?thesis by (simp add: zmod_int)
  qed
  finally show ?thesis by (rule of_nat_eq_iff [THEN iffD1])
qed

text \<open>Moving the head by \<open>n\<close> adds \<open>n\<close> to the distance, moving the tail subtracts it.\<close>

lemma ring_dist_head:
  assumes "(t :: nat) < N" "(h + N - t) mod N + n < N"
  shows "((h + n) mod N + N - t) mod N = (h + N - t) mod N + n"
proof -
  have "((h + n) mod N + N - t) mod N = ((h + n) mod N + (N - t)) mod N" using assms by simp
  also have "\<dots> = (h + n + (N - t)) mod N" by (rule mod_add_left_eq)
  also have "h + n + (N - t) = (h + N - t) + n" using assms by simp
  also have "\<dots> mod N = ((h + N - t) mod N + n) mod N" by (rule mod_add_left_eq [symmetric])
  finally show ?thesis using assms by simp
qed

lemma ring_dist_tail:
  assumes t: "(t :: nat) < N" and n: "n \<le> (h + N - t) mod N" and h: "h < N"
  shows "(h + N - (t + n) mod N) mod N = (h + N - t) mod N - n"
proof -
  have "(h + N - t) mod N = (if t \<le> h then h - t else h + N - t)"
    using t h by (auto simp: mod_if)
  moreover have "(t + n) mod N = (if t + n < N then t + n else t + n - N)"
    using t n mod_less_divisor [of N "h + N - t"] by (auto simp: mod_if)
  ultimately show ?thesis using t n h by (auto simp: mod_if split: if_splits)
qed

section \<open>Windows of a circular buffer\<close>

text \<open>The \<open>n\<close> elements of a buffer of \<open>N\<close> slots that start at slot \<open>t\<close>.\<close>

definition win :: "nat \<Rightarrow> 'a arr \<Rightarrow> nat \<Rightarrow> nat \<Rightarrow> 'a list" where
  "win N d t n = map (\<lambda>i. d ((t + i) mod N)) [0..<n]"

lemma length_win [simp]: "length (win N d t n) = n"
  by (simp add: win_def)

lemma win_0 [simp]: "win N d t 0 = []"
  by (simp add: win_def)

lemma win_nth: "i < n \<Longrightarrow> win N d t n ! i = d ((t + i) mod N)"
  by (simp add: win_def)

lemma win_mod [simp]: "win N d (t mod N) n = win N d t n"
  by (simp add: win_def mod_add_left_eq)

lemma win_add: "win N d t (n + m) = win N d t n @ win N d (t + n) m"
  by (rule nth_equalityI) (auto simp: win_nth nth_append algebra_simps)

lemma take_win: "take k (win N d t n) = win N d t (min k n)"
  by (rule nth_equalityI) (auto simp: win_nth)

lemma drop_win: "drop k (win N d t n) = win N d (t + k) (n - k)"
  by (rule nth_equalityI) (auto simp: win_nth algebra_simps)

lemma win_Suc: "win N d t (Suc n) = d (t mod N) # win N d (Suc t) n"
  using win_add [of N d t 1 n] by (simp add: win_def)

lemma mod_add_inj:
  fixes h :: nat
  assumes "(h + i) mod N = (h + j) mod N" "i < N" "j < N"
  shows "i = j"
proof -
  have "int N dvd int (h + i) - int (h + j)"
    using assms(1) by (metis mod_eq_dvd_iff zmod_int)
  then have "int N dvd int i - int j" by simp
  moreover have "\<bar>int i - int j\<bar> < int N" using assms(2,3) by linarith
  ultimately show ?thesis by (metis dvd_imp_le_int eq_iff_diff_eq_0 abs_of_nat leD of_nat_eq_iff)
qed

section \<open>Copying loops\<close>

text \<open>
  A C loop \<open>for (i = 0; i < n; i++) d[f(i)] = g(i)\<close> is a fold over the indices.  When
  no index is written twice, the result is the obvious one.
\<close>

lemma fold_upd_other:
  "(\<And>i. i \<in> set is \<Longrightarrow> f i \<noteq> x) \<Longrightarrow> fold (\<lambda>i d. d(f i := g i)) is d x = d x"
  by (induction "is" arbitrary: d) auto

lemma fold_upd_at:
  "distinct is \<Longrightarrow> inj_on f (set is) \<Longrightarrow> i \<in> set is \<Longrightarrow>
   fold (\<lambda>i d. d(f i := g i)) is d (f i) = g i"
proof (induction "is" arbitrary: d)
  case (Cons j js)
  show ?case
  proof (cases "i = j")
    case True
    have "fold (\<lambda>i d. d(f i := g i)) js (d(f j := g j)) (f j) = (d(f j := g j)) (f j)"
      using Cons.prems by (intro fold_upd_other) (auto simp: inj_on_def)
    with True show ?thesis by (simp only: fold_simps fun_upd_same)
  next
    case False
    with Cons show ?thesis by (auto simp: inj_on_def)
  qed
qed simp

lemma inj_on_mod_add: "n \<le> N \<Longrightarrow> inj_on (\<lambda>i. (h + i) mod N) {0..<n :: nat}"
  by (auto simp: inj_on_def dest: mod_add_inj)

text \<open>Appending \<open>n\<close> elements at the head of a window of \<open>m\<close>, in a buffer with room.\<close>

lemma win_store:
  assumes "m + n \<le> N"
  shows "win N (fold (\<lambda>i d. d((t + m + i) mod N := g i)) [0..<n] d) t (m + n) =
         win N d t m @ map g [0..<n]"
proof (rule nth_equalityI)
  fix i assume "i < length (win N (fold (\<lambda>i d. d((t + m + i) mod N := g i)) [0..<n] d) t (m + n))"
  then have i: "i < m + n" by simp
  let ?f = "\<lambda>i. (t + m + i) mod N"
  show "win N (fold (\<lambda>i d. d(?f i := g i)) [0..<n] d) t (m + n) ! i =
        (win N d t m @ map g [0..<n]) ! i"
  proof (cases "i < m")
    case True
    have "?f j \<noteq> (t + i) mod N" if "j < n" for j
      using that True assms mod_add_inj [of t "m + j" N i] by (auto simp: add.assoc)
    then have "fold (\<lambda>i d. d(?f i := g i)) [0..<n] d ((t + i) mod N) = d ((t + i) mod N)"
      by (intro fold_upd_other) auto
    with True i show ?thesis by (simp add: win_nth nth_append)
  next
    case False
    then obtain j where j: "i = m + j" "j < n" using i by (metis add_diff_inverse_nat nat_add_left_cancel_less)
    have "fold (\<lambda>i d. d(?f i := g i)) [0..<n] d (?f j) = g j"
      using j assms by (intro fold_upd_at) (auto intro!: inj_on_mod_add)
    with j show ?thesis by (simp add: win_nth nth_append add.assoc)
  qed
qed simp

lemma fold_store_beyond:
  assumes "(N :: nat) \<le> x" "0 < N"
  shows "fold (\<lambda>i d. d((h + i) mod N := g i)) js d x = d x"
proof (rule fold_upd_other)
  fix i show "(h + i) mod N \<noteq> x"
    using assms mod_less_divisor [of N "h + i"] by linarith
qed

end
