(* ===== verification/Fifo.thy ===== *)
theory Fifo
  imports Prelude
begin

text \<open>
  The two interfaces behind the firmware's queues.  A \<open>bounded_fifo\<close> takes one element at a
  time and drops it when it is full (keystrokes, key actions, raw characters).  A
  \<open>byte_pipe\<close> moves blocks of bytes and tells the caller how many it took (the console
  rings).  What the clients need is proved here once, from the laws alone.
\<close>

section \<open>Queues that drop when full\<close>

locale bounded_fifo =
  fixes push :: "'q \<Rightarrow> 'a \<Rightarrow> 'q"
    and pop :: "'q \<Rightarrow> ('a \<times> 'q) option"
    and contents :: "'q \<Rightarrow> 'a list"
    and wf :: "'q \<Rightarrow> bool"
    and cap :: nat
  assumes wf_push: "wf q \<Longrightarrow> wf (push q x)"
    and contents_push: "wf q \<Longrightarrow>
      contents (push q x) = (if length (contents q) < cap then contents q @ [x] else contents q)"
    and pop_None: "wf q \<Longrightarrow> pop q = None \<longleftrightarrow> contents q = []"
    and pop_Some: "wf q \<Longrightarrow> pop q = Some (x, q') \<Longrightarrow> contents q = x # contents q' \<and> wf q'"
    and contents_cap: "wf q \<Longrightarrow> length (contents q) \<le> cap"
begin

lemma wf_pushes: "wf q \<Longrightarrow> wf (fold (\<lambda>x q. push q x) xs q)"
  by (induction xs arbitrary: q) (auto simp: wf_push)

lemma contents_pushes:
  "wf q \<Longrightarrow> contents (fold (\<lambda>x q. push q x) xs q) =
     contents q @ take (cap - length (contents q)) xs"
proof (induction xs arbitrary: q)
  case (Cons x xs)
  then show ?case
    using contents_cap [OF Cons.prems]
    by (auto simp: wf_push contents_push take_Cons')
qed simp

text \<open>The consumer sees a prefix of what was pushed, in order, and never more than \<open>cap\<close>.\<close>

lemma pop_pushes_fresh:
  assumes "wf q" "contents q = []" "xs \<noteq> []" "0 < cap"
  obtains q' where "pop (fold (\<lambda>x q. push q x) xs q) = Some (hd xs, q')"
    "contents q' = tl (take cap xs)" "wf q'"
proof -
  let ?q = "fold (\<lambda>x q. push q x) xs q"
  have w: "wf ?q" and c: "contents ?q = take cap xs"
    using assms by (auto simp: wf_pushes contents_pushes)
  have "pop ?q \<noteq> None" using pop_None [OF w] c assms by auto
  then obtain x q' where p: "pop ?q = Some (x, q')" by auto
  from pop_Some [OF w p] c assms show thesis
    by (intro that [of q']) (auto simp: p take_Cons' split: if_splits dest: arg_cong [where f = hd] arg_cong [where f = tl]
        intro: hd_take [symmetric])
qed

end

section \<open>Byte pipes\<close>

locale byte_pipe =
  fixes put :: "'q \<Rightarrow> 'a list \<Rightarrow> 'q \<times> nat"
    and get :: "'q \<Rightarrow> nat \<Rightarrow> 'q \<times> 'a list"
    and contents :: "'q \<Rightarrow> 'a list"
    and wf :: "'q \<Rightarrow> bool"
    and cap :: nat
    and lim :: nat  \<comment> \<open>the largest request: lengths are machine words\<close>
  assumes put_law: "wf q \<Longrightarrow> length xs \<le> lim \<Longrightarrow> put q xs = (q', n) \<Longrightarrow>
      wf q' \<and> n = min (length xs) (cap - length (contents q)) \<and> contents q' = contents q @ take n xs"
    and get_law: "wf q \<Longrightarrow> k \<le> lim \<Longrightarrow> get q k = (q', ys) \<Longrightarrow>
      wf q' \<and> ys = take k (contents q) \<and> contents q' = drop k (contents q)"
    and cap_law: "wf q \<Longrightarrow> length (contents q) \<le> cap"
begin

text \<open>
  Conservation: whatever the mixture of puts and gets, the bytes that came out followed by
  the bytes still inside are the bytes that were inside followed by the bytes accepted.
\<close>

primrec run_pipe :: "'q \<Rightarrow> ('a list + nat) list \<Rightarrow> 'q \<times> 'a list \<times> 'a list" where
  "run_pipe q [] = (q, [], [])"
| "run_pipe q (e # es) =
     (case e of
        Inl xs \<Rightarrow> (let (q1, n) = put q xs; (q2, ins, outs) = run_pipe q1 es
                  in (q2, take n xs @ ins, outs))
      | Inr k \<Rightarrow> (let (q1, ys) = get q k; (q2, ins, outs) = run_pipe q1 es
                 in (q2, ins, ys @ outs)))"

lemma run_pipe_conserves:
  "wf q \<Longrightarrow> (\<forall>e \<in> set es. case_sum length id e \<le> lim) \<Longrightarrow> run_pipe q es = (q', ins, outs) \<Longrightarrow>
     wf q' \<and> outs @ contents q' = contents q @ ins"
proof (induction es arbitrary: q q' ins outs)
  case (Cons e es)
  show ?case
  proof (cases e)
    case (Inl xs)
    obtain q1 n where p: "put q xs = (q1, n)" by fastforce
    obtain ins1 where r: "run_pipe q1 es = (q', ins1, outs)" "ins = take n xs @ ins1"
      using Cons.prems(3) Inl p by (auto split: prod.splits)
    have "length xs \<le> lim" "\<forall>e \<in> set es. case_sum length id e \<le> lim"
      using Cons.prems(2) Inl by auto
    then show ?thesis using put_law [OF Cons.prems(1) _ p] Cons.IH [OF _ _ r(1)] r(2) by auto
  next
    case (Inr k)
    obtain q1 ys where g: "get q k = (q1, ys)" by fastforce
    obtain outs1 where r: "run_pipe q1 es = (q', ins, outs1)" "outs = ys @ outs1"
      using Cons.prems(3) Inr g by (auto split: prod.splits)
    have "k \<le> lim" "\<forall>e \<in> set es. case_sum length id e \<le> lim"
      using Cons.prems(2) Inr by auto
    then show ?thesis using get_law [OF Cons.prems(1) _ g] Cons.IH [OF _ _ r(1)] r(2)
      by (metis append.assoc append_take_drop_id)
  qed
qed simp

end

section \<open>One-slot-free rings\<close>

text \<open>
  The shape of every small queue of the firmware: a buffer of \<open>N\<close> slots, a head that a push
  advances, a tail that a pop advances, empty when they meet and full one slot before.
\<close>

definition rq_len :: "nat \<Rightarrow> nat \<Rightarrow> nat \<Rightarrow> nat" where
  "rq_len N h t = (h + N - t) mod N"

lemma rq_len_less: "0 < N \<Longrightarrow> rq_len N h t < N"
  by (simp add: rq_len_def)

lemma rq_len_0: "h < N \<Longrightarrow> t < N \<Longrightarrow> rq_len N h t = 0 \<longleftrightarrow> h = t"
  by (auto simp: rq_len_def mod_if)

lemma rq_full: "h < N \<Longrightarrow> t < N \<Longrightarrow> (h + 1) mod N = t \<longleftrightarrow> rq_len N h t = N - 1"
  by (auto simp: rq_len_def mod_if)

lemma rq_head: "h < N \<Longrightarrow> t < N \<Longrightarrow> (t + rq_len N h t) mod N = h"
  by (auto simp: rq_len_def mod_if)

lemma rq_push:
  assumes "h < N" "t < N" "(h + 1) mod N \<noteq> t"
  shows "rq_len N ((h + 1) mod N) t = Suc (rq_len N h t)"
    and "win N (d(h := x)) t (Suc (rq_len N h t)) = win N d t (rq_len N h t) @ [x]"
proof -
  have less: "Suc (rq_len N h t) < N"
    using assms rq_full [OF assms(1,2)] rq_len_less [of N h t] by linarith
  show "rq_len N ((h + 1) mod N) t = Suc (rq_len N h t)"
    using ring_dist_head [of t N h 1] assms less by (simp add: rq_len_def)
  show "win N (d(h := x)) t (Suc (rq_len N h t)) = win N d t (rq_len N h t) @ [x]"
    using win_store [of "rq_len N h t" 1 N t "\<lambda>_. x" d] less rq_head [OF assms(1,2)] by simp
qed

lemma rq_pop:
  assumes "h < N" "t < N" "h \<noteq> t"
  shows "rq_len N h t = Suc (rq_len N h ((t + 1) mod N))"
    and "win N d t (rq_len N h t) = d t # win N d ((t + 1) mod N) (rq_len N h ((t + 1) mod N))"
proof -
  have pos: "1 \<le> rq_len N h t" using rq_len_0 [OF assms(1,2)] assms(3) by linarith
  show len: "rq_len N h t = Suc (rq_len N h ((t + 1) mod N))"
    using ring_dist_tail [of t N 1 h] assms pos by (simp add: rq_len_def)
  show "win N d t (rq_len N h t) = d t # win N d ((t + 1) mod N) (rq_len N h ((t + 1) mod N))"
    unfolding len win_Suc using assms(2) by simp
qed

end
