(* ===== verification/FrankRing.thy ===== *)
theory FrankRing
  imports Fifo
begin

text \<open>
  \<open>firmware/common/frank_ring.h\<close>: the byte ring between Linux on core 0 and the service
  firmware on core 1, and the shared block it lives in.  Indices are 32-bit words reduced
  by the mask, as in the header; \<open>ring_bytes\<close> is the abstract content.
\<close>

section \<open>The ring\<close>

definition FRANK_RING_MAGIC :: u32 where "FRANK_RING_MAGIC = 0x474e5246"
definition FRANK_RING_VERSION :: u32 where "FRANK_RING_VERSION = 1"
definition FRANK_RING_BYTES :: u32 where "FRANK_RING_BYTES = 2048"
definition FRANK_RING_MASK :: u32 where "FRANK_RING_MASK = FRANK_RING_BYTES - 1"

record frank_ring =
  rhead :: u32
  rtail :: u32
  rdata :: "u8 arr"

definition frank_ring_used :: "frank_ring \<Rightarrow> u32" where
  "frank_ring_used r = (rhead r - rtail r) AND FRANK_RING_MASK"

definition frank_ring_space :: "frank_ring \<Rightarrow> u32" where
  "frank_ring_space r = FRANK_RING_MASK - frank_ring_used r"

text \<open>
  The producer: clamp the length to the space, store the bytes, then publish the head.
  \<open>src\<close> is the memory the source pointer points to.
\<close>

definition frank_ring_put :: "frank_ring \<Rightarrow> u8 arr \<Rightarrow> u32 \<Rightarrow> frank_ring \<times> u32" where
  "frank_ring_put r src len =
     (let space = frank_ring_space r;
          len = (if len > space then space else len);
          head = rhead r;
          data = fold (\<lambda>i d. d(unat ((head + of_nat i) AND FRANK_RING_MASK) := src i))
                   [0..<unat len] (rdata r)
      in (r\<lparr>rdata := data, rhead := (head + len) AND FRANK_RING_MASK\<rparr>, len))"

text \<open>The consumer: clamp the length to what is there, read the bytes, then publish the tail.\<close>

definition frank_ring_get :: "frank_ring \<Rightarrow> u8 arr \<Rightarrow> u32 \<Rightarrow> frank_ring \<times> u8 arr \<times> u32" where
  "frank_ring_get r dst len =
     (let used = frank_ring_used r;
          len = (if len > used then used else len);
          tail = rtail r;
          dst = fold (\<lambda>i d. d(i := rdata r (unat ((tail + of_nat i) AND FRANK_RING_MASK))))
                  [0..<unat len] dst
      in (r\<lparr>rtail := (tail + len) AND FRANK_RING_MASK\<rparr>, dst, len))"

section \<open>The abstract ring\<close>

definition ring_ok :: "frank_ring \<Rightarrow> bool" where
  "ring_ok r \<longleftrightarrow> unat (rhead r) < 2048 \<and> unat (rtail r) < 2048"

definition ring_bytes :: "frank_ring \<Rightarrow> u8 list" where
  "ring_bytes r = win 2048 (rdata r) (unat (rtail r)) (unat (frank_ring_used r))"

lemma ring_mask: "FRANK_RING_MASK = mask 11"
  by (simp add: FRANK_RING_MASK_def FRANK_RING_BYTES_def mask_eq_exp_minus_1)

lemma ring_used_unat:
  "ring_ok r \<Longrightarrow>
   unat (frank_ring_used r) = (unat (rhead r) + 2048 - unat (rtail r)) mod 2048"
  using unat_sub_mask [of 11 "rtail r" "rhead r"]
  by (simp add: frank_ring_used_def ring_mask ring_ok_def)

lemma ring_used_less: "unat (frank_ring_used r) < 2048"
  by (simp add: frank_ring_used_def ring_mask unat_and_mask)

lemma ring_space_unat: "unat (frank_ring_space r) = 2047 - unat (frank_ring_used r)"
proof -
  have "unat (FRANK_RING_MASK) = 2047"
    by (simp add: FRANK_RING_MASK_def FRANK_RING_BYTES_def)
  moreover have "frank_ring_used r \<le> FRANK_RING_MASK"
    using ring_used_less [of r] calculation by (simp add: word_le_nat_alt)
  ultimately show ?thesis
    by (simp add: frank_ring_space_def unat_sub)
qed

lemma ring_index: "unat ((h + n) AND FRANK_RING_MASK) = (unat h + unat n) mod 2048"
  using unat_add_mask [of 11 h n] by (simp add: ring_mask)

lemma ring_index_nat:
  "i < 2048 \<Longrightarrow> unat ((h + of_nat i) AND FRANK_RING_MASK) = (unat h + i) mod 2048"
  by (simp add: ring_index unat_of_nat_small)

lemma length_ring_bytes: "length (ring_bytes r) = unat (frank_ring_used r)"
  by (simp add: ring_bytes_def)

lemma ring_head_conv:
  "ring_ok r \<Longrightarrow> (unat (rtail r) + unat (frank_ring_used r)) mod 2048 = unat (rhead r)"
  by (simp add: ring_used_unat ring_ok_def mod_simps)

lemma ring_data_fold:
  "n \<le> 2047 \<Longrightarrow>
   fold (\<lambda>i d. d(unat ((h + of_nat i) AND FRANK_RING_MASK) := src i)) [0..<n] d =
   fold (\<lambda>i d. d((unat h + i) mod 2048 := src i)) [0..<n] d"
  by (rule fold_cong) (auto simp: ring_index_nat)

text \<open>What one \<open>put\<close> does, for every ring, buffer and length.\<close>

lemma frank_ring_put_spec:
  assumes ok: "ring_ok r" and p: "frank_ring_put r src len = (r', n)"
  shows "ring_ok r'" "unat n = min (unat len) (2047 - length (ring_bytes r))"
    "ring_bytes r' = ring_bytes r @ map src [0..<unat n]" "rtail r' = rtail r"
    "\<And>x. 2048 \<le> x \<Longrightarrow> rdata r' x = rdata r x"
proof -
  let ?u = "unat (frank_ring_used r)"
  have n: "n = (if len > frank_ring_space r then frank_ring_space r else len)"
    and r': "r' = r\<lparr>rdata := fold (\<lambda>i d. d(unat ((rhead r + of_nat i) AND FRANK_RING_MASK) := src i))
                   [0..<unat n] (rdata r), rhead := (rhead r + n) AND FRANK_RING_MASK\<rparr>"
    using p by (auto simp: frank_ring_put_def Let_def)
  show un: "unat n = min (unat len) (2047 - length (ring_bytes r))"
    by (simp add: n length_ring_bytes ring_space_unat word_less_nat_alt min_def)
  then have n_le: "unat n \<le> 2047" and fit: "?u + unat n \<le> 2047"
    using ring_used_less [of r] by (auto simp: length_ring_bytes)
  have h: "unat (rhead r') = (unat (rhead r) + unat n) mod 2048" and t: "rtail r' = rtail r"
    by (simp_all add: r' ring_index)
  have d: "rdata r' = fold (\<lambda>i d. d((unat (rhead r) + i) mod 2048 := src i)) [0..<unat n] (rdata r)"
    using n_le by (simp add: r' ring_data_fold)
  show ok': "ring_ok r'" and "rtail r' = rtail r" using ok by (auto simp: ring_ok_def h t)
  have u': "unat (frank_ring_used r') = ?u + unat n"
    using ok fit ring_dist_head [of "unat (rtail r)" 2048 "unat (rhead r)" "unat n"]
    by (simp add: ring_used_unat [OF ok'] ring_used_unat [OF ok] h t ring_ok_def)
  have "rdata r' = fold (\<lambda>i d. d((unat (rtail r) + ?u + i) mod 2048 := src i)) [0..<unat n] (rdata r)"
    by (simp only: d ring_head_conv [OF ok, symmetric] mod_add_left_eq)
  then show "ring_bytes r' = ring_bytes r @ map src [0..<unat n]"
    using fit by (simp add: ring_bytes_def u' t win_store)
  show "rdata r' x = rdata r x" if "2048 \<le> x" for x
    using that by (simp add: d fold_store_beyond)
qed

lemma frank_ring_get_spec:
  assumes ok: "ring_ok r" and g: "frank_ring_get r dst len = (r', dst', n)"
  shows "ring_ok r'" "unat n = min (unat len) (length (ring_bytes r))"
    "map dst' [0..<unat n] = take (unat n) (ring_bytes r)"
    "ring_bytes r' = drop (unat n) (ring_bytes r)"
    "\<And>x. unat n \<le> x \<Longrightarrow> dst' x = dst x" "rhead r' = rhead r" "rdata r' = rdata r"
proof -
  let ?u = "unat (frank_ring_used r)"
  have n: "n = (if len > frank_ring_used r then frank_ring_used r else len)"
    and r': "r' = r\<lparr>rtail := (rtail r + n) AND FRANK_RING_MASK\<rparr>"
    and dst': "dst' = fold (\<lambda>i d. d(i := rdata r (unat ((rtail r + of_nat i) AND FRANK_RING_MASK))))
       [0..<unat n] dst"
    using g by (auto simp: frank_ring_get_def Let_def)
  show un: "unat n = min (unat len) (length (ring_bytes r))"
    by (simp add: n length_ring_bytes word_less_nat_alt min_def)
  then have n_le: "unat n \<le> ?u" "unat n < 2048"
    using ring_used_less [of r] by (auto simp: length_ring_bytes)
  have h: "rhead r' = rhead r" and d: "rdata r' = rdata r"
    and t: "unat (rtail r') = (unat (rtail r) + unat n) mod 2048"
    by (simp_all add: r' ring_index)
  then show "rhead r' = rhead r" "rdata r' = rdata r" by auto
  show ok': "ring_ok r'" using ok by (auto simp: ring_ok_def h t)
  have u': "unat (frank_ring_used r') = ?u - unat n"
    using ok n_le ring_dist_tail [of "unat (rtail r)" 2048 "unat n" "unat (rhead r)"]
    by (simp add: ring_used_unat [OF ok'] ring_used_unat [OF ok] h t ring_ok_def)
  show "ring_bytes r' = drop (unat n) (ring_bytes r)"
    by (simp add: ring_bytes_def u' d t drop_win)
  have at: "dst' i = rdata r ((unat (rtail r) + i) mod 2048)" if "i < unat n" for i
    unfolding dst' using that n_le
    by (subst fold_upd_at) (auto simp: ring_index_nat)
  show "map dst' [0..<unat n] = take (unat n) (ring_bytes r)"
    using n_le by (simp add: ring_bytes_def take_win) (auto simp: win_def at)
  show "dst' x = dst x" if "unat n \<le> x" for x
    unfolding dst' using that by (subst fold_upd_other) auto
qed

section \<open>The ring is a byte pipe\<close>

text \<open>The two operations over lists: what a caller hands over and what it gets back.\<close>

definition ring_write :: "frank_ring \<Rightarrow> u8 list \<Rightarrow> frank_ring \<times> nat" where
  "ring_write r xs = (case frank_ring_put r (\<lambda>i. xs ! i) (of_nat (length xs)) of (r', n) \<Rightarrow> (r', unat n))"

definition ring_read :: "frank_ring \<Rightarrow> nat \<Rightarrow> frank_ring \<times> u8 list" where
  "ring_read r k = (case frank_ring_get r (\<lambda>_. 0) (of_nat k) of (r', dst, n) \<Rightarrow> (r', map dst [0..<unat n]))"

lemma length_ring_bytes_le: "length (ring_bytes r) \<le> 2047"
  using ring_used_less [of r] by (simp add: length_ring_bytes)

interpretation frank_pipe: byte_pipe ring_write ring_read ring_bytes ring_ok 2047 "2 ^ 32 - 1"
proof
  fix r :: frank_ring and xs r' n
  assume ok: "ring_ok r" and len: "length xs \<le> 2 ^ 32 - 1" and w: "ring_write r xs = (r', n)"
  obtain m where p: "frank_ring_put r (\<lambda>i. xs ! i) (of_nat (length xs)) = (r', m)" "n = unat m"
    using w by (auto simp: ring_write_def split: prod.splits)
  have "unat (of_nat (length xs) :: u32) = length xs" using len by (simp add: unat_of_nat_small)
  then show "ring_ok r' \<and> n = min (length xs) (2047 - length (ring_bytes r)) \<and>
        ring_bytes r' = ring_bytes r @ take n xs"
    using frank_ring_put_spec [OF ok p(1)] p(2)
    by (auto intro!: nth_equalityI)
next
  fix r :: frank_ring and k r' ys
  assume ok: "ring_ok r" and k: "k \<le> 2 ^ 32 - 1" and g: "ring_read r k = (r', ys)"
  obtain dst m where p: "frank_ring_get r (\<lambda>_. 0) (of_nat k) = (r', dst, m)" "ys = map dst [0..<unat m]"
    using g by (auto simp: ring_read_def split: prod.splits)
  have "unat (of_nat k :: u32) = k" using k by (simp add: unat_of_nat_small)
  then show "ring_ok r' \<and> ys = take k (ring_bytes r) \<and> ring_bytes r' = drop k (ring_bytes r)"
    using frank_ring_get_spec [OF ok p(1)] p(2) by (auto simp: min_def split: if_splits)
qed (rule length_ring_bytes_le)

section \<open>The shared block\<close>

record frank_blk =
  blk_seq :: u32
  blk_done :: u32
  blk_op :: u32
  blk_lba :: u32
  blk_count :: u32
  blk_addr :: u32
  blk_status :: u32
  blk_capacity :: u32

record frank_shared =
  magic :: u32
  version :: u32
  core1_alive :: u32
  reserved :: u32
  tx :: frank_ring
  rx :: frank_ring
  blk :: frank_blk

end
