(* ===== verification/Spsc.thy ===== *)
theory Spsc
  imports FrankRing
begin

text \<open>
  The two cores on one ring.  \<open>frank_ring_put\<close> and \<open>frank_ring_get\<close> run on different cores
  with no lock: here each is cut into its shared-memory accesses (read the indices, one
  byte, one byte, \<dots>, publish) and the accesses of the two interleave in any order.  The
  barriers of the source are what lets each core's accesses be taken in program order.
  \<open>sent\<close> and \<open>received\<close> are ghosts: the bytes whose publication has happened on either side.
\<close>

section \<open>The interleaved steps\<close>

text \<open>
  Where a core is inside its routine: the local copies of the index and of the clamped
  length, how many bytes it has moved, and its buffer.
\<close>

datatype producer = PIdle | PCopy u32 u32 nat "u8 arr"
datatype consumer = CIdle | CCopy u32 u32 nat "u8 list"

record spsc =
  ring :: frank_ring
  prod :: producer
  cons :: consumer
  sent :: "u8 list"
  received :: "u8 list"

inductive spsc_step :: "spsc \<Rightarrow> spsc \<Rightarrow> bool" where
  put_begin: "prod s = PIdle \<Longrightarrow>
     n = (if len > frank_ring_space (ring s) then frank_ring_space (ring s) else len) \<Longrightarrow>
     spsc_step s (s\<lparr>prod := PCopy (rhead (ring s)) n 0 src\<rparr>)"
| put_store: "prod s = PCopy h n i src \<Longrightarrow> i < unat n \<Longrightarrow>
     spsc_step s (s\<lparr>ring := (ring s)\<lparr>rdata :=
         (rdata (ring s))(unat ((h + of_nat i) AND FRANK_RING_MASK) := src i)\<rparr>,
       prod := PCopy h n (Suc i) src\<rparr>)"
| put_publish: "prod s = PCopy h n i src \<Longrightarrow> i = unat n \<Longrightarrow>
     spsc_step s (s\<lparr>ring := (ring s)\<lparr>rhead := (h + n) AND FRANK_RING_MASK\<rparr>,
       prod := PIdle, sent := sent s @ map src [0..<unat n]\<rparr>)"
| get_begin: "cons s = CIdle \<Longrightarrow>
     n = (if len > frank_ring_used (ring s) then frank_ring_used (ring s) else len) \<Longrightarrow>
     spsc_step s (s\<lparr>cons := CCopy (rtail (ring s)) n 0 []\<rparr>)"
| get_load: "cons s = CCopy t n i acc \<Longrightarrow> i < unat n \<Longrightarrow>
     spsc_step s (s\<lparr>cons := CCopy t n (Suc i)
       (acc @ [rdata (ring s) (unat ((t + of_nat i) AND FRANK_RING_MASK))])\<rparr>)"
| get_publish: "cons s = CCopy t n i acc \<Longrightarrow> i = unat n \<Longrightarrow>
     spsc_step s (s\<lparr>ring := (ring s)\<lparr>rtail := (t + n) AND FRANK_RING_MASK\<rparr>,
       cons := CIdle, received := received s @ acc\<rparr>)"

definition spsc_init :: spsc where
  "spsc_init = \<lparr>ring = \<lparr>rhead = 0, rtail = 0, rdata = (\<lambda>_. 0)\<rparr>, prod = PIdle, cons = CIdle,
     sent = [], received = []\<rparr>"

inductive spsc_reachable :: "spsc \<Rightarrow> bool" where
  start: "spsc_reachable spsc_init"
| step: "spsc_reachable s \<Longrightarrow> spsc_step s s' \<Longrightarrow> spsc_reachable s'"

section \<open>The invariant\<close>

fun producer_inv :: "frank_ring \<Rightarrow> producer \<Rightarrow> bool" where
  "producer_inv r PIdle \<longleftrightarrow> True"
| "producer_inv r (PCopy h n i src) \<longleftrightarrow>
     h = rhead r \<and> i \<le> unat n \<and> unat (frank_ring_used r) + unat n \<le> 2047 \<and>
     win 2048 (rdata r) (unat h) i = map src [0..<i]"

fun consumer_inv :: "frank_ring \<Rightarrow> consumer \<Rightarrow> bool" where
  "consumer_inv r CIdle \<longleftrightarrow> True"
| "consumer_inv r (CCopy t n i acc) \<longleftrightarrow>
     t = rtail r \<and> i \<le> unat n \<and> unat n \<le> unat (frank_ring_used r) \<and> acc = take i (ring_bytes r)"

definition spsc_inv :: "spsc \<Rightarrow> bool" where
  "spsc_inv s \<longleftrightarrow> ring_ok (ring s) \<and> sent s = received s @ ring_bytes (ring s) \<and>
     producer_inv (ring s) (prod s) \<and> consumer_inv (ring s) (cons s)"

lemma win_upd_same:
  "k < n \<Longrightarrow> n \<le> N \<Longrightarrow> win N (d((t + k) mod N := x)) t n = (win N d t n)[k := x]"
  by (rule nth_equalityI) (auto simp: win_nth nth_list_update dest: mod_add_inj)

lemma win_upd_beyond:
  "n + k < N \<Longrightarrow> win N (d((t + (n + k)) mod N := x)) t n = win N d t n"
  by (rule nth_equalityI) (auto simp: win_nth dest: mod_add_inj)

lemma win_snoc: "win N d t (Suc n) = win N d t n @ [d ((t + n) mod N)]"
  using win_add [of N d t n 1] by (simp add: win_def)

text \<open>The store of byte \<open>i\<close> lands past the published window and extends the copied prefix.\<close>

lemma store_effect:
  fixes x :: u8
  assumes ok: "ring_ok r" and i: "i < unat n" and fit: "unat (frank_ring_used r) + unat n \<le> 2047"
  defines "r' \<equiv> r\<lparr>rdata := (rdata r)(unat ((rhead r + of_nat i) AND FRANK_RING_MASK) := x)\<rparr>"
  shows "ring_bytes r' = ring_bytes r" "ring_ok r'" "frank_ring_used r' = frank_ring_used r"
    "win 2048 (rdata r') (unat (rhead r)) (Suc i) = win 2048 (rdata r) (unat (rhead r)) i @ [x]"
proof -
  have idx: "unat ((rhead r + of_nat i) AND FRANK_RING_MASK) = (unat (rhead r) + i) mod 2048"
    using i fit by (simp add: ring_index_nat)
  also have "\<dots> = (unat (rtail r) + (unat (frank_ring_used r) + i)) mod 2048"
    by (simp only: ring_head_conv [OF ok, symmetric] mod_add_left_eq add.assoc)
  finally have idx': "unat ((rhead r + of_nat i) AND FRANK_RING_MASK) =
    (unat (rtail r) + (unat (frank_ring_used r) + i)) mod 2048" .
  show u: "frank_ring_used r' = frank_ring_used r" by (simp add: r'_def frank_ring_used_def)
  show "ring_ok r'" using ok by (simp add: r'_def ring_ok_def)
  show "ring_bytes r' = ring_bytes r"
    using i fit unfolding ring_bytes_def u by (simp add: r'_def idx' win_upd_beyond)
  show "win 2048 (rdata r') (unat (rhead r)) (Suc i) = win 2048 (rdata r) (unat (rhead r)) i @ [x]"
    using i fit win_upd_beyond [of i 0 2048 "rdata r" "unat (rhead r)" x]
    by (simp add: r'_def idx win_snoc)
qed

lemma publish_effect:
  assumes ok: "ring_ok r" and fit: "unat (frank_ring_used r) + unat n \<le> 2047"
  defines "r' \<equiv> r\<lparr>rhead := (rhead r + n) AND FRANK_RING_MASK\<rparr>"
  shows "ring_ok r'" "unat (frank_ring_used r') = unat (frank_ring_used r) + unat n"
    "ring_bytes r' = ring_bytes r @ win 2048 (rdata r) (unat (rhead r)) (unat n)"
proof -
  have h: "unat (rhead r') = (unat (rhead r) + unat n) mod 2048" and t: "rtail r' = rtail r"
    and d: "rdata r' = rdata r"
    by (simp_all add: r'_def ring_index)
  show ok': "ring_ok r'" using ok by (simp add: ring_ok_def h t)
  show u: "unat (frank_ring_used r') = unat (frank_ring_used r) + unat n"
    using ok fit ring_dist_head [of "unat (rtail r)" 2048 "unat (rhead r)" "unat n"]
    by (simp add: ring_used_unat [OF ok'] ring_used_unat [OF ok] h t ring_ok_def)
  have "win 2048 (rdata r) (unat (rtail r) + unat (frank_ring_used r)) (unat n) =
        win 2048 (rdata r) (unat (rhead r)) (unat n)"
    using win_mod [of 2048 "rdata r" "unat (rtail r) + unat (frank_ring_used r)"]
    by (simp only: ring_head_conv [OF ok])
  then show "ring_bytes r' = ring_bytes r @ win 2048 (rdata r) (unat (rhead r)) (unat n)"
    by (simp add: ring_bytes_def u t d win_add)
qed

lemma consume_effect:
  assumes ok: "ring_ok r" and n: "unat n \<le> unat (frank_ring_used r)"
  defines "r' \<equiv> r\<lparr>rtail := (rtail r + n) AND FRANK_RING_MASK\<rparr>"
  shows "ring_ok r'" "unat (frank_ring_used r') = unat (frank_ring_used r) - unat n"
    "ring_bytes r' = drop (unat n) (ring_bytes r)"
proof -
  have t: "unat (rtail r') = (unat (rtail r) + unat n) mod 2048" and h: "rhead r' = rhead r"
    and d: "rdata r' = rdata r"
    by (simp_all add: r'_def ring_index)
  show ok': "ring_ok r'" using ok by (simp add: ring_ok_def h t)
  show u: "unat (frank_ring_used r') = unat (frank_ring_used r) - unat n"
    using ok n ring_dist_tail [of "unat (rtail r)" 2048 "unat n" "unat (rhead r)"]
    by (simp add: ring_used_unat [OF ok'] ring_used_unat [OF ok] h t ring_ok_def)
  show "ring_bytes r' = drop (unat n) (ring_bytes r)"
    by (simp add: ring_bytes_def u t d drop_win)
qed

lemma take_snoc_bytes:
  assumes "i < unat n" "unat n \<le> unat (frank_ring_used r)"
  shows "take i (ring_bytes r) @ [rdata r (unat ((rtail r + of_nat i) AND FRANK_RING_MASK))] =
         take (Suc i) (ring_bytes r)"
proof -
  have "i < unat (frank_ring_used r)" "i < 2048"
    using assms ring_used_less [of r] by auto
  then show ?thesis
    by (simp add: ring_bytes_def take_Suc_conv_app_nth win_nth ring_index_nat)
qed

section \<open>Every interleaving preserves it\<close>

lemma spsc_step_inv: "spsc_step s s' \<Longrightarrow> spsc_inv s \<Longrightarrow> spsc_inv s'"
proof (induction rule: spsc_step.induct)
  case (put_begin s n len src)
  have "unat n \<le> unat (frank_ring_space (ring s))"
    using put_begin by (auto simp: word_less_nat_alt)
  then show ?case
    using put_begin ring_used_less [of "ring s"] by (simp add: spsc_inv_def ring_space_unat)
next
  case (put_store s h n i src)
  then have ok: "ring_ok (ring s)" and fit: "unat (frank_ring_used (ring s)) + unat n \<le> 2047"
    and h: "h = rhead (ring s)"
    by (auto simp: spsc_inv_def)
  show ?case
    using put_store store_effect [OF ok put_store(2) fit, of "src i"]
    by (cases "cons s") (auto simp: spsc_inv_def h)
next
  case (put_publish s h n i src)
  then have ok: "ring_ok (ring s)" and fit: "unat (frank_ring_used (ring s)) + unat n \<le> 2047"
    and h: "h = rhead (ring s)"
    by (auto simp: spsc_inv_def)
  show ?case
    using put_publish publish_effect [OF ok fit]
    by (cases "cons s") (auto simp: spsc_inv_def h length_ring_bytes)
next
  case (get_begin s n len)
  then show ?case by (auto simp: spsc_inv_def word_less_nat_alt)
next
  case (get_load s t n i acc)
  then show ?case using take_snoc_bytes [of i n "ring s"] by (auto simp: spsc_inv_def)
next
  case (get_publish s t n i acc)
  then have ok: "ring_ok (ring s)" and n: "unat n \<le> unat (frank_ring_used (ring s))"
    and t: "t = rtail (ring s)"
    by (auto simp: spsc_inv_def)
  show ?case
    using get_publish consume_effect [OF ok n]
    by (cases "prod s") (auto simp: spsc_inv_def t)
qed

lemma spsc_init_inv: "spsc_inv spsc_init"
  by (simp add: spsc_inv_def spsc_init_def ring_ok_def ring_bytes_def frank_ring_used_def)

lemma spsc_reachable_inv: "spsc_reachable s \<Longrightarrow> spsc_inv s"
  by (induction rule: spsc_reachable.induct) (auto intro: spsc_init_inv spsc_step_inv)

section \<open>The steps are the routines\<close>

lemma spsc_reachable_steps: "spsc_step\<^sup>*\<^sup>* s s' \<Longrightarrow> spsc_reachable s \<Longrightarrow> spsc_reachable s'"
  by (induction rule: rtranclp_induct) (auto intro: spsc_reachable.step)

lemma put_stores:
  "prod s = PCopy h n 0 src \<Longrightarrow> k \<le> unat n \<Longrightarrow>
   spsc_step\<^sup>*\<^sup>* s (s\<lparr>ring := (ring s)\<lparr>rdata :=
        fold (\<lambda>i d. d(unat ((h + of_nat i) AND FRANK_RING_MASK) := src i)) [0..<k] (rdata (ring s))\<rparr>,
      prod := PCopy h n k src\<rparr>)"
proof (induction k)
  case (Suc k)
  let ?s = "s\<lparr>ring := (ring s)\<lparr>rdata :=
        fold (\<lambda>i d. d(unat ((h + of_nat i) AND FRANK_RING_MASK) := src i)) [0..<k] (rdata (ring s))\<rparr>,
      prod := PCopy h n k src\<rparr>"
  have "spsc_step\<^sup>*\<^sup>* s ?s" using Suc by (simp del: fun_upd_apply)
  moreover have "spsc_step ?s (?s\<lparr>ring := (ring ?s)\<lparr>rdata :=
         (rdata (ring ?s))(unat ((h + of_nat k) AND FRANK_RING_MASK) := src k)\<rparr>,
       prod := PCopy h n (Suc k) src\<rparr>)"
    using Suc.prems by (intro put_store) auto
  ultimately show ?case by (auto intro: rtranclp.rtrancl_into_rtrancl simp del: fun_upd_apply)
qed (cases s; simp)

lemma get_loads:
  "cons s = CCopy t n 0 [] \<Longrightarrow> k \<le> unat n \<Longrightarrow>
   spsc_step\<^sup>*\<^sup>* s (s\<lparr>cons := CCopy t n k
      (map (\<lambda>i. rdata (ring s) (unat ((t + of_nat i) AND FRANK_RING_MASK))) [0..<k])\<rparr>)"
proof (induction k)
  case (Suc k)
  let ?s = "s\<lparr>cons := CCopy t n k
      (map (\<lambda>i. rdata (ring s) (unat ((t + of_nat i) AND FRANK_RING_MASK))) [0..<k])\<rparr>"
  have "spsc_step\<^sup>*\<^sup>* s ?s" using Suc by simp
  moreover have "spsc_step ?s (?s\<lparr>cons := CCopy t n (Suc k)
       (map (\<lambda>i. rdata (ring s) (unat ((t + of_nat i) AND FRANK_RING_MASK))) [0..<k] @
        [rdata (ring ?s) (unat ((t + of_nat k) AND FRANK_RING_MASK))])\<rparr>)"
    using Suc.prems by (intro get_load) auto
  ultimately show ?case by (auto intro: rtranclp.rtrancl_into_rtrancl)
qed (cases s; simp)

section \<open>Properties\<close>

text \<open>C9: however the two cores interleave, what the consumer has published as received is a
  prefix of what the producer has published as sent, byte for byte and in order; the
  difference is what the ring holds, at most 2047 bytes.\<close>

theorem spsc_no_loss_no_corruption:
  assumes "spsc_reachable s"
  shows "sent s = received s @ ring_bytes (ring s) \<and> length (sent s) \<le> length (received s) + 2047"
  using spsc_reachable_inv [OF assms] length_ring_bytes_le [of "ring s"]
  by (simp add: spsc_inv_def)

text \<open>the interleaved accesses are those of the routine: run without interruption they
  compute exactly \<open>frank_ring_put\<close>.\<close>

theorem spsc_put_refines:
  assumes idle: "prod s = PIdle" and p: "frank_ring_put (ring s) src len = (r', n)"
  shows "spsc_step\<^sup>*\<^sup>* s (s\<lparr>ring := r', prod := PIdle, sent := sent s @ map src [0..<unat n]\<rparr>)"
proof -
  let ?h = "rhead (ring s)"
  let ?s1 = "s\<lparr>prod := PCopy ?h n 0 src\<rparr>"
  let ?d = "fold (\<lambda>i d. d(unat ((?h + of_nat i) AND FRANK_RING_MASK) := src i)) [0..<unat n] (rdata (ring s))"
  let ?s2 = "s\<lparr>ring := (ring s)\<lparr>rdata := ?d\<rparr>, prod := PCopy ?h n (unat n) src\<rparr>"
  have n: "n = (if len > frank_ring_space (ring s) then frank_ring_space (ring s) else len)"
    and r': "r' = (ring s)\<lparr>rdata := ?d, rhead := (?h + n) AND FRANK_RING_MASK\<rparr>"
    using p by (auto simp: frank_ring_put_def Let_def)
  have "spsc_step s ?s1" using idle n by (rule put_begin)
  moreover have "spsc_step\<^sup>*\<^sup>* ?s1 ?s2"
    using put_stores [of ?s1 ?h n src "unat n"] by simp
  moreover have "spsc_step ?s2 (s\<lparr>ring := r', prod := PIdle, sent := sent s @ map src [0..<unat n]\<rparr>)"
    using put_publish [of ?s2 ?h n "unat n" src] by (simp add: r')
  ultimately show ?thesis
    by (meson converse_rtranclp_into_rtranclp rtranclp.rtrancl_into_rtrancl)
qed

theorem spsc_put_refines_witness:
  "\<exists>s. spsc_step\<^sup>*\<^sup>* spsc_init s \<and> sent s = [65, 66]"
proof -
  obtain r' n where p: "frank_ring_put (ring spsc_init) (\<lambda>i. if i = 0 then 65 else 66) 2 = (r', n)"
    by fastforce
  then have "n = 2"
    by (auto simp: frank_ring_put_def frank_ring_space_def frank_ring_used_def spsc_init_def
        FRANK_RING_MASK_def FRANK_RING_BYTES_def Let_def)
  then show ?thesis
    using spsc_put_refines [OF _ p] by (fastforce simp: spsc_init_def upt_rec)
qed

theorem spsc_no_loss_no_corruption_witness:
  "\<exists>s. spsc_reachable s \<and> prod s \<noteq> PIdle \<and>
     (sent s = received s @ ring_bytes (ring s) \<and> length (sent s) \<le> length (received s) + 2047)"
proof -
  have "spsc_reachable (spsc_init\<lparr>prod := PCopy (rhead (ring spsc_init)) 1 0 (\<lambda>_. 65)\<rparr>)"
    by (rule spsc_reachable.step [OF spsc_reachable.start], rule put_begin [where len = 1])
      (auto simp: spsc_init_def frank_ring_space_def frank_ring_used_def
        FRANK_RING_MASK_def FRANK_RING_BYTES_def)
  from this spsc_no_loss_no_corruption [OF this] show ?thesis by fastforce
qed

end
