(* ===== verification/CoreUsb.thy ===== *)
theory CoreUsb
  imports FrankRing
begin

text \<open>
  \<open>firmware/common/core1_usb.c\<close>: the USB console service on core 1.  One stream of bytes
  leaves the Linux ring and fans out to two consumers, the USB CDC console and the link to
  the master's terminal.  What TinyUSB and the timer answer in one pass of the service loop
  is the record \<open>usb_env\<close>, an argument of the step.
\<close>

section \<open>State\<close>

definition FAN_SIZE :: u32 where "FAN_SIZE = 4096"
definition FAN_MASK :: u32 where "FAN_MASK = FAN_SIZE - 1"

record core1 =
  shared :: frank_shared
  fan :: "u8 arr"
  fan_head :: u32
  fan_usb_tail :: u32
  fan_link_tail :: u32
  dtr_since :: u64
  reset_itf_num :: u8

record usb_env =
  tud_ready :: bool
  tud_cdc_write_available :: u32
  tud_cdc_available :: bool
  tud_cdc_pending :: "u8 list"   \<comment> \<open>what \<open>tud_cdc_read\<close> can take from the host\<close>
  tud_cdc_connected :: bool
  time_us_64 :: u64

definition frank_ring_init :: "frank_shared \<Rightarrow> frank_shared" where
  "frank_ring_init s = s\<lparr>version := FRANK_RING_VERSION, core1_alive := 0, reserved := 0,
     tx := (tx s)\<lparr>rhead := 0, rtail := 0\<rparr>, rx := (rx s)\<lparr>rhead := 0, rtail := 0\<rparr>,
     magic := FRANK_RING_MAGIC\<rparr>"

section \<open>The fan-out buffer\<close>

definition fan_used :: "core1 \<Rightarrow> u32 \<Rightarrow> u32" where
  "fan_used c tail = (fan_head c - tail) AND FAN_MASK"

definition fan_take :: "core1 \<Rightarrow> u32 \<Rightarrow> u32 \<Rightarrow> u32 \<times> u8 list" where
  "fan_take c tail mx =
     (let n = fan_used c tail;
          n = (if n > mx then mx else n)
      in ((tail + n) AND FAN_MASK,
          map (\<lambda>i. fan c (unat ((tail + of_nat i) AND FAN_MASK))) [0..<unat n]))"

definition frank_console_take :: "core1 \<Rightarrow> u32 \<Rightarrow> core1 \<times> u8 list" where
  "frank_console_take c mx =
     (case fan_take c (fan_link_tail c) mx of (t, bs) \<Rightarrow> (c\<lparr>fan_link_tail := t\<rparr>, bs))"

definition frank_console_feed :: "core1 \<Rightarrow> u8 list \<Rightarrow> core1" where
  "frank_console_feed c src =
     c\<lparr>shared := (shared c)\<lparr>rx :=
        fst (frank_ring_put (rx (shared c)) (\<lambda>i. src ! i) (of_nat (length src)))\<rparr>\<rparr>"

text \<open>
  \<open>fan_fill\<close>: an absent consumer has its tail snapped forward; the amount a present one
  still holds bounds what is taken out of the ring.
\<close>

definition fan_snap :: "core1 \<Rightarrow> bool \<Rightarrow> bool \<Rightarrow> core1" where
  "fan_snap c usb_up link_up =
     (let c = (if \<not> usb_up then c\<lparr>fan_usb_tail := fan_head c\<rparr> else c)
      in if \<not> link_up then c\<lparr>fan_link_tail := fan_head c\<rparr> else c)"

definition fan_held :: "core1 \<Rightarrow> bool \<Rightarrow> bool \<Rightarrow> u32" where
  "fan_held c usb_up link_up =
     (let held = (if usb_up then fan_used c (fan_usb_tail c) else 0)
      in if link_up \<and> fan_used c (fan_link_tail c) > held then fan_used c (fan_link_tail c) else held)"

definition fan_fill :: "core1 \<Rightarrow> bool \<Rightarrow> bool \<Rightarrow> core1" where
  "fan_fill c usb_up link_up =
     (if \<not> usb_up \<and> \<not> link_up then c
      else
        let held = fan_held c usb_up link_up;
            c = fan_snap c usb_up link_up;
            room = FAN_MASK - held;
            room = (if room > 64 then 64 else room)
        in if room = 0 then c
           else case frank_ring_get (tx (shared c)) (\<lambda>_. 0) room of (r, buf, n) \<Rightarrow>
             c\<lparr>shared := (shared c)\<lparr>tx := r\<rparr>,
               fan := fold (\<lambda>i d. d(unat ((fan_head c + of_nat i) AND FAN_MASK) := buf i))
                        [0..<unat n] (fan c),
               fan_head := (fan_head c + n) AND FAN_MASK\<rparr>)"

section \<open>One pass of the service loop\<close>

definition service_tx :: "usb_env \<Rightarrow> core1 \<Rightarrow> core1 \<times> u8 list" where
  "service_tx e c =
     (if tud_ready e then
        let room = tud_cdc_write_available e;
            room = (if room > 64 then 64 else room)
        in if room \<noteq> 0 then
             case fan_take c (fan_usb_tail c) room of (t, bs) \<Rightarrow> (c\<lparr>fan_usb_tail := t\<rparr>, bs)
           else (c, [])
      else (c, []))"

definition service_rx :: "usb_env \<Rightarrow> core1 \<Rightarrow> core1 \<times> nat" where
  "service_rx e c =
     (if tud_cdc_available e then
        let room = frank_ring_space (rx (shared c));
            room = (if room > 64 then 64 else room)
        in if room \<noteq> 0 then
             let buf = take (unat room) (tud_cdc_pending e); n = length buf
             in if n \<noteq> 0 then
                  (c\<lparr>shared := (shared c)\<lparr>rx :=
                     fst (frank_ring_put (rx (shared c)) (\<lambda>i. buf ! i) (of_nat n))\<rparr>\<rparr>, n)
                else (c, 0)
           else (c, 0)
      else (c, 0))"

definition service_dtr :: "usb_env \<Rightarrow> core1 \<Rightarrow> core1" where
  "service_dtr e c =
     (if tud_cdc_connected e then
        let now = time_us_64 e;
            since = (if dtr_since c = 0 then now else dtr_since c)
        in c\<lparr>dtr_since := since,
             shared := (shared c)\<lparr>reserved := (if now - since \<ge> 250000 then 1 else 0)\<rparr>\<rparr>
      else c\<lparr>dtr_since := 0, shared := (shared c)\<lparr>reserved := 0\<rparr>\<rparr>)"

text \<open>
  The whole pass, with what goes out to the host and how many bytes came in from it.
\<close>

definition service_once :: "bool \<Rightarrow> usb_env \<Rightarrow> core1 \<Rightarrow> core1 \<times> u8 list \<times> nat" where
  "service_once link_up e c =
     (let c = fan_fill c (tud_ready e) link_up;
          (c, out) = service_tx e c;
          (c, n) = service_rx e c;
          c = c\<lparr>shared := (shared c)\<lparr>core1_alive := core1_alive (shared c) + 1\<rparr>\<rparr>
      in (service_dtr e c, out, n))"

definition frank_ring_puts :: "core1 \<Rightarrow> u8 list \<Rightarrow> core1" where
  "frank_ring_puts c str =
     c\<lparr>shared := (shared c)\<lparr>tx :=
        fst (frank_ring_put (tx (shared c)) (\<lambda>i. str ! i) (of_nat (length str)))\<rparr>\<rparr>"

definition frank_console_ready :: "core1 \<Rightarrow> bool" where
  "frank_console_ready c \<longleftrightarrow> reserved (shared c) \<noteq> 0"

section \<open>The reset interface\<close>

definition RESET_INTERFACE_SUBCLASS :: u8 where "RESET_INTERFACE_SUBCLASS = 0x00"
definition RESET_INTERFACE_PROTOCOL :: u8 where "RESET_INTERFACE_PROTOCOL = 0x01"
definition RESET_REQUEST_BOOTSEL :: u8 where "RESET_REQUEST_BOOTSEL = 0x01"

record tusb_interface =
  bInterfaceNumber :: u8
  bInterfaceClass :: u8
  bInterfaceSubClass :: u8
  bInterfaceProtocol :: u8

definition resetd_reset :: "core1 \<Rightarrow> core1" where
  "resetd_reset c = c\<lparr>reset_itf_num := 0\<rparr>"

text \<open>\<open>TUSB_CLASS_VENDOR_SPECIFIC\<close> is 0xff and an interface descriptor has nine bytes.\<close>

definition resetd_open :: "core1 \<Rightarrow> tusb_interface \<Rightarrow> u16 \<Rightarrow> core1 \<times> u16" where
  "resetd_open c itf max_len =
     (if \<not> (bInterfaceClass itf = 0xff \<and> bInterfaceSubClass itf = RESET_INTERFACE_SUBCLASS \<and>
            bInterfaceProtocol itf = RESET_INTERFACE_PROTOCOL) then (c, 0)
      else if \<not> max_len \<ge> 9 then (c, 0)
      else (c\<lparr>reset_itf_num := bInterfaceNumber itf\<rparr>, 9))"

text \<open>
  The control callback: its answer, and whether it entered the ROM bootloader, from which
  it does not return.
\<close>

datatype control_result = Answer bool | EnterBootrom

definition resetd_control_xfer_cb :: "core1 \<Rightarrow> bool \<Rightarrow> u16 \<Rightarrow> u8 \<Rightarrow> control_result" where
  "resetd_control_xfer_cb c setup_stage wIndex bRequest =
     (if \<not> setup_stage then Answer True
      else if wIndex \<noteq> ucast (reset_itf_num c) then Answer False
      else if bRequest = RESET_REQUEST_BOOTSEL then EnterBootrom
      else Answer False)"

end
