(* ===== verification/CoreUsbProps.thy ===== *)
theory CoreUsbProps
  imports CoreUsb
begin

text \<open>
  What the fan-out guarantees: a consumer that is present receives exactly the byte stream
  Linux wrote, and the buffer never overruns it.
\<close>

section \<open>Pending bytes of a consumer\<close>

definition pend :: "core1 \<Rightarrow> u32 \<Rightarrow> u8 list" where
  "pend c t = win 4096 (fan c) (unat t) (unat (fan_used c t))"

definition core1_ok :: "core1 \<Rightarrow> bool" where
  "core1_ok c \<longleftrightarrow> unat (fan_head c) < 4096 \<and> unat (fan_usb_tail c) < 4096 \<and>
     unat (fan_link_tail c) < 4096 \<and> ring_ok (tx (shared c)) \<and> ring_ok (rx (shared c))"

lemma fan_mask: "FAN_MASK = mask 12"
  by (simp add: FAN_MASK_def FAN_SIZE_def mask_eq_exp_minus_1)

lemma fan_used_unat:
  "unat t < 4096 \<Longrightarrow> unat (fan_used c t) = (unat (fan_head c) + 4096 - unat t) mod 4096"
  using unat_sub_mask [of 12 t "fan_head c"] by (simp add: fan_used_def fan_mask)

lemma fan_used_less: "unat (fan_used c t) < 4096"
  by (simp add: fan_used_def fan_mask unat_and_mask)

lemma fan_index: "unat ((h + n) AND FAN_MASK) = (unat h + unat n) mod 4096"
  using unat_add_mask [of 12 h n] by (simp add: fan_mask)

lemma fan_index_nat: "i < 4096 \<Longrightarrow> unat ((h + of_nat i) AND FAN_MASK) = (unat h + i) mod 4096"
  by (simp add: fan_index unat_of_nat_small)

lemma length_pend: "length (pend c t) = unat (fan_used c t)"
  by (simp add: pend_def)

lemma fan_used_cong: "fan_head c' = fan_head c \<Longrightarrow> fan_used c' t = fan_used c t"
  by (simp add: fan_used_def)

lemma pend_cong: "fan_head c' = fan_head c \<Longrightarrow> fan c' = fan c \<Longrightarrow> pend c' t = pend c t"
  by (simp add: pend_def fan_used_def)

lemma pend_head: "fan_used c (fan_head c) = 0" "pend c (fan_head c) = []"
  by (simp_all add: pend_def fan_used_def)

lemma fan_take_spec:
  assumes h: "unat (fan_head c) < 4096" and t: "unat t < 4096" and ft: "fan_take c t mx = (t', bs)"
  shows "bs = take (unat mx) (pend c t)" "pend c t' = drop (unat mx) (pend c t)" "unat t' < 4096"
proof -
  let ?n = "if fan_used c t > mx then mx else fan_used c t"
  have n: "unat ?n = min (unat mx) (length (pend c t))"
    by (simp add: length_pend min_def word_less_nat_alt)
  have t': "unat t' = (unat t + unat ?n) mod 4096"
    and bs: "bs = map (\<lambda>i. fan c (unat ((t + of_nat i) AND FAN_MASK))) [0..<unat ?n]"
    using ft by (auto simp: fan_take_def Let_def fan_index)
  show t'_less: "unat t' < 4096" by (simp add: t')
  have le: "unat ?n \<le> unat (fan_used c t)" using n by (simp add: length_pend)
  have "bs = win 4096 (fan c) (unat t) (unat ?n)"
    unfolding bs win_def using le fan_used_less [of c t] by (auto simp: fan_index_nat)
  then show "bs = take (unat mx) (pend c t)" using n by (simp add: pend_def take_win min.commute)
  have "unat (fan_used c t') = unat (fan_used c t) - unat ?n"
    using ring_dist_tail [of "unat t" 4096 "unat ?n" "unat (fan_head c)"] le h t
    by (simp add: fan_used_unat [OF t'_less] fan_used_unat [OF t] t')
  then show "pend c t' = drop (unat mx) (pend c t)"
    using n by (simp add: pend_def t' drop_win min_def split: if_splits)
qed

text \<open>Appending \<open>n\<close> bytes at the head extends every tail that has the room.\<close>

lemma fan_append:
  fixes c :: core1 and buf :: "u8 arr"
  assumes h: "unat (fan_head c) < 4096" and t: "unat t < 4096"
    and fit: "unat (fan_used c t) + unat n < 4096"
  defines "c' \<equiv> c\<lparr>fan := fold (\<lambda>i d. d(unat ((fan_head c + of_nat i) AND FAN_MASK) := buf i))
                        [0..<unat n] (fan c),
               fan_head := (fan_head c + n) AND FAN_MASK\<rparr>"
  shows "pend c' t = pend c t @ map buf [0..<unat n]"
proof -
  have h': "unat (fan_head c') = (unat (fan_head c) + unat n) mod 4096"
    by (simp add: c'_def fan_index)
  have u: "unat (fan_used c' t) = unat (fan_used c t) + unat n"
    using ring_dist_head [of "unat t" 4096 "unat (fan_head c)" "unat n"] fit t
    by (simp add: fan_used_unat h')
  have hd: "(unat t + unat (fan_used c t)) mod 4096 = unat (fan_head c)"
    using h t by (simp add: fan_used_unat mod_simps)
  have "fan c' = fold (\<lambda>i d. d(unat ((fan_head c + of_nat i) AND FAN_MASK) := buf i)) [0..<unat n] (fan c)"
    by (simp add: c'_def del: fun_upd_apply)
  also have "\<dots> = fold (\<lambda>i d. d((unat (fan_head c) + i) mod 4096 := buf i)) [0..<unat n] (fan c)"
    using fit by (intro fold_cong) (auto simp: fan_index_nat)
  also have "\<dots> = fold (\<lambda>i d. d((unat t + unat (fan_used c t) + i) mod 4096 := buf i)) [0..<unat n] (fan c)"
    by (simp only: hd [symmetric] mod_add_left_eq)
  finally show ?thesis using fit by (simp add: pend_def u win_store)
qed

section \<open>One fill\<close>

lemma fan_held_ge:
  "usb_up \<Longrightarrow> unat (fan_used c (fan_usb_tail c)) \<le> unat (fan_held c usb_up link_up)"
  "link_up \<Longrightarrow> unat (fan_used c (fan_link_tail c)) \<le> unat (fan_held c usb_up link_up)"
  by (auto simp: fan_held_def Let_def word_less_nat_alt)

lemma fan_held_le: "unat (fan_held c usb_up link_up) \<le> 4095"
  using fan_used_less [of c "fan_usb_tail c"] fan_used_less [of c "fan_link_tail c"]
  by (auto simp: fan_held_def Let_def)

definition fan_room :: "core1 \<Rightarrow> bool \<Rightarrow> bool \<Rightarrow> nat" where
  "fan_room c usb_up link_up = min 64 (4095 - unat (fan_held c usb_up link_up))"

lemma fan_room_word:
  fixes c usb_up link_up
  defines "room \<equiv> FAN_MASK - fan_held c usb_up link_up"
  shows "unat (if room > 64 then 64 else room) = fan_room c usb_up link_up"
proof -
  have m: "unat FAN_MASK = 4095" by (simp add: FAN_MASK_def FAN_SIZE_def)
  then have "fan_held c usb_up link_up \<le> FAN_MASK"
    using fan_held_le [of c usb_up link_up] by (simp add: word_le_nat_alt)
  then have "unat room = 4095 - unat (fan_held c usb_up link_up)"
    by (simp add: room_def unat_sub m)
  then show ?thesis by (auto simp: fan_room_def word_less_nat_alt min_def)
qed

lemma fan_snap_simps [simp]:
  "fan_head (fan_snap c u l) = fan_head c" "fan (fan_snap c u l) = fan c"
  "shared (fan_snap c u l) = shared c" "dtr_since (fan_snap c u l) = dtr_since c"
  "fan_usb_tail (fan_snap c u l) = (if u then fan_usb_tail c else fan_head c)"
  "fan_link_tail (fan_snap c u l) = (if l then fan_link_tail c else fan_head c)"
  by (auto simp: fan_snap_def Let_def)

lemma fan_fill_down [simp]: "fan_fill c False False = c"
  by (simp add: fan_fill_def)

lemma fan_fill_spec:
  fixes c :: core1
  assumes ok: "core1_ok c" and up: "usb_up \<or> link_up"
  defines "c' \<equiv> fan_fill c usb_up link_up"
    and "moved \<equiv> take (fan_room c usb_up link_up) (ring_bytes (tx (shared c)))"
  shows "core1_ok c'"
    "usb_up \<Longrightarrow> pend c' (fan_usb_tail c') = pend c (fan_usb_tail c) @ moved"
    "link_up \<Longrightarrow> pend c' (fan_link_tail c') = pend c (fan_link_tail c) @ moved"
    "ring_bytes (tx (shared c)) = moved @ ring_bytes (tx (shared c'))"
    "rx (shared c') = rx (shared c)" "dtr_since c' = dtr_since c"
    "reserved (shared c') = reserved (shared c)"
proof -
  let ?s = "fan_snap c usb_up link_up"
  let ?room0 = "FAN_MASK - fan_held c usb_up link_up"
  let ?room = "if ?room0 > 64 then 64 else ?room0"
  have room: "unat ?room = fan_room c usb_up link_up" by (rule fan_room_word)
  have txok: "ring_ok (tx (shared c))" using ok by (simp add: core1_ok_def)
  have all: "core1_ok c' \<and> (usb_up \<longrightarrow> pend c' (fan_usb_tail c') = pend c (fan_usb_tail c) @ moved) \<and>
    (link_up \<longrightarrow> pend c' (fan_link_tail c') = pend c (fan_link_tail c) @ moved) \<and>
    ring_bytes (tx (shared c)) = moved @ ring_bytes (tx (shared c')) \<and>
    rx (shared c') = rx (shared c) \<and> dtr_since c' = dtr_since c \<and>
    reserved (shared c') = reserved (shared c)"
  proof (cases "?room = 0")
    case True
    then have c': "c' = ?s" and "moved = []"
      using up room by (auto simp: c'_def fan_fill_def Let_def moved_def)
    then show ?thesis using ok pend_cong [of ?s c] by (auto simp: core1_ok_def)
  next
    case False
    obtain r buf n where g: "frank_ring_get (tx (shared c)) (\<lambda>_. 0) ?room = (r, buf, n)"
      using prod_cases3 by blast
    note gs = frank_ring_get_spec [OF txok g]
    let ?s' = "?s\<lparr>fan := fold (\<lambda>i d. d(unat ((fan_head ?s + of_nat i) AND FAN_MASK) := buf i))
                        [0..<unat n] (fan ?s),
               fan_head := (fan_head ?s + n) AND FAN_MASK\<rparr>"
    have c': "c' = ?s'\<lparr>shared := (shared ?s')\<lparr>tx := r\<rparr>\<rparr>"
      using False up g by (auto simp add: c'_def fan_fill_def Let_def simp del: fun_upd_apply)
    have moved: "moved = map buf [0..<unat n]"
      using gs(2,3) room by (simp add: moved_def min_def split: if_splits)
    have "unat n \<le> fan_room c usb_up link_up" using gs(2) room by simp
    then have fit: "unat (fan_held c usb_up link_up) + unat n < 4096"
      using fan_held_le [of c usb_up link_up] by (simp add: fan_room_def) arith
    have h: "unat (fan_head ?s) < 4096" using ok by (simp add: core1_ok_def)
    have fill: "pend c' t = pend c t @ moved"
      if "unat t < 4096" "unat (fan_used c t) \<le> unat (fan_held c usb_up link_up)" for t
      using fan_append [OF h that(1), of n buf] that(2) fit pend_cong [of c' ?s' t]
        pend_cong [of ?s c t] fan_used_cong [of ?s c t]
      by (simp add: c' moved)
    have "ring_bytes (tx (shared c)) = moved @ ring_bytes r"
      using gs(3,4) moved by simp
    moreover have "core1_ok c'"
      using ok gs(1) by (auto simp: core1_ok_def c' fan_index)
    ultimately show ?thesis
      using fill fan_held_ge [of usb_up c link_up] fan_held_ge [of link_up c usb_up] ok
      by (auto simp: c' core1_ok_def)
  qed
  then show "core1_ok c'"
    "usb_up \<Longrightarrow> pend c' (fan_usb_tail c') = pend c (fan_usb_tail c) @ moved"
    "link_up \<Longrightarrow> pend c' (fan_link_tail c') = pend c (fan_link_tail c) @ moved"
    "ring_bytes (tx (shared c)) = moved @ ring_bytes (tx (shared c'))"
    "rx (shared c') = rx (shared c)" "dtr_since c' = dtr_since c"
    "reserved (shared c') = reserved (shared c)"
    by auto
qed

section \<open>The service loop\<close>

lemma service_tx_spec:
  assumes ok: "core1_ok c" and s: "service_tx e c = (c', out)"
  shows "core1_ok c'" "pend c (fan_usb_tail c) = out @ pend c' (fan_usb_tail c')"
    "shared c' = shared c" "dtr_since c' = dtr_since c" "fan_link_tail c' = fan_link_tail c"
    "fan_head c' = fan_head c" "fan c' = fan c"
proof -
  have "core1_ok c' \<and> pend c (fan_usb_tail c) = out @ pend c' (fan_usb_tail c') \<and>
    shared c' = shared c \<and> dtr_since c' = dtr_since c \<and> fan_link_tail c' = fan_link_tail c \<and>
    fan_head c' = fan_head c \<and> fan c' = fan c"
  proof (cases "c' = c \<and> out = []")
    case False
    define room where "room = (if tud_cdc_write_available e > 64 then 64 else tud_cdc_write_available e)"
    obtain tl bs where f: "fan_take c (fan_usb_tail c) room = (tl, bs)" by fastforce
    have c': "c' = c\<lparr>fan_usb_tail := tl\<rparr>" "bs = out"
      using s False f unfolding service_tx_def Let_def room_def [symmetric]
      by (simp_all split: if_splits)
    have h: "unat (fan_head c) < 4096" and tl: "unat (fan_usb_tail c) < 4096"
      using ok by (auto simp: core1_ok_def)
    have "pend c (fan_usb_tail c) = out @ pend c tl" "unat tl < 4096"
      using fan_take_spec [OF h tl f] by (simp_all add: c'(2))
    moreover have "pend c' tl = pend c tl" by (rule pend_cong) (simp_all add: c'(1))
    ultimately show ?thesis using ok by (simp add: c'(1) core1_ok_def)
  qed (use ok in auto)
  then show "core1_ok c'" "pend c (fan_usb_tail c) = out @ pend c' (fan_usb_tail c')"
    "shared c' = shared c" "dtr_since c' = dtr_since c" "fan_link_tail c' = fan_link_tail c"
    "fan_head c' = fan_head c" "fan c' = fan c"
    by auto
qed

lemma service_rx_spec:
  assumes ok: "core1_ok c" and s: "service_rx e c = (c', n)"
  shows "core1_ok c'" "ring_bytes (rx (shared c')) = ring_bytes (rx (shared c)) @ take n (tud_cdc_pending e)"
    "n \<le> length (tud_cdc_pending e)" "tx (shared c') = tx (shared c)" "dtr_since c' = dtr_since c"
    "pend c' t = pend c t" "fan_usb_tail c' = fan_usb_tail c" "fan_link_tail c' = fan_link_tail c"
proof -
  have "core1_ok c' \<and> ring_bytes (rx (shared c')) = ring_bytes (rx (shared c)) @ take n (tud_cdc_pending e) \<and>
    n \<le> length (tud_cdc_pending e) \<and> tx (shared c') = tx (shared c) \<and> dtr_since c' = dtr_since c \<and>
    pend c' t = pend c t \<and> fan_usb_tail c' = fan_usb_tail c \<and> fan_link_tail c' = fan_link_tail c"
  proof (cases "c' = c \<and> n = 0")
    case False
    define room where "room = (if frank_ring_space (rx (shared c)) > 64 then 64 else frank_ring_space (rx (shared c)))"
    define buf where "buf = take (unat room) (tud_cdc_pending e)"
    have n: "n = length buf" and
      c': "c' = c\<lparr>shared := (shared c)\<lparr>rx := fst (frank_ring_put (rx (shared c)) (\<lambda>i. buf ! i) (of_nat n))\<rparr>\<rparr>"
      using s False by (auto simp: service_rx_def Let_def room_def buf_def split: if_splits)
    obtain r m where p: "frank_ring_put (rx (shared c)) (\<lambda>i. buf ! i) (of_nat n) = (r, m)" by fastforce
    have rxok: "ring_ok (rx (shared c))" using ok by (simp add: core1_ok_def)
    note ps = frank_ring_put_spec [OF rxok p]
    have "unat room \<le> 64" "unat room \<le> 2047 - length (ring_bytes (rx (shared c)))"
      by (auto simp: room_def length_ring_bytes ring_space_unat word_less_nat_alt)
    then have m: "unat m = n"
      using ps(2) by (simp add: n buf_def unat_of_nat_small min_def)
    have "map (\<lambda>i. buf ! i) [0..<n] = buf" by (simp add: n map_nth)
    moreover have "buf = take n (tud_cdc_pending e)" by (simp add: n buf_def min_def)
    ultimately have "map (\<lambda>i. buf ! i) [0..<n] = take n (tud_cdc_pending e)" by simp
    then show ?thesis
      using ok ps p m n pend_cong [of c' c t] by (auto simp: c' core1_ok_def buf_def)
  qed (use ok in auto)
  then show "core1_ok c'" "ring_bytes (rx (shared c')) = ring_bytes (rx (shared c)) @ take n (tud_cdc_pending e)"
    "n \<le> length (tud_cdc_pending e)" "tx (shared c') = tx (shared c)" "dtr_since c' = dtr_since c"
    "pend c' t = pend c t" "fan_usb_tail c' = fan_usb_tail c" "fan_link_tail c' = fan_link_tail c"
    by auto
qed

text \<open>What the two publishing statements at the end of the pass leave alone.\<close>

lemma service_tail_simps:
  fixes c :: core1
  defines "f \<equiv> \<lambda>c. c\<lparr>shared := (shared c)\<lparr>core1_alive := core1_alive (shared c) + 1\<rparr>\<rparr>"
  shows "core1_ok (service_dtr e (f c)) = core1_ok c" "pend (service_dtr e (f c)) t = pend c t"
    "fan_usb_tail (service_dtr e (f c)) = fan_usb_tail c"
    "fan_link_tail (service_dtr e (f c)) = fan_link_tail c"
    "tx (shared (service_dtr e (f c))) = tx (shared c)"
    "rx (shared (service_dtr e (f c))) = rx (shared c)"
    "core1_alive (shared (service_dtr e (f c))) = core1_alive (shared c) + 1"
  by (auto simp: service_dtr_def f_def Let_def core1_ok_def pend_def fan_used_def)

lemma service_once_ok:
  assumes ok: "core1_ok c" and s: "service_once link_up e c = (c', out, n)"
  shows "core1_ok c'"
proof -
  let ?c1 = "fan_fill c (tud_ready e) link_up"
  obtain c2 c3 where t: "service_tx e ?c1 = (c2, out)" and r: "service_rx e c2 = (c3, n)"
    and c': "c' = service_dtr e (c3\<lparr>shared := (shared c3)\<lparr>core1_alive := core1_alive (shared c3) + 1\<rparr>\<rparr>)"
    using s by (auto simp: service_once_def Let_def split: prod.splits)
  have "core1_ok ?c1"
    using fan_fill_spec(1) [OF ok, of "tud_ready e" link_up] ok by (cases "tud_ready e \<or> link_up") auto
  then show ?thesis
    using service_tx_spec(1) [OF _ t] service_rx_spec(1) [OF _ r] by (simp add: c' service_tail_simps)
qed

lemma service_once_usb:
  assumes ok: "core1_ok c" and up: "tud_ready e" and s: "service_once link_up e c = (c', out, n)"
  shows "out @ pend c' (fan_usb_tail c') @ ring_bytes (tx (shared c')) =
         pend c (fan_usb_tail c) @ ring_bytes (tx (shared c))"
proof -
  let ?c1 = "fan_fill c (tud_ready e) link_up"
  obtain c2 c3 where t: "service_tx e ?c1 = (c2, out)" and r: "service_rx e c2 = (c3, n)"
    and c': "c' = service_dtr e (c3\<lparr>shared := (shared c3)\<lparr>core1_alive := core1_alive (shared c3) + 1\<rparr>\<rparr>)"
    using s by (auto simp: service_once_def Let_def split: prod.splits)
  note ff = fan_fill_spec [OF ok, of "tud_ready e" link_up]
  have ok1: "core1_ok ?c1" using ff(1) up by simp
  note st = service_tx_spec [OF ok1 t]
  note sr = service_rx_spec [OF st(1) r]
  let ?moved = "take (fan_room c (tud_ready e) link_up) (ring_bytes (tx (shared c)))"
  have "pend c (fan_usb_tail c) @ ?moved = out @ pend c' (fan_usb_tail c')"
    using ff(2) up st(2) sr(6,7) by (simp add: c' service_tail_simps)
  moreover have "ring_bytes (tx (shared c)) = ?moved @ ring_bytes (tx (shared c'))"
    using ff(4) up st(3) sr(4) by (simp add: c' service_tail_simps)
  ultimately show ?thesis by (metis append.assoc)
qed

text \<open>
  The life of core 1 with Linux writing between the passes: an event is a pass of the loop
  or a write of the kernel into the ring.
\<close>

primrec core1_run :: "bool \<Rightarrow> core1 \<Rightarrow> (usb_env + u8 list) list \<Rightarrow> core1 \<times> u8 list \<times> u8 list" where
  "core1_run link_up c [] = (c, [], [])"
| "core1_run link_up c (ev # evs) =
     (case ev of
        Inl e \<Rightarrow>
          (let (c1, out, n) = service_once link_up e c; (c2, outs, ins) = core1_run link_up c1 evs
           in (c2, out @ outs, ins))
      | Inr xs \<Rightarrow>
          (let (r, n) = ring_write (tx (shared c)) xs;
               (c2, outs, ins) = core1_run link_up (c\<lparr>shared := (shared c)\<lparr>tx := r\<rparr>\<rparr>) evs
           in (c2, outs, take n xs @ ins)))"

lemma core1_run_usb:
  "core1_ok c \<Longrightarrow> (\<forall>e. Inl e \<in> set evs \<longrightarrow> tud_ready e) \<Longrightarrow>
   (\<forall>xs. Inr xs \<in> set evs \<longrightarrow> length xs < 2 ^ 32) \<Longrightarrow>
   core1_run link_up c evs = (c', outs, ins) \<Longrightarrow>
   core1_ok c' \<and> outs @ pend c' (fan_usb_tail c') @ ring_bytes (tx (shared c')) =
     pend c (fan_usb_tail c) @ ring_bytes (tx (shared c)) @ ins"
proof (induction evs arbitrary: c c' outs ins)
  case (Cons ev evs)
  show ?case
  proof (cases ev)
    case (Inl e)
    obtain c1 out n where s: "service_once link_up e c = (c1, out, n)" using prod_cases3 by blast
    obtain outs1 where r: "core1_run link_up c1 evs = (c', outs1, ins)" "outs = out @ outs1"
      using Cons.prems(4) Inl s by (auto split: prod.splits)
    have ok1: "core1_ok c1" using service_once_ok [OF Cons.prems(1) s] .
    have "tud_ready e" using Cons.prems(2) Inl by auto
    with service_once_usb [OF Cons.prems(1) _ s] have
      "out @ pend c1 (fan_usb_tail c1) @ ring_bytes (tx (shared c1)) =
       pend c (fan_usb_tail c) @ ring_bytes (tx (shared c))" by blast
    moreover have "core1_ok c' \<and> outs1 @ pend c' (fan_usb_tail c') @ ring_bytes (tx (shared c')) =
       pend c1 (fan_usb_tail c1) @ ring_bytes (tx (shared c1)) @ ins"
      using Cons.IH [OF ok1 _ _ r(1)] Cons.prems(2,3) by simp
    ultimately show ?thesis unfolding r(2) by (metis append.assoc)
  next
    case (Inr xs)
    obtain q k where w: "ring_write (tx (shared c)) xs = (q, k)" by fastforce
    let ?c1 = "c\<lparr>shared := (shared c)\<lparr>tx := q\<rparr>\<rparr>"
    obtain ins1 where r: "core1_run link_up ?c1 evs = (c', outs, ins1)" "ins = take k xs @ ins1"
      using Cons.prems(4) Inr w by (auto split: prod.splits)
    have "ring_ok (tx (shared c))" "length xs \<le> 2 ^ 32 - 1"
      using Cons.prems(1,3) Inr by (auto simp: core1_ok_def)
    note pl = frank_pipe.put_law [OF this w]
    have "core1_ok ?c1" using pl Cons.prems(1) by (auto simp: core1_ok_def)
    then show ?thesis
      using Cons.IH [OF _ _ _ r(1)] Cons.prems(2,3) r(2) pl pend_cong [of ?c1 c] by simp
  qed
qed simp

section \<open>DTR\<close>

lemma fan_fill_dtr [frame_simps]:
  "dtr_since (fan_fill c u l) = dtr_since c" "reserved (shared (fan_fill c u l)) = reserved (shared c)"
  by (auto simp: fan_fill_def Let_def split: prod.splits)

lemma service_tx_dtr [frame_simps]:
  "dtr_since (fst (service_tx e c)) = dtr_since c" "shared (fst (service_tx e c)) = shared c"
  by (auto simp: service_tx_def Let_def split: prod.splits)

lemma service_rx_dtr [frame_simps]:
  "dtr_since (fst (service_rx e c)) = dtr_since c"
  "reserved (shared (fst (service_rx e c))) = reserved (shared c)"
  by (auto simp: service_rx_def Let_def split: prod.splits)

lemma service_once_dtr:
  fixes c :: core1 and e :: usb_env
  defines "since \<equiv> if dtr_since c = 0 then time_us_64 e else dtr_since c"
  shows "dtr_since (fst (service_once l e c)) = (if tud_cdc_connected e then since else 0)"
    "reserved (shared (fst (service_once l e c))) =
       (if tud_cdc_connected e \<and> time_us_64 e - since \<ge> 250000 then 1 else 0)"
  by (auto simp: service_once_def service_dtr_def Let_def since_def frame_simps split: prod.splits
      dest!: arg_cong [where f = fst] simp flip: prod.collapse)

lemma dtr_run_connected:
  "\<forall>e \<in> set es. tud_cdc_connected e \<Longrightarrow> dtr_since c \<noteq> 0 \<Longrightarrow>
   dtr_since (fold (\<lambda>e c. fst (service_once l e c)) es c) = dtr_since c"
  by (induction es arbitrary: c) (auto simp: service_once_dtr)

section \<open>Properties\<close>

text \<open>One fill moves the same bytes, taken off the front of Linux's ring, to every
  consumer that is present, and to none when neither is: no consumer misses, repeats or
  reorders a byte, and neither buffer overruns.\<close>

theorem fan_fill_delivers:
  assumes "core1_ok c"
  shows "\<exists>moved. ring_bytes (tx (shared c)) = moved @ ring_bytes (tx (shared (fan_fill c usb_up link_up))) \<and>
     (usb_up \<longrightarrow> pend (fan_fill c usb_up link_up) (fan_usb_tail (fan_fill c usb_up link_up)) =
                 pend c (fan_usb_tail c) @ moved) \<and>
     (link_up \<longrightarrow> pend (fan_fill c usb_up link_up) (fan_link_tail (fan_fill c usb_up link_up)) =
                 pend c (fan_link_tail c) @ moved) \<and>
     (\<not> usb_up \<and> \<not> link_up \<longrightarrow> moved = []) \<and> core1_ok (fan_fill c usb_up link_up)"
proof (cases "usb_up \<or> link_up")
  case True
  show ?thesis using fan_fill_spec [OF assms True] True by blast
qed (use assms in simp)

text \<open>While the USB console is enumerated, the bytes it has been sent, followed by what
  the fan-out buffer and the ring still hold, are exactly the bytes that were waiting
  followed by the bytes the kernel's writes put into the ring, over any run of passes and
  writes: USB loses nothing, whatever the link does.\<close>

theorem usb_console_lossless:
  assumes "core1_ok c" "\<forall>e. Inl e \<in> set evs \<longrightarrow> tud_ready e"
    "\<forall>xs. Inr xs \<in> set evs \<longrightarrow> length xs < 2 ^ 32"
    "core1_run link_up c evs = (c', outs, ins)"
  shows "outs @ pend c' (fan_usb_tail c') @ ring_bytes (tx (shared c')) =
     pend c (fan_usb_tail c) @ ring_bytes (tx (shared c)) @ ins"
  using core1_run_usb [OF assms] by blast

text \<open>The debounced DTR.  From a pass in which no terminal was attached, a terminal that
  stays attached over the passes \<open>es @ [e]\<close> is reported ready after the last of them exactly
  when a quarter of a second has elapsed since the first.\<close>

theorem dtr_debounce:
  assumes "dtr_since c = 0" "\<forall>e' \<in> set (es @ [e]). tud_cdc_connected e'"
    "time_us_64 (hd (es @ [e])) \<noteq> 0"
  shows "frank_console_ready (fold (\<lambda>e c. fst (service_once link_up e c)) (es @ [e]) c) \<longleftrightarrow>
     time_us_64 e - time_us_64 (hd (es @ [e])) \<ge> 250000"
proof (cases es)
  case Nil
  then show ?thesis using assms by (simp add: frank_console_ready_def service_once_dtr)
next
  case (Cons e0 es')
  let ?c0 = "fst (service_once link_up e0 c)"
  have s: "dtr_since ?c0 = time_us_64 e0" using assms Cons by (simp add: service_once_dtr)
  have "dtr_since (fold (\<lambda>e c. fst (service_once link_up e c)) es' ?c0) = time_us_64 e0"
    using dtr_run_connected [of es' ?c0 link_up] assms Cons s by simp
  then show ?thesis using assms Cons by (simp add: frank_console_ready_def service_once_dtr)
qed

section \<open>Witnesses\<close>

definition quiet_ring :: frank_ring where
  "quiet_ring = \<lparr>rhead = 2, rtail = 0, rdata = (\<lambda>i. if i = 0 then 72 else 105)\<rparr>"

definition core1_demo :: core1 where
  "core1_demo = \<lparr>shared = \<lparr>magic = 0, version = 0, core1_alive = 0, reserved = 0,
      tx = quiet_ring, rx = \<lparr>rhead = 0, rtail = 0, rdata = (\<lambda>_. 0)\<rparr>,
      blk = \<lparr>blk_seq = 0, blk_done = 0, blk_op = 0, blk_lba = 0, blk_count = 0, blk_addr = 0,
        blk_status = 0, blk_capacity = 0\<rparr>\<rparr>,
    fan = (\<lambda>_. 0), fan_head = 0, fan_usb_tail = 0, fan_link_tail = 0, dtr_since = 0, reset_itf_num = 0\<rparr>"

definition env_demo :: "u64 \<Rightarrow> usb_env" where
  "env_demo t = \<lparr>tud_ready = True, tud_cdc_write_available = 64, tud_cdc_available = False,
    tud_cdc_pending = [], tud_cdc_connected = True, time_us_64 = t\<rparr>"

lemma core1_demo_ok: "core1_ok core1_demo"
  by (simp add: core1_ok_def core1_demo_def quiet_ring_def ring_ok_def)

lemma core1_demo_bytes: "ring_bytes (tx (shared core1_demo)) = [72, 105]"
  by (simp add: core1_demo_def quiet_ring_def ring_bytes_def frank_ring_used_def win_def
      FRANK_RING_MASK_def FRANK_RING_BYTES_def upt_rec)

theorem fan_fill_delivers_witness:
  "core1_ok core1_demo \<and> (\<exists>moved. [72, 105] = moved @ ring_bytes (tx (shared (fan_fill core1_demo True False))) \<and>
     pend (fan_fill core1_demo True False) (fan_usb_tail (fan_fill core1_demo True False)) =
       pend core1_demo (fan_usb_tail core1_demo) @ moved)"
  using fan_fill_delivers [OF core1_demo_ok, of True False] core1_demo_ok
  by (auto simp: core1_demo_bytes)

theorem usb_console_lossless_witness:
  "\<exists>c' outs ins. core1_run False core1_demo [Inl (env_demo 1), Inr [33]] = (c', outs, ins) \<and>
     outs @ pend c' (fan_usb_tail c') @ ring_bytes (tx (shared c')) =
     pend core1_demo (fan_usb_tail core1_demo) @ [72, 105] @ ins"
proof -
  obtain c' outs ins where r: "core1_run False core1_demo [Inl (env_demo 1), Inr [33]] = (c', outs, ins)"
    using prod_cases3 by blast
  have "\<forall>e. Inl e \<in> set [Inl (env_demo 1), Inr [33 :: u8]] \<longrightarrow> tud_ready e"
    by (simp add: env_demo_def)
  moreover have "\<forall>xs. Inr xs \<in> set [Inl (env_demo 1), Inr [33 :: u8]] \<longrightarrow> length xs < 2 ^ 32" by simp
  ultimately show ?thesis
    using usb_console_lossless [OF core1_demo_ok _ _ r] r by (simp add: core1_demo_bytes)
qed

theorem dtr_debounce_witness:
  "frank_console_ready (fold (\<lambda>e c. fst (service_once False e c)) [env_demo 5, env_demo 250005] core1_demo) \<and>
   \<not> frank_console_ready (fold (\<lambda>e c. fst (service_once False e c)) [env_demo 5, env_demo 250004] core1_demo)"
proof -
  have c: "dtr_since core1_demo = 0" by (simp add: core1_demo_def)
  have e: "tud_cdc_connected (env_demo t)" "time_us_64 (env_demo t) = t" for t
    by (simp_all add: env_demo_def)
  show ?thesis
    using dtr_debounce [OF c, of "[env_demo 5]" "env_demo 250005" False]
      dtr_debounce [OF c, of "[env_demo 5]" "env_demo 250004" False] by (simp add: e)
qed

end
