(* ===== verification/CellBuf.thy ===== *)
theory CellBuf
  imports Prelude
begin

text \<open>
  \<open>firmware/master-ioserver/term/cellbuf.c\<close>: the 80x25 character-cell buffer, 25 rows of 320
  bytes, four bytes a cell.  The buffer is a byte array; \<open>screen\<close> is its reading as a grid of
  cells, and the block moves behind every scroll are proved once here.
\<close>

section \<open>Geometry\<close>

definition TEXT_COLS :: nat where "TEXT_COLS = 80"
definition TEXT_ROWS :: nat where "TEXT_ROWS = 25"
definition CELL_BYTES :: nat where "CELL_BYTES = 4"
definition CELL_PITCH :: nat where "CELL_PITCH = TEXT_COLS * CELL_BYTES"
definition CELL_CHAR :: nat where "CELL_CHAR = 0"
definition CELL_FG :: nat where "CELL_FG = 1"
definition CELL_BG :: nat where "CELL_BG = 2"
definition CELL_ATTR :: nat where "CELL_ATTR = 3"

definition ATTR_UNDERLINE :: u8 where "ATTR_UNDERLINE = 0x01"
definition ATTR_BLINK :: u8 where "ATTR_BLINK = 0x02"
definition ATTR_BOLD :: u8 where "ATTR_BOLD = 0x04"
definition ATTR_INVERSE :: u8 where "ATTR_INVERSE = 0x08"

lemmas geometry = TEXT_COLS_def TEXT_ROWS_def CELL_BYTES_def CELL_PITCH_def
  CELL_CHAR_def CELL_FG_def CELL_BG_def CELL_ATTR_def

definition cell_ptr :: "nat \<Rightarrow> nat \<Rightarrow> nat" where
  "cell_ptr col row = row * CELL_PITCH + col * CELL_BYTES"

text \<open>\<open>memcpy\<close> and \<open>memmove\<close> of the C library on one array, for ranges that it may overlap.\<close>

definition memmove :: "nat \<Rightarrow> nat \<Rightarrow> nat \<Rightarrow> 'a arr \<Rightarrow> 'a arr" where
  "memmove dst src n b = (\<lambda>a. if dst \<le> a \<and> a < dst + n then b (a - dst + src) else b a)"

section \<open>The operations of cellbuf.c\<close>

definition store_cell :: "nat \<Rightarrow> u8 \<Rightarrow> u8 \<Rightarrow> u8 \<Rightarrow> u8 \<Rightarrow> u8 arr \<Rightarrow> u8 arr" where
  "store_cell p ch fg bg at b =
     b(p + CELL_CHAR := ch, p + CELL_FG := fg, p + CELL_BG := bg, p + CELL_ATTR := at)"

definition on_grid :: "int \<Rightarrow> int \<Rightarrow> bool" where
  "on_grid col row \<longleftrightarrow> 0 \<le> col \<and> col < int TEXT_COLS \<and> 0 \<le> row \<and> row < int TEXT_ROWS"

definition cellbuf_put :: "int \<Rightarrow> int \<Rightarrow> u8 \<Rightarrow> u8 \<Rightarrow> u8 \<Rightarrow> u8 \<Rightarrow> u8 arr \<Rightarrow> u8 arr" where
  "cellbuf_put col row ch fg bg at b =
     (if \<not> on_grid col row then b
      else store_cell (cell_ptr (nat col) (nat row)) ch fg bg at b)"

definition cellbuf_set_char :: "int \<Rightarrow> int \<Rightarrow> u8 \<Rightarrow> u8 arr \<Rightarrow> u8 arr" where
  "cellbuf_set_char col row ch b =
     (if \<not> on_grid col row then b else b(cell_ptr (nat col) (nat row) + CELL_CHAR := ch))"

definition cellbuf_set_color :: "int \<Rightarrow> int \<Rightarrow> u8 \<Rightarrow> u8 \<Rightarrow> u8 arr \<Rightarrow> u8 arr" where
  "cellbuf_set_color col row fg bg b =
     (if \<not> on_grid col row then b
      else b(cell_ptr (nat col) (nat row) + CELL_FG := fg, cell_ptr (nat col) (nat row) + CELL_BG := bg))"

definition cellbuf_set_attr :: "int \<Rightarrow> int \<Rightarrow> u8 \<Rightarrow> u8 arr \<Rightarrow> u8 arr" where
  "cellbuf_set_attr col row at b =
     (if \<not> on_grid col row then b else b(cell_ptr (nat col) (nat row) + CELL_ATTR := at))"

definition cellbuf_fill :: "int \<Rightarrow> int \<Rightarrow> int \<Rightarrow> int \<Rightarrow> u8 \<Rightarrow> u8 \<Rightarrow> u8 \<Rightarrow> u8 \<Rightarrow> u8 arr \<Rightarrow> u8 arr" where
  "cellbuf_fill col0 row0 col1 row1 ch fg bg at b =
     (let col0 = (if col0 < 0 then 0 else col0);
          row0 = (if row0 < 0 then 0 else row0);
          col1 = (if col1 \<ge> int TEXT_COLS then int TEXT_COLS - 1 else col1);
          row1 = (if row1 \<ge> int TEXT_ROWS then int TEXT_ROWS - 1 else row1)
      in fold (\<lambda>r. fold (\<lambda>c. cellbuf_put c r ch fg bg at) [col0..col1]) [row0..row1] b)"

definition cellbuf_clear :: "u8 \<Rightarrow> u8 \<Rightarrow> u8 arr \<Rightarrow> u8 arr" where
  "cellbuf_clear fg bg = cellbuf_fill 0 0 (int TEXT_COLS - 1) (int TEXT_ROWS - 1) 32 fg bg 0"

fun cellbuf_puts :: "int \<Rightarrow> int \<Rightarrow> u8 list \<Rightarrow> u8 \<Rightarrow> u8 \<Rightarrow> u8 \<Rightarrow> u8 arr \<Rightarrow> u8 arr" where
  "cellbuf_puts col row [] fg bg at b = b"
| "cellbuf_puts col row (s # ss) fg bg at b =
     (if s \<noteq> 0 \<and> col < int TEXT_COLS
      then cellbuf_puts (col + 1) row ss fg bg at (cellbuf_put col row s fg bg at b)
      else b)"

definition cellbuf_scroll :: "int \<Rightarrow> u8 \<Rightarrow> u8 \<Rightarrow> u8 arr \<Rightarrow> u8 arr" where
  "cellbuf_scroll n fg bg b =
     (if n = 0 then b
      else if n \<ge> int TEXT_ROWS \<or> - n \<ge> int TEXT_ROWS then cellbuf_clear fg bg b
      else if n > 0 then
        cellbuf_fill 0 (int TEXT_ROWS - n) (int TEXT_COLS - 1) (int TEXT_ROWS - 1) 32 fg bg 0
          (memmove 0 (nat n * CELL_PITCH) ((TEXT_ROWS - nat n) * CELL_PITCH) b)
      else
        cellbuf_fill 0 0 (int TEXT_COLS - 1) (- n - 1) 32 fg bg 0
          (memmove (nat (- n) * CELL_PITCH) 0 ((TEXT_ROWS - nat (- n)) * CELL_PITCH) b))"

definition cellbuf_init :: "u8 arr \<Rightarrow> u8 arr" where
  "cellbuf_init = cellbuf_clear 7 0"

section \<open>The buffer as a grid\<close>

record cell =
  c_char :: u8
  c_fg :: u8
  c_bg :: u8
  c_attr :: u8

definition screen :: "u8 arr \<Rightarrow> nat \<Rightarrow> nat \<Rightarrow> cell" where
  "screen b row col = \<lparr>c_char = b (320 * row + 4 * col), c_fg = b (320 * row + 4 * col + 1),
     c_bg = b (320 * row + 4 * col + 2), c_attr = b (320 * row + 4 * col + 3)\<rparr>"

text \<open>
  Address arithmetic: the cell of address \<open>a\<close>, and that distinct cells are disjoint.
\<close>

lemma addr_in_cell:
  fixes a r c :: nat
  assumes "c < 80"
  shows "(320 * r + 4 * c \<le> a \<and> a < 320 * r + 4 * c + 4) \<longleftrightarrow> (a div 320 = r \<and> a mod 320 div 4 = c)"
proof
  assume h: "320 * r + 4 * c \<le> a \<and> a < 320 * r + 4 * c + 4"
  then have "320 * r \<le> a" by simp
  then obtain k where k: "a = 320 * r + k" using le_Suc_ex by blast
  with h have "4 * c \<le> k" "k < 4 * c + 4" by auto
  with assms have "k < 320" "k div 4 = c" by auto
  with k show "a div 320 = r \<and> a mod 320 div 4 = c" by simp
next
  assume h: "a div 320 = r \<and> a mod 320 div 4 = c"
  have "a = 320 * (a div 320) + (4 * (a mod 320 div 4) + a mod 320 mod 4)" by simp
  with h have "a = 320 * r + 4 * c + a mod 320 mod 4" by simp
  moreover have "a mod 320 mod 4 < 4" by simp
  ultimately show "320 * r + 4 * c \<le> a \<and> a < 320 * r + 4 * c + 4" by linarith
qed

lemma cell_div_mod [simp]:
  fixes r c k :: nat
  assumes "c < 80" "k < 4"
  shows "(320 * r + 4 * c + k) div 320 = r" "(320 * r + 4 * c + k) mod 320 div 4 = c"
    "(320 * r + 4 * c + k) mod 4 = k"
proof -
  show "(320 * r + 4 * c + k) div 320 = r" "(320 * r + 4 * c + k) mod 320 div 4 = c"
    using assms addr_in_cell [of c r "320 * r + 4 * c + k"] by auto
  have "(320 * r + 4 * c + k) mod 4 = (4 * (80 * r + c) + k) mod 4" by (simp add: algebra_simps)
  also have "\<dots> = k" using assms by (simp only: mod_mult_self4) simp
  finally show "(320 * r + 4 * c + k) mod 4 = k" .
qed

lemma cell_div_mod_0 [simp]:
  fixes r c :: nat
  assumes "c < 80"
  shows "(320 * r + 4 * c) div 320 = r" "(320 * r + 4 * c) mod 320 div 4 = c"
    "(320 * r + 4 * c) mod 4 = 0"
  using assms cell_div_mod [of c 0 r] by simp_all

text \<open>
  A double loop that touches one cell at a time touches each cell of its rectangle once.
\<close>

lemma fold_cells:
  fixes rs cs :: "int list"
  assumes upd: "\<And>c r b a. 0 \<le> c \<Longrightarrow> c < 80 \<Longrightarrow> 0 \<le> r \<Longrightarrow> r < 25 \<Longrightarrow>
      upd c r b a = (if a div 320 = nat r \<and> a mod 320 div 4 = nat c then g a (b a) else b a)"
    and cs: "distinct cs" "\<forall>c \<in> set cs. 0 \<le> c \<and> c < 80"
    and rs: "distinct rs" "\<forall>r \<in> set rs. 0 \<le> r \<and> r < 25"
  shows "fold (\<lambda>r. fold (\<lambda>c. upd c r) cs) rs b a =
    (if int (a div 320) \<in> set rs \<and> int (a mod 320 div 4) \<in> set cs then g a (b a) else b a)"
proof -
  have row: "fold (\<lambda>c. upd c r) cs b a =
      (if a div 320 = nat r \<and> int (a mod 320 div 4) \<in> set cs then g a (b a) else b a)"
    if "0 \<le> r" "r < 25" for r b
    using cs
  proof (induction cs arbitrary: b)
    case (Cons c cs)
    have "nat c = a mod 320 div 4 \<longleftrightarrow> c = int (a mod 320 div 4)" using Cons.prems by auto
    then show ?case using Cons that by (auto simp: upd)
  qed simp
  show ?thesis using rs
  proof (induction rs arbitrary: b)
    case (Cons r rs)
    have "nat r = a div 320 \<longleftrightarrow> r = int (a div 320)" using Cons.prems by auto
    then show ?case using Cons by (auto simp: row)
  qed simp
qed

lemma cell_ptr_eq: "cell_ptr c r = 320 * r + 4 * c"
  by (simp add: cell_ptr_def geometry)

lemma store_cell_off:
  "k < 4 \<Longrightarrow> store_cell p x f g t b (p + k) = [x, f, g, t] ! k"
  "a < p \<or> p + 4 \<le> a \<Longrightarrow> store_cell p x f g t b a = b a"
  by (auto simp: store_cell_def geometry nth_Cons' less_Suc_eq numeral_eq_Suc)

lemma store_cell_at:
  assumes "c < 80"
  shows "store_cell (cell_ptr c r) x f g t b a =
    (if a div 320 = r \<and> a mod 320 div 4 = c then [x, f, g, t] ! (a mod 4) else b a)"
proof (cases "320 * r + 4 * c \<le> a \<and> a < 320 * r + 4 * c + 4")
  case True
  then obtain k where k: "a = 320 * r + 4 * c + k" "k < 4"
    by (metis add_less_cancel_left le_Suc_ex)
  then show ?thesis using assms store_cell_off(1) [of k "cell_ptr c r" x f g t b]
    by (simp add: cell_ptr_eq)
next
  case False
  then have "\<not> (a div 320 = r \<and> a mod 320 div 4 = c)" using assms addr_in_cell by blast
  moreover have "store_cell (cell_ptr c r) x f g t b a = b a"
    using False by (intro store_cell_off) (auto simp: cell_ptr_eq)
  ultimately show ?thesis by (simp only: if_False)
qed

section \<open>Block moves\<close>

text \<open>
  Moving units of \<open>u\<close> bytes by \<open>k\<close> places, in the order that reads each before it is
  overwritten.
\<close>

lemma memmove_at:
  "memmove dst src n b a = (if dst \<le> a \<and> a < dst + n then b (a - dst + src) else b a)"
  by (simp add: memmove_def)

lemma shift_up:
  assumes "1 \<le> cnt"
  shows "fold (\<lambda>r. memmove (base + u * r) (base + u * (r + cnt)) u) [s..<s + k] b a =
    (if base + u * s \<le> a \<and> a < base + u * (s + k) then b (a + u * cnt) else b a)"
proof (induction k arbitrary: a)
  case (Suc k)
  define M where "M = u * (s + k)"
  obtain bb where bb: "bb = fold (\<lambda>r. memmove (base + u * r) (base + u * (r + cnt)) u) [s..<s + k] b"
    by blast
  have IH: "bb a = (if base + u * s \<le> a \<and> a < base + M then b (a + u * cnt) else b a)" for a
    unfolding bb M_def by (rule Suc.IH)
  have step: "fold (\<lambda>r. memmove (base + u * r) (base + u * (r + cnt)) u) [s..<s + Suc k] b a =
      memmove (base + M) (base + (M + u * cnt)) u bb a"
    by (simp add: bb M_def algebra_simps)
  have le: "u * s \<le> M" and M': "u * (s + Suc k) = M + u" by (simp_all add: M_def algebra_simps)
  have "bb (a - (base + M) + (base + (M + u * cnt))) = b (a + u * cnt)" if "base + M \<le> a"
    using that by (simp add: IH)
  then show ?case unfolding step unfolding M' memmove_at using le by (simp add: IH)
qed auto

lemma shift_down:
  assumes "1 \<le> cnt" "cnt \<le> s"
  shows "fold (\<lambda>r. memmove (base + u * r) (base + u * (r - cnt)) u) (rev [s..<s + k]) b a =
    (if base + u * s \<le> a \<and> a < base + u * (s + k) then b (a - u * cnt) else b a)"
proof (induction k arbitrary: b a)
  case (Suc k)
  define M where "M = u * (s + k)"
  obtain bb where bb: "bb = memmove (base + M) (base + (M - u * cnt)) u b" by blast
  have le: "u * s \<le> M" and M': "u * (s + Suc k) = M + u" and cnt: "u * cnt \<le> u * s" "u \<le> u * cnt"
    using assms by (simp_all add: M_def algebra_simps)
  have sub: "u * (s + k - cnt) = M - u * cnt" by (simp add: M_def diff_mult_distrib2)
  have step: "fold (\<lambda>r. memmove (base + u * r) (base + u * (r - cnt)) u) (rev [s..<s + Suc k]) b a =
    (if base + u * s \<le> a \<and> a < base + M then bb (a - u * cnt) else bb a)"
    using Suc.IH [of bb a] by (simp add: sub M_def [symmetric] bb)
  have bb_at: "bb x = (if base + M \<le> x \<and> x < base + M + u then b (x - u * cnt) else b x)" for x
  proof -
    have "x - (base + M) + (base + (M - u * cnt)) = x - u * cnt" if "base + M \<le> x"
      using that le cnt by linarith
    then show ?thesis by (simp add: bb memmove_at)
  qed
  have "bb (a - u * cnt) = b (a - u * cnt)" if "a < base + M + u" for a
  proof -
    have "\<not> base + M \<le> a - u * cnt" using that le cnt by linarith
    then show ?thesis by (simp only: bb_at) simp
  qed
  then show ?case unfolding step unfolding M' using le by (auto simp: bb_at)
qed auto

end
