(* ===== verification/FrameBufProps.thy ===== *)
theory FrameBufProps
  imports FrameBuf
begin

text \<open>
  What the operations of \<open>framebuf.c\<close> do to the grid of cells, against reference functions on
  grids, and that they stay inside \<open>cellbuf\<close> and \<open>row_attr\<close>.
\<close>

section \<open>Staying inside the two arrays\<close>

definition fb_frame :: "fb \<Rightarrow> fb \<Rightarrow> bool" where
  "fb_frame s s' \<longleftrightarrow> (\<forall>a. 8000 \<le> a \<longrightarrow> cellbuf s' a = cellbuf s a) \<and>
     (\<forall>i. 25 \<le> i \<longrightarrow> row_attr s' i = row_attr s i)"

lemma fb_frame_refl [simp, intro]: "fb_frame s s"
  by (simp add: fb_frame_def)

lemma fb_frame_trans [trans]: "fb_frame a b \<Longrightarrow> fb_frame b c \<Longrightarrow> fb_frame a c"
  by (simp add: fb_frame_def)

lemma row_lt_25: "(a :: nat) div 320 < 25 \<longleftrightarrow> a < 8000"
  by auto

lemma memmove_beyond: "dst + n \<le> N \<Longrightarrow> N \<le> a \<Longrightarrow> memmove dst src n b a = b a"
  by (simp add: memmove_at)

lemma fold_memmove_beyond:
  assumes "\<And>r. r \<in> set rs \<Longrightarrow> f r + n \<le> N" "N \<le> a"
  shows "fold (\<lambda>r. memmove (f r) (g r) n) rs b a = b a"
  using assms(1)
proof (induction rs arbitrary: b)
  case (Cons r rs)
  have "memmove (f r) (g r) n b a = b a"
    using Cons.prems [of r] assms(2) by (intro memmove_beyond [where N = N]) auto
  then show ?case using Cons by simp
qed simp

lemma frame_fill_region [wf_intros]: "fb_frame s (framebuf_fill_region cs rs ce re x f g s)"
  by (auto simp: fb_frame_def fill_region_at) (simp add: framebuf_fill_region_def)

lemma fill_region_keeps [simp]:
  "row_attr (framebuf_fill_region cs rs ce re x f g s) = row_attr s"
  "screen_inverted (framebuf_fill_region cs rs ce re x f g s) = screen_inverted s"
  "flash_frames (framebuf_fill_region cs rs ce re x f g s) = flash_frames s"
  "flash_color (framebuf_fill_region cs rs ce re x f g s) = flash_color s"
  by (simp_all add: framebuf_fill_region_def)

lemma frame_via_fill:
  assumes "\<And>a. 8000 \<le> a \<Longrightarrow> b a = cellbuf s a"
  shows "fb_frame s (framebuf_fill_region cs rs ce re x f g (s\<lparr>cellbuf := b\<rparr>))"
  by (rule fb_frame_trans [OF _ frame_fill_region]) (simp add: fb_frame_def assms)

lemma frame_set_char [wf_intros]: "fb_frame s (framebuf_set_char c r x s)"
  and frame_set_attr [wf_intros]: "fb_frame s (framebuf_set_attr c r x s)"
  and frame_set_color [wf_intros]: "fb_frame s (framebuf_set_color c r f g s)"
  and frame_set_row_attr [wf_intros]: "fb_frame s (framebuf_set_row_attr r x s)"
  by (auto simp: fb_frame_def framebuf_set_char_def framebuf_set_attr_def framebuf_set_color_def
      framebuf_set_row_attr_def in_range_def fb_cell_eq geometry Let_def)

lemma frame_fill_screen [wf_intros]: "fb_frame s (framebuf_fill_screen x f g s)"
  unfolding framebuf_fill_screen_def
  by (rule fb_frame_trans [OF _ frame_fill_region]) (simp add: fb_frame_def memset0_def geometry)

lemma frame_scroll_region [wf_intros]: "fb_frame s (framebuf_scroll_region rs re n f g s)"
proof -
  have up: "fold (\<lambda>r. memmove (fb_cell 0 r) (h r) CELL_PITCH) [x ..< Suc e - k] b a = b a"
    if "8000 \<le> a" "e < 25" for h x e k b a
    using that by (intro fold_memmove_beyond [where N = 8000]) (auto simp: fb_cell_eq geometry)
  have down: "fold (\<lambda>r. memmove (fb_cell 0 r) (h r) CELL_PITCH) (rev [x ..< Suc e]) b a = b a"
    if "8000 \<le> a" "e < 25" for h x e b a
    using that by (intro fold_memmove_beyond [where N = 8000]) (auto simp: fb_cell_eq geometry)
  have e: "(if TEXT_ROWS \<le> unat re then TEXT_ROWS - 1 else unat re) < 25" by (simp add: geometry)
  show ?thesis
    unfolding framebuf_scroll_region_def Let_def
    by (simp only: if_split[of "fb_frame s"] up down e frame_via_fill) (simp add: frame_via_fill up down e)
qed

lemma frame_insert [wf_intros]: "fb_frame s (framebuf_insert x y n f g s)"
  unfolding framebuf_insert_def Let_def
  by (auto intro!: frame_via_fill fold_memmove_beyond [where N = 8000] simp: fb_cell_eq geometry)

lemma frame_delete [wf_intros]: "fb_frame s (framebuf_delete x y n f g s)"
  unfolding framebuf_delete_def Let_def
  by (auto intro!: frame_via_fill fold_memmove_beyond [where N = 8000] simp: fb_cell_eq geometry)

lemma frame_set_screen_inverted [wf_intros]: "fb_frame s (framebuf_set_screen_inverted i s)"
  and frame_flash_screen [wf_intros]: "fb_frame s (framebuf_flash_screen c n s)"
  and frame_task [wf_intros]: "fb_frame s (framebuf_task s)"
  by (simp_all add: fb_frame_def framebuf_set_screen_inverted_def framebuf_flash_screen_def
      framebuf_task_def invert_at)

section \<open>Reference functions on grids\<close>

type_synonym grid = "nat \<Rightarrow> nat \<Rightarrow> cell"

definition blank :: "u8 \<Rightarrow> u8 \<Rightarrow> cell" where
  "blank f g = \<lparr>c_char = 32, c_fg = f, c_bg = g, c_attr = 0\<rparr>"

text \<open>Rows \<open>rs..re\<close> move up by \<open>n\<close> (down when negative); what no row moves into is blank.\<close>

definition scroll_grid :: "nat \<Rightarrow> nat \<Rightarrow> int \<Rightarrow> cell \<Rightarrow> grid \<Rightarrow> grid" where
  "scroll_grid rs re n e g r c =
     (if rs \<le> r \<and> r \<le> re
      then (if int rs \<le> int r + n \<and> int r + n \<le> int re then g (nat (int r + n)) c else e)
      else g r c)"

definition insert_grid :: "nat \<Rightarrow> nat \<Rightarrow> nat \<Rightarrow> cell \<Rightarrow> grid \<Rightarrow> grid" where
  "insert_grid x y n e g r c =
     (if r = y \<and> x \<le> c then (if c < x + n then e else g r (c - n)) else g r c)"

definition delete_grid :: "nat \<Rightarrow> nat \<Rightarrow> nat \<Rightarrow> cell \<Rightarrow> grid \<Rightarrow> grid" where
  "delete_grid x y n e g r c =
     (if r = y \<and> x \<le> c then (if c + n < 80 then g r (c + n) else e) else g r c)"

definition fill_grid :: "nat \<Rightarrow> nat \<Rightarrow> nat \<Rightarrow> nat \<Rightarrow> cell \<Rightarrow> grid \<Rightarrow> grid" where
  "fill_grid cs rs ce re e g r c = (if rs \<le> r \<and> r \<le> re \<and> cs \<le> c \<and> c \<le> ce then e else g r c)"

lemma screen_cong:
  assumes "\<And>k. k < 4 \<Longrightarrow> b (320 * r + 4 * c + k) = b' (320 * r' + 4 * c' + k)"
  shows "screen b r c = screen b' r' c'"
  using assms [of 0] assms [of 1] assms [of 2] assms [of 3] by (simp add: screen_def)

lemma screen_const:
  assumes "\<And>k. k < 4 \<Longrightarrow> b (320 * r + 4 * c + k) = [x, f, g, t] ! k"
  shows "screen b r c = \<lparr>c_char = x, c_fg = f, c_bg = g, c_attr = t\<rparr>"
  using assms [of 0] assms [of 1] assms [of 2] assms [of 3] by (simp add: screen_def numeral_eq_Suc)

lemma screen_fill_region:
  assumes "r < 25" "c < 80"
  shows "screen (cellbuf (framebuf_fill_region cs rs ce re x f g s)) r c =
    fill_grid (unat cs) (unat rs) (unat ce) (unat re) \<lparr>c_char = x, c_fg = f, c_bg = g, c_attr = 0\<rparr>
      (screen (cellbuf s)) r c"
proof (cases "unat rs \<le> r \<and> r \<le> unat re \<and> unat cs \<le> c \<and> c \<le> unat ce")
  case True
  then show ?thesis using assms
    by (simp add: fill_grid_def) (rule screen_const, simp add: fill_region_at)
next
  case False
  have "screen (cellbuf (framebuf_fill_region cs rs ce re x f g s)) r c = screen (cellbuf s) r c"
    using False assms by (intro screen_cong) (auto simp: fill_region_at)
  then show ?thesis using False by (simp only: fill_grid_def if_False)
qed

lemma rows_shift_up:
  assumes "rs \<le> e" "1 \<le> k" "k \<le> e - rs + 1"
  shows "fold (\<lambda>r. memmove (fb_cell 0 r) (fb_cell 0 (r + k)) CELL_PITCH) [rs ..< Suc e - k] b a =
    (if rs \<le> a div 320 \<and> a div 320 + k \<le> e then b (a + 320 * k) else b a)"
proof -
  have "[rs ..< Suc e - k] = [rs ..< rs + (Suc e - k - rs)]" using assms by simp
  moreover have "(320 * rs \<le> a \<and> a < 320 * (rs + (Suc e - k - rs))) \<longleftrightarrow>
      (rs \<le> a div 320 \<and> a div 320 + k \<le> e)" using assms by (simp add: less_eq_div_iff_mult_less_eq) linarith
  ultimately show ?thesis
    using shift_up [OF assms(2), of 0 320 rs "Suc e - k - rs" b a] by (simp add: fb_cell_eq geometry)
qed

lemma rows_shift_down:
  assumes "rs \<le> e" "1 \<le> k" "k \<le> e - rs + 1"
  shows "fold (\<lambda>r. memmove (fb_cell 0 r) (fb_cell 0 (r - k)) CELL_PITCH) (rev [rs + k ..< Suc e]) b a =
    (if rs + k \<le> a div 320 \<and> a div 320 \<le> e then b (a - 320 * k) else b a)"
proof -
  have "[rs + k ..< Suc e] = [rs + k ..< rs + k + (Suc e - k - rs)]" using assms by simp
  moreover have "(320 * (rs + k) \<le> a \<and> a < 320 * (rs + k + (Suc e - k - rs))) \<longleftrightarrow>
      (rs + k \<le> a div 320 \<and> a div 320 \<le> e)"
    using assms by (simp add: less_eq_div_iff_mult_less_eq) linarith
  ultimately show ?thesis
    using shift_down [OF assms(2), of "rs + k" 0 320 "Suc e - k - rs" b a]
    by (simp add: fb_cell_eq geometry)
qed

lemma row_shift_right:
  assumes "x + n \<le> 80" "1 \<le> n" "k < 4" "c < 80"
  shows "fold (\<lambda>c. memmove (fb_cell c y) (fb_cell (c - n) y) CELL_BYTES) (rev [x + n ..< 80]) b
      (320 * r + 4 * c + k) =
    (if r = y \<and> x + n \<le> c then b (320 * r + 4 * (c - n) + k) else b (320 * r + 4 * c + k))"
proof -
  have iff: "(320 * y + 4 * (x + n) \<le> 320 * r + 4 * c + k \<and>
      320 * r + 4 * c + k < 320 * y + 4 * 80) \<longleftrightarrow> r = y \<and> x + n \<le> c" (is "?l1 \<and> ?l2 \<longleftrightarrow> ?g")
  proof
    assume "?l1 \<and> ?l2"
    then have "?l1" "?l2" by blast+
    note l = this [unfolded distrib_left diff_mult_distrib2]
    have "r \<le> y" "y \<le> r" using l assms by linarith+
    then have "r = y" by simp
    moreover from this have "x + n \<le> c" using l assms by linarith
    ultimately show ?g by simp
  qed (use assms in auto)
  have lim: "x + n + (80 - (x + n)) = 80" using assms by simp
  have eq: "p + 4 * c + k - 4 * n = p + 4 * (c - n) + k" if "x + n \<le> c" for p
    using that by simp
  have main: "fold (\<lambda>c. memmove (fb_cell c y) (fb_cell (c - n) y) CELL_BYTES) (rev [x + n ..< 80]) b
      (320 * r + 4 * c + k) =
    (if r = y \<and> x + n \<le> c then b (320 * r + 4 * c + k - 4 * n) else b (320 * r + 4 * c + k))"
    using shift_down [OF assms(2), of "x + n" "320 * y" 4 "80 - (x + n)" b "320 * r + 4 * c + k"]
    unfolding lim iff by (simp add: fb_cell_eq geometry)
  show ?thesis unfolding main by (rule if_cong) (simp_all only: eq)
qed

lemma row_shift_left:
  assumes "x + n \<le> 80" "1 \<le> n" "k < 4" "c < 80"
  shows "fold (\<lambda>c. memmove (fb_cell c y) (fb_cell (c + n) y) CELL_BYTES) [x ..< 80 - n] b
      (320 * r + 4 * c + k) =
    (if r = y \<and> x \<le> c \<and> c + n < 80 then b (320 * r + 4 * (c + n) + k) else b (320 * r + 4 * c + k))"
proof -
  have iff: "(320 * y + 4 * x \<le> 320 * r + 4 * c + k \<and>
      320 * r + 4 * c + k < 320 * y + 4 * (80 - n)) \<longleftrightarrow> r = y \<and> x \<le> c \<and> c + n < 80" (is "?l1 \<and> ?l2 \<longleftrightarrow> ?g")
  proof
    assume "?l1 \<and> ?l2"
    then have "?l1" "?l2" by blast+
    note l = this [unfolded distrib_left diff_mult_distrib2]
    have "r \<le> y" "y \<le> r" using l assms by linarith+
    then have "r = y" by simp
    moreover from this have "x \<le> c" "c + n < 80" using l assms by linarith+
    ultimately show ?g by simp
  qed (use assms in auto)
  have lim: "x + (80 - n - x) = 80 - n" using assms by simp
  have eq: "320 * r + 4 * c + k + 4 * n = 320 * r + 4 * (c + n) + k" by simp
  show ?thesis
    using shift_up [OF assms(2), of "320 * y" 4 x "80 - n - x" b "320 * r + 4 * c + k"]
    unfolding lim iff eq by (simp add: fb_cell_eq geometry)
qed

section \<open>The editing operations refine the reference functions\<close>

lemma unat_small_int: "0 \<le> i \<Longrightarrow> i < 256 \<Longrightarrow> unat (of_int i :: u8) = nat i"
  by (rule unat_of_int_u8)

lemma scroll_region_steps:
  fixes rs e k :: nat and rs' :: u8
  assumes "rs \<le> e" "e < 25" "1 \<le> k" "k \<le> e - rs + 1" "r < 25" "c < 80"
  shows "screen (cellbuf (framebuf_fill_region 0 (of_int (int e - int k + 1)) (of_nat TEXT_COLS - 1)
             (of_nat e) 32 f g (s\<lparr>cellbuf := fold (\<lambda>r. memmove (fb_cell 0 r) (fb_cell 0 (r + k)) CELL_PITCH)
                                    [rs ..< Suc e - k] (cellbuf s)\<rparr>))) r c =
         scroll_grid rs e (int k) (blank f g) (screen (cellbuf s)) r c" (is ?up)
    and "screen (cellbuf (framebuf_fill_region 0 (of_nat rs) (of_nat TEXT_COLS - 1)
             (of_int (int rs + int k - 1)) 32 f g
             (s\<lparr>cellbuf := fold (\<lambda>r. memmove (fb_cell 0 r) (fb_cell 0 (r - k)) CELL_PITCH)
                             (rev [rs + k ..< Suc e]) (cellbuf s)\<rparr>))) r c =
         scroll_grid rs e (- int k) (blank f g) (screen (cellbuf s)) r c" (is ?down)
proof -
  have "unat (of_int (int e - int k + 1) :: u8) = nat (int e - int k + 1)"
    "unat (of_int (int rs + int k - 1) :: u8) = nat (int rs + int k - 1)"
    using assms by (intro unat_small_int; simp)+
  then have u: "unat (of_int (int e - int k + 1) :: u8) = e + 1 - k"
    "unat (of_int (int rs + int k - 1) :: u8) = rs + k - 1"
    using assms by linarith+
  have u': "unat (of_nat e :: u8) = e" "unat (of_nat rs :: u8) = rs" "unat (of_nat TEXT_COLS - 1 :: u8) = 79"
    using assms by (simp_all add: unat_of_nat_small geometry)
  have up: "screen (fold (\<lambda>r. memmove (fb_cell 0 r) (fb_cell 0 (r + k)) CELL_PITCH) [rs ..< Suc e - k] b) r c =
      (if rs \<le> r \<and> r + k \<le> e then screen b (r + k) c else screen b r c)" for b
    using assms by (auto intro!: screen_cong simp: rows_shift_up algebra_simps simp del: upt_Suc)
  have down: "screen (fold (\<lambda>r. memmove (fb_cell 0 r) (fb_cell 0 (r - k)) CELL_PITCH) (rev [rs + k ..< Suc e]) b) r c =
      (if rs + k \<le> r \<and> r \<le> e then screen b (r - k) c else screen b r c)" for b
    using assms by (auto intro!: screen_cong simp: rows_shift_down diff_mult_distrib2 simp del: upt_Suc)
  have "nat (int r + int k) = r + k" "nat (int r - int k) = r - k" by simp_all
  then show ?up ?down
    using assms unfolding screen_fill_region [OF assms(5,6)] u u' fill_grid_def scroll_grid_def
    by (auto simp add: up down blank_def simp del: upt_Suc)
qed

lemma scroll_grid_clip:
  assumes "a \<le> e"
  shows "scroll_grid a e (int (min k (e - a + 1))) x g r c = scroll_grid a e (int k) x g r c"
    and "scroll_grid a e (- int (min k (e - a + 1))) x g r c = scroll_grid a e (- int k) x g r c"
  using assms by (auto simp: scroll_grid_def min_def)

lemma scroll_grid_0 [simp]: "scroll_grid a e 0 x g r c = g r c"
  by (auto simp: scroll_grid_def)

lemma scroll_grid_empty: "e < a \<Longrightarrow> scroll_grid a e n x g r c = g r c"
  by (auto simp: scroll_grid_def)

lemma scroll_region_grid:
  assumes "r < 25" "c < 80"
  shows "screen (cellbuf (framebuf_scroll_region rs re n f g s)) r c =
    scroll_grid (unat rs) (min (unat re) 24) (sint n) (blank f g) (screen (cellbuf s)) r c"
proof -
  define e where "e = min (unat re) 24"
  have clamp: "(if TEXT_ROWS \<le> unat re then TEXT_ROWS - 1 else unat re) = e"
    by (auto simp: e_def geometry)
  have e: "e < 25" by (simp add: e_def)
  define rows where "rows = e - unat rs + 1"
  define k where "k = (if sint n < 0 then nat (- sint n) else nat (sint n))"
  define m where "m = (if k > rows then rows else k)"
  have w: "of_nat (unat rs) = rs" by simp
  note steps = scroll_region_steps [OF _ e _ _ assms, where rs = "unat rs" and f = f and g = g and s = s,
      unfolded w]
  show ?thesis
  proof (cases "unat rs \<le> e \<and> sint n \<noteq> 0")
    case True
    then have m: "1 \<le> m" "m \<le> e - unat rs + 1" by (auto simp: m_def k_def rows_def)
    have mk: "m = min k (e - unat rs + 1)" by (simp add: m_def rows_def)
    have sk: "sint n = (if sint n > 0 then int k else - int k)" by (simp add: k_def)
    have clip: "scroll_grid (unat rs) e (if sint n > 0 then int m else - int m) x q r c =
        scroll_grid (unat rs) e (sint n) x q r c" for x q
      using True scroll_grid_clip [of "unat rs" e k x q r c] by (subst (2) sk) (simp add: mk)
    show ?thesis
      using True steps [of m] m clip
      unfolding framebuf_scroll_region_def Let_def clamp e_def [symmetric] rows_def [symmetric]
        k_def [symmetric] m_def [symmetric]
      by auto
  next
    case False
    then show ?thesis
      unfolding framebuf_scroll_region_def Let_def clamp e_def [symmetric]
      by (auto simp: scroll_grid_empty)
  qed
qed

lemma insert_grid_step:
  assumes x: "x < 80" and n: "1 \<le> n" "x + n \<le> 80" and y: "y < 25" and rc: "r < 25" "c < 80"
  shows "screen (cellbuf (framebuf_fill_region (of_nat x) (of_nat y) (of_nat (x + n - 1)) (of_nat y) 32 f g
      (s\<lparr>cellbuf := fold (\<lambda>c. memmove (fb_cell c y) (fb_cell (c - n) y) CELL_BYTES)
                      (rev [x + n ..< 80]) (cellbuf s)\<rparr>))) r c =
    insert_grid x y n (blank f g) (screen (cellbuf s)) r c"
proof -
  have sh: "screen (fold (\<lambda>c. memmove (fb_cell c y) (fb_cell (c - n) y) CELL_BYTES) (rev [x + n ..< 80]) b) r c =
      (if r = y \<and> x + n \<le> c then screen b r (c - n) else screen b r c)" for b r
    using rc n by (auto intro!: screen_cong simp: row_shift_right)
  have u: "unat (of_nat x :: u8) = x" "unat (of_nat (x + n - 1) :: u8) = x + n - 1" "unat (of_nat y :: u8) = y"
    using assms by (intro unat_of_nat_small; simp)+
  show ?thesis
    unfolding screen_fill_region [OF rc] u fill_grid_def insert_grid_def
    using n by (auto simp: sh blank_def)
qed

lemma delete_grid_step:
  assumes x: "x < 80" and n: "1 \<le> n" "x + n \<le> 80" and y: "y < 25" and rc: "r < 25" "c < 80"
  shows "screen (cellbuf (framebuf_fill_region (of_nat (80 - n)) (of_nat y) 79 (of_nat y) 32 f g
      (s\<lparr>cellbuf := fold (\<lambda>c. memmove (fb_cell c y) (fb_cell (c + n) y) CELL_BYTES)
                      [x ..< 80 - n] (cellbuf s)\<rparr>))) r c =
    delete_grid x y n (blank f g) (screen (cellbuf s)) r c"
proof -
  have sh: "screen (fold (\<lambda>c. memmove (fb_cell c y) (fb_cell (c + n) y) CELL_BYTES) [x ..< 80 - n] b) r c =
      (if r = y \<and> x \<le> c \<and> c + n < 80 then screen b r (c + n) else screen b r c)" for b r
    using rc n by (auto intro!: screen_cong simp: row_shift_left)
  have u: "unat (of_nat (80 - n) :: u8) = 80 - n" "unat (of_nat y :: u8) = y"
    using assms by (intro unat_of_nat_small; simp)+
  show ?thesis
    unfolding screen_fill_region [OF rc] u fill_grid_def delete_grid_def
    using n x rc by (auto simp: sh blank_def)
qed

text \<open>
  A count past the end of the row means the rest of the row.  A count of 0 at column 0 is
  excluded for insert: the end column \<open>x + n - 1\<close> wraps to 255 there, and the whole row is
  blanked (no caller does this).
\<close>

lemma insert_clip:
  assumes "x < 80" "80 - x \<le> n" "c < 80"
  shows "insert_grid x y (80 - x) e g r c = insert_grid x y n e g r c"
  using assms by (auto simp: insert_grid_def)

lemma delete_clip:
  assumes "x < 80" "80 - x \<le> n" "c < 80"
  shows "delete_grid x y (80 - x) e g r c = delete_grid x y n e g r c"
  using assms by (auto simp: delete_grid_def)

lemma framebuf_insert_grid:
  assumes rc: "r < 25" "c < 80" and xy: "unat x < 80" "unat y < 25" and n: "0 < unat n"
  shows "screen (cellbuf (framebuf_insert x y n f g s)) r c =
    insert_grid (unat x) (unat y) (unat n) (blank f g) (screen (cellbuf s)) r c"
proof -
  define m where "m = min (unat n) (80 - unat x)"
  have m: "1 \<le> m" "unat x + m \<le> 80" using xy n by (auto simp: m_def)
  have w: "(if unat n > TEXT_COLS - unat x then of_nat (TEXT_COLS - unat x) else n) = of_nat m"
    using xy by (auto simp: m_def geometry)
  have um: "unat (of_nat m :: u8) = m" using m xy by (intro unat_of_nat_small) simp
  have e: "x + of_nat m - 1 = of_nat (unat x + m - 1)"
    using m by (simp add: of_nat_diff)
  have clip: "insert_grid (unat x) (unat y) m (blank f g) (screen (cellbuf s)) r c =
      insert_grid (unat x) (unat y) (unat n) (blank f g) (screen (cellbuf s)) r c"
    using xy rc by (auto simp: m_def min_def insert_clip)
  have "\<not> (TEXT_ROWS \<le> unat y \<or> TEXT_COLS \<le> unat x)" using xy by (simp add: geometry)
  then show ?thesis
    using insert_grid_step [OF xy(1) m xy(2) rc, of f g s] clip
    unfolding framebuf_insert_def w Let_def um e by (simp add: geometry)
qed

lemma framebuf_delete_grid:
  assumes rc: "r < 25" "c < 80" and xy: "unat x < 80" "unat y < 25" and n: "0 < unat n"
  shows "screen (cellbuf (framebuf_delete x y n f g s)) r c =
    delete_grid (unat x) (unat y) (unat n) (blank f g) (screen (cellbuf s)) r c"
proof -
  define m where "m = min (unat n) (80 - unat x)"
  have m: "1 \<le> m" "unat x + m \<le> 80" using xy n by (auto simp: m_def)
  have w: "(if unat n > TEXT_COLS - unat x then of_nat (TEXT_COLS - unat x) else n) = of_nat m"
    using xy by (auto simp: m_def geometry)
  have um: "unat (of_nat m :: u8) = m" using m xy by (intro unat_of_nat_small) simp
  have e: "(of_nat TEXT_COLS - of_nat m :: u8) = of_nat (80 - m)" "(of_nat TEXT_COLS - 1 :: u8) = 79"
    using m by (simp_all add: of_nat_diff geometry)
  have clip: "delete_grid (unat x) (unat y) m (blank f g) (screen (cellbuf s)) r c =
      delete_grid (unat x) (unat y) (unat n) (blank f g) (screen (cellbuf s)) r c"
    using xy rc by (auto simp: m_def min_def delete_clip)
  have "\<not> (TEXT_ROWS \<le> unat y \<or> TEXT_COLS \<le> unat x)" using xy by (simp add: geometry)
  then show ?thesis
    using delete_grid_step [OF xy(1) m xy(2) rc, of f g s] clip
    unfolding framebuf_delete_def w Let_def um e by (simp add: geometry)
qed

section \<open>Properties\<close>

text \<open>C31: Scrolling a region by any signed count, with any region bounds a caller may pass,
  moves exactly the rows of the region by that count, blanks the vacated rows in the given
  colours and leaves every other cell of the screen unchanged; no byte outside the two arrays
  is written.\<close>

theorem framebuf_scroll_refines:
  assumes "r < 25" "c < 80"
  shows "screen (cellbuf (framebuf_scroll_region rs re n f g s)) r c =
      scroll_grid (unat rs) (min (unat re) 24) (sint n) (blank f g) (screen (cellbuf s)) r c \<and>
    fb_frame s (framebuf_scroll_region rs re n f g s)"
  using assms by (simp add: scroll_region_grid frame_scroll_region)

definition demo_fb :: fb where
  "demo_fb = \<lparr>cellbuf = (\<lambda>a. of_nat (a div 320)), row_attr = (\<lambda>_. 0), screen_inverted = False,
     flash_frames = 0, flash_color = 0\<rparr>"

theorem framebuf_scroll_refines_witness:
  "screen (cellbuf (framebuf_scroll_region 3 30 2 7 0 demo_fb)) 3 10 =
     \<lparr>c_char = 5, c_fg = 5, c_bg = 5, c_attr = 5\<rparr>"
  using framebuf_scroll_refines [of 3 10 3 30 2 7 0 demo_fb]
  by (simp add: scroll_grid_def demo_fb_def screen_def)

text \<open>Inserting or deleting \<open>n > 0\<close> cells at a position of the screen shifts the rest of that
  row right or left, blanks the cells it opens up, treats a count past the end of the row as
  the rest of the row, and changes no other cell.\<close>

theorem framebuf_insert_delete_refine:
  assumes "r < 25" "c < 80" "unat x < 80" "unat y < 25" "0 < unat n"
  shows "screen (cellbuf (framebuf_insert x y n f g s)) r c =
      insert_grid (unat x) (unat y) (unat n) (blank f g) (screen (cellbuf s)) r c \<and>
    screen (cellbuf (framebuf_delete x y n f g s)) r c =
      delete_grid (unat x) (unat y) (unat n) (blank f g) (screen (cellbuf s)) r c"
  using framebuf_insert_grid [OF assms] framebuf_delete_grid [OF assms] by simp

theorem framebuf_insert_delete_refine_witness:
  "screen (cellbuf (framebuf_insert 10 2 200 7 0 demo_fb)) 2 79 = blank 7 0 \<and>
   screen (cellbuf (framebuf_delete 10 2 200 7 0 demo_fb)) 2 9 = \<lparr>c_char = 2, c_fg = 2, c_bg = 2, c_attr = 2\<rparr>"
  using framebuf_insert_delete_refine [of 2 79 10 2 200 7 0 demo_fb]
    framebuf_insert_delete_refine [of 2 9 10 2 200 7 0 demo_fb]
  by (simp add: insert_grid_def delete_grid_def demo_fb_def screen_def)

text \<open>The reverse-video switch is a switch: whatever happened before, setting it depends
  only on the last request and on the original screen, so the program that turns it on and off
  any number of times gets its screen back.\<close>

theorem screen_inverted_last_wins:
  "framebuf_set_screen_inverted i (framebuf_set_screen_inverted j s) = framebuf_set_screen_inverted i s"
  by (cases "j = screen_inverted s"; cases "i = j") (auto simp: framebuf_set_screen_inverted_def)

lemma task_counts:
  assumes "k \<le> unat (flash_frames s)"
  shows "(framebuf_task ^^ k) s = (if k < unat (flash_frames s) \<or> k = 0
    then s\<lparr>flash_frames := flash_frames s - of_nat k\<rparr>
    else s\<lparr>flash_frames := 0, cellbuf := invert_cells (cellbuf s)\<rparr>)"
  using assms
proof (induction k)
  case (Suc k)
  let ?f = "flash_frames s"
  have pos: "k < unat ?f" using Suc.prems by simp
  have sub: "unat (?f - of_nat k) = unat ?f - k"
  proof -
    have "unat (of_nat k :: u8) = k"
      using pos unsigned_less [of ?f, where ?'a = nat] by (intro unat_of_nat_small) simp
    then show ?thesis using pos by (simp add: unat_sub word_le_nat_alt)
  qed
  have nz: "0 < ?f - of_nat k" using sub pos by (simp add: word_less_nat_alt)
  have one: "?f - of_nat k - 1 = 0 \<longleftrightarrow> Suc k = unat ?f"
  proof -
    have "unat (?f - of_nat k - 1) = unat ?f - k - 1"
      using unat_minus_one [of "?f - of_nat k"] nz sub by (simp add: word_gt_0)
    then have "?f - of_nat k - 1 = 0 \<longleftrightarrow> unat ?f - k - 1 = 0" by (simp only: unat_eq_zero [symmetric])
    then show ?thesis using pos by linarith
  qed
  have "(framebuf_task ^^ Suc k) s = framebuf_task (s\<lparr>flash_frames := ?f - of_nat k\<rparr>)"
    using Suc by simp
  also have "\<dots> = (if Suc k < unat ?f then s\<lparr>flash_frames := ?f - of_nat (Suc k)\<rparr>
      else s\<lparr>flash_frames := 0, cellbuf := invert_cells (cellbuf s)\<rparr>)"
    using nz one pos by (auto simp: framebuf_task_def algebra_simps)
  finally show ?case by simp
qed simp

lemma task_idle: "flash_frames s = 0 \<Longrightarrow> (framebuf_task ^^ k) s = s"
  by (induction k) (simp_all add: framebuf_task_def)

lemma flash_done:
  assumes "n \<noteq> 0" "unat n \<le> k"
  shows "(framebuf_task ^^ k) (framebuf_flash_screen c n s) = s\<lparr>flash_color := c, flash_frames := 0\<rparr>"
proof -
  let ?s = "framebuf_flash_screen c n s"
  have n: "0 < unat n" using assms(1) by (simp add: unat_gt_0)
  have "(framebuf_task ^^ k) ?s = (framebuf_task ^^ (k - unat n)) ((framebuf_task ^^ unat n) ?s)"
    using assms(2) by (metis funpow_add comp_apply le_add_diff_inverse2)
  also have "(framebuf_task ^^ unat n) ?s = s\<lparr>flash_color := c, flash_frames := 0\<rparr>"
    using task_counts [of "unat n" ?s] n assms(1) by (simp add: framebuf_flash_screen_def)
  finally show ?thesis by (simp add: task_idle)
qed

text \<open>A visual bell on a quiet screen ends: after as many frames as it asked for, and from
  then on, every cell is back to what it was.\<close>

theorem bell_restores_screen:
  assumes "flash_frames s = 0" "unat n \<le> k"
  shows "cellbuf ((framebuf_task ^^ k) (framebuf_flash_screen c n s)) = cellbuf s"
proof (cases "n = 0")
  case True
  then show ?thesis using assms by (simp add: framebuf_flash_screen_def task_idle)
qed (use assms flash_done in simp)

theorem bell_restores_screen_witness:
  "cellbuf ((framebuf_task ^^ 5) (framebuf_flash_screen 7 2 demo_fb)) = cellbuf demo_fb"
  using bell_restores_screen [of demo_fb 2 5 7] by (simp add: demo_fb_def)

text \<open>A second bell inside the flash of the first leaves the screen inverted for good: the
  second call toggles every cell back at once and the single expiry toggles them again, after
  which no number of frames changes anything.\<close>

theorem overlapping_bells_stay_inverted:
  assumes "n \<noteq> 0" "m \<noteq> 0" "j < unat n" "unat m \<le> k"
  shows "cellbuf ((framebuf_task ^^ k) (framebuf_flash_screen d m
           ((framebuf_task ^^ j) (framebuf_flash_screen c n s)))) = invert_cells (cellbuf s)"
proof -
  have "(framebuf_task ^^ j) (framebuf_flash_screen c n s) =
      (framebuf_flash_screen c n s)\<lparr>flash_frames := n - of_nat j\<rparr>"
    using assms task_counts [of j "framebuf_flash_screen c n s"] by (simp add: framebuf_flash_screen_def)
  then have "cellbuf ((framebuf_task ^^ j) (framebuf_flash_screen c n s)) = invert_cells (cellbuf s)"
    using assms(1) by (simp add: framebuf_flash_screen_def)
  then show ?thesis by (simp only: flash_done [OF assms(2,4)]) simp
qed

theorem overlapping_bells_stay_inverted_witness:
  "cellbuf ((framebuf_task ^^ 100) (framebuf_flash_screen 7 2
     ((framebuf_task ^^ 1) (framebuf_flash_screen 7 2 demo_fb)))) = invert_cells (cellbuf demo_fb)"
  using overlapping_bells_stay_inverted [of 2 2 1 100 7 7 demo_fb] by simp

end
