(* ===== verification/TermCompat.thy ===== *)
theory TermCompat
  imports Fifo "HOL-Library.Char_ord"
begin

text \<open>
  \<open>firmware/master-ioserver/term/term_compat.c\<close>: the fixed settings the terminal engine reads,
  the modifier state, the queue of keystrokes on their way to Linux and the line-drawing map.
\<close>

section \<open>Settings\<close>

datatype ttype = CFG_TTYPE_VT102 | CFG_TTYPE_VT52 | CFG_TTYPE_PETSCII

definition config_get_terminal_type :: ttype where "config_get_terminal_type = CFG_TTYPE_VT102"
definition config_get_terminal_localecho :: u8 where "config_get_terminal_localecho = 0"
definition config_get_terminal_cursortype :: u8 where "config_get_terminal_cursortype = 1"
definition config_get_terminal_cr :: u8 where "config_get_terminal_cr = 1"
definition config_get_terminal_lf :: u8 where "config_get_terminal_lf = 2"
definition config_get_terminal_bs :: u8 where "config_get_terminal_bs = 1"
definition config_get_terminal_del :: u8 where "config_get_terminal_del = 0"
definition config_get_terminal_clearBit7 :: bool where "config_get_terminal_clearBit7 = False"
definition config_get_terminal_uppercase :: bool where "config_get_terminal_uppercase = False"
definition config_get_terminal_default_fg :: u8 where "config_get_terminal_default_fg = 7"
definition config_get_terminal_default_bg :: u8 where "config_get_terminal_default_bg = 0"
definition config_get_terminal_default_attr :: u8 where "config_get_terminal_default_attr = 0"

text \<open>A C string literal is the list of its bytes before the terminator.\<close>

definition bytes_of :: "string \<Rightarrow> u8 list" where
  "bytes_of s = map (\<lambda>c. of_nat (of_char c)) s"

definition config_get_terminal_answerback :: "u8 list" where
  "config_get_terminal_answerback = bytes_of ''FRANK''"

definition config_get_keyboard_enter :: u8 where "config_get_keyboard_enter = 0"
definition config_get_keyboard_backspace :: u8 where "config_get_keyboard_backspace = 0"
definition config_get_keyboard_delete :: u8 where "config_get_keyboard_delete = 0"
definition config_get_serial_baud :: u32 where "config_get_serial_baud = 115200"
definition config_get_visual_bell_color :: u16 where "config_get_visual_bell_color = 7"
definition config_get_visual_bell_duration :: u8 where "config_get_visual_bell_duration = 2"

lemmas config_defs = config_get_terminal_type_def config_get_terminal_localecho_def
  config_get_terminal_cr_def config_get_terminal_lf_def config_get_terminal_bs_def
  config_get_terminal_del_def config_get_terminal_clearBit7_def config_get_terminal_uppercase_def
  config_get_terminal_default_fg_def config_get_terminal_default_bg_def
  config_get_terminal_default_attr_def config_get_keyboard_enter_def
  config_get_keyboard_backspace_def config_get_keyboard_delete_def
  config_get_visual_bell_color_def config_get_visual_bell_duration_def

section \<open>Modifiers and key codes\<close>

record mods =
  mod_shift :: bool
  mod_ctrl :: bool
  mod_alt :: bool

definition term_compat_set_mods :: "bool \<Rightarrow> bool \<Rightarrow> bool \<Rightarrow> mods \<Rightarrow> mods" where
  "term_compat_set_mods shift ctrl alt m = m\<lparr>mod_shift := shift, mod_ctrl := ctrl, mod_alt := alt\<rparr>"

definition keyboard_russian_mode :: bool where "keyboard_russian_mode = False"

text \<open>The value and the flag \<open>*isAltCode\<close>.\<close>

definition keyboard_map_key_ascii :: "u16 \<Rightarrow> u8 \<times> bool" where
  "keyboard_map_key_ascii key = (if key < 0x80 then ucast key else 0, False)"

section \<open>Keystrokes to the host\<close>

definition KEYQ_SIZE :: nat where "KEYQ_SIZE = 256"

record keyq =
  kq_data :: "u8 arr"
  keyq_head :: u16
  keyq_tail :: u16

definition serial_send_char :: "u8 \<Rightarrow> keyq \<Rightarrow> keyq" where
  "serial_send_char c q =
     (let next = of_nat ((unat (keyq_head q) + 1) mod KEYQ_SIZE)
      in if next = keyq_tail q then q
         else q\<lparr>kq_data := (kq_data q)(unat (keyq_head q) := c), keyq_head := next\<rparr>)"

primrec serial_send_string :: "u8 list \<Rightarrow> keyq \<Rightarrow> keyq" where
  "serial_send_string [] q = q"
| "serial_send_string (c # cs) q =
     (if c \<noteq> 0 then serial_send_string cs (serial_send_char c q) else q)"

text \<open>The bytes written to \<open>dst\<close>; their number is the returned count.\<close>

primrec term_compat_take_keys :: "nat \<Rightarrow> keyq \<Rightarrow> u8 list \<times> keyq" where
  "term_compat_take_keys 0 q = ([], q)"
| "term_compat_take_keys (Suc n) q =
     (if keyq_tail q \<noteq> keyq_head q
      then (let c = kq_data q (unat (keyq_tail q));
                (cs, q') = term_compat_take_keys n
                  (q\<lparr>keyq_tail := of_nat ((unat (keyq_tail q) + 1) mod KEYQ_SIZE)\<rparr>)
            in (c # cs, q'))
      else ([], q))"

definition font_map_graphics_char :: "u8 \<Rightarrow> bool \<Rightarrow> u8" where
  "font_map_graphics_char c boldFont =
     (if c \<ge> 96 \<and> c \<le> 126
      then [0x04, 0xB1, 0x0B, 0x0C, 0x0D, 0x0E, 0xF8, 0xF1, 0x0F, 0x10,
            0xD9, 0xBF, 0xDA, 0xC0, 0xC5, 0x11, 0x12, 0xC4, 0x13, 0x5F,
            0xC3, 0xB4, 0xC1, 0xC2, 0xB3, 0xF3, 0xF2, 0xE3, 0x1C, 0x9C, 0xFA] ! unat (c - 96)
      else c)"

section \<open>The keystroke queue as a bounded FIFO\<close>

definition keyq_ok :: "keyq \<Rightarrow> bool" where
  "keyq_ok q \<longleftrightarrow> unat (keyq_head q) < KEYQ_SIZE \<and> unat (keyq_tail q) < KEYQ_SIZE"

definition keyq_bytes :: "keyq \<Rightarrow> u8 list" where
  "keyq_bytes q = win KEYQ_SIZE (kq_data q) (unat (keyq_tail q))
     (rq_len KEYQ_SIZE (unat (keyq_head q)) (unat (keyq_tail q)))"

definition keyq_pop :: "keyq \<Rightarrow> (u8 \<times> keyq) option" where
  "keyq_pop q = (case term_compat_take_keys 1 q of (c # _, q') \<Rightarrow> Some (c, q') | ([], _) \<Rightarrow> None)"

lemma keyq_index: "unat (of_nat (n mod KEYQ_SIZE) :: u16) = n mod KEYQ_SIZE"
  by (rule unat_of_nat_small) (simp add: KEYQ_SIZE_def less_le_trans [OF mod_less_divisor])

lemma keyq_next: "of_nat (n mod KEYQ_SIZE) = (w :: u16) \<longleftrightarrow> n mod KEYQ_SIZE = unat w"
  using keyq_index [of n] by (metis unsigned_word_eqI)

lemma KEYQ_pos [simp]: "0 < KEYQ_SIZE"
  by (simp add: KEYQ_SIZE_def)

lemma keyq_ok_send [wf_intros]: "keyq_ok q \<Longrightarrow> keyq_ok (serial_send_char c q)"
  by (auto simp: keyq_ok_def serial_send_char_def Let_def keyq_index)

lemma keyq_bytes_send:
  assumes "keyq_ok q"
  shows "keyq_bytes (serial_send_char c q) =
    (if length (keyq_bytes q) < 255 then keyq_bytes q @ [c] else keyq_bytes q)"
proof -
  let ?h = "unat (keyq_head q)" and ?t = "unat (keyq_tail q)"
  have ht: "?h < KEYQ_SIZE" "?t < KEYQ_SIZE" using assms by (auto simp: keyq_ok_def)
  have "length (keyq_bytes q) < 255 \<longleftrightarrow> (?h + 1) mod KEYQ_SIZE \<noteq> ?t"
    using rq_full [OF ht] rq_len_less [of KEYQ_SIZE ?h ?t] by (auto simp: keyq_bytes_def KEYQ_SIZE_def)
  then show ?thesis
    using rq_push(1) [OF ht] rq_push(2) [OF ht, where d = "kq_data q" and x = c]
    by (simp add: serial_send_char_def Let_def keyq_next keyq_bytes_def keyq_index)
qed

lemma take_keys_spec:
  "keyq_ok q \<Longrightarrow> term_compat_take_keys n q = (cs, q') \<Longrightarrow>
     cs = take n (keyq_bytes q) \<and> keyq_bytes q' = drop n (keyq_bytes q) \<and> keyq_ok q'"
proof (induction n arbitrary: q cs q')
  case (Suc n)
  let ?h = "unat (keyq_head q)" and ?t = "unat (keyq_tail q)"
  let ?q = "q\<lparr>keyq_tail := of_nat ((?t + 1) mod KEYQ_SIZE)\<rparr>"
  have ht: "?h < KEYQ_SIZE" "?t < KEYQ_SIZE" using Suc.prems by (auto simp: keyq_ok_def)
  show ?case
  proof (cases "keyq_tail q = keyq_head q")
    case True
    then have "keyq_bytes q = []" using rq_len_0 [OF ht] by (simp add: keyq_bytes_def)
    then show ?thesis using Suc.prems True by simp
  next
    case False
    then have ne: "?h \<noteq> ?t" by (metis word_unat_eq_iff)
    obtain ds where ds: "term_compat_take_keys n ?q = (ds, q')" "cs = kq_data q ?t # ds"
      using Suc.prems(2) False by (auto simp: Let_def split: prod.splits)
    have "keyq_ok ?q" using ht by (simp add: keyq_ok_def keyq_index)
    from Suc.IH [OF this ds(1)] show ?thesis
      using rq_pop(1) [OF ht ne] rq_pop(2) [OF ht ne, where d = "kq_data q"] ds(2) by (simp add: keyq_bytes_def keyq_index)
  qed
qed simp

interpretation keyq: bounded_fifo "\<lambda>q c. serial_send_char c q" keyq_pop keyq_bytes keyq_ok 255
proof unfold_locales
  fix q :: keyq and x :: u8
  assume ok: "keyq_ok q"
  show "keyq_ok (serial_send_char x q)" using ok by (rule keyq_ok_send)
  show "keyq_bytes (serial_send_char x q) =
      (if length (keyq_bytes q) < 255 then keyq_bytes q @ [x] else keyq_bytes q)"
    using ok by (rule keyq_bytes_send)
  obtain cs q1 where t: "term_compat_take_keys 1 q = (cs, q1)" by fastforce
  note s = take_keys_spec [OF ok t]
  show "keyq_pop q = None \<longleftrightarrow> keyq_bytes q = []"
    using s t by (cases "keyq_bytes q") (auto simp: keyq_pop_def simp del: term_compat_take_keys.simps)
  show "keyq_bytes q = x # keyq_bytes q' \<and> keyq_ok q'" if "keyq_pop q = Some (x, q')" for q'
    using s t that by (cases "keyq_bytes q")
      (auto simp: keyq_pop_def simp del: term_compat_take_keys.simps)
  show "length (keyq_bytes q) \<le> 255"
    using rq_len_less [of KEYQ_SIZE "unat (keyq_head q)" "unat (keyq_tail q)"]
    by (simp add: keyq_bytes_def KEYQ_SIZE_def)
qed

end
