(* ===== verification/Terminal.thy ===== *)
theory Terminal
  imports FrameBufProps TermCompat
begin

text \<open>
  \<open>firmware/master-ioserver/term/terminal.c\<close>, first part: the engine's state, the cursor
  motions, printing, reset and the control characters (\<open>terminal_process_text\<close>).
  \<open>show_cursor\<close> is empty in the source and its calls are left out.  A C \<open>int\<close> is an \<open>int\<close>; it
  becomes a \<open>uint8_t\<close> where the source passes it to a \<open>framebuf_\<close> function.  What a
  character sends back with local echo on is received again: \<open>echo\<close> is that receiver, tied
  to the whole engine in \<open>TermReceive\<close>.
\<close>

section \<open>State\<close>

datatype tstate = TS_NORMAL | TS_WAITBRACKET | TS_STARTCHAR | TS_READPARAM | TS_HASH | TS_READCHAR

text \<open>The pointer \<open>charset\<close>: it only ever points to one of the two variables.\<close>

datatype charset_ptr = PtrG0 | PtrG1

record terminal =
  t_fb :: fb
  t_keyq :: keyq
  t_mods :: mods
  terminal_state :: tstate
  color_fg :: u8
  color_bg :: u8
  attr :: u8
  cur_attr :: u8
  cursor_col :: int
  cursor_row :: int
  saved_col :: int
  saved_row :: int
  scroll_region_start :: int
  scroll_region_end :: int
  cursor_shown :: bool
  origin_mode :: bool
  cursor_eol :: bool
  auto_wrap_mode :: bool
  vt52_mode :: bool
  localecho :: bool
  saved_eol :: bool
  saved_origin_mode :: bool
  insert_mode :: bool
  cursor_key_mode :: bool
  petscii_lower_case_charset :: bool
  saved_attr :: u8
  saved_fg :: u8
  saved_bg :: u8
  saved_charset_G0 :: u8
  saved_charset_G1 :: u8
  charset :: charset_ptr
  charset_G0 :: u8
  charset_G1 :: u8
  tabs :: "u8 arr"
  vt_start_char :: u8
  vt_num_params :: u8
  vt_params :: "u8 arr"
  v52_start_char :: u8
  v52_row :: u8
  inserted :: u8
  quoteMode :: bool

definition CS_TEXT_US :: u8 where "CS_TEXT_US = 0"
definition CS_TEXT_UK :: u8 where "CS_TEXT_UK = 1"
definition CS_GRAPHICS :: u8 where "CS_GRAPHICS = 2"

abbreviation ncols :: int where "ncols \<equiv> uint framebuf_get_ncols"
abbreviation nrows :: int where "nrows \<equiv> uint framebuf_get_nrows"

lemma ncols_80: "ncols = 80" and nrows_25: "nrows = 25"
  by (simp_all add: framebuf_get_ncols_def framebuf_get_nrows_def geometry)

text \<open>A framebuffer call, and the character set in force.\<close>

definition on_fb :: "(fb \<Rightarrow> fb) \<Rightarrow> terminal \<Rightarrow> terminal" where
  "on_fb f s = s\<lparr>t_fb := f (t_fb s)\<rparr>"

definition cur_charset :: "terminal \<Rightarrow> u8" where
  "cur_charset s = (case charset s of PtrG0 \<Rightarrow> charset_G0 s | PtrG1 \<Rightarrow> charset_G1 s)"

definition get_charset :: "u8 \<Rightarrow> u8" where
  "get_charset c =
     (if c = 65 then CS_TEXT_UK else if c = 66 then CS_TEXT_US else if c = 48 then CS_GRAPHICS
      else if c = 49 then CS_TEXT_US else if c = 50 then CS_GRAPHICS else CS_TEXT_US)"

definition terminal_get_cursor :: "terminal \<Rightarrow> int \<times> int \<times> bool" where
  "terminal_get_cursor s = (cursor_col s, cursor_row s, cursor_shown s)"

definition load_cur_attr :: "terminal \<Rightarrow> terminal" where
  "load_cur_attr s =
     s\<lparr>cur_attr := framebuf_get_attr (of_int (cursor_col s)) (of_int (cursor_row s)) (t_fb s)\<rparr>"

section \<open>Cursor motions\<close>

text \<open>The four loops of \<open>move_cursor_wrap\<close>.\<close>

function wrap_left :: "int \<Rightarrow> int \<Rightarrow> int \<times> int" where
  "wrap_left row col = (if col < 0 then wrap_left (row - 1) (col + ncols) else (row, col))"
  by auto
termination by (relation "measure (\<lambda>(row, col). nat (- col))") (auto simp: ncols_80)

function wrap_top :: "int \<Rightarrow> int \<Rightarrow> int \<Rightarrow> terminal \<Rightarrow> int \<times> terminal" where
  "wrap_top topl botl row s =
     (if row < topl
      then wrap_top topl botl (row + 1)
        (on_fb (framebuf_scroll_region (of_int topl) (of_int botl) (- 1) (color_fg s) (color_bg s)) s)
      else (row, s))"
  by auto
termination by (relation "measure (\<lambda>(topl, botl, row, s). nat (topl - row))") auto

function wrap_right :: "int \<Rightarrow> int \<Rightarrow> int \<times> int" where
  "wrap_right row col = (if col \<ge> ncols then wrap_right (row + 1) (col - ncols) else (row, col))"
  by auto
termination by (relation "measure (\<lambda>(row, col). nat col)") (auto simp: ncols_80)

function wrap_bottom :: "int \<Rightarrow> int \<Rightarrow> int \<Rightarrow> terminal \<Rightarrow> int \<times> terminal" where
  "wrap_bottom topl botl row s =
     (if row > botl
      then wrap_bottom topl botl (row - 1)
        (on_fb (framebuf_scroll_region (of_int topl) (of_int botl) 1 (color_fg s) (color_bg s)) s)
      else (row, s))"
  by auto
termination by (relation "measure (\<lambda>(topl, botl, row, s). nat (row - botl))") auto

declare wrap_left.simps [simp del] wrap_top.simps [simp del] wrap_right.simps [simp del]
  wrap_bottom.simps [simp del]

definition move_cursor_wrap :: "int \<Rightarrow> int \<Rightarrow> terminal \<Rightarrow> terminal" where
  "move_cursor_wrap row col s =
     (if row \<noteq> cursor_row s \<or> col \<noteq> cursor_col s
      then (let top_limit = scroll_region_start s;
                bottom_limit = scroll_region_end s;
                (row, col) = wrap_left row col;
                (row, s) = wrap_top top_limit bottom_limit row s;
                (row, col) = wrap_right row col;
                (row, s) = wrap_bottom top_limit bottom_limit row s
            in load_cur_attr (s\<lparr>cursor_row := row, cursor_col := col, cursor_eol := False\<rparr>))
      else s)"

definition move_cursor_within_region :: "int \<Rightarrow> int \<Rightarrow> int \<Rightarrow> int \<Rightarrow> terminal \<Rightarrow> terminal" where
  "move_cursor_within_region row col top_limit bottom_limit s =
     (if row \<noteq> cursor_row s \<or> col \<noteq> cursor_col s
      then (let col = (if col < 0 then 0 else if col \<ge> ncols then ncols - 1 else col);
                row = (if row < top_limit then top_limit
                       else if row > bottom_limit then bottom_limit else row)
            in load_cur_attr (s\<lparr>cursor_row := row, cursor_col := col, cursor_eol := False\<rparr>))
      else s)"

definition move_cursor_limited :: "int \<Rightarrow> int \<Rightarrow> terminal \<Rightarrow> terminal" where
  "move_cursor_limited row col s =
     (if cursor_row s \<ge> scroll_region_start s \<and> cursor_row s \<le> scroll_region_end s
      then move_cursor_within_region row col (scroll_region_start s) (scroll_region_end s) s
      else s)"

definition init_cursor :: "int \<Rightarrow> int \<Rightarrow> terminal \<Rightarrow> terminal" where
  "init_cursor row col s =
     move_cursor_within_region row col 0 (nrows - 1) (s\<lparr>cursor_row := - 1, cursor_col := - 1\<rparr>)"

section \<open>Printing\<close>

text \<open>The three framebuffer calls that both printers make at the cursor.\<close>

definition put_at_cursor :: "u8 \<Rightarrow> terminal \<Rightarrow> terminal" where
  "put_at_cursor c s =
     (let col = of_int (cursor_col s); row = of_int (cursor_row s)
      in on_fb (framebuf_set_char col row c)
          (on_fb (framebuf_set_attr col row (attr s))
            (on_fb (framebuf_set_color col row (color_fg s) (color_bg s)) s)))"

text \<open>The steps of \<open>print_char_vt\<close>, in its order.\<close>

definition pending_wrap :: "terminal \<Rightarrow> terminal" where
  "pending_wrap s =
     (if cursor_eol s then (move_cursor_wrap (cursor_row s + 1) 0 s)\<lparr>cursor_eol := False\<rparr> else s)"

definition open_cell :: "terminal \<Rightarrow> terminal" where
  "open_cell s =
     (if insert_mode s
      then on_fb (framebuf_insert (of_int (cursor_col s)) (of_int (cursor_row s)) 1
                   (color_fg s) (color_bg s)) s
      else s)"

definition vt_glyph :: "u8 \<Rightarrow> terminal \<Rightarrow> u8" where
  "vt_glyph c s =
     (let bold = (attr s AND ATTR_BOLD \<noteq> 0)
      in if cur_charset s = CS_TEXT_UK \<and> c = 35 then font_map_graphics_char 125 bold
         else if cur_charset s = CS_GRAPHICS then font_map_graphics_char c bold else c)"

definition advance_cursor :: "terminal \<Rightarrow> terminal" where
  "advance_cursor s =
     (if auto_wrap_mode s \<and> cursor_col s = ncols - 1
      then s\<lparr>cur_attr := attr s, cursor_eol := True\<rparr>
      else init_cursor (cursor_row s) (cursor_col s + 1) s)"

definition print_char_vt :: "u8 \<Rightarrow> terminal \<Rightarrow> terminal" where
  "print_char_vt c s =
     (let s = open_cell (pending_wrap s) in advance_cursor (put_at_cursor (vt_glyph c s) s))"

definition print_char_petscii :: "u8 \<Rightarrow> terminal \<Rightarrow> terminal" where
  "print_char_petscii c s =
     (let s = put_at_cursor c s; row = cursor_row s; col = cursor_col s
      in move_cursor_wrap row (col + 1) (s\<lparr>cursor_row := - 1, cursor_col := - 1\<rparr>))"

definition terminal_reset :: "terminal \<Rightarrow> terminal" where
  "terminal_reset s = s\<lparr>
     saved_col := 0, saved_row := 0, cursor_shown := True,
     color_fg := config_get_terminal_default_fg, color_bg := config_get_terminal_default_bg,
     scroll_region_start := 0, scroll_region_end := nrows - 1,
     origin_mode := False, cursor_eol := False, auto_wrap_mode := True, insert_mode := False,
     cursor_key_mode := False, vt52_mode := False,
     attr := config_get_terminal_default_attr, saved_attr := 0,
     charset_G0 := CS_TEXT_US, charset_G1 := CS_GRAPHICS,
     saved_charset_G0 := CS_TEXT_US, saved_charset_G1 := CS_GRAPHICS,
     charset := PtrG0, tabs := memset0 (nat ncols) (tabs s),
     localecho := config_get_terminal_localecho \<noteq> 0,
     petscii_lower_case_charset := True\<rparr>"

definition terminal_clear_screen :: "terminal \<Rightarrow> terminal" where
  "terminal_clear_screen s =
     (init_cursor 0 0 (on_fb (framebuf_fill_screen 32 (color_fg s) (color_bg s)) s))
       \<lparr>scroll_region_start := 0, scroll_region_end := nrows - 1, origin_mode := False\<rparr>"

section \<open>Sending\<close>

definition send_char :: "(u8 \<Rightarrow> terminal \<Rightarrow> terminal) \<Rightarrow> u8 \<Rightarrow> terminal \<Rightarrow> terminal" where
  "send_char echo c s =
     (let s = s\<lparr>t_keyq := serial_send_char c (t_keyq s)\<rparr>
      in if localecho s then echo c s else s)"

text \<open>\<open>terminal_receive_string\<close> over the receiver of one character.\<close>

primrec receive_string :: "(u8 \<Rightarrow> terminal \<Rightarrow> terminal) \<Rightarrow> u8 list \<Rightarrow> terminal \<Rightarrow> terminal" where
  "receive_string rx [] s = s"
| "receive_string rx (c # cs) s = (if c \<noteq> 0 then receive_string rx cs (rx c s) else s)"

definition send_string :: "(u8 \<Rightarrow> terminal \<Rightarrow> terminal) \<Rightarrow> u8 list \<Rightarrow> terminal \<Rightarrow> terminal" where
  "send_string echo str s =
     (let s = s\<lparr>t_keyq := serial_send_string str (t_keyq s)\<rparr>
      in if localecho s then receive_string echo str s else s)"

section \<open>Control characters and text\<close>

definition process_rubout :: "u8 \<Rightarrow> terminal \<Rightarrow> terminal" where
  "process_rubout c s =
     (let mode = (if c = 8 then config_get_terminal_bs else config_get_terminal_del)
      in if mode > 0
         then (let top_limit = (if origin_mode s then scroll_region_start s else 0);
                   s = (if cursor_row s > top_limit
                        then move_cursor_wrap (cursor_row s) (cursor_col s - 1) s
                        else move_cursor_limited (cursor_row s) (cursor_col s - 1) s)
               in if mode = 2
                  then (let col = of_int (cursor_col s); row = of_int (cursor_row s)
                        in (on_fb (framebuf_set_attr col row 0) (on_fb (framebuf_set_char col row 32) s))
                             \<lparr>cur_attr := 0\<rparr>)
                  else s)
         else s)"

function tab_right :: "u8 arr \<Rightarrow> int \<Rightarrow> int" where
  "tab_right tb col = (if col < ncols - 1 \<and> tb (nat col) = 0 then tab_right tb (col + 1) else col)"
  by auto
termination by (relation "measure (\<lambda>(tb, col). nat (ncols - 1 - col))") auto

declare tab_right.simps [simp del]

definition process_newline :: "u8 \<Rightarrow> terminal \<Rightarrow> terminal" where
  "process_newline c s =
     (let m = (if c = 13 then config_get_terminal_cr else config_get_terminal_lf)
      in if m = 1 then move_cursor_wrap (cursor_row s) 0 s
         else if m = 2 then move_cursor_wrap (cursor_row s + 1) (cursor_col s) s
         else if m = 3 then move_cursor_wrap (cursor_row s + 1) 0 s
         else s)"

definition terminal_process_text :: "(u8 \<Rightarrow> terminal \<Rightarrow> terminal) \<Rightarrow> u8 \<Rightarrow> terminal \<Rightarrow> terminal" where
  "terminal_process_text echo c s =
     (if c = 5 then send_string echo config_get_terminal_answerback s
      else if c = 7 then
        on_fb (framebuf_flash_screen (ucast config_get_visual_bell_color) config_get_visual_bell_duration) s
      else if c = 8 \<or> c = 127 then process_rubout c s
      else if c = 9 then move_cursor_limited (cursor_row s) (tab_right (tabs s) (cursor_col s + 1)) s
      else if c = 10 \<or> c = 11 \<or> c = 12 \<or> c = 13 then process_newline c s
      else if c = 14 then s\<lparr>charset := PtrG1\<rparr>
      else if c = 15 then s\<lparr>charset := PtrG0\<rparr>
      else if c \<ge> 32 then print_char_vt c s
      else s)"

end
