(* ===== verification/TermCommand.thy ===== *)
theory TermCommand
  imports Terminal
begin

text \<open>
  \<open>terminal_process_command\<close> of \<open>term/terminal.c\<close>: one definition per branch of its
  \<open>if ... else if\<close> chain, and the chain.  \<open>params\<close> is the memory the pointer argument
  points to.
\<close>

abbreviation cur_col8 :: "terminal \<Rightarrow> u8" where "cur_col8 s \<equiv> of_int (cursor_col s)"
abbreviation cur_row8 :: "terminal \<Rightarrow> u8" where "cur_row8 s \<equiv> of_int (cursor_row s)"
abbreviation ncols8 :: u8 where "ncols8 \<equiv> framebuf_get_ncols"
abbreviation nrows8 :: u8 where "nrows8 \<equiv> framebuf_get_nrows"

text \<open>\<open>MAX(1, params[0])\<close>, and the limits that depend on the origin mode.\<close>

definition count_param :: "u8 \<Rightarrow> int" where "count_param p = max 1 (uint p)"

definition top_of :: "terminal \<Rightarrow> int" where
  "top_of s = (if origin_mode s then scroll_region_start s else 0)"

definition bottom_of :: "terminal \<Rightarrow> int" where
  "bottom_of s = (if origin_mode s then scroll_region_end s else nrows - 1)"

definition cmd_save :: "terminal \<Rightarrow> terminal" where
  "cmd_save s = s\<lparr>saved_row := cursor_row s, saved_col := cursor_col s, saved_eol := cursor_eol s,
     saved_origin_mode := origin_mode s, saved_fg := color_fg s, saved_bg := color_bg s,
     saved_attr := attr s, saved_charset_G0 := charset_G0 s, saved_charset_G1 := charset_G1 s\<rparr>"

definition cmd_restore :: "terminal \<Rightarrow> terminal" where
  "cmd_restore s =
     (let s = move_cursor_limited (saved_row s) (saved_col s) s
      in s\<lparr>origin_mode := saved_origin_mode s, cursor_eol := saved_eol s, color_fg := saved_fg s,
           color_bg := saved_bg s, attr := saved_attr s, charset_G0 := saved_charset_G0 s,
           charset_G1 := saved_charset_G1 s\<rparr>)"

text \<open>
  Set and reset mode, \<open>l\<close> and \<open>h\<close>.  The \<open>case 1049\<close> is kept as written: its two nested calls
  are \<open>terminal_process_command(0, 's', 0, NULL)\<close> and \<open>(0, 'u', 0, NULL)\<close>, the two definitions
  above.
\<close>

definition cmd_mode :: "bool \<Rightarrow> u8 \<Rightarrow> (nat \<Rightarrow> u8) \<Rightarrow> terminal \<Rightarrow> terminal" where
  "cmd_mode enabled start_char params s =
     (let p = uint (params 0)
      in if start_char = 63 then
           (if p = 1 then s\<lparr>cursor_key_mode := enabled\<rparr>
            else if p = 2 then (if \<not> enabled then (terminal_reset s)\<lparr>vt52_mode := True\<rparr> else s)
            else if p = 3 then terminal_clear_screen s
            else if p = 4 then s
            else if p = 5 then on_fb (framebuf_set_screen_inverted enabled) s
            else if p = 6 then
              (let s = s\<lparr>origin_mode := enabled\<rparr> in move_cursor_limited (scroll_region_start s) 0 s)
            else if p = 7 then s\<lparr>auto_wrap_mode := enabled\<rparr>
            else if p = 1049 then
              (if enabled then terminal_clear_screen (cmd_save s)
               else cmd_restore (terminal_clear_screen s))
            else if p = 25 then s\<lparr>cursor_shown := enabled\<rparr>
            else s)
         else if start_char = 0 then
           (if p = 4 then s\<lparr>insert_mode := enabled\<rparr> else s)
         else s)"

definition clear_row_attrs :: "int \<Rightarrow> int \<Rightarrow> terminal \<Rightarrow> terminal" where
  "clear_row_attrs lo hi = on_fb (fold (\<lambda>i. framebuf_set_row_attr (of_int i) 0) [lo .. hi - 1])"

definition cmd_erase_display :: "(nat \<Rightarrow> u8) \<Rightarrow> terminal \<Rightarrow> terminal" where
  "cmd_erase_display params s =
     load_cur_attr
       (if params 0 = 0 then
          on_fb (framebuf_fill_region (cur_col8 s) (cur_row8 s) (ncols8 - 1) (nrows8 - 1) 32 (color_fg s) (color_bg s))
            (clear_row_attrs (cursor_row s) nrows s)
        else if params 0 = 1 then
          on_fb (framebuf_fill_region 0 0 (cur_col8 s) (cur_row8 s) 32 (color_fg s) (color_bg s))
            (clear_row_attrs 0 (cursor_row s) s)
        else if params 0 = 2 then
          on_fb (framebuf_fill_region 0 0 (ncols8 - 1) (nrows8 - 1) 32 (color_fg s) (color_bg s))
            (clear_row_attrs 0 nrows s)
        else s)"

definition cmd_erase_line :: "(nat \<Rightarrow> u8) \<Rightarrow> terminal \<Rightarrow> terminal" where
  "cmd_erase_line params s =
     load_cur_attr
       (if params 0 = 0 then
          on_fb (framebuf_fill_region (cur_col8 s) (cur_row8 s) (ncols8 - 1) (cur_row8 s) 32 (color_fg s) (color_bg s)) s
        else if params 0 = 1 then
          on_fb (framebuf_fill_region 0 (cur_row8 s) (cur_col8 s) (cur_row8 s) 32 (color_fg s) (color_bg s)) s
        else if params 0 = 2 then
          on_fb (framebuf_fill_region 0 (cur_row8 s) (ncols8 - 1) (cur_row8 s) 32 (color_fg s) (color_bg s)) s
        else s)"

text \<open>The cursor motions \<open>A B C a D j E e F k d G `\<close> and \<open>H f\<close>.\<close>

definition cmd_motion :: "u8 \<Rightarrow> (nat \<Rightarrow> u8) \<Rightarrow> terminal \<Rightarrow> terminal" where
  "cmd_motion final_char params s =
     (let n = count_param (params 0); row = cursor_row s; col = cursor_col s
      in if final_char = 65 then move_cursor_limited (row - n) col s
         else if final_char = 66 then move_cursor_limited (row + n) col s
         else if final_char = 67 \<or> final_char = 97 then move_cursor_limited row (col + n) s
         else if final_char = 68 \<or> final_char = 106 then move_cursor_limited row (col - n) s
         else if final_char = 69 \<or> final_char = 101 then move_cursor_limited (row + n) 0 s
         else if final_char = 70 \<or> final_char = 107 then move_cursor_limited (row - n) 0 s
         else if final_char = 100 then move_cursor_limited (n - 1) col s
         else move_cursor_limited row (n - 1) s)"

definition cmd_position :: "u8 \<Rightarrow> (nat \<Rightarrow> u8) \<Rightarrow> terminal \<Rightarrow> terminal" where
  "cmd_position num_params params s =
     move_cursor_within_region (top_of s + count_param (params 0) - 1)
       (if num_params < 2 then 0 else count_param (params 1) - 1) (top_of s) (bottom_of s) s"

text \<open>The inner loop of \<open>Z\<close>, and the outer loops of \<open>I\<close> and \<open>Z\<close>.\<close>

function tab_left :: "u8 arr \<Rightarrow> int \<Rightarrow> int" where
  "tab_left tb col = (if col > 0 \<and> tb (nat col) = 0 then tab_left tb (col - 1) else col)"
  by auto
termination by (relation "measure (\<lambda>(tb, col). nat col)") auto

declare tab_left.simps [simp del]

function tab_forward :: "u8 arr \<Rightarrow> int \<Rightarrow> int \<Rightarrow> int" where
  "tab_forward tb n col =
     (if n > 0 \<and> col < ncols - 1 then tab_forward tb (n - 1) (tab_right tb col) else col)"
  by auto
termination by (relation "measure (\<lambda>(tb, n, col). nat n)") auto

function tab_back :: "u8 arr \<Rightarrow> int \<Rightarrow> int \<Rightarrow> int" where
  "tab_back tb n col =
     (if n > 0 \<and> col > 0 then tab_back tb (n - 1) (tab_left tb col) else col)"
  by auto
termination by (relation "measure (\<lambda>(tb, n, col). nat n)") auto

declare tab_forward.simps [simp del] tab_back.simps [simp del]

definition cmd_tab_forward :: "(nat \<Rightarrow> u8) \<Rightarrow> terminal \<Rightarrow> terminal" where
  "cmd_tab_forward params s =
     move_cursor_limited (cursor_row s)
       (tab_forward (tabs s) (count_param (params 0)) (cursor_col s + 1)) s"

definition cmd_tab_back :: "(nat \<Rightarrow> u8) \<Rightarrow> terminal \<Rightarrow> terminal" where
  "cmd_tab_back params s =
     move_cursor_limited (cursor_row s)
       (tab_back (tabs s) (count_param (params 0)) (cursor_col s - 1)) s"

definition cmd_lines :: "u8 \<Rightarrow> (nat \<Rightarrow> u8) \<Rightarrow> terminal \<Rightarrow> terminal" where
  "cmd_lines final_char params s =
     (let n = count_param (params 0)
      in load_cur_attr
           (on_fb (framebuf_scroll_region (cur_row8 s) (of_int (bottom_of s))
               (of_int (if final_char = 77 then n else - n)) (color_fg s) (color_bg s)) s))"

definition cmd_insert_chars :: "(nat \<Rightarrow> u8) \<Rightarrow> terminal \<Rightarrow> terminal" where
  "cmd_insert_chars params s =
     load_cur_attr (on_fb (framebuf_insert (cur_col8 s) (cur_row8 s) (of_int (count_param (params 0)))
       (color_fg s) (color_bg s)) s)"

definition cmd_delete_chars :: "(nat \<Rightarrow> u8) \<Rightarrow> terminal \<Rightarrow> terminal" where
  "cmd_delete_chars params s =
     load_cur_attr (on_fb (framebuf_delete (cur_col8 s) (cur_row8 s) (of_int (count_param (params 0)))
       (color_fg s) (color_bg s)) s)"

text \<open>\<open>while( n-- )\<close> runs with \<open>n\<close> equal to \<open>n - 1, ..., 1, 0\<close>.\<close>

definition cmd_scroll :: "u8 \<Rightarrow> (nat \<Rightarrow> u8) \<Rightarrow> terminal \<Rightarrow> terminal" where
  "cmd_scroll final_char params s =
     (let topl = of_int (top_of s); botl = of_int (bottom_of s); n = count_param (params 0)
      in load_cur_attr
           (on_fb (fold (\<lambda>n. framebuf_scroll_region topl botl
                (of_int (if final_char = 83 then n else - n)) (color_fg s) (color_bg s)) (rev [0 .. n - 1])) s))"

definition cmd_tab_clear :: "(nat \<Rightarrow> u8) \<Rightarrow> terminal \<Rightarrow> terminal" where
  "cmd_tab_clear params s =
     (if params 0 = 0 then s\<lparr>tabs := (tabs s)(nat (cursor_col s) := 0)\<rparr>
      else if params 0 = 3 then s\<lparr>tabs := memset0 (nat ncols) (tabs s)\<rparr>
      else s)"

text \<open>One round of the SGR loop, with the next index, and the loop.\<close>

definition sgr_step :: "u8 \<Rightarrow> (nat \<Rightarrow> u8) \<Rightarrow> nat \<Rightarrow> terminal \<Rightarrow> nat \<times> terminal" where
  "sgr_step num_params params i s =
     (let p = uint (params i)
      in if p = 0 then (i + 1, s\<lparr>color_fg := config_get_terminal_default_fg,
             color_bg := config_get_terminal_default_bg, attr := config_get_terminal_default_attr\<rparr>)
         else if p = 1 then (i + 1, s\<lparr>attr := attr s OR ATTR_BOLD\<rparr>)
         else if p = 2 then (i + 1, s\<lparr>attr := attr s AND NOT ATTR_BOLD\<rparr>)
         else if p = 3 then (i + 1, s\<lparr>attr := attr s OR ATTR_INVERSE\<rparr>)
         else if p = 23 then (i + 1, s\<lparr>attr := attr s AND NOT ATTR_INVERSE\<rparr>)
         else if p = 4 then (i + 1, s\<lparr>attr := attr s OR ATTR_UNDERLINE\<rparr>)
         else if p = 5 then (i + 1, s\<lparr>attr := attr s OR ATTR_BLINK\<rparr>)
         else if p = 7 then (i + 1, s\<lparr>attr := attr s OR ATTR_INVERSE\<rparr>)
         else if p = 22 then (i + 1, s\<lparr>attr := attr s AND NOT ATTR_BOLD\<rparr>)
         else if p = 24 then (i + 1, s\<lparr>attr := attr s AND NOT ATTR_UNDERLINE\<rparr>)
         else if p = 25 then (i + 1, s\<lparr>attr := attr s AND NOT ATTR_BLINK\<rparr>)
         else if p = 27 then (i + 1, s\<lparr>attr := attr s AND NOT ATTR_INVERSE\<rparr>)
         else if p \<ge> 90 \<and> p \<le> 97 then (i + 1, s\<lparr>color_fg := of_int (p - 90 + 8)\<rparr>)
         else if p \<ge> 100 \<and> p \<le> 107 then (i + 1, s\<lparr>color_bg := of_int (p - 100 + 8)\<rparr>)
         else if p \<ge> 30 \<and> p \<le> 37 then (i + 1, s\<lparr>color_fg := of_int (p - 30)\<rparr>)
         else if p = 38 \<and> unat num_params \<ge> i + 2 \<and> params (i + 1) = 5
         then (i + 3, s\<lparr>color_fg := params (i + 2) AND 15\<rparr>)
         else if p = 39 then (i + 1, s\<lparr>color_fg := config_get_terminal_default_fg\<rparr>)
         else if p \<ge> 40 \<and> p \<le> 47 then (i + 1, s\<lparr>color_bg := of_int (p - 40)\<rparr>)
         else if p = 48 \<and> unat num_params \<ge> i + 2 \<and> params (i + 1) = 5
         then (i + 3, s\<lparr>color_bg := params (i + 2) AND 15\<rparr>)
         else if p = 49 then (i + 1, s\<lparr>color_bg := config_get_terminal_default_bg\<rparr>)
         else (i + 1, s))"

lemma sgr_step_advances: "i < fst (sgr_step n params i s)"
  by (auto simp: sgr_step_def Let_def)

function sgr_loop :: "u8 \<Rightarrow> (nat \<Rightarrow> u8) \<Rightarrow> nat \<Rightarrow> terminal \<Rightarrow> terminal" where
  "sgr_loop num_params params i s =
     (if i < unat num_params
      then sgr_loop num_params params (fst (sgr_step num_params params i s))
             (snd (sgr_step num_params params i s))
      else s)"
  by auto
termination
proof (relation "measure (\<lambda>(n, params, i, s). unat n - i)")
  fix n :: u8 and params i and s :: terminal
  assume "i < unat n"
  then show "((n, params, fst (sgr_step n params i s), snd (sgr_step n params i s)), n, params, i, s)
      \<in> measure (\<lambda>(n, params, i, s). unat n - i)"
    using sgr_step_advances [of i n params s] by (cases "sgr_step n params i s") simp
qed simp

declare sgr_loop.simps [simp del]

definition cmd_attributes :: "u8 \<Rightarrow> (nat \<Rightarrow> u8) \<Rightarrow> terminal \<Rightarrow> terminal" where
  "cmd_attributes num_params params s = sgr_loop num_params params 0 s"

definition cmd_region :: "u8 \<Rightarrow> (nat \<Rightarrow> u8) \<Rightarrow> terminal \<Rightarrow> terminal" where
  "cmd_region num_params params s =
     (let s = (if num_params = 2 \<and> params 1 > params 0
               then s\<lparr>scroll_region_start := max (uint (params 0)) 1 - 1,
                      scroll_region_end := min (uint (params 1)) nrows - 1\<rparr>
               else if params 0 = 0
               then s\<lparr>scroll_region_start := 0, scroll_region_end := nrows - 1\<rparr>
               else s)
      in move_cursor_within_region (scroll_region_start s) 0 (scroll_region_start s) (scroll_region_end s) s)"

text \<open>\<open>%u\<close> of \<open>snprintf\<close> and the two reports of \<open>n\<close>; the buffer has 20 bytes.\<close>

function udec :: "nat \<Rightarrow> u8 list" where
  "udec n = (if n < 10 then [of_nat (48 + n)] else udec (n div 10) @ [of_nat (48 + n mod 10)])"
  by auto
termination by (relation "measure id") auto

declare udec.simps [simp del]

definition cursor_report :: "terminal \<Rightarrow> u8 list" where
  "cursor_report s =
     take 19 ([27, 91] @ udec (unat (of_int (cursor_row s - top_of s + 1) :: u32)) @ [59] @
              udec (unat (of_int (cursor_col s + 1) :: u32)) @ [82])"

definition cmd_report :: "(u8 \<Rightarrow> terminal \<Rightarrow> terminal) \<Rightarrow> (nat \<Rightarrow> u8) \<Rightarrow> terminal \<Rightarrow> terminal" where
  "cmd_report echo params s =
     (if params 0 = 5 then send_string echo [27, 91, 48, 110] s
      else if params 0 = 6 then send_string echo (cursor_report s) s
      else s)"

definition cmd_identify :: "(u8 \<Rightarrow> terminal \<Rightarrow> terminal) \<Rightarrow> terminal \<Rightarrow> terminal" where
  "cmd_identify echo s = send_string echo [27, 91, 63, 54, 99] s"

definition terminal_process_command ::
  "(u8 \<Rightarrow> terminal \<Rightarrow> terminal) \<Rightarrow> u8 \<Rightarrow> u8 \<Rightarrow> u8 \<Rightarrow> (nat \<Rightarrow> u8) \<Rightarrow> terminal \<Rightarrow> terminal" where
  "terminal_process_command echo start_char final_char num_params params s =
     (if final_char = 108 \<or> final_char = 104 then cmd_mode (final_char = 104) start_char params s
      else if final_char = 74 then cmd_erase_display params s
      else if final_char = 75 then cmd_erase_line params s
      else if final_char \<in> {65, 66, 67, 97, 68, 106, 69, 101, 70, 107, 100, 71, 96}
      then cmd_motion final_char params s
      else if final_char = 72 \<or> final_char = 102 then cmd_position num_params params s
      else if final_char = 73 then cmd_tab_forward params s
      else if final_char = 90 then cmd_tab_back params s
      else if final_char = 76 \<or> final_char = 77 then cmd_lines final_char params s
      else if final_char = 64 then cmd_insert_chars params s
      else if final_char = 80 then cmd_delete_chars params s
      else if final_char = 83 \<or> final_char = 84 then cmd_scroll final_char params s
      else if final_char = 103 then cmd_tab_clear params s
      else if final_char = 109 then cmd_attributes num_params params s
      else if final_char = 114 then cmd_region num_params params s
      else if final_char = 115 then cmd_save s
      else if final_char = 117 then cmd_restore s
      else if final_char = 99 then cmd_identify echo s
      else if final_char = 110 then cmd_report echo params s
      else s)"

end
