(* ===== verification/Petscii.thy ===== *)
theory Petscii
  imports TermCommand
begin

text \<open>
  \<open>terminal_receive_char_petscii\<close> of \<open>term/terminal.c\<close>.  The shipped settings fix the
  terminal type to VT102, so the receiver never selects it; it is modelled with the rest of
  the engine.
\<close>

text \<open>The code after the first \<open>if\<close>.\<close>

definition petscii_fold :: "u8 \<Rightarrow> u8" where
  "petscii_fold c =
     (if \<not> keyboard_russian_mode \<and> c \<ge> 192
      then (if c \<le> 223 then c - 96 else if c \<le> 254 then c - 64 else if c = 255 then 126 else c)
      else c)"

text \<open>The glyph of a control code in quote or insert mode, 0 for none.\<close>

definition petscii_quoted :: "bool \<Rightarrow> bool \<Rightarrow> u8 \<Rightarrow> u8" where
  "petscii_quoted lower quote c =
     (if c < 32 \<and> c \<noteq> 13 \<and> (\<not> quote \<or> c \<noteq> 20) then
        (if c = 27 then 0x5B else if c = 28 then 0x9A else if c = 29 then 0x5D
         else if c = 30 then 0x98 else if c = 31 then 0x99
         else if lower then c + 96 else c + 64)
      else if c \<ge> 128 \<and> c < 160 \<and> (quote \<or> c \<noteq> 148) then
        (if c = 155 then 0x9B else if c = 156 then 0x9C else if c = 157 then 0x9D
         else if c = 158 then (if lower then 0x9E else 0xCE)
         else if c = 159 then (if lower then 0x9F else 0xDF)
         else if lower then c - 64 else c + 64)
      else 0)"

text \<open>The two loops that rewrite the screen when the character set changes.\<close>

definition map_screen :: "(u8 \<Rightarrow> u8) \<Rightarrow> fb \<Rightarrow> fb" where
  "map_screen f s =
     fold (\<lambda>row. fold (\<lambda>col s. framebuf_set_char (of_int col) (of_int row)
             (f (framebuf_get_char (of_int col) (of_int row) s)) s) [0 .. ncols - 1])
          [0 .. nrows - 1] s"

definition petscii_to_lower :: "u8 \<Rightarrow> u8" where
  "petscii_to_lower c =
     (if c \<ge> 65 \<and> c \<le> 90 then c + 32
      else if c \<ge> 65 + 128 \<and> c \<le> 90 + 128 then c - 128
      else if c = 0xDE \<or> c = 0xDF \<or> c = 0xE9 \<or> c = 0xFA then c - 64 else c)"

definition petscii_to_upper :: "u8 \<Rightarrow> u8" where
  "petscii_to_upper c =
     (if c \<ge> 97 \<and> c \<le> 122 then c - 32
      else if c \<ge> 65 \<and> c \<le> 90 then c + 128
      else if c = 0x9E \<or> c = 0x9F \<or> c = 0xA9 \<or> c = 0xBA then c + 64 else c)"

text \<open>The cases that only set \<open>color_fg\<close>.\<close>

definition petscii_color :: "u8 \<Rightarrow> u8 option" where
  "petscii_color c = map_of
     [(5, 1), (28, 2), (30, 5), (31, 6), (129, 8), (144, 0), (149, 9), (150, 10), (151, 11),
      (152, 12), (153, 13), (154, 14), (155, 15), (156, 4), (158, 7), (159, 3)] c"

text \<open>The translation of a printable code, the \<open>default\<close> case.\<close>

definition petscii_glyph :: "bool \<Rightarrow> u8 \<Rightarrow> u8" where
  "petscii_glyph lower c =
     (if c \<ge> 65 \<and> c \<le> 90 \<and> lower then c + 32
      else if c \<ge> 97 \<and> c \<le> 122 then (if lower then c - 32 else c + 96)
      else if c \<ge> 149 \<and> c \<le> 191 \<and> c \<noteq> 169 \<and> c \<noteq> 186 then c + 64
      else if c \<ge> 133 \<and> c \<le> 140 then 0
      else if c = 92 then 0x9A else if c = 94 then 0x98 else if c = 95 then 0x99
      else if c = 96 then 0xC0 else if c = 123 then 0x9B else if c = 124 then 0x9C
      else if c = 125 then 0x9D
      else if c = 126 then (if lower then 0x9E else 0xDE)
      else if c = 127 then (if lower then 0x9F else 0xDF)
      else if c = 169 then (if lower then 0xA9 else 0xE9)
      else if c = 186 then (if lower then 0xBA else 0xFA)
      else c)"

definition dec_inserted :: "terminal \<Rightarrow> terminal" where
  "dec_inserted s = (if inserted s > 0 then s\<lparr>inserted := inserted s - 1\<rparr> else s)"

definition petscii_newline :: "u8 \<Rightarrow> terminal \<Rightarrow> terminal" where
  "petscii_newline c s =
     (let m = (if c = 10 then config_get_terminal_lf else config_get_terminal_cr);
          s = (if m = 1 then move_cursor_wrap (cursor_row s) 0 s
               else if m = 2 then move_cursor_wrap (cursor_row s + 1) (cursor_col s) s
               else if m = 3 then move_cursor_wrap (cursor_row s + 1) 0 s else s)
      in if c \<noteq> 10 then s\<lparr>inserted := 0, quoteMode := False, attr := attr s AND NOT ATTR_INVERSE\<rparr>
         else s)"

definition petscii_action :: "u8 \<Rightarrow> terminal \<Rightarrow> terminal" where
  "petscii_action c s =
     (if petscii_color c \<noteq> None then s\<lparr>color_fg := the (petscii_color c)\<rparr>
      else if c = 10 \<or> c = 13 \<or> c = 141 then petscii_newline c s
      else if c = 14 then on_fb (map_screen petscii_to_lower) (s\<lparr>petscii_lower_case_charset := True\<rparr>)
      else if c = 17 then move_cursor_wrap (cursor_row s + 1) (cursor_col s) s
      else if c = 18 then s\<lparr>attr := attr s OR ATTR_INVERSE\<rparr>
      else if c = 19 then move_cursor_wrap 0 0 s
      else if c = 20 then
        (if cursor_col s > 0 \<or> cursor_row s > 0
         then (let s = move_cursor_wrap (cursor_row s) (cursor_col s - 1) s
               in load_cur_attr (on_fb (framebuf_delete (cur_col8 s) (cur_row8 s) 1 (color_fg s) (color_bg s)) s))
         else s)
      else if c = 29 then move_cursor_wrap (cursor_row s) (cursor_col s + 1) s
      else if c = 142 then on_fb (map_screen petscii_to_upper) (s\<lparr>petscii_lower_case_charset := False\<rparr>)
      else if c = 145 then move_cursor_limited (cursor_row s - 1) (cursor_col s) s
      else if c = 146 then s\<lparr>attr := attr s AND NOT ATTR_INVERSE\<rparr>
      else if c = 147 then terminal_clear_screen s
      else if c = 148 then
        (let s = load_cur_attr (on_fb (framebuf_insert (cur_col8 s) (cur_row8 s) 1 (color_fg s) (color_bg s)) s)
         in s\<lparr>inserted := inserted s + 1\<rparr>)
      else if c = 157 then
        (if cursor_row s > 0 then move_cursor_wrap (cursor_row s) (cursor_col s - 1) s
         else move_cursor_limited (cursor_row s) (cursor_col s - 1) s)
      else (let c = petscii_glyph (petscii_lower_case_charset s) c
            in dec_inserted (if c > 0 then print_char_petscii c s else s)))"

definition terminal_receive_char_petscii :: "u8 \<Rightarrow> terminal \<Rightarrow> terminal" where
  "terminal_receive_char_petscii c s =
     (let c = petscii_fold c;
          s = (if c = 34 then s\<lparr>quoteMode := \<not> quoteMode s\<rparr> else s);
          cc = (if quoteMode s \<or> inserted s > 0
                then petscii_quoted (petscii_lower_case_charset s) (quoteMode s) c else 0)
      in if cc > 0
         then (dec_inserted (print_char_petscii cc (s\<lparr>attr := attr s OR ATTR_INVERSE\<rparr>)))\<lparr>attr := attr s\<rparr>
         else petscii_action c s)"

end
