(* ===== verification/TermReceive.thy ===== *)
theory TermReceive
  imports Petscii
begin

text \<open>
  The three character parsers of \<open>term/terminal.c\<close>, the receiver, the keyboard side and start-up.

  The static variables of each parser are fields of the state.  \<open>rom\<close> is the memory at address
  0, which the source reads when it passes \<open>NULL\<close> for \<open>params\<close> (\<open>ESC J\<close>, \<open>ESC K\<close>).
  \<open>rx_with echo\<close> is \<open>terminal_receive_char\<close> with its recursive call, the local echo of what it
  sends, as the argument \<open>echo\<close>; \<open>terminal_receive_char\<close> unrolls it.
\<close>

section \<open>VT102\<close>

definition ROW_ATTR_DBL_WIDTH :: u8 where "ROW_ATTR_DBL_WIDTH = 0x01"
definition ROW_ATTR_DBL_HEIGHT_TOP :: u8 where "ROW_ATTR_DBL_HEIGHT_TOP = 0x02"
definition ROW_ATTR_DBL_HEIGHT_BOT :: u8 where "ROW_ATTR_DBL_HEIGHT_BOT = 0x04"

definition vt102_escape ::
  "(nat \<Rightarrow> u8) \<Rightarrow> (u8 \<Rightarrow> terminal \<Rightarrow> terminal) \<Rightarrow> u8 \<Rightarrow> terminal \<Rightarrow> terminal" where
  "vt102_escape rom echo c s =
     (let s = s\<lparr>terminal_state := TS_NORMAL\<rparr>
      in if c = 91 then s\<lparr>vt_start_char := 0, vt_num_params := 1,
             vt_params := (vt_params s)(0 := 0), terminal_state := TS_STARTCHAR\<rparr>
         else if c = 35 then s\<lparr>terminal_state := TS_HASH\<rparr>
         else if c = 27 then print_char_vt c s
         else if c = 99 then terminal_reset s
         else if c = 55 then terminal_process_command echo 0 115 0 rom s
         else if c = 56 then terminal_process_command echo 0 117 0 rom s
         else if c = 72 then s\<lparr>tabs := (tabs s)(nat (cursor_col s) := 1)\<rparr>
         else if c = 74 then terminal_process_command echo 0 74 0 rom s
         else if c = 75 then terminal_process_command echo 0 75 0 rom s
         else if c = 68 then move_cursor_wrap (cursor_row s + 1) (cursor_col s) s
         else if c = 69 then move_cursor_wrap (cursor_row s + 1) 0 s
         else if c = 73 then move_cursor_wrap (cursor_row s - 1) 0 s
         else if c = 77 then move_cursor_wrap (cursor_row s - 1) (cursor_col s) s
         else if c \<in> {40, 41, 43, 42} then s\<lparr>vt_start_char := c, terminal_state := TS_READCHAR\<rparr>
         else s)"

definition vt102_param :: "(u8 \<Rightarrow> terminal \<Rightarrow> terminal) \<Rightarrow> u8 \<Rightarrow> terminal \<Rightarrow> terminal" where
  "vt102_param echo c s =
     (let last = unat (vt_num_params s) - 1
      in if c \<ge> 48 \<and> c \<le> 57
         then s\<lparr>vt_params := (vt_params s)(last := vt_params s last * 10 + (c - 48)),
                terminal_state := TS_READPARAM\<rparr>
         else if c = 59
         then (let s = s\<lparr>vt_num_params := vt_num_params s + 1\<rparr>
               in if vt_num_params s > 16 then s\<lparr>terminal_state := TS_NORMAL\<rparr>
                  else s\<lparr>vt_params := (vt_params s)(unat (vt_num_params s) - 1 := 0),
                         terminal_state := TS_READPARAM\<rparr>)
         else if terminal_state s = TS_STARTCHAR \<and> (c = 63 \<or> c = 35)
         then s\<lparr>vt_start_char := c, terminal_state := TS_READPARAM\<rparr>
         else (terminal_process_command echo (vt_start_char s) c (vt_num_params s) (vt_params s) s)
                \<lparr>terminal_state := TS_NORMAL\<rparr>)"

definition vt102_hash :: "u8 \<Rightarrow> terminal \<Rightarrow> terminal" where
  "vt102_hash c s =
     (let row_attr = (\<lambda>a. on_fb (framebuf_set_row_attr (cur_row8 s) a) s);
          s = (if c = 51 then row_attr (ROW_ATTR_DBL_WIDTH OR ROW_ATTR_DBL_HEIGHT_TOP)
               else if c = 52 then row_attr (ROW_ATTR_DBL_WIDTH OR ROW_ATTR_DBL_HEIGHT_BOT)
               else if c = 53 then row_attr 0
               else if c = 54 then row_attr ROW_ATTR_DBL_WIDTH
               else if c = 56 then
                 load_cur_attr (on_fb (framebuf_fill_region 0 (of_int (top_of s)) (ncols8 - 1)
                   (of_int (bottom_of s)) 69 (color_fg s) (color_bg s)) s)
               else s)
      in s\<lparr>terminal_state := TS_NORMAL\<rparr>)"

definition vt102_charset :: "u8 \<Rightarrow> terminal \<Rightarrow> terminal" where
  "vt102_charset c s =
     (let s = (if vt_start_char s = 40 then s\<lparr>charset_G0 := get_charset c\<rparr>
               else if vt_start_char s = 41 then s\<lparr>charset_G1 := get_charset c\<rparr> else s)
      in s\<lparr>terminal_state := TS_NORMAL\<rparr>)"

definition terminal_receive_char_vt102 ::
  "(nat \<Rightarrow> u8) \<Rightarrow> (u8 \<Rightarrow> terminal \<Rightarrow> terminal) \<Rightarrow> u8 \<Rightarrow> terminal \<Rightarrow> terminal" where
  "terminal_receive_char_vt102 rom echo c s =
     (if terminal_state s \<noteq> TS_NORMAL \<and> (c = 8 \<or> c = 10 \<or> c = 13) then terminal_process_text echo c s
      else if terminal_state s \<noteq> TS_NORMAL \<and> c = 11 then s\<lparr>terminal_state := TS_READCHAR\<rparr>
      else case terminal_state s of
          TS_NORMAL \<Rightarrow> if c = 27 then s\<lparr>terminal_state := TS_WAITBRACKET\<rparr> else terminal_process_text echo c s
        | TS_WAITBRACKET \<Rightarrow> vt102_escape rom echo c s
        | TS_STARTCHAR \<Rightarrow> vt102_param echo c s
        | TS_READPARAM \<Rightarrow> vt102_param echo c s
        | TS_HASH \<Rightarrow> vt102_hash c s
        | TS_READCHAR \<Rightarrow> vt102_charset c s)"

section \<open>VT52\<close>

definition vt52_escape :: "(u8 \<Rightarrow> terminal \<Rightarrow> terminal) \<Rightarrow> u8 \<Rightarrow> terminal \<Rightarrow> terminal" where
  "vt52_escape echo c s =
     (let s = s\<lparr>terminal_state := TS_NORMAL\<rparr>; row = cursor_row s; col = cursor_col s;
          fill = (\<lambda>c0 r0 c1 r1. on_fb (framebuf_fill_region c0 r0 c1 r1 32 (color_fg s) (color_bg s)) s)
      in if c = 65 then move_cursor_limited (row - 1) col s
         else if c = 66 then move_cursor_limited (row + 1) col s
         else if c = 67 then move_cursor_limited row (col + 1) s
         else if c = 68 then move_cursor_limited row (col - 1) s
         else if c = 69 then
           move_cursor_limited 0 0 (on_fb (framebuf_fill_screen 32 (color_fg s) (color_bg s)) s)
         else if c = 72 then move_cursor_limited 0 0 s
         else if c = 73 then move_cursor_wrap (row - 1) col s
         else if c = 74 then load_cur_attr (fill (cur_col8 s) (cur_row8 s) (ncols8 - 1) (nrows8 - 1))
         else if c = 75 then load_cur_attr (fill (cur_col8 s) (cur_row8 s) (ncols8 - 1) (cur_row8 s))
         else if c = 76 \<or> c = 77 then
           load_cur_attr (on_fb (framebuf_scroll_region (cur_row8 s) (nrows8 - 1)
             (if c = 77 then 1 else - 1) (color_fg s) (color_bg s)) s)
         else if c = 89 then s\<lparr>v52_start_char := c, v52_row := 0, terminal_state := TS_READPARAM\<rparr>
         else if c = 90 then send_string echo [27, 47, 75] s
         else if c = 98 \<or> c = 99 then s\<lparr>v52_start_char := c, terminal_state := TS_READPARAM\<rparr>
         else if c = 100 then init_cursor col row (fill 0 0 (cur_col8 s) (cur_row8 s))
         else if c = 106 then s\<lparr>saved_col := col, saved_row := row\<rparr>
         else if c = 107 then move_cursor_limited (saved_row s) (saved_col s) s
         else if c = 108 then init_cursor 0 row (fill 0 (cur_row8 s) (ncols8 - 1) (cur_row8 s))
         else if c = 111 then fill 0 (cur_row8 s) (cur_col8 s) (cur_row8 s)
         else if c = 112 then on_fb (framebuf_set_screen_inverted True) s
         else if c = 113 then on_fb (framebuf_set_screen_inverted False) s
         else if c = 118 then s\<lparr>auto_wrap_mode := True\<rparr>
         else if c = 119 then s\<lparr>auto_wrap_mode := False\<rparr>
         else if c = 60 then (terminal_reset s)\<lparr>vt52_mode := False\<rparr>
         else s)"

definition vt52_param :: "u8 \<Rightarrow> terminal \<Rightarrow> terminal" where
  "vt52_param c s =
     (if v52_start_char s = 89 then
        (if v52_row s = 0 then s\<lparr>v52_row := c\<rparr>
         else (if v52_row s \<ge> 32 \<and> c \<ge> 32
               then move_cursor_limited (uint (v52_row s) - 32) (uint c - 32) s else s)
                \<lparr>terminal_state := TS_NORMAL\<rparr>)
      else if v52_start_char s = 98 \<and> c \<ge> 32 then s\<lparr>color_fg := (c - 32) AND 15\<rparr>
      else if v52_start_char s = 99 \<and> c \<ge> 32 then s\<lparr>color_bg := (c - 32) AND 15\<rparr>
      else s)"

definition terminal_receive_char_vt52 ::
  "(u8 \<Rightarrow> terminal \<Rightarrow> terminal) \<Rightarrow> u8 \<Rightarrow> terminal \<Rightarrow> terminal" where
  "terminal_receive_char_vt52 echo c s =
     (case terminal_state s of
        TS_NORMAL \<Rightarrow> if c = 27 then s\<lparr>terminal_state := TS_STARTCHAR\<rparr> else terminal_process_text echo c s
      | TS_STARTCHAR \<Rightarrow> vt52_escape echo c s
      | TS_READPARAM \<Rightarrow> vt52_param c s
      | _ \<Rightarrow> s)"

section \<open>The receiver\<close>

definition rx_with ::
  "(nat \<Rightarrow> u8) \<Rightarrow> (u8 \<Rightarrow> terminal \<Rightarrow> terminal) \<Rightarrow> u8 \<Rightarrow> terminal \<Rightarrow> terminal" where
  "rx_with rom echo c s =
     (let c = (if config_get_terminal_clearBit7 then c AND 0x7f else c)
      in case config_get_terminal_type of
           CFG_TTYPE_VT102 \<Rightarrow>
             if \<not> vt52_mode s then terminal_receive_char_vt102 rom echo c s
             else terminal_receive_char_vt52 echo c s
         | CFG_TTYPE_VT52 \<Rightarrow> terminal_receive_char_vt52 echo c s
         | CFG_TTYPE_PETSCII \<Rightarrow> terminal_receive_char_petscii c s)"

text \<open>
  Two levels of echo; \<open>TermEcho\<close> proves that the third, the identity here, is never reached,
  and that this is the only function satisfying the source's recursion.
\<close>

definition terminal_receive_char :: "(nat \<Rightarrow> u8) \<Rightarrow> u8 \<Rightarrow> terminal \<Rightarrow> terminal" where
  "terminal_receive_char rom = rx_with rom (rx_with rom (\<lambda>c s. s))"

definition terminal_receive_string :: "(nat \<Rightarrow> u8) \<Rightarrow> u8 list \<Rightarrow> terminal \<Rightarrow> terminal" where
  "terminal_receive_string rom = receive_string (terminal_receive_char rom)"

section \<open>The keyboard\<close>

definition KEY_BACKSPACE :: u8 where "KEY_BACKSPACE = 0x08"
definition KEY_ENTER :: u8 where "KEY_ENTER = 0x0d"
definition KEY_DELETE :: u8 where "KEY_DELETE = 0x7f"
definition KEY_UP :: u8 where "KEY_UP = 0x80"
definition KEY_DOWN :: u8 where "KEY_DOWN = 0x81"
definition KEY_LEFT :: u8 where "KEY_LEFT = 0x82"
definition KEY_RIGHT :: u8 where "KEY_RIGHT = 0x83"
definition KEY_INSERT :: u8 where "KEY_INSERT = 0x84"
definition KEY_HOME :: u8 where "KEY_HOME = 0x85"
definition KEY_F1 :: u8 where "KEY_F1 = 0x8c"
definition HID_KEY_PAUSE :: u16 where "HID_KEY_PAUSE = 0xF0"
definition HID_KEY_F10 :: u16 where "HID_KEY_F10 = 0xF1"
definition HID_KEY_Z :: u16 where "HID_KEY_Z = 0xF2"

lemmas key_defs = KEY_BACKSPACE_def KEY_ENTER_def KEY_DELETE_def KEY_UP_def KEY_DOWN_def
  KEY_LEFT_def KEY_RIGHT_def KEY_INSERT_def KEY_HOME_def KEY_F1_def HID_KEY_PAUSE_def
  HID_KEY_F10_def HID_KEY_Z_def

definition send_cursor_sequence :: "(nat \<Rightarrow> u8) \<Rightarrow> u8 \<Rightarrow> terminal \<Rightarrow> terminal" where
  "send_cursor_sequence rom c s =
     (let send = send_char (terminal_receive_char rom)
      in if config_get_terminal_type = CFG_TTYPE_VT52 \<or> vt52_mode s then send c (send 27 s)
         else if cursor_key_mode s then send c (send 79 (send 27 s))
         else send c (send 91 (send 27 s)))"

definition is_alpha :: "u8 \<Rightarrow> bool" where
  "is_alpha c \<longleftrightarrow> 65 \<le> c \<and> c \<le> 90 \<or> 97 \<le> c \<and> c \<le> 122"

definition to_upper :: "u8 \<Rightarrow> u8" where
  "to_upper c = (if 97 \<le> c \<and> c \<le> 122 then c - 32 else c)"

definition terminal_process_key_vt :: "(nat \<Rightarrow> u8) \<Rightarrow> u16 \<Rightarrow> terminal \<Rightarrow> terminal" where
  "terminal_process_key_vt rom key s =
     (let send = send_char (terminal_receive_char rom); c = fst (keyboard_map_key_ascii key);
          erase = (\<lambda>m. if m = 0 then send 0x08 s else if m = 1 then send 0x7f s
                       else if m = 2 then send 0x5f s else s)
      in if keyboard_russian_mode \<and> c \<ge> 128 then send c s
         else if c = KEY_UP then send_cursor_sequence rom 65 s
         else if c = KEY_DOWN then send_cursor_sequence rom 66 s
         else if c = KEY_RIGHT then send_cursor_sequence rom 67 s
         else if c = KEY_LEFT then send_cursor_sequence rom 68 s
         else if KEY_F1 \<le> c \<and> c \<le> KEY_F1 + 3 then
           (let s = send 27 s;
                s = (if config_get_terminal_type = CFG_TTYPE_VT102 \<and> \<not> vt52_mode s then send 79 s else s)
            in send (80 + (c - KEY_F1)) s)
         else if c = KEY_ENTER then
           (let m = config_get_keyboard_enter
            in if m = 0 then send 0x0d s else if m = 1 then send 0x0a s
               else if m = 2 then send 0x0a (send 0x0d s)
               else if m = 3 then send 0x0d (send 0x0a s) else s)
         else if c = KEY_BACKSPACE then erase config_get_keyboard_backspace
         else if c = KEY_DELETE then erase config_get_keyboard_delete
         else if c = KEY_INSERT then
           terminal_receive_string rom (if insert_mode s then [27, 91, 52, 108] else [27, 91, 52, 104]) s
         else if c = KEY_HOME then
           terminal_receive_string rom
             (if mod_shift (t_mods s) then [27, 91, 50, 74, 27, 91, 72] else [27, 91, 72]) s
         else send (if config_get_terminal_uppercase \<and> is_alpha c then to_upper c else c) s)"

definition petscii_gfx :: "u8 list" where
  "petscii_gfx = [176, 191, 188, 172, 177, 187, 165, 180, 162, 181, 161, 182, 167,
     170, 185, 175, 171, 178, 174, 163, 184, 190, 179, 189, 183, 173]"

definition terminal_process_key_petscii :: "(nat \<Rightarrow> u8) \<Rightarrow> u16 \<Rightarrow> terminal \<Rightarrow> terminal" where
  "terminal_process_key_petscii rom key s =
     (let send = send_char (terminal_receive_char rom);
          (c, isaltcode) = keyboard_map_key_ascii key;
          shift = mod_shift (t_mods s); ctrl = mod_ctrl (t_mods s); alt = mod_alt (t_mods s)
      in if isaltcode then send c s
         else if keyboard_russian_mode \<and> c \<ge> 128 then send c s
         else (let cc =
             (if c = KEY_UP then 145 else if c = KEY_DOWN then 17 else if c = KEY_RIGHT then 29
              else if c = KEY_LEFT then 157 else if c = KEY_ENTER then 13
              else if c = KEY_HOME then (if shift then 147 else 19)
              else if c = KEY_BACKSPACE then 20 else if c = KEY_DELETE then 20
              else if c = KEY_INSERT then 148
              else if c = KEY_F1 then 133 else if c = KEY_F1 + 1 then 137
              else if c = KEY_F1 + 2 then 134 else if c = KEY_F1 + 3 then 138
              else if c = KEY_F1 + 4 then 135 else if c = KEY_F1 + 5 then 139
              else if c = KEY_F1 + 6 then 136 else if c = KEY_F1 + 7 then 140
              else if c = 96 then 95 else if c = 92 then 94 else if c = 124 then 126
              else if c = 95 then 123 else if c = 123 then 186 else if c = 125 then 192
              else if c = 45 then (if alt then 126 else c)
              else if c = 91 then (if alt then 164 else c)
              else if c = 93 then (if alt then 223 else c)
              else if alt \<and> c \<ge> 97 \<and> c \<le> 122 then petscii_gfx ! unat (c - 97)
              else if ctrl \<and> c \<ge> 48 \<and> c \<le> 57
              then [146, 144, 5, 28, 159, 156, 30, 31, 158, 18] ! unat (c - 48)
              else if alt \<and> c \<ge> 49 \<and> c \<le> 56
              then [129, 149, 150, 151, 152, 153, 154, 155] ! unat (c - 49)
              else if ctrl \<and> shift \<and> key AND 0xFF = HID_KEY_Z
              then (if petscii_lower_case_charset s then 142 else 14)
              else if c \<ge> 97 \<and> c \<le> 122 then c - 32
              else if c \<ge> 65 \<and> c \<le> 90 then c + 128
              else c)
            in if cc > 0 then send cc s else s))"

text \<open>The BREAK condition and the beep end in empty functions of \<open>term_compat.c\<close>.\<close>

definition terminal_process_key :: "(nat \<Rightarrow> u8) \<Rightarrow> u16 \<Rightarrow> terminal \<Rightarrow> terminal" where
  "terminal_process_key rom key s =
     (if key AND 0xFF = HID_KEY_PAUSE then
        (if mod_ctrl (t_mods s)
         then send_string (terminal_receive_char rom) config_get_terminal_answerback s else s)
      else if key = HID_KEY_F10 then s\<lparr>localecho := \<not> localecho s\<rparr>
      else if config_get_terminal_type = CFG_TTYPE_PETSCII then terminal_process_key_petscii rom key s
      else terminal_process_key_vt rom key s)"

section \<open>Start-up\<close>

definition terminal_init :: "terminal \<Rightarrow> terminal" where
  "terminal_init s = terminal_clear_screen (terminal_reset s)"

definition terminal_apply_settings :: "terminal \<Rightarrow> terminal" where
  "terminal_apply_settings = terminal_init"

end
