(* ===== verification/TermInv.thy ===== *)
theory TermInv
  imports TermReceive
begin

text \<open>
  The invariant of the terminal engine and its memory safety: whatever bytes arrive and
  whatever keys are pressed, the cursor stays on the screen, the parameter index stays inside
  \<open>params\<close>, and nothing outside the five arrays is written.
\<close>

section \<open>The invariant\<close>

definition wf_rest :: "terminal \<Rightarrow> bool" where
  "wf_rest s \<longleftrightarrow>
     0 \<le> saved_col s \<and> saved_col s < 80 \<and> 0 \<le> saved_row s \<and> saved_row s < 25 \<and>
     0 \<le> scroll_region_start s \<and> 0 \<le> scroll_region_end s \<and> scroll_region_end s < 25 \<and>
     (\<not> vt52_mode s \<and> (terminal_state s = TS_STARTCHAR \<or> terminal_state s = TS_READPARAM) \<longrightarrow>
        1 \<le> unat (vt_num_params s) \<and> unat (vt_num_params s) \<le> 16) \<and>
     keyq_ok (t_keyq s)"

definition on_screen :: "terminal \<Rightarrow> bool" where
  "on_screen s \<longleftrightarrow> 0 \<le> cursor_col s \<and> cursor_col s < 80 \<and> 0 \<le> cursor_row s \<and> cursor_row s < 25"

definition term_wf :: "terminal \<Rightarrow> bool" where
  "term_wf s \<longleftrightarrow> wf_rest s \<and> on_screen s"

text \<open>Nothing outside \<open>cellbuf\<close>, \<open>row_attr\<close>, \<open>tabs\<close>, \<open>params\<close> and \<open>keyq\<close> differs.\<close>

definition term_frame :: "terminal \<Rightarrow> terminal \<Rightarrow> bool" where
  "term_frame s s' \<longleftrightarrow> fb_frame (t_fb s) (t_fb s') \<and>
     (\<forall>i. 255 \<le> i \<longrightarrow> tabs s' i = tabs s i) \<and>
     (\<forall>i. 16 \<le> i \<longrightarrow> vt_params s' i = vt_params s i) \<and>
     (\<forall>i. KEYQ_SIZE \<le> i \<longrightarrow> kq_data (t_keyq s') i = kq_data (t_keyq s) i)"

definition term_step :: "terminal \<Rightarrow> terminal \<Rightarrow> bool" where
  "term_step s s' \<longleftrightarrow> (term_wf s \<longrightarrow> term_wf s' \<and> term_frame s s')"

lemma term_frame_refl [simp, intro]: "term_frame s s"
  by (simp add: term_frame_def)

lemma term_frame_trans: "term_frame a b \<Longrightarrow> term_frame b c \<Longrightarrow> term_frame a c"
  by (auto simp: term_frame_def intro: fb_frame_trans)

lemma term_step_refl [simp, intro]: "term_step s s"
  by (simp add: term_step_def)

lemma term_step_trans: "term_step a b \<Longrightarrow> term_step b c \<Longrightarrow> term_step a c"
  by (auto simp: term_step_def intro: term_frame_trans)

lemma term_stepI: "(term_wf s \<Longrightarrow> term_wf s' \<and> term_frame s s') \<Longrightarrow> term_step s s'"
  by (simp add: term_step_def)

lemma term_step_if: "(b \<Longrightarrow> term_step s x) \<Longrightarrow> (\<not> b \<Longrightarrow> term_step s y) \<Longrightarrow> term_step s (if b then x else y)"
  by simp

text \<open>Updates of fields the invariant does not read.\<close>

lemmas inv_defs = term_wf_def wf_rest_def on_screen_def term_frame_def

lemma term_step_fields [wf_intros]:
  "term_step s (s\<lparr>color_fg := a\<rparr>)" "term_step s (s\<lparr>color_bg := a\<rparr>)" "term_step s (s\<lparr>attr := a\<rparr>)"
  "term_step s (s\<lparr>cur_attr := a\<rparr>)" "term_step s (s\<lparr>cursor_shown := b\<rparr>)"
  "term_step s (s\<lparr>origin_mode := b\<rparr>)" "term_step s (s\<lparr>cursor_eol := b\<rparr>)"
  "term_step s (s\<lparr>auto_wrap_mode := b\<rparr>)" "term_step s (s\<lparr>localecho := b\<rparr>)"
  "term_step s (s\<lparr>insert_mode := b\<rparr>)" "term_step s (s\<lparr>cursor_key_mode := b\<rparr>)"
  "term_step s (s\<lparr>petscii_lower_case_charset := b\<rparr>)" "term_step s (s\<lparr>charset := p\<rparr>)"
  "term_step s (s\<lparr>charset_G0 := a\<rparr>)" "term_step s (s\<lparr>charset_G1 := a\<rparr>)"
  "term_step s (s\<lparr>inserted := a\<rparr>)" "term_step s (s\<lparr>quoteMode := b\<rparr>)"
  "term_step s (s\<lparr>v52_row := a\<rparr>)" "term_step s (s\<lparr>v52_start_char := a\<rparr>)"
  "term_step s (s\<lparr>terminal_state := TS_NORMAL\<rparr>)" "term_step s (s\<lparr>terminal_state := TS_WAITBRACKET\<rparr>)"
  "term_step s (s\<lparr>terminal_state := TS_HASH\<rparr>)" "term_step s (s\<lparr>terminal_state := TS_READCHAR\<rparr>)"
  "term_step s (s\<lparr>t_mods := m\<rparr>)" "term_step s (s\<lparr>vt_start_char := a\<rparr>)"
  by (simp_all add: term_step_def inv_defs)

lemma term_step_on_fb [wf_intros]: "(\<And>b. fb_frame b (f b)) \<Longrightarrow> term_step s (on_fb f s)"
  by (simp add: term_step_def inv_defs on_fb_def)

lemma load_cur_attr_step [wf_intros]: "term_step s (load_cur_attr s)"
  unfolding load_cur_attr_def by (rule wf_intros)

section \<open>Cursor motions\<close>

lemma wrap_left_range:
  "wrap_left row col = (row', col') \<Longrightarrow> 0 \<le> col' \<and> (col < 80 \<longrightarrow> col' < 80)"
  by (induction row col arbitrary: row' col' rule: wrap_left.induct)
    (subst (asm) wrap_left.simps, auto simp: ncols_80 split: if_splits)

lemma wrap_right_range:
  "wrap_right row col = (row', col') \<Longrightarrow> 0 \<le> col \<Longrightarrow> 0 \<le> col' \<and> col' < 80 \<and> row \<le> row'"
proof (induction row col arbitrary: row' col' rule: wrap_right.induct)
  case (1 row col)
  show ?case
  proof (cases "col \<ge> ncols")
    case True
    then have "wrap_right (row + 1) (col - ncols) = (row', col')"
      using "1.prems" wrap_right.simps [of row col] by simp
    from "1.IH" [OF True this] True show ?thesis by (simp add: ncols_80)
  next
    case False
    then show ?thesis using "1.prems" wrap_right.simps [of row col] by (simp add: ncols_80)
  qed
qed

lemma wrap_top_spec:
  "\<exists>b. wrap_top topl botl row s = (max row topl, s\<lparr>t_fb := b\<rparr>) \<and> fb_frame (t_fb s) b"
proof (induction topl botl row s rule: wrap_top.induct)
  case (1 topl botl row s)
  show ?case
  proof (cases "row < topl")
    case True
    let ?f = "framebuf_scroll_region (of_int topl) (of_int botl) (- 1) (color_fg s) (color_bg s)"
    obtain b where b: "wrap_top topl botl (row + 1) (on_fb ?f s) = (max (row + 1) topl, (on_fb ?f s)\<lparr>t_fb := b\<rparr>)"
      "fb_frame (t_fb (on_fb ?f s)) b" using "1.IH" [OF True] by blast
    have "fb_frame (t_fb s) (t_fb (on_fb ?f s))" by (simp add: on_fb_def frame_scroll_region)
    with b(2) have "fb_frame (t_fb s) b" by (rule fb_frame_trans [rotated])
    moreover have "wrap_top topl botl row s = (max row topl, s\<lparr>t_fb := b\<rparr>)"
      using True b(1) by (subst wrap_top.simps) (simp add: on_fb_def)
    ultimately show ?thesis by blast
  next
    case False
    then show ?thesis by (subst wrap_top.simps) (auto intro!: exI [of _ "t_fb s"])
  qed
qed

lemma wrap_bottom_spec:
  "\<exists>b. wrap_bottom topl botl row s = (min row botl, s\<lparr>t_fb := b\<rparr>) \<and> fb_frame (t_fb s) b"
proof (induction topl botl row s rule: wrap_bottom.induct)
  case (1 topl botl row s)
  show ?case
  proof (cases "row > botl")
    case True
    let ?f = "framebuf_scroll_region (of_int topl) (of_int botl) 1 (color_fg s) (color_bg s)"
    obtain b where b: "wrap_bottom topl botl (row - 1) (on_fb ?f s) = (min (row - 1) botl, (on_fb ?f s)\<lparr>t_fb := b\<rparr>)"
      "fb_frame (t_fb (on_fb ?f s)) b" using "1.IH" [OF True] by blast
    have "fb_frame (t_fb s) (t_fb (on_fb ?f s))" by (simp add: on_fb_def frame_scroll_region)
    with b(2) have "fb_frame (t_fb s) b" by (rule fb_frame_trans [rotated])
    moreover have "wrap_bottom topl botl row s = (min row botl, s\<lparr>t_fb := b\<rparr>)"
      using True b(1) by (subst wrap_bottom.simps) (simp add: on_fb_def)
    ultimately show ?thesis by blast
  next
    case False
    then show ?thesis by (subst wrap_bottom.simps) (auto intro!: exI [of _ "t_fb s"])
  qed
qed

text \<open>The cursor lands on the screen from any target, also when it starts at \<open>(-1, -1)\<close>.\<close>

lemma wf_rest_update_cursor [simp]:
  "wf_rest (s\<lparr>t_fb := b, cursor_row := r, cursor_col := c, cursor_eol := e\<rparr>) = wf_rest s"
  "wf_rest (s\<lparr>cursor_row := r, cursor_col := c, cursor_eol := e\<rparr>) = wf_rest s"
  "wf_rest (s\<lparr>cursor_row := r, cursor_col := c\<rparr>) = wf_rest s"
  "wf_rest (load_cur_attr s) = wf_rest s" "wf_rest (s\<lparr>t_fb := b\<rparr>) = wf_rest s"
  by (simp_all add: wf_rest_def load_cur_attr_def)

lemma load_cur_attr_inv [simp]:
  "on_screen (load_cur_attr s) = on_screen s" "term_frame a (load_cur_attr s) = term_frame a s"
  by (simp_all add: on_screen_def term_frame_def load_cur_attr_def)

lemma move_cursor_wrap_wf:
  assumes "wf_rest s" "row \<noteq> cursor_row s \<or> col \<noteq> cursor_col s \<or> on_screen s"
  shows "term_wf (move_cursor_wrap row col s) \<and> term_frame s (move_cursor_wrap row col s)"
proof (cases "row \<noteq> cursor_row s \<or> col \<noteq> cursor_col s")
  case True
  let ?t = "scroll_region_start s" and ?b = "scroll_region_end s"
  obtain row1 col1 where l: "wrap_left row col = (row1, col1)" by fastforce
  obtain b1 where t: "wrap_top ?t ?b row1 s = (max row1 ?t, s\<lparr>t_fb := b1\<rparr>)" "fb_frame (t_fb s) b1"
    using wrap_top_spec by blast
  obtain row2 col2 where r: "wrap_right (max row1 ?t) col1 = (row2, col2)" by fastforce
  obtain b2 where b: "wrap_bottom ?t ?b row2 (s\<lparr>t_fb := b1\<rparr>) = (min row2 ?b, (s\<lparr>t_fb := b1\<rparr>)\<lparr>t_fb := b2\<rparr>)"
      "fb_frame (t_fb (s\<lparr>t_fb := b1\<rparr>)) b2"
    using wrap_bottom_spec by blast
  have eq: "move_cursor_wrap row col s =
      load_cur_attr (s\<lparr>t_fb := b2, cursor_row := min row2 ?b, cursor_col := col2, cursor_eol := False\<rparr>)"
    using True l t(1) r b(1) by (simp add: move_cursor_wrap_def Let_def)
  have "0 \<le> col1" using wrap_left_range [OF l] by simp
  then have "0 \<le> col2" "col2 < 80" "max row1 ?t \<le> row2" using wrap_right_range [OF r] by auto
  moreover have "0 \<le> ?t" "0 \<le> ?b" "?b < 25" using assms(1) by (auto simp: wf_rest_def)
  moreover have "fb_frame (t_fb s) b2" using t(2) b(2) by (auto intro: fb_frame_trans)
  ultimately show ?thesis
    using assms(1) unfolding eq by (simp add: term_wf_def) (simp add: on_screen_def term_frame_def min_less_iff_disj)
next
  case False
  then show ?thesis using assms by (simp add: move_cursor_wrap_def term_wf_def)
qed

lemma move_cursor_wrap_step [wf_intros]: "term_step s (move_cursor_wrap row col s)"
  by (rule term_stepI) (simp add: move_cursor_wrap_wf term_wf_def [of s])

lemma move_cursor_within_region_wf:
  assumes "wf_rest s" "row \<noteq> cursor_row s \<or> col \<noteq> cursor_col s \<or> on_screen s"
    "0 \<le> topl" "topl \<le> 24 \<or> topl \<le> row" "0 \<le> botl" "botl \<le> 24"
  shows "term_wf (move_cursor_within_region row col topl botl s) \<and>
    term_frame s (move_cursor_within_region row col topl botl s)"
proof (cases "row \<noteq> cursor_row s \<or> col \<noteq> cursor_col s")
  case True
  define col' where "col' = (if col < 0 then 0 else if col \<ge> ncols then ncols - 1 else col)"
  define row' where "row' = (if row < topl then topl else if row > botl then botl else row)"
  have eq: "move_cursor_within_region row col topl botl s =
      load_cur_attr (s\<lparr>cursor_row := row', cursor_col := col', cursor_eol := False\<rparr>)"
    using True by (simp only: move_cursor_within_region_def if_True Let_def col'_def row'_def)
  have "0 \<le> col'" "col' < 80" "0 \<le> row'" "row' < 25"
    using assms(3-) by (auto simp: col'_def row'_def ncols_80)
  then show ?thesis
    using assms(1) unfolding eq by (simp add: term_wf_def) (simp add: on_screen_def term_frame_def)
next
  case False
  then show ?thesis using assms by (simp add: move_cursor_within_region_def term_wf_def)
qed

lemma move_cursor_limited_step [wf_intros]: "term_step s (move_cursor_limited row col s)"
proof (rule term_stepI)
  assume "term_wf s"
  then have "wf_rest s" "on_screen s" "0 \<le> scroll_region_start s" "scroll_region_end s \<le> 24"
    by (auto simp: term_wf_def wf_rest_def)
  then show "term_wf (move_cursor_limited row col s) \<and> term_frame s (move_cursor_limited row col s)"
    using move_cursor_within_region_wf [of s row col "scroll_region_start s" "scroll_region_end s"]
    by (simp add: move_cursor_limited_def term_wf_def)
qed

lemma init_cursor_wf:
  assumes "wf_rest s" "0 \<le> row \<or> 0 \<le> col"
  shows "term_wf (init_cursor row col s) \<and> term_frame s (init_cursor row col s)"
proof -
  have "term_frame s (s\<lparr>cursor_row := - 1, cursor_col := - 1\<rparr>)" by (simp add: term_frame_def)
  moreover have "term_wf (init_cursor row col s) \<and>
      term_frame (s\<lparr>cursor_row := - 1, cursor_col := - 1\<rparr>) (init_cursor row col s)"
    unfolding init_cursor_def using assms
    by (intro move_cursor_within_region_wf) (auto simp: nrows_25)
  ultimately show ?thesis by (blast intro: term_frame_trans)
qed

lemma init_cursor_step [wf_intros]: "0 \<le> row \<or> 0 \<le> col \<Longrightarrow> term_step s (init_cursor row col s)"
  by (rule term_stepI) (simp add: init_cursor_wf term_wf_def [of s])

section \<open>Printing, reset and the commands that send nothing\<close>

lemma put_at_cursor_step [wf_intros]: "term_step s (put_at_cursor c s)"
proof -
  have "put_at_cursor c s = on_fb (\<lambda>b. framebuf_set_char (of_int (cursor_col s)) (of_int (cursor_row s)) c
      (framebuf_set_attr (of_int (cursor_col s)) (of_int (cursor_row s)) (attr s)
      (framebuf_set_color (of_int (cursor_col s)) (of_int (cursor_row s)) (color_fg s) (color_bg s) b))) s"
    by (simp add: put_at_cursor_def on_fb_def Let_def)
  then show ?thesis
    by (simp only: term_step_on_fb fb_frame_trans [OF fb_frame_trans [OF frame_set_color frame_set_attr] frame_set_char])
qed

lemma put_at_cursor_keeps [simp]:
  "cursor_row (put_at_cursor c s) = cursor_row s" "cursor_col (put_at_cursor c s) = cursor_col s"
  "wf_rest (put_at_cursor c s) = wf_rest s"
  by (simp_all add: put_at_cursor_def on_fb_def Let_def)

lemma pending_wrap_step [wf_intros]: "term_step s (pending_wrap s)"
  unfolding pending_wrap_def by (auto intro: term_step_trans [OF move_cursor_wrap_step] wf_intros)

lemma open_cell_step [wf_intros]: "term_step s (open_cell s)"
  unfolding open_cell_def by (auto intro!: wf_intros)

lemma advance_cursor_step [wf_intros]: "term_step s (advance_cursor s)"
proof (rule term_stepI)
  assume wf: "term_wf s"
  then have "0 \<le> cursor_row s" by (simp add: term_wf_def on_screen_def)
  then have "term_step s (init_cursor (cursor_row s) (cursor_col s + 1) s)" by (intro wf_intros) simp
  moreover have "term_step s (s\<lparr>cur_attr := attr s, cursor_eol := True\<rparr>)"
    by (simp add: term_step_def inv_defs)
  ultimately show "term_wf (advance_cursor s) \<and> term_frame s (advance_cursor s)"
    using wf by (simp add: advance_cursor_def term_step_def)
qed

lemma print_char_vt_step [wf_intros]: "term_step s (print_char_vt c s)"
  unfolding print_char_vt_def Let_def
  by (rule term_step_trans [OF term_step_trans [OF term_step_trans [OF pending_wrap_step open_cell_step]
      put_at_cursor_step] advance_cursor_step])

lemma print_char_petscii_step [wf_intros]: "term_step s (print_char_petscii c s)"
proof (rule term_stepI)
  assume wf: "term_wf s"
  define u where "u = put_at_cursor c s"
  have w: "term_wf u" "term_frame s u"
    using put_at_cursor_step [of s c] wf by (auto simp: u_def term_step_def)
  let ?v = "u\<lparr>cursor_row := - 1, cursor_col := - 1\<rparr>"
  have "cursor_row u \<noteq> - 1" using w by (simp add: term_wf_def on_screen_def)
  then have "term_wf (move_cursor_wrap (cursor_row u) (cursor_col u + 1) ?v) \<and>
      term_frame ?v (move_cursor_wrap (cursor_row u) (cursor_col u + 1) ?v)"
    using w by (intro move_cursor_wrap_wf) (auto simp: term_wf_def)
  moreover have "term_frame s ?v" using w(2) by (simp add: term_frame_def)
  ultimately show "term_wf (print_char_petscii c s) \<and> term_frame s (print_char_petscii c s)"
    by (auto simp: print_char_petscii_def Let_def u_def intro: term_frame_trans)
qed

lemma memset0_beyond: "n \<le> i \<Longrightarrow> memset0 n b i = b i"
  by (simp add: memset0_def)

lemma terminal_reset_step: "terminal_state s = TS_NORMAL \<Longrightarrow> term_step s (terminal_reset s)"
  by (auto simp: term_step_def inv_defs terminal_reset_def nrows_25 ncols_80 memset0_beyond)

lemma reset_vt52_step: "term_step s ((terminal_reset s)\<lparr>vt52_mode := True\<rparr>)"
  by (auto simp: term_step_def inv_defs terminal_reset_def nrows_25 ncols_80 memset0_beyond)

lemma terminal_clear_screen_step [wf_intros]: "term_step s (terminal_clear_screen s)"
proof -
  have "term_step s (init_cursor 0 0 (on_fb (framebuf_fill_screen 32 (color_fg s) (color_bg s)) s))"
    by (rule term_step_trans [of _ "on_fb (framebuf_fill_screen 32 (color_fg s) (color_bg s)) s"])
      (auto intro!: wf_intros)
  moreover have "term_step u (u\<lparr>scroll_region_start := 0, scroll_region_end := nrows - 1, origin_mode := False\<rparr>)" for u
    by (simp add: term_step_def inv_defs nrows_25)
  ultimately show ?thesis unfolding terminal_clear_screen_def by (rule term_step_trans)
qed

lemma process_rubout_step [wf_intros]: "term_step s (process_rubout c s)"
  by (auto simp: process_rubout_def Let_def config_defs intro!: wf_intros)

lemma process_newline_step [wf_intros]: "term_step s (process_newline c s)"
  by (auto simp: process_newline_def Let_def intro!: wf_intros)

lemma cmd_save_step [wf_intros]: "term_step s (cmd_save s)"
  by (simp add: term_step_def inv_defs cmd_save_def)

lemma cmd_restore_step [wf_intros]: "term_step s (cmd_restore s)"
proof -
  have "term_step u (u\<lparr>origin_mode := saved_origin_mode u, cursor_eol := saved_eol u, color_fg := saved_fg u,
           color_bg := saved_bg u, attr := saved_attr u, charset_G0 := saved_charset_G0 u,
           charset_G1 := saved_charset_G1 u\<rparr>)" for u
    by (simp add: term_step_def inv_defs)
  then show ?thesis unfolding cmd_restore_def Let_def by (rule term_step_trans [OF move_cursor_limited_step])
qed

lemma cmd_mode_step [wf_intros]: "term_step s (cmd_mode b start params s)"
proof -
  have "term_step s (move_cursor_limited r c (s\<lparr>origin_mode := b\<rparr>))" for r c
    by (rule term_step_trans [of _ "s\<lparr>origin_mode := b\<rparr>"]) (auto intro!: wf_intros)
  moreover have "term_step s (terminal_clear_screen (cmd_save s))"
    "term_step s (cmd_restore (terminal_clear_screen s))"
    by (blast intro: term_step_trans wf_intros)+
  ultimately show ?thesis
    unfolding cmd_mode_def Let_def by (auto intro!: wf_intros reset_vt52_step)
qed

lemma fold_fb_frame:
  assumes "\<And>i b. fb_frame b (f i b)"
  shows "fb_frame b (fold f is b)"
  by (induction "is" arbitrary: b) (auto intro: fb_frame_trans assms)

lemma clear_row_attrs_step [wf_intros]: "term_step s (clear_row_attrs lo hi s)"
  unfolding clear_row_attrs_def by (intro wf_intros fold_fb_frame)

lemma cmd_erase_display_step [wf_intros]: "term_step s (cmd_erase_display params s)"
proof -
  have "term_step s (on_fb (framebuf_fill_region a b c d 32 f g) (clear_row_attrs lo hi s))" for a b c d f g lo hi
    by (rule term_step_trans [OF clear_row_attrs_step [of _ lo hi]]) (intro wf_intros)
  then show ?thesis
    unfolding cmd_erase_display_def by (intro term_step_trans [OF _ load_cur_attr_step]) auto
qed

lemma cmd_erase_line_step [wf_intros]: "term_step s (cmd_erase_line params s)"
  unfolding cmd_erase_line_def
  by (intro term_step_trans [OF _ load_cur_attr_step]) (auto intro!: wf_intros)

lemma cmd_motion_step [wf_intros]: "term_step s (cmd_motion c params s)"
  unfolding cmd_motion_def Let_def by (auto intro!: wf_intros)

lemma region_limits:
  assumes "term_wf s"
  shows "0 \<le> top_of s" "0 \<le> bottom_of s" "bottom_of s \<le> 24"
  using assms by (auto simp: term_wf_def wf_rest_def top_of_def bottom_of_def nrows_25)

lemma cmd_position_step [wf_intros]: "term_step s (cmd_position n params s)"
proof (rule term_stepI)
  assume wf: "term_wf s"
  show "term_wf (cmd_position n params s) \<and> term_frame s (cmd_position n params s)"
    unfolding cmd_position_def using wf region_limits [OF wf]
    by (intro move_cursor_within_region_wf) (auto simp: term_wf_def count_param_def)
qed

lemma cmd_tab_step [wf_intros]:
  "term_step s (cmd_tab_forward params s)" "term_step s (cmd_tab_back params s)"
  by (simp_all add: cmd_tab_forward_def cmd_tab_back_def wf_intros)

lemma cmd_edit_step [wf_intros]:
  "term_step s (cmd_lines c params s)" "term_step s (cmd_insert_chars params s)"
  "term_step s (cmd_delete_chars params s)" "term_step s (cmd_scroll c params s)"
  unfolding cmd_lines_def cmd_insert_chars_def cmd_delete_chars_def cmd_scroll_def Let_def
  by (intro term_step_trans [OF _ load_cur_attr_step] wf_intros fold_fb_frame)+

lemma cmd_tab_clear_step [wf_intros]: "term_step s (cmd_tab_clear params s)"
  unfolding cmd_tab_clear_def
  by (auto simp: term_step_def inv_defs ncols_80 memset0_beyond)

lemma sgr_step_step: "term_step s (snd (sgr_step n params i s))"
proof -
  have "term_step s (s\<lparr>color_fg := a, color_bg := b, attr := c\<rparr>)" for a b c
    by (simp add: term_step_def inv_defs)
  then show ?thesis by (auto simp: sgr_step_def Let_def intro!: wf_intros)
qed

lemma sgr_loop_step: "term_step s (sgr_loop n params i s)"
proof (induction n params i s rule: sgr_loop.induct)
  case (1 n params i s)
  show ?case
    by (subst sgr_loop.simps) (auto intro: term_step_trans [OF sgr_step_step 1])
qed

lemma cmd_attributes_step [wf_intros]: "term_step s (cmd_attributes n params s)"
  by (simp add: cmd_attributes_def sgr_loop_step)

lemma cmd_region_step [wf_intros]: "term_step s (cmd_region n params s)"
proof -
  define u where "u = (if n = 2 \<and> params 1 > params 0
    then s\<lparr>scroll_region_start := max (uint (params 0)) 1 - 1,
           scroll_region_end := min (uint (params 1)) nrows - 1\<rparr>
    else if params 0 = 0 then s\<lparr>scroll_region_start := 0, scroll_region_end := nrows - 1\<rparr> else s)"
  have "term_step s u"
    unfolding u_def term_step_def
    by (auto simp: inv_defs nrows_25 word_less_def intro: le_less_trans [OF uint_ge_0])
  moreover have "term_step u (move_cursor_within_region (scroll_region_start u) 0
      (scroll_region_start u) (scroll_region_end u) u)"
    by (rule term_stepI, rule move_cursor_within_region_wf) (auto simp: term_wf_def wf_rest_def)
  ultimately show ?thesis unfolding cmd_region_def Let_def u_def [symmetric] by (rule term_step_trans)
qed

section \<open>Everything, over a receiver that keeps the invariant\<close>

text \<open>
  What the engine needs of its recursive call: that it keeps the invariant.  Every level of
  \<open>rx_with\<close> then provides it to the next.
\<close>

lemma serial_send_char_beyond:
  "keyq_ok q \<Longrightarrow> KEYQ_SIZE \<le> i \<Longrightarrow> kq_data (serial_send_char c q) i = kq_data q i"
  by (auto simp: serial_send_char_def Let_def keyq_ok_def)

lemma serial_send_string_ok:
  "keyq_ok q \<Longrightarrow> keyq_ok (serial_send_string cs q) \<and>
     (\<forall>i. KEYQ_SIZE \<le> i \<longrightarrow> kq_data (serial_send_string cs q) i = kq_data q i)"
  by (induction cs arbitrary: q) (auto simp: keyq_ok_send serial_send_char_beyond)

locale safe_echo =
  fixes echo :: "u8 \<Rightarrow> terminal \<Rightarrow> terminal"
  assumes echo_step: "term_step s (echo c s)"
begin

lemma receive_string_step: "term_step s (receive_string echo cs s)"
  by (induction cs arbitrary: s) (auto intro: term_step_trans [OF echo_step])

lemma send_char_step: "term_step s (send_char echo c s)"
proof -
  have "term_step s (s\<lparr>t_keyq := serial_send_char c (t_keyq s)\<rparr>)"
    by (simp add: term_step_def inv_defs keyq_ok_send serial_send_char_beyond)
  then show ?thesis
    by (auto simp: send_char_def Let_def intro: term_step_trans [OF _ echo_step])
qed

lemma send_string_step: "term_step s (send_string echo cs s)"
proof -
  have "term_step s (s\<lparr>t_keyq := serial_send_string cs (t_keyq s)\<rparr>)"
    by (simp add: term_step_def inv_defs serial_send_string_ok)
  then show ?thesis
    by (auto simp: send_string_def Let_def intro: term_step_trans [OF _ receive_string_step])
qed

lemma process_text_step: "term_step s (terminal_process_text echo c s)"
  by (auto simp: terminal_process_text_def intro!: wf_intros send_string_step)

lemma process_command_step: "term_step s (terminal_process_command echo st c n params s)"
  unfolding terminal_process_command_def cmd_identify_def cmd_report_def
  by (auto intro!: wf_intros send_string_step)

lemma vt102_escape_step: "term_step s (vt102_escape rom echo c s)"
proof -
  define u where "u = s\<lparr>terminal_state := TS_NORMAL\<rparr>"
  have n: "terminal_state u = TS_NORMAL" by (simp add: u_def)
  have start: "term_step u (u\<lparr>vt_start_char := 0, vt_num_params := 1,
      vt_params := (vt_params u)(0 := 0), terminal_state := TS_STARTCHAR\<rparr>)"
    "term_step u (u\<lparr>tabs := (tabs u)(nat (cursor_col u) := 1)\<rparr>)"
    "term_step u (u\<lparr>vt_start_char := x, terminal_state := TS_READCHAR\<rparr>)" for x
    by (auto simp: term_step_def inv_defs)
  have "term_step s u" unfolding u_def by (rule wf_intros)
  moreover have "term_step u (vt102_escape rom echo c s)"
    unfolding vt102_escape_def Let_def u_def [symmetric]
    by (auto intro!: start wf_intros process_command_step terminal_reset_step [OF n])
  ultimately show ?thesis by (rule term_step_trans)
qed

lemma vt102_param_step:
  assumes "\<not> vt52_mode s" "terminal_state s = TS_STARTCHAR \<or> terminal_state s = TS_READPARAM"
  shows "term_step s (vt102_param echo c s)"
proof -
  have "unat (vt_num_params s + 1) = unat (vt_num_params s) + 1" if "unat (vt_num_params s) \<le> 16"
    using that by (simp add: unat_word_ariths)
  then have "term_step s (vt102_param echo c s)"
    if "c \<ge> 48 \<and> c \<le> 57 \<or> c = 59 \<or> terminal_state s = TS_STARTCHAR \<and> (c = 63 \<or> c = 35)"
    using that assms
    by (auto simp: vt102_param_def Let_def term_step_def inv_defs word_less_nat_alt)
  moreover have "term_step s ((terminal_process_command echo (vt_start_char s) c (vt_num_params s) (vt_params s) s)
      \<lparr>terminal_state := TS_NORMAL\<rparr>)"
    by (rule term_step_trans [OF process_command_step]) (rule wf_intros)
  ultimately show ?thesis
    by (cases "c \<ge> 48 \<and> c \<le> 57 \<or> c = 59 \<or> terminal_state s = TS_STARTCHAR \<and> (c = 63 \<or> c = 35)")
      (auto simp: vt102_param_def Let_def)
qed

lemma vt102_hash_step: "term_step s (vt102_hash c s)"
proof -
  have "term_step s (on_fb (framebuf_set_row_attr r a) s)" for r a by (intro wf_intros)
  moreover have "term_step s (load_cur_attr (on_fb (framebuf_fill_region a b d e x f g) s))" for a b d e x f g
    by (intro term_step_trans [OF _ load_cur_attr_step] wf_intros)
  ultimately show ?thesis
    unfolding vt102_hash_def Let_def by (intro term_step_trans [OF _ term_step_fields(20)]) auto
qed

lemma vt102_charset_step: "term_step s (vt102_charset c s)"
  unfolding vt102_charset_def Let_def
  by (intro term_step_trans [OF _ term_step_fields(20)]) (auto intro!: wf_intros)

lemma receive_vt102_step:
  "\<not> vt52_mode s \<Longrightarrow> term_step s (terminal_receive_char_vt102 rom echo c s)"
  unfolding terminal_receive_char_vt102_def
  by (auto split: tstate.split intro!: wf_intros process_text_step vt102_escape_step
      vt102_param_step vt102_hash_step vt102_charset_step)

lemma vt52_escape_step:
  assumes "vt52_mode s"
  shows "term_step s (vt52_escape echo c s)"
proof -
  define u where "u = s\<lparr>terminal_state := TS_NORMAL\<rparr>"
  have n: "terminal_state u = TS_NORMAL" by (simp add: u_def)
  have fill: "term_step u (on_fb (framebuf_fill_region a b d e x f g) u)" for a b d e x f g
    by (intro wf_intros)
  have load: "term_step u (load_cur_attr (on_fb (framebuf_fill_region a b d e x f g) u))"
    "term_step u (load_cur_attr (on_fb (framebuf_scroll_region a b m f g) u))" for a b d e x f g m
    by (intro term_step_trans [OF _ load_cur_attr_step] wf_intros)+
  have init: "term_step u (init_cursor 0 r (on_fb (framebuf_fill_region a b d e x f g) u))" for r a b d e x f g
    by (rule term_step_trans [OF fill [of a b d e x f g]]) (intro wf_intros, simp)
  have init': "term_step u (init_cursor (cursor_col u) (cursor_row u) (on_fb (framebuf_fill_region a b d e x f g) u))"
    for a b d e x f g
  proof (rule term_stepI)
    assume wf: "term_wf u"
    let ?v = "on_fb (framebuf_fill_region a b d e x f g) u"
    have v: "term_wf ?v" "term_frame u ?v" using fill wf by (auto simp: term_step_def)
    have "0 \<le> cursor_col u" using wf by (simp add: term_wf_def on_screen_def)
    then have "term_step ?v (init_cursor (cursor_col u) (cursor_row u) ?v)" by (intro wf_intros) simp
    then show "term_wf (init_cursor (cursor_col u) (cursor_row u) ?v) \<and>
        term_frame u (init_cursor (cursor_col u) (cursor_row u) ?v)"
      using v by (auto simp: term_step_def intro: term_frame_trans)
  qed
  have scr: "term_step u (move_cursor_limited 0 0 (on_fb (framebuf_fill_screen 32 (color_fg u) (color_bg u)) u))"
    by (rule term_step_trans [of _ "on_fb (framebuf_fill_screen 32 (color_fg u) (color_bg u)) u"]) (auto intro!: wf_intros)
  have misc: "term_step u (u\<lparr>saved_col := cursor_col u, saved_row := cursor_row u\<rparr>)"
    "term_step u (u\<lparr>v52_start_char := x, v52_row := 0, terminal_state := TS_READPARAM\<rparr>)"
    "term_step u (u\<lparr>v52_start_char := x, terminal_state := TS_READPARAM\<rparr>)" for x
    using assms by (simp_all add: term_step_def inv_defs u_def)
  have reset: "term_step u ((terminal_reset u)\<lparr>vt52_mode := False\<rparr>)"
    by (auto simp: term_step_def inv_defs terminal_reset_def nrows_25 ncols_80 memset0_beyond n)
  have "term_step s u" unfolding u_def by (rule wf_intros)
  moreover have "term_step u (vt52_escape echo c s)"
    unfolding vt52_escape_def Let_def u_def [symmetric]
    by (auto intro!: fill load init init' scr misc reset wf_intros send_string_step)
  ultimately show ?thesis by (rule term_step_trans)
qed

lemma vt52_param_step: "term_step s (vt52_param c s)"
proof -
  have "term_step s ((if b then move_cursor_limited row col s else s)\<lparr>terminal_state := TS_NORMAL\<rparr>)" for b row col
    by (intro term_step_trans [OF _ term_step_fields(20)]) (auto intro!: wf_intros)
  then show ?thesis unfolding vt52_param_def by (auto intro!: wf_intros)
qed

lemma receive_vt52_step:
  assumes "vt52_mode s"
  shows "term_step s (terminal_receive_char_vt52 echo c s)"
proof -
  have "term_step s (s\<lparr>terminal_state := TS_STARTCHAR\<rparr>)"
    using assms by (simp add: term_step_def inv_defs)
  then show ?thesis
    unfolding terminal_receive_char_vt52_def
    by (auto split: tstate.split intro!: process_text_step vt52_escape_step [OF assms] vt52_param_step)
qed

lemma rx_with_step: "term_step s (rx_with rom echo c s)"
  by (simp add: rx_with_def config_defs Let_def receive_vt102_step receive_vt52_step)

end

section \<open>The engine\<close>

interpretation no_echo: safe_echo "\<lambda>c s. s"
  by unfold_locales simp

interpretation one_echo: safe_echo "rx_with rom (\<lambda>c s. s)" for rom
  by unfold_locales (rule no_echo.rx_with_step)

interpretation engine: safe_echo "terminal_receive_char rom" for rom
  by unfold_locales (simp add: terminal_receive_char_def one_echo.rx_with_step)

lemma send_two_step: "term_step s (send_char (terminal_receive_char rom) a (send_char (terminal_receive_char rom) b s))"
  by (rule term_step_trans [OF engine.send_char_step engine.send_char_step])

lemma send_three_step: "term_step s (send_char (terminal_receive_char rom) a
    (send_char (terminal_receive_char rom) b (send_char (terminal_receive_char rom) c s)))"
  by (rule term_step_trans [OF send_two_step engine.send_char_step])

lemma send_cursor_sequence_step: "term_step s (send_cursor_sequence rom c s)"
  unfolding send_cursor_sequence_def Let_def
  by (intro term_step_if send_two_step send_three_step)

lemma process_key_vt_step: "term_step s (terminal_process_key_vt rom key s)"
proof -
  let ?send = "send_char (terminal_receive_char rom)"
  have f: "term_step s (?send c (if b then ?send a (?send 27 s) else ?send 27 s))" for a b c
    by (cases b) (simp_all add: send_two_step send_three_step)
  show ?thesis
    unfolding terminal_process_key_vt_def Let_def terminal_receive_string_def
    by (intro term_step_if f send_two_step engine.send_char_step send_cursor_sequence_step
        engine.receive_string_step term_step_refl)
qed

lemma process_key_petscii_step: "term_step s (terminal_process_key_petscii rom key s)"
proof (cases "keyboard_map_key_ascii key")
  case (Pair c alt)
  show ?thesis
    unfolding terminal_process_key_petscii_def Let_def Pair prod.case
    by (intro term_step_if engine.send_char_step term_step_refl)
qed

lemma process_key_step: "term_step s (terminal_process_key rom key s)"
  unfolding terminal_process_key_def
  by (intro term_step_if engine.send_string_step wf_intros process_key_vt_step
      process_key_petscii_step term_step_refl)

end
