(* ===== verification/TermEcho.thy ===== *)
theory TermEcho
  imports TermInv
begin

text \<open>
  Local echo makes the receiver recursive: what the terminal sends (answer-back, status and
  cursor reports, identification) is received again, and is itself input that could send.  It
  does not: no reply contains a byte that makes a receiver in the state it meets send again.
  So the recursion of the source has exactly one solution, \<open>terminal_receive_char\<close>.
\<close>

section \<open>What printing leaves alone\<close>

definition same_mode :: "terminal \<Rightarrow> terminal \<Rightarrow> bool" where
  "same_mode s s' \<longleftrightarrow> terminal_state s' = terminal_state s \<and> vt52_mode s' = vt52_mode s"

lemma same_mode_refl [simp, intro]: "same_mode s s"
  by (simp add: same_mode_def)

lemma same_mode_trans: "same_mode a b \<Longrightarrow> same_mode b c \<Longrightarrow> same_mode a c"
  by (simp add: same_mode_def)

lemma same_mode_on_fb [simp]: "same_mode s (on_fb f u) = same_mode s u"
  by (simp add: same_mode_def on_fb_def)

lemma same_mode_load [simp]: "same_mode s (load_cur_attr u) = same_mode s u"
  by (simp add: same_mode_def load_cur_attr_def)

lemma same_mode_wrap: "same_mode s (move_cursor_wrap row col s)"
proof -
  obtain row1 col1 where l: "wrap_left row col = (row1, col1)" by fastforce
  obtain b1 where t: "wrap_top (scroll_region_start s) (scroll_region_end s) row1 s =
      (max row1 (scroll_region_start s), s\<lparr>t_fb := b1\<rparr>)" using wrap_top_spec by blast
  obtain row2 col2 where r: "wrap_right (max row1 (scroll_region_start s)) col1 = (row2, col2)" by fastforce
  obtain b2 where b: "wrap_bottom (scroll_region_start s) (scroll_region_end s) row2 (s\<lparr>t_fb := b1\<rparr>) =
      (min row2 (scroll_region_end s), (s\<lparr>t_fb := b1\<rparr>)\<lparr>t_fb := b2\<rparr>)" using wrap_bottom_spec by blast
  show ?thesis
    using l t r b by (simp add: move_cursor_wrap_def Let_def) (simp add: same_mode_def)
qed

lemma same_mode_init: "same_mode s (init_cursor row col s)"
  by (simp add: init_cursor_def move_cursor_within_region_def Let_def) (simp add: same_mode_def)

lemma same_mode_print: "same_mode s (print_char_vt c s)"
proof -
  have "same_mode s (pending_wrap s)"
    using same_mode_wrap [of s "cursor_row s + 1" 0] by (simp add: pending_wrap_def same_mode_def)
  moreover have "same_mode u (open_cell u)" for u by (simp add: open_cell_def)
  moreover have "same_mode u (put_at_cursor x u)" for x u by (simp add: put_at_cursor_def Let_def)
  moreover have "same_mode u (advance_cursor u)" for u
    using same_mode_init [of u] by (simp add: advance_cursor_def same_mode_def)
  ultimately show ?thesis
    unfolding print_char_vt_def Let_def by (meson same_mode_trans)
qed

section \<open>Bytes that send nothing\<close>

definition text_byte :: "u8 \<Rightarrow> bool" where
  "text_byte c \<longleftrightarrow> 32 \<le> c \<and> c \<noteq> 127"

lemma text_byte_prints: "text_byte c \<Longrightarrow> terminal_process_text e c s = print_char_vt c s"
  by (auto simp: terminal_process_text_def text_byte_def)

lemma text_byte_rx:
  assumes "text_byte c" "terminal_state s = TS_NORMAL"
  shows "rx_with rom e c s = print_char_vt c s"
proof -
  have "c \<noteq> 27" using assms(1) by (auto simp: text_byte_def)
  then show ?thesis
    using assms by (simp add: rx_with_def config_defs terminal_receive_char_vt102_def
        terminal_receive_char_vt52_def text_byte_prints)
qed

lemma text_string_rx:
  assumes "list_all text_byte cs" "terminal_state s = TS_NORMAL"
  shows "receive_string (rx_with rom e) cs s = fold print_char_vt cs s"
  using assms
proof (induction cs arbitrary: s)
  case (Cons c cs)
  have "terminal_state (print_char_vt c s) = TS_NORMAL"
    using same_mode_print [of s c] Cons.prems by (simp add: same_mode_def)
  moreover have "c \<noteq> 0" using Cons.prems by (auto simp: text_byte_def)
  ultimately show ?case using Cons by (simp add: text_byte_rx)
qed simp

text \<open>A reply of the VT102 side, received while the parser still reads parameters.\<close>

lemma reply_rx:
  assumes "list_all text_byte cs" "\<not> vt52_mode s"
    "terminal_state s = TS_STARTCHAR \<or> terminal_state s = TS_READPARAM"
  shows "receive_string (rx_with rom e) (27 # cs) s = fold print_char_vt cs (s\<lparr>terminal_state := TS_NORMAL\<rparr>)"
proof -
  have "rx_with rom e 27 s = s\<lparr>terminal_state := TS_NORMAL\<rparr>"
    using assms(2,3)
    by (auto simp: rx_with_def config_defs terminal_receive_char_vt102_def vt102_param_def
        terminal_process_command_def)
  then show ?thesis using text_string_rx [OF assms(1), of "s\<lparr>terminal_state := TS_NORMAL\<rparr>"] by simp
qed

lemma identify_vt52_rx:
  assumes "vt52_mode s" "terminal_state s = TS_NORMAL"
  shows "receive_string (rx_with rom e) [27, 47, 75] s = print_char_vt 75 (s\<lparr>terminal_state := TS_NORMAL\<rparr>)"
  using assms
  by (simp add: rx_with_def config_defs terminal_receive_char_vt52_def vt52_escape_def Let_def
      text_byte_prints text_byte_def)

text \<open>So the replies do not depend on how deep the echo goes.\<close>

lemma udec_text: "list_all text_byte (udec n)"
proof (induction n rule: udec.induct)
  case (1 n)
  have "\<forall>d \<in> {0..<10}. text_byte (of_nat (48 + d))"
    by (simp add: text_byte_def atLeastLessThan_nat_numeral)
  then have digit: "text_byte (of_nat (48 + d))" if "d < 10" for d using that by simp
  show ?case
    using 1 digit [of n] digit [of "n mod 10"]
    by (subst udec.simps) (auto simp del: of_nat_add)
qed

lemma cursor_report_text: "\<exists>cs. cursor_report s = 27 # cs \<and> list_all text_byte cs"
proof -
  have "list_all text_byte (take n cs)" if "list_all text_byte cs" for n cs
    using that by (auto simp: list_all_iff dest: in_set_takeD)
  then show ?thesis
    by (simp add: cursor_report_def take_Cons' udec_text text_byte_def)
qed

lemma send_reply_eq:
  assumes "list_all text_byte cs" "\<not> vt52_mode s"
    "terminal_state s = TS_STARTCHAR \<or> terminal_state s = TS_READPARAM"
  shows "send_string (rx_with rom e) (27 # cs) s = send_string (rx_with rom e') (27 # cs) s"
  using assms by (simp only: send_string_def Let_def)
    (simp add: reply_rx del: receive_string.simps)

lemma send_text_eq:
  assumes "list_all text_byte cs" "terminal_state s = TS_NORMAL"
  shows "send_string (rx_with rom e) cs s = send_string (rx_with rom e') cs s"
  using assms by (simp add: send_string_def Let_def text_string_rx)

lemma answerback_text: "list_all text_byte config_get_terminal_answerback"
  by (simp add: config_get_terminal_answerback_def bytes_of_def text_byte_def)

lemma text_depth:
  assumes "terminal_state s = TS_NORMAL \<or> c \<noteq> 5"
  shows "terminal_process_text (rx_with rom e) c s = terminal_process_text (rx_with rom e') c s"
  using assms send_text_eq [OF answerback_text, of s rom e e'] by (auto simp: terminal_process_text_def)

lemma command_quiet:
  "c \<noteq> 99 \<Longrightarrow> c \<noteq> 110 \<Longrightarrow>
     terminal_process_command e st c n p s = terminal_process_command e' st c n p s"
  by (simp only: terminal_process_command_def if_False)

lemma command_depth:
  assumes "\<not> vt52_mode s" "terminal_state s = TS_STARTCHAR \<or> terminal_state s = TS_READPARAM"
  shows "terminal_process_command (rx_with rom e) st c n p s =
    terminal_process_command (rx_with rom e') st c n p s"
proof -
  obtain cs where cs: "cursor_report s = 27 # cs" "list_all text_byte cs"
    using cursor_report_text by blast
  have reply: "send_string (rx_with rom e) (27 # ds) s = send_string (rx_with rom e') (27 # ds) s"
    if "list_all text_byte ds" for ds using send_reply_eq [OF that assms] .
  have "list_all text_byte [91, 63, 54, 99]" "list_all text_byte [91, 48, 110]"
    by (simp_all add: text_byte_def)
  note replies = reply [OF this(1)] reply [OF this(2)] reply [OF cs(2)]
  consider "c = 99" | "c = 110" | "c \<noteq> 99" "c \<noteq> 110" by blast
  then show ?thesis
  proof cases
    case 1
    then show ?thesis using replies(1) by (simp add: terminal_process_command_def cmd_identify_def)
  next
    case 2
    then show ?thesis using replies(2,3) cs(1) by (simp add: terminal_process_command_def cmd_report_def)
  qed (rule command_quiet)
qed

lemma rx_depth: "rx_with rom (rx_with rom e) c s = rx_with rom (rx_with rom e') c s"
proof -
  have vt102: "terminal_receive_char_vt102 rom (rx_with rom e) c s =
      terminal_receive_char_vt102 rom (rx_with rom e') c s" if "\<not> vt52_mode s"
  proof -
    have "terminal_process_command (rx_with rom e) 0 f 0 rom u = terminal_process_command (rx_with rom e') 0 f 0 rom u"
      if "f \<in> {115, 117, 74, 75}" for f u using that by (intro command_quiet) auto
    then have "vt102_escape rom (rx_with rom e) c s = vt102_escape rom (rx_with rom e') c s"
      unfolding vt102_escape_def by (simp only: insert_iff simp_thms)
    moreover have "vt102_param (rx_with rom e) c s = vt102_param (rx_with rom e') c s"
      if "terminal_state s = TS_STARTCHAR \<or> terminal_state s = TS_READPARAM"
      unfolding vt102_param_def
      by (simp only: command_depth [OF \<open>\<not> vt52_mode s\<close> that, of rom e _ _ _ _ e'])
    ultimately show ?thesis
      using text_depth [of s c rom e e']
      by (cases "terminal_state s") (auto simp: terminal_receive_char_vt102_def)
  qed
  have vt52: "terminal_receive_char_vt52 (rx_with rom e) c s = terminal_receive_char_vt52 (rx_with rom e') c s"
    if "vt52_mode s"
  proof -
    let ?u = "s\<lparr>terminal_state := TS_NORMAL\<rparr>"
    have "send_string (rx_with rom e) [27, 47, 75] ?u = send_string (rx_with rom e') [27, 47, 75] ?u"
      using that by (simp only: send_string_def Let_def) (simp add: identify_vt52_rx del: receive_string.simps)
    then have "vt52_escape (rx_with rom e) c s = vt52_escape (rx_with rom e') c s"
      unfolding vt52_escape_def Let_def by (simp only:)
    then show ?thesis
      using text_depth [of s c rom e e']
      by (cases "terminal_state s") (auto simp: terminal_receive_char_vt52_def)
  qed
  show ?thesis using vt102 vt52 by (simp add: rx_with_def config_defs)
qed

lemma rx_two: "rx_with rom (rx_with rom e) = terminal_receive_char rom"
  by (intro ext) (simp add: terminal_receive_char_def rx_depth [of rom e _ _ "\<lambda>c s. s"])

lemma rx_unfold: "terminal_receive_char rom = rx_with rom (terminal_receive_char rom)"
  by (metis rx_two terminal_receive_char_def)

section \<open>Property\<close>

text \<open>C29: The recursion through local echo ends, two levels deep at most: the receiver satisfies
  the source's recursive equation, in which every character the terminal sends is received
  again by the whole receiver, and it is the only function that does.\<close>

theorem local_echo_terminates:
  "R = rx_with rom R \<longleftrightarrow> R = terminal_receive_char rom"
proof
  show "R = terminal_receive_char rom" if "R = rx_with rom R"
    using rx_two [of rom R] that by simp
  show "R = rx_with rom R" if "R = terminal_receive_char rom"
    using that rx_unfold [of rom] by simp
qed

end
