(* ===== verification/TermProps.thy ===== *)
theory TermProps
  imports TermEcho
begin

text \<open>
  What a user of the terminal can rely on: bounds for any input, printing, line feed, the
  parameters of a control sequence, cursor addressing, save and restore; and what the engine
  does where it departs from its own documentation.
\<close>

section \<open>Any input\<close>

text \<open>Everything that happens to the engine after start-up, in any order.\<close>

datatype term_event =
    Receive u8              \<comment> \<open>a byte from Linux\<close>
  | Key u16                 \<comment> \<open>\<open>terminal_process_key\<close>\<close>
  | SetMods bool bool bool  \<comment> \<open>\<open>term_compat_set_mods\<close>\<close>
  | TakeKeys nat            \<comment> \<open>the link collects keystrokes\<close>
  | Frame                   \<comment> \<open>\<open>framebuf_task\<close>, once per displayed frame\<close>

fun do_event :: "(nat \<Rightarrow> u8) \<Rightarrow> term_event \<Rightarrow> terminal \<Rightarrow> terminal" where
  "do_event rom (Receive c) s = terminal_receive_char rom c s"
| "do_event rom (Key k) s = terminal_process_key rom k s"
| "do_event rom (SetMods a b c) s = s\<lparr>t_mods := term_compat_set_mods a b c (t_mods s)\<rparr>"
| "do_event rom (TakeKeys n) s = s\<lparr>t_keyq := snd (term_compat_take_keys n (t_keyq s))\<rparr>"
| "do_event rom Frame s = on_fb framebuf_task s"

text \<open>Static storage before start-up: the variables are zero, the arrays lie in arbitrary memory.\<close>

definition boot_term :: "u8 arr \<Rightarrow> u8 arr \<Rightarrow> u8 arr \<Rightarrow> u8 arr \<Rightarrow> u8 arr \<Rightarrow> terminal" where
  "boot_term cb ra tb ps kq = \<lparr>
     t_fb = \<lparr>cellbuf = cb, row_attr = ra, screen_inverted = False, flash_frames = 0, flash_color = 0\<rparr>,
     t_keyq = \<lparr>kq_data = kq, keyq_head = 0, keyq_tail = 0\<rparr>,
     t_mods = \<lparr>mod_shift = False, mod_ctrl = False, mod_alt = False\<rparr>,
     terminal_state = TS_NORMAL, color_fg = 0, color_bg = 0, attr = 0, cur_attr = 0,
     cursor_col = 0, cursor_row = 0, saved_col = 0, saved_row = 0,
     scroll_region_start = 0, scroll_region_end = 0,
     cursor_shown = True, origin_mode = False, cursor_eol = False, auto_wrap_mode = True,
     vt52_mode = False, localecho = False, saved_eol = False, saved_origin_mode = False,
     insert_mode = False, cursor_key_mode = False, petscii_lower_case_charset = True,
     saved_attr = 0, saved_fg = 0, saved_bg = 0, saved_charset_G0 = 0, saved_charset_G1 = 0,
     charset = PtrG0, charset_G0 = 0, charset_G1 = 0, tabs = tb,
     vt_start_char = 0, vt_num_params = 0, vt_params = ps,
     v52_start_char = 0, v52_row = 0, inserted = 0, quoteMode = False\<rparr>"

lemma boot_term_wf: "term_wf (boot_term cb ra tb ps kq)"
  by (simp add: inv_defs boot_term_def keyq_ok_def)

lemma init_step: "terminal_state s = TS_NORMAL \<Longrightarrow> term_step s (terminal_init s)"
  unfolding terminal_init_def
  by (rule term_step_trans [OF terminal_reset_step terminal_clear_screen_step])

lemma do_event_step: "term_step s (do_event rom e s)"
proof (cases e)
  case (Receive c)
  then show ?thesis by (simp add: engine.echo_step)
next
  case (TakeKeys n)
  obtain cs q where t: "term_compat_take_keys n (t_keyq s) = (cs, q)" by fastforce
  have "keyq_ok q \<and> kq_data q = kq_data (t_keyq s)" if "keyq_ok (t_keyq s)"
  proof -
    have "kq_data (snd (term_compat_take_keys n q)) = kq_data q" for q
      by (induction n arbitrary: q) (auto simp: Let_def case_prod_unfold)
    from this [of "t_keyq s"] t take_keys_spec [OF that t] show ?thesis by simp
  qed
  then show ?thesis using TakeKeys t by (simp add: term_step_def inv_defs)
qed (auto simp: process_key_step intro!: wf_intros)

lemma term_run_step: "term_step s (fold (do_event rom) es s)"
  by (induction es arbitrary: s) (auto intro: term_step_trans [OF do_event_step])

text \<open>C8: Whatever Linux sends and whatever is typed, from start-up on: the cursor stays inside the
  80x25 screen, so does the saved cursor, the scroll region ends on the screen, the index into
  \<open>params\<close> stays between 1 and 16 while parameters are read, the keystroke queue indices stay
  inside the queue, and no byte outside \<open>cellbuf\<close>, \<open>row_attr\<close>, \<open>tabs\<close>, \<open>params\<close> and \<open>keyq\<close> is ever
  written.\<close>

theorem terminal_stays_in_bounds:
  "let s0 = boot_term cb ra tb ps kq; s = fold (do_event rom) es (terminal_init s0)
   in on_screen s \<and> wf_rest s \<and> term_frame s0 s"
proof -
  have "term_step (boot_term cb ra tb ps kq) (fold (do_event rom) es (terminal_init (boot_term cb ra tb ps kq)))"
    by (rule term_step_trans [OF init_step term_run_step]) (simp add: boot_term_def)
  then show ?thesis using boot_term_wf by (simp add: term_step_def term_wf_def Let_def)
qed

section \<open>Printing\<close>

lemma put_at_cursor_fb:
  assumes "on_screen s"
  shows "put_at_cursor x s = s\<lparr>t_fb := (t_fb s)\<lparr>cellbuf :=
    store_cell (cell_ptr (nat (cursor_col s)) (nat (cursor_row s))) x (color_fg s) (color_bg s) (attr s)
      (cellbuf (t_fb s))\<rparr>\<rparr>"
proof -
  have u: "unat (of_int (cursor_col s) :: u8) = nat (cursor_col s)"
    "unat (of_int (cursor_row s) :: u8) = nat (cursor_row s)"
    using assms by (auto simp: on_screen_def intro!: unat_of_int_u8)
  have r: "in_range (of_int (cursor_col s)) (of_int (cursor_row s))"
    using assms by (auto simp: in_range_def u on_screen_def geometry)
  show ?thesis
    by (simp add: put_at_cursor_def Let_def on_fb_def framebuf_set_char_def framebuf_set_attr_def
        framebuf_set_color_def r u fb_cell_ptr store_cell_def)
      (simp add: geometry fun_upd_twist)
qed

lemma put_at_cursor_screen:
  assumes "on_screen s" "c < 80"
  shows "screen (cellbuf (t_fb (put_at_cursor x s))) r c =
    (if r = nat (cursor_row s) \<and> c = nat (cursor_col s)
     then \<lparr>c_char = x, c_fg = color_fg s, c_bg = color_bg s, c_attr = attr s\<rparr>
     else screen (cellbuf (t_fb s)) r c)"
proof -
  have "nat (cursor_col s) < 80" using assms(1) by (auto simp: on_screen_def)
  then show ?thesis
    using assms(2)
    by (auto simp: put_at_cursor_fb [OF assms(1)] store_cell_at intro!: screen_const screen_cong)
qed

text \<open>What text does not change.\<close>

definition text_ctx where
  "text_ctx s = (terminal_state s, vt52_mode s, insert_mode s, cur_charset s, auto_wrap_mode s,
     (color_fg s, color_bg s, attr s), scroll_region_start s, scroll_region_end s, origin_mode s)"

lemma text_ctx_fields:
  "text_ctx s = text_ctx s' \<Longrightarrow> terminal_state s = terminal_state s' \<and> vt52_mode s = vt52_mode s' \<and>
     insert_mode s = insert_mode s' \<and> cur_charset s = cur_charset s' \<and> auto_wrap_mode s = auto_wrap_mode s' \<and>
     color_fg s = color_fg s' \<and> color_bg s = color_bg s' \<and> attr s = attr s'"
  by (simp add: text_ctx_def)

lemma print_plain:
  assumes s: "on_screen s" "\<not> cursor_eol s" "\<not> insert_mode s" "cur_charset s = CS_TEXT_US" "auto_wrap_mode s"
  shows "text_ctx (print_char_vt x s) = text_ctx s"
    and "t_fb (print_char_vt x s) = t_fb (put_at_cursor x s)"
    and "cursor_row (print_char_vt x s) = cursor_row s"
    and "cursor_col (print_char_vt x s) = min 79 (cursor_col s + 1)"
    and "cursor_eol (print_char_vt x s) \<longleftrightarrow> cursor_col s = 79"
proof -
  have g: "vt_glyph x s = x" using s(4) by (simp add: vt_glyph_def CS_TEXT_US_def CS_TEXT_UK_def CS_GRAPHICS_def)
  have eq: "print_char_vt x s = advance_cursor (put_at_cursor x s)"
    using s g by (simp add: print_char_vt_def Let_def pending_wrap_def open_cell_def)
  note defs = eq advance_cursor_def init_cursor_def move_cursor_within_region_def Let_def
    load_cur_attr_def put_at_cursor_fb [OF s(1)] ncols_80 nrows_25
  have r: "0 \<le> cursor_col s" "cursor_col s < 80" "0 \<le> cursor_row s" "cursor_row s < 25"
    using s(1) by (auto simp: on_screen_def)
  show "text_ctx (print_char_vt x s) = text_ctx s"
    using r s by (simp add: defs) (cases "charset s"; simp add: text_ctx_def cur_charset_def)
  show "t_fb (print_char_vt x s) = t_fb (put_at_cursor x s)"
    "cursor_row (print_char_vt x s) = cursor_row s"
    "cursor_col (print_char_vt x s) = min 79 (cursor_col s + 1)"
    "cursor_eol (print_char_vt x s) \<longleftrightarrow> cursor_col s = 79"
    using r s by (simp_all add: defs)
qed

definition plain_text :: "terminal \<Rightarrow> bool" where
  "plain_text s \<longleftrightarrow> on_screen s \<and> \<not> cursor_eol s \<and> \<not> insert_mode s \<and> cur_charset s = CS_TEXT_US \<and>
     auto_wrap_mode s \<and> terminal_state s = TS_NORMAL"

lemma print_text:
  fixes rom :: "nat \<Rightarrow> u8" and s :: terminal
  assumes "plain_text s" "list_all text_byte xs" "cursor_col s + int (length xs) \<le> 80" "c < 80"
  defines "s' \<equiv> fold (terminal_receive_char rom) xs s"
  shows "screen (cellbuf (t_fb s')) r c =
      (if r = nat (cursor_row s) \<and> nat (cursor_col s) \<le> c \<and> c < nat (cursor_col s) + length xs
       then \<lparr>c_char = xs ! (c - nat (cursor_col s)), c_fg = color_fg s, c_bg = color_bg s, c_attr = attr s\<rparr>
       else screen (cellbuf (t_fb s)) r c) \<and>
    cursor_row s' = cursor_row s \<and> cursor_col s' = min 79 (cursor_col s + int (length xs)) \<and>
    (cursor_eol s' \<longleftrightarrow> cursor_col s + int (length xs) = 80) \<and> text_ctx s' = text_ctx s"
  using assms(1-4) unfolding s'_def
proof (induction xs arbitrary: s)
  case Nil
  then show ?case by (auto simp: plain_text_def on_screen_def)
next
  case (Cons x xs)
  let ?u = "print_char_vt x s"
  have s: "on_screen s" "\<not> cursor_eol s" "\<not> insert_mode s" "cur_charset s = CS_TEXT_US" "auto_wrap_mode s"
    "terminal_state s = TS_NORMAL" using Cons.prems(1) by (auto simp: plain_text_def)
  note P = print_plain [OF s(1-5), of x]
  have rx: "terminal_receive_char rom x s = ?u"
    using Cons.prems(2) s(6) by (subst rx_unfold) (simp add: text_byte_rx)
  have col: "0 \<le> cursor_col s" "cursor_col s < 80" using s(1) by (auto simp: on_screen_def)
  show ?case
  proof (cases xs)
    case Nil
    then show ?thesis
      using P col put_at_cursor_screen [OF s(1) Cons.prems(4), of x r] by (auto simp: rx)
  next
    case (Cons y ys)
    then have "cursor_col s + 1 \<le> 79" using Cons.prems(3) by simp
    then have u: "plain_text ?u" "cursor_col ?u = cursor_col s + 1"
      using P s text_ctx_fields [OF P(1)] by (auto simp: plain_text_def on_screen_def)
    have "cursor_col ?u + int (length xs) \<le> 80" "list_all text_byte xs"
      using Cons.prems(2,3) u(2) by auto
    note IH = Cons.IH [OF u(1) this(2,1) Cons.prems(4)]
    let ?k = "nat (cursor_col s)"
    have k: "nat (cursor_col ?u) = Suc ?k" "nat (cursor_row ?u) = nat (cursor_row s)"
      using u(2) col P(3) by auto
    have one: "screen (cellbuf (t_fb ?u)) r c = (if r = nat (cursor_row s) \<and> c = ?k
        then \<lparr>c_char = x, c_fg = color_fg s, c_bg = color_bg s, c_attr = attr s\<rparr>
        else screen (cellbuf (t_fb s)) r c)"
      unfolding P(2) by (rule put_at_cursor_screen [OF s(1) Cons.prems(4)])
    have nth: "(x # xs) ! (c - ?k) = (if c = ?k then x else xs ! (c - Suc ?k))" if "?k \<le> c"
      using that by (auto simp: nth_Cons')
    have "screen (cellbuf (t_fb (fold (terminal_receive_char rom) xs ?u))) r c =
      (if r = nat (cursor_row s) \<and> ?k \<le> c \<and> c < ?k + length (x # xs)
       then \<lparr>c_char = (x # xs) ! (c - ?k), c_fg = color_fg s, c_bg = color_bg s, c_attr = attr s\<rparr>
       else screen (cellbuf (t_fb s)) r c)"
      using IH nth unfolding k one by (simp only: text_ctx_fields [OF P(1)]) (cases "c = ?k"; auto)
    then show ?thesis
      using IH u(2) P by (simp add: rx)
  qed
qed

text \<open>C14: A run of printable bytes that fits on the rest of the cursor's row, with the ASCII set and
  neither insert mode nor a pending wrap, appears on the screen in order from the cursor on, in
  the current colours and attribute, changes no other cell, and leaves the cursor after the last
  byte: at the last column, with the wrap pending, exactly when the row is full.\<close>

theorem printed_text_appears:
  fixes rom :: "nat \<Rightarrow> u8" and s :: terminal
  assumes "plain_text s" "list_all text_byte xs" "cursor_col s + int (length xs) \<le> 80" "c < 80"
  shows "let s' = fold (terminal_receive_char rom) xs s in
    screen (cellbuf (t_fb s')) r c =
      (if r = nat (cursor_row s) \<and> nat (cursor_col s) \<le> c \<and> c < nat (cursor_col s) + length xs
       then \<lparr>c_char = xs ! (c - nat (cursor_col s)), c_fg = color_fg s, c_bg = color_bg s, c_attr = attr s\<rparr>
       else screen (cellbuf (t_fb s)) r c) \<and>
    cursor_row s' = cursor_row s \<and> cursor_col s' = min 79 (cursor_col s + int (length xs)) \<and>
    (cursor_eol s' \<longleftrightarrow> cursor_col s + int (length xs) = 80)"
  using print_text [OF assms, where r = r and rom = rom] by (simp add: Let_def)

definition demo_term :: terminal where
  "demo_term = (boot_term (\<lambda>_. 0) (\<lambda>_. 0) (\<lambda>_. 0) (\<lambda>_. 0) (\<lambda>_. 0))
     \<lparr>scroll_region_end := 24, color_fg := 7\<rparr>"

lemmas demo_defs = demo_term_def boot_term_def

theorem printed_text_appears_witness:
  "screen (cellbuf (t_fb (fold (terminal_receive_char (\<lambda>_. 0)) [72, 105] demo_term))) 0 1 =
     \<lparr>c_char = 105, c_fg = 7, c_bg = 0, c_attr = 0\<rparr>"
  using printed_text_appears [where s = demo_term and xs = "[72, 105]" and c = 1 and rom = "\<lambda>_. 0" and r = 0]
  by (simp add: Let_def demo_defs plain_text_def on_screen_def text_byte_def cur_charset_def CS_TEXT_US_def)

section \<open>Line feed and scrolling\<close>

lemma wrap_left_id: "0 \<le> col \<Longrightarrow> wrap_left row col = (row, col)"
  by (subst wrap_left.simps) simp

lemma wrap_right_id: "col < 80 \<Longrightarrow> wrap_right row col = (row, col)"
  by (subst wrap_right.simps) (simp add: ncols_80)

lemma wrap_top_id: "topl \<le> row \<Longrightarrow> wrap_top topl botl row s = (row, s)"
  by (subst wrap_top.simps) simp

lemma wrap_bottom_id: "row \<le> botl \<Longrightarrow> wrap_bottom topl botl row s = (row, s)"
  by (subst wrap_bottom.simps) simp

lemma wrap_bottom_one:
  "wrap_bottom topl botl (botl + 1) s =
     (botl, on_fb (framebuf_scroll_region (of_int topl) (of_int botl) 1 (color_fg s) (color_bg s)) s)"
  by (subst wrap_bottom.simps) (simp add: wrap_bottom_id)

lemma move_down_one:
  assumes "0 \<le> col" "col < 80" "scroll_region_start s \<le> cursor_row s" "cursor_row s \<le> scroll_region_end s"
  shows "move_cursor_wrap (cursor_row s + 1) col s =
    (if cursor_row s < scroll_region_end s
     then load_cur_attr (s\<lparr>cursor_row := cursor_row s + 1, cursor_col := col, cursor_eol := False\<rparr>)
     else load_cur_attr ((on_fb (framebuf_scroll_region (of_int (scroll_region_start s))
        (of_int (scroll_region_end s)) 1 (color_fg s) (color_bg s)) s)
        \<lparr>cursor_row := scroll_region_end s, cursor_col := col, cursor_eol := False\<rparr>))"
proof (cases "cursor_row s < scroll_region_end s")
  case False
  then have "cursor_row s = scroll_region_end s" using assms by simp
  then show ?thesis using assms
    by (simp add: move_cursor_wrap_def Let_def wrap_left_id wrap_right_id wrap_top_id wrap_bottom_one)
next
  case True
  then show ?thesis using assms
    by (simp add: move_cursor_wrap_def Let_def wrap_left_id wrap_right_id wrap_top_id wrap_bottom_id)
qed

lemma receive_normal_text:
  assumes "terminal_state s = TS_NORMAL" "c \<noteq> 27" "c \<noteq> 5"
  shows "terminal_receive_char rom c s = terminal_process_text (\<lambda>c s. s) c s"
proof -
  have "terminal_process_text e c s = terminal_process_text (\<lambda>c s. s) c s" for e
    using assms(3) by (simp add: terminal_process_text_def)
  then show ?thesis
    using assms(1,2) by (subst rx_unfold) (simp add: rx_with_def config_defs
      terminal_receive_char_vt102_def terminal_receive_char_vt52_def)
qed

text \<open>C32: A line feed with the cursor inside the scroll region keeps the column; above the bottom
  row of the region it moves down one row and leaves the screen alone, on the bottom row it
  scrolls exactly the region up by one, fills the bottom row with blanks in the current colours
  and leaves the rest of the screen and the cursor in place.\<close>

theorem line_feed_scrolls_region:
  assumes "terminal_state s = TS_NORMAL" "on_screen s" "wf_rest s"
    "scroll_region_start s \<le> cursor_row s" "cursor_row s \<le> scroll_region_end s" "r < 25" "c < 80"
  shows "let s' = terminal_receive_char rom 10 s in
    cursor_col s' = cursor_col s \<and> cursor_row s' = min (cursor_row s + 1) (scroll_region_end s) \<and>
    screen (cellbuf (t_fb s')) r c =
      (if cursor_row s < scroll_region_end s then screen (cellbuf (t_fb s)) r c
       else scroll_grid (nat (scroll_region_start s)) (nat (scroll_region_end s)) 1
              (blank (color_fg s) (color_bg s)) (screen (cellbuf (t_fb s))) r c)"
proof -
  have rx: "terminal_receive_char rom 10 s = move_cursor_wrap (cursor_row s + 1) (cursor_col s) s"
    using assms(1) by (simp add: receive_normal_text terminal_process_text_def process_newline_def config_defs Let_def)
  have u: "unat (of_int (scroll_region_start s) :: u8) = nat (scroll_region_start s)"
    "unat (of_int (scroll_region_end s) :: u8) = nat (scroll_region_end s)"
    using assms by (auto simp: wf_rest_def on_screen_def intro!: unat_of_int_u8)
  have e: "min (nat (scroll_region_end s)) 24 = nat (scroll_region_end s)" using assms(3) by (auto simp: wf_rest_def)
  have col: "0 \<le> cursor_col s" "cursor_col s < 80" using assms(2) by (auto simp: on_screen_def)
  show ?thesis
    unfolding rx Let_def move_down_one [OF col assms(4,5)]
    using assms(5) scroll_region_grid [OF assms(6,7), of "of_int (scroll_region_start s)" "of_int (scroll_region_end s)"
        1 "color_fg s" "color_bg s" "t_fb s"]
    by (simp add: load_cur_attr_def on_fb_def u e)
qed

theorem line_feed_scrolls_region_witness:
  "cursor_row (terminal_receive_char (\<lambda>_. 0) 10 (demo_term\<lparr>cursor_row := 24\<rparr>)) = 24"
  using line_feed_scrolls_region [where s = "demo_term\<lparr>cursor_row := 24\<rparr>" and r = 3 and c = 5 and rom = "\<lambda>_. 0"]
  by (simp add: Let_def demo_defs on_screen_def wf_rest_def keyq_ok_def)

end
