(* ===== verification/TermCsi.thy ===== *)
theory TermCsi
  imports TermProps
begin

text \<open>
  Control sequences: the parameter parser of the VT102 side read back against a printer of
  control sequences, and what sequences do through it.
\<close>

section \<open>The parameter parser\<close>

text \<open>A control sequence as a program writes it: introducer, decimal parameters, final byte.\<close>

fun csi_params :: "nat list \<Rightarrow> u8 list" where
  "csi_params [] = []"
| "csi_params [p] = udec p"
| "csi_params (p # q # ps) = udec p @ 59 # csi_params (q # ps)"

definition csi :: "bool \<Rightarrow> nat list \<Rightarrow> u8 \<Rightarrow> u8 list" where
  "csi priv ps f = [27, 91] @ (if priv then [63] else []) @ csi_params ps @ [f]"

definition vt_param_state :: "terminal \<Rightarrow> bool" where
  "vt_param_state s \<longleftrightarrow> \<not> vt52_mode s \<and> (terminal_state s = TS_STARTCHAR \<or> terminal_state s = TS_READPARAM)"

definition digit_byte :: "u8 \<Rightarrow> bool" where
  "digit_byte c \<longleftrightarrow> 48 \<le> c \<and> c \<le> 57"

lemma rx_param:
  assumes "vt_param_state s" "c \<notin> {8, 10, 11, 13}"
  shows "terminal_receive_char rom c s = vt102_param (terminal_receive_char rom) c s"
  using assms by (subst rx_unfold)
    (auto simp: vt_param_state_def rx_with_def config_defs terminal_receive_char_vt102_def)

lemma digit_not_control: "digit_byte c \<Longrightarrow> c \<notin> {8, 10, 11, 13}"
  by (auto simp: digit_byte_def)

lemma rx_digit:
  assumes "vt_param_state s" "digit_byte c"
  shows "terminal_receive_char rom c s = s\<lparr>vt_params := (vt_params s)(unat (vt_num_params s) - 1 :=
      vt_params s (unat (vt_num_params s) - 1) * 10 + (c - 48)), terminal_state := TS_READPARAM\<rparr>"
  unfolding rx_param [OF assms(1) digit_not_control [OF assms(2)]] vt102_param_def Let_def
  using assms(2) by (simp only: digit_byte_def simp_thms if_True)

definition digits_value :: "u8 list \<Rightarrow> u8 \<Rightarrow> u8" where
  "digits_value ds v = fold (\<lambda>d v. v * 10 + (d - 48)) ds v"

lemma rx_digits:
  assumes "vt_param_state s" "list_all digit_byte ds" "ds \<noteq> []"
  shows "fold (terminal_receive_char rom) ds s = s\<lparr>vt_params := (vt_params s)(unat (vt_num_params s) - 1 :=
      digits_value ds (vt_params s (unat (vt_num_params s) - 1))), terminal_state := TS_READPARAM\<rparr>"
  using assms
proof (induction ds arbitrary: s)
  case (Cons d ds)
  note fun_upd_apply [simp del] and fun_upd_same [simp]
  let ?l = "unat (vt_num_params s) - 1"
  define u where "u = s\<lparr>vt_params := (vt_params s)(?l := vt_params s ?l * 10 + (d - 48)), terminal_state := TS_READPARAM\<rparr>"
  have rx: "terminal_receive_char rom d s = u"
    unfolding u_def using Cons.prems(2) by (intro rx_digit [OF Cons.prems(1)]) simp
  have u: "vt_param_state u" "vt_num_params u = vt_num_params s"
    "vt_params u = (vt_params s)(?l := vt_params s ?l * 10 + (d - 48))"
    using Cons.prems(1) by (simp_all add: vt_param_state_def u_def)
  show ?case
  proof (cases "ds = []")
    case True
    then show ?thesis by (simp add: rx digits_value_def u_def del: fun_upd_apply)
  next
    case False
    then have "fold (terminal_receive_char rom) ds u = u\<lparr>vt_params := (vt_params u)(?l :=
        digits_value ds (vt_params u ?l)), terminal_state := TS_READPARAM\<rparr>"
      using Cons.IH [OF u(1)] Cons.prems(2) u(2) by simp
    then show ?thesis by (simp add: rx u(3) digits_value_def) (simp add: u_def)
  qed
qed simp

lemma udec_digits: "list_all digit_byte (udec n) \<and> udec n \<noteq> []"
proof (induction n rule: udec.induct)
  case (1 n)
  have "\<forall>d \<in> {0..<10}. digit_byte (of_nat (48 + d))"
    by (simp add: digit_byte_def atLeastLessThan_nat_numeral)
  then have digit: "digit_byte (of_nat (48 + d))" if "d < 10" for d using that by simp
  show ?case
    using 1 digit [of n] digit [of "n mod 10"] by (subst (1 2) udec.simps) (auto simp del: of_nat_add)
qed

lemma udec_value: "digits_value (udec n) 0 = of_nat n"
proof (induction n rule: udec.induct)
  case (1 n)
  show ?case
  proof (cases "n < 10")
    case True
    then show ?thesis by (subst udec.simps) (simp add: digits_value_def)
  next
    case False
    have "(of_nat (n div 10) :: u8) * 10 + of_nat (n mod 10) = of_nat (n div 10 * 10 + n mod 10)"
      by (simp only: of_nat_add of_nat_mult of_nat_numeral)
    then show ?thesis using 1 [OF False] False
      by (subst udec.simps) (simp add: digits_value_def)
  qed
qed

lemma rx_number:
  assumes "vt_param_state s" "vt_params s (unat (vt_num_params s) - 1) = 0"
  shows "fold (terminal_receive_char rom) (udec n) s =
    s\<lparr>vt_params := (vt_params s)(unat (vt_num_params s) - 1 := of_nat n), terminal_state := TS_READPARAM\<rparr>"
  using rx_digits [OF assms(1), of "udec n" rom] udec_digits [of n] udec_value [of n] assms(2) by simp

lemma rx_semicolon:
  assumes "vt_param_state s" "unat (vt_num_params s) < 16"
  shows "terminal_receive_char rom 59 s = s\<lparr>vt_num_params := vt_num_params s + 1,
    vt_params := (vt_params s)(unat (vt_num_params s) := 0), terminal_state := TS_READPARAM\<rparr>"
proof -
  have "unat (vt_num_params s + 1) = unat (vt_num_params s) + 1"
    using assms(2) by (simp add: unat_word_ariths)
  then show ?thesis
    using assms rx_param [OF assms(1), of 59]
    by (simp add: vt102_param_def Let_def word_less_nat_alt)
qed

text \<open>The parameters from index \<open>k\<close> on.\<close>

definition put_params :: "nat \<Rightarrow> nat list \<Rightarrow> u8 arr \<Rightarrow> u8 arr" where
  "put_params k ps old = (\<lambda>i. if k \<le> i \<and> i < k + length ps then of_nat (ps ! (i - k)) else old i)"

lemma rx_params:
  assumes "vt_param_state s" "unat (vt_num_params s) = Suc k" "vt_params s k = 0" "ps \<noteq> []"
    "k + length ps \<le> 16"
  shows "fold (terminal_receive_char rom) (csi_params ps) s =
    s\<lparr>vt_num_params := of_nat (k + length ps), vt_params := put_params k ps (vt_params s),
      terminal_state := TS_READPARAM\<rparr>"
  using assms
proof (induction ps arbitrary: s k rule: csi_params.induct)
  case (2 p)
  have n: "vt_num_params s = of_nat (Suc k)" 
  proof -
    have "vt_num_params s = of_nat (unat (vt_num_params s))" by simp
    then show ?thesis by (simp only: "2.prems"(2))
  qed
  have "(vt_params s)(k := of_nat p) = put_params k [p] (vt_params s)"
    by (rule ext) (auto simp: put_params_def)
  then show ?case using rx_number [OF "2.prems"(1), of rom p] "2.prems" n by simp
next
  case (3 p q ps)
  let ?u = "s\<lparr>vt_params := (vt_params s)(k := of_nat p), terminal_state := TS_READPARAM\<rparr>"
  let ?v = "?u\<lparr>vt_num_params := vt_num_params s + 1, vt_params := (vt_params ?u)(Suc k := 0)\<rparr>"
  have "fold (terminal_receive_char rom) (udec p) s = ?u"
    using rx_number [OF "3.prems"(1), of rom p] "3.prems"(2,3) by simp
  moreover have "terminal_receive_char rom 59 ?u = ?v"
    using rx_semicolon [of ?u rom] "3.prems" by (simp add: vt_param_state_def)
  moreover have "fold (terminal_receive_char rom) (csi_params (q # ps)) ?v =
      ?v\<lparr>vt_num_params := of_nat (Suc k + length (q # ps)), vt_params := put_params (Suc k) (q # ps) (vt_params ?v),
         terminal_state := TS_READPARAM\<rparr>"
  proof (rule "3.IH")
    show "unat (vt_num_params ?v) = Suc (Suc k)"
      using "3.prems"(2,5) by (simp add: unat_word_ariths)
  qed (use "3.prems" in \<open>auto simp: vt_param_state_def\<close>)
  moreover have "put_params (Suc k) (q # ps) ((vt_params ?u)(Suc k := 0)) = put_params k (p # q # ps) (vt_params s)"
    by (rule ext) (auto simp: put_params_def nth_Cons')
  ultimately show ?case by simp
qed simp

section \<open>A control sequence reaches its command\<close>

text \<open>The state in which \<open>terminal_process_command\<close> runs after \<open>csi priv ps f\<close>.\<close>

definition csi_state :: "bool \<Rightarrow> nat list \<Rightarrow> terminal \<Rightarrow> terminal" where
  "csi_state priv ps s = s\<lparr>vt_start_char := (if priv then 63 else 0),
     vt_num_params := of_nat (length ps), vt_params := put_params 0 ps (vt_params s),
     terminal_state := TS_READPARAM\<rparr>"

definition final_byte :: "u8 \<Rightarrow> bool" where
  "final_byte f \<longleftrightarrow> f \<notin> {8, 10, 11, 13} \<and> \<not> digit_byte f \<and> f \<noteq> 59"

lemma rx_intro:
  assumes "terminal_state s = TS_NORMAL" "\<not> vt52_mode s"
  shows "fold (terminal_receive_char rom) ([27, 91] @ (if priv then [63] else [])) s =
    s\<lparr>vt_start_char := (if priv then 63 else 0), vt_num_params := 1,
      vt_params := (vt_params s)(0 := 0),
      terminal_state := (if priv then TS_READPARAM else TS_STARTCHAR)\<rparr>"
proof -
  have a: "terminal_receive_char rom 27 s = s\<lparr>terminal_state := TS_WAITBRACKET\<rparr>"
    using assms by (subst rx_unfold) (simp add: rx_with_def config_defs terminal_receive_char_vt102_def)
  let ?u = "s\<lparr>terminal_state := TS_STARTCHAR, vt_start_char := 0, vt_num_params := 1, vt_params := (vt_params s)(0 := 0)\<rparr>"
  have b: "terminal_receive_char rom 91 (s\<lparr>terminal_state := TS_WAITBRACKET\<rparr>) = ?u"
    using assms by (subst rx_unfold)
      (simp add: rx_with_def config_defs terminal_receive_char_vt102_def vt102_escape_def Let_def)
  have "terminal_receive_char rom 63 ?u = ?u\<lparr>vt_start_char := 63, terminal_state := TS_READPARAM\<rparr>"
    using rx_param [of ?u 63 rom] assms(2) by (simp add: vt102_param_def vt_param_state_def)
  then show ?thesis by (cases priv) (simp_all add: a b)
qed

lemma rx_csi:
  assumes "terminal_state s = TS_NORMAL" "\<not> vt52_mode s" "ps \<noteq> []" "length ps \<le> 16" "final_byte f"
  shows "fold (terminal_receive_char rom) (csi priv ps f) s =
    (terminal_process_command (terminal_receive_char rom) (if priv then 63 else 0) f
       (of_nat (length ps)) (put_params 0 ps (vt_params s)) (csi_state priv ps s))
    \<lparr>terminal_state := TS_NORMAL\<rparr>"
proof -
  define u where "u = s\<lparr>vt_start_char := (if priv then 63 else 0), vt_num_params := 1,
      vt_params := (vt_params s)(0 := 0),
      terminal_state := (if priv then TS_READPARAM else TS_STARTCHAR)\<rparr>"
  have u: "vt_param_state u" "unat (vt_num_params u) = Suc 0" "vt_params u 0 = 0"
    using assms(2) by (simp_all add: u_def vt_param_state_def)
  have eq: "put_params 0 ps ((vt_params s)(0 := 0)) = put_params 0 ps (vt_params s)"
    using assms(3) by (auto simp: put_params_def)
  have p: "fold (terminal_receive_char rom) (csi_params ps) u = csi_state priv ps s"
    using rx_params [OF u assms(3), of rom] assms(4)
    by (simp add: u_def csi_state_def eq)
  have st: "vt_param_state (csi_state priv ps s)" "terminal_state (csi_state priv ps s) = TS_READPARAM"
    using assms(2) by (simp_all add: vt_param_state_def csi_state_def)
  have "vt_start_char (csi_state priv ps s) = (if priv then 63 else 0)"
    "vt_num_params (csi_state priv ps s) = of_nat (length ps)"
    "vt_params (csi_state priv ps s) = put_params 0 ps (vt_params s)"
    by (simp_all add: csi_state_def)
  then have f: "terminal_receive_char rom f (csi_state priv ps s) =
      (terminal_process_command (terminal_receive_char rom) (if priv then 63 else 0) f
         (of_nat (length ps)) (put_params 0 ps (vt_params s)) (csi_state priv ps s))
      \<lparr>terminal_state := TS_NORMAL\<rparr>"
    using assms(5) rx_param [OF st(1), of f rom] st(2)
    unfolding vt102_param_def Let_def by (auto simp: final_byte_def digit_byte_def)
  show ?thesis
    using f p rx_intro [OF assms(1,2), of rom priv]
    by (simp add: csi_def u_def)
qed

text \<open>C10: Round trip of the parameter parser: every control sequence printed with at most 16 decimal
  parameters, with or without the private marker, reaches \<open>terminal_process_command\<close> with its
  final byte, its marker, its number of parameters and each parameter modulo 256, and returns
  the parser to its normal state.\<close>

theorem csi_roundtrip:
  assumes "terminal_state s = TS_NORMAL" "\<not> vt52_mode s" "ps \<noteq> []" "length ps \<le> 16" "final_byte f"
  shows "\<exists>params. (\<forall>i. i < length ps \<longrightarrow> params i = of_nat (ps ! i)) \<and>
    fold (terminal_receive_char rom) (csi priv ps f) s =
      (terminal_process_command (terminal_receive_char rom) (if priv then 63 else 0) f
         (of_nat (length ps)) params (csi_state priv ps s))\<lparr>terminal_state := TS_NORMAL\<rparr>"
  using rx_csi [OF assms, of rom priv]
  by (intro exI [of _ "put_params 0 ps (vt_params s)"]) (simp add: put_params_def)

lemma demo_normal: "terminal_state demo_term = TS_NORMAL" "\<not> vt52_mode demo_term"
  by (simp_all add: demo_defs)

theorem csi_roundtrip_witness:
  "\<exists>params. params 0 = 3 \<and> params 1 = 44 \<and>
     fold (terminal_receive_char (\<lambda>_. 0)) (csi False [3, 300] 72) demo_term =
       (terminal_process_command (terminal_receive_char (\<lambda>_. 0)) 0 72 2 params
         (csi_state False [3, 300] demo_term))\<lparr>terminal_state := TS_NORMAL\<rparr>"
  using csi_roundtrip [where s = demo_term and ps = "[3, 300]" and f = 72 and rom = "\<lambda>_. 0" and priv = False]
  by (auto simp: demo_normal final_byte_def digit_byte_def less_Suc_eq all_conj_distrib)

section \<open>Cursor addressing, save and restore\<close>

lemma csi_state_simps [simp]:
  "cursor_row (csi_state b ps s) = cursor_row s" "cursor_col (csi_state b ps s) = cursor_col s"
  "origin_mode (csi_state b ps s) = origin_mode s" "t_fb (csi_state b ps s) = t_fb s"
  "scroll_region_start (csi_state b ps s) = scroll_region_start s"
  "scroll_region_end (csi_state b ps s) = scroll_region_end s"
  "color_fg (csi_state b ps s) = color_fg s" "color_bg (csi_state b ps s) = color_bg s"
  "cursor_shown (csi_state b ps s) = cursor_shown s" "attr (csi_state b ps s) = attr s"
  "vt52_mode (csi_state b ps s) = vt52_mode s" "saved_row (csi_state b ps s) = saved_row s"
  "saved_col (csi_state b ps s) = saved_col s"
  by (simp_all add: csi_state_def)

lemma within_region_cursor:
  assumes "on_screen s" "topl \<le> botl"
  shows "cursor_row (move_cursor_within_region row col topl botl s) = (if row = cursor_row s \<and> col = cursor_col s then row else max topl (min botl row))"
    and "cursor_col (move_cursor_within_region row col topl botl s) = max 0 (min 79 col)"
    and "t_fb (move_cursor_within_region row col topl botl s) = t_fb s"
  using assms by (auto simp: move_cursor_within_region_def Let_def load_cur_attr_def ncols_80 on_screen_def)

lemma within_screen:
  assumes "on_screen s"
  shows "cursor_row (move_cursor_within_region row col 0 24 s) = max 0 (min 24 row)"
    and "cursor_col (move_cursor_within_region row col 0 24 s) = max 0 (min 79 col)"
    and "t_fb (move_cursor_within_region row col 0 24 s) = t_fb s"
  using within_region_cursor [OF assms, of 0 24 row col] assms by (auto simp: on_screen_def)

text \<open>\<open>CSI row ; col H\<close> with the origin mode off puts the cursor on the cell it names, counted from
  1, with 0 meaning 1 and anything beyond the screen clamped to its edge, for all parameters a
  byte can hold, and changes nothing on the screen.\<close>

theorem cursor_position_absolute:
  assumes "terminal_state s = TS_NORMAL" "\<not> vt52_mode s" "on_screen s" "\<not> origin_mode s"
    "row < 256" "col < 256"
  shows "let s' = fold (terminal_receive_char rom) (csi False [row, col] 72) s in
    cursor_row s' = int (min 24 (max 1 row - 1)) \<and> cursor_col s' = int (min 79 (max 1 col - 1)) \<and>
    t_fb s' = t_fb s"
proof -
  have "final_byte 72" by (simp add: final_byte_def digit_byte_def)
  moreover have "[row, col] \<noteq> []" "length [row, col] \<le> 16" by simp_all
  ultimately have rx: "fold (terminal_receive_char rom) (csi False [row, col] 72) s =
    (terminal_process_command (terminal_receive_char rom) 0 72 (of_nat (length [row, col]))
       (put_params 0 [row, col] (vt_params s)) (csi_state False [row, col] s))\<lparr>terminal_state := TS_NORMAL\<rparr>"
    using rx_csi [OF assms(1,2), of "[row, col]" 72 rom False] by (simp only: if_False simp_thms)
  let ?p = "put_params 0 [row, col] (vt_params s)" and ?u = "csi_state False [row, col] s"
  have p: "count_param (?p 0) = int (max 1 row)" "count_param (?p 1) = int (max 1 col)"
    using assms(5,6) by (simp_all add: put_params_def count_param_def unsigned_of_nat take_bit_nat_eq_self)
  have u: "on_screen ?u" using assms(3) by (simp add: on_screen_def)
  have cmd: "terminal_process_command (terminal_receive_char rom) 0 72 (of_nat (length [row, col])) ?p ?u =
      move_cursor_within_region (int (max 1 row) - 1) (int (max 1 col) - 1) 0 24 ?u"
    using assms(4) p by (simp add: terminal_process_command_def cmd_position_def top_of_def bottom_of_def nrows_25)
  have clamp: "max 0 (min 24 (int n - 1)) = int (min 24 (n - 1))"
    "max 0 (min 79 (int n - 1)) = int (min 79 (n - 1))" if "1 \<le> n" for n
  proof -
    have "int n - 1 = int (n - 1)" using that by simp
    then show "max 0 (min 24 (int n - 1)) = int (min 24 (n - 1))"
      "max 0 (min 79 (int n - 1)) = int (min 79 (n - 1))" by (simp_all only:)
  qed
  have one: "1 \<le> max 1 row" "1 \<le> max 1 col" by (rule max.cobounded1)+
  have "cursor_row (move_cursor_within_region (int (max 1 row) - 1) (int (max 1 col) - 1) 0 24 ?u) = int (min 24 (max 1 row - 1))"
    "cursor_col (move_cursor_within_region (int (max 1 row) - 1) (int (max 1 col) - 1) 0 24 ?u) = int (min 79 (max 1 col - 1))"
    "t_fb (move_cursor_within_region (int (max 1 row) - 1) (int (max 1 col) - 1) 0 24 ?u) = t_fb s"
    unfolding within_screen [OF u] by (rule clamp one csi_state_simps)+
  then show ?thesis
    unfolding Let_def rx cmd by simp
qed

theorem cursor_position_absolute_witness:
  "cursor_row (fold (terminal_receive_char (\<lambda>_. 0)) (csi False [5, 200] 72) demo_term) = 4"
  using cursor_position_absolute [where s = demo_term and row = 5 and col = 200 and rom = "\<lambda>_. 0"]
  by (simp add: Let_def demo_normal) (simp add: demo_defs on_screen_def)

end
