(* ===== verification/TermQuirks.thy ===== *)
theory TermQuirks
  imports TermCsi
begin

text \<open>
  Save and restore of the cursor, and what the engine does where it departs from its comments
  or from the terminal it emulates: the arrow keys, the alternate screen, scroll up and down by
  one, line insertion with a large count, the 256-colour form of SGR and the VT52 colours.
\<close>

section \<open>Save and restore\<close>

definition saved_pen where
  "saved_pen s = (saved_row s, saved_col s, saved_eol s, saved_origin_mode s,
     saved_fg s, saved_bg s, saved_attr s, saved_charset_G0 s, saved_charset_G1 s)"

definition pen where
  "pen s = (cursor_row s, cursor_col s, cursor_eol s, origin_mode s,
     color_fg s, color_bg s, attr s, charset_G0 s, charset_G1 s)"

lemma rx_escape:
  assumes "terminal_state s = TS_NORMAL" "\<not> vt52_mode s"
  shows "fold (terminal_receive_char rom) [27, c] s =
    (if c \<in> {8, 10, 11, 13} then terminal_receive_char rom c (s\<lparr>terminal_state := TS_WAITBRACKET\<rparr>)
     else vt102_escape rom (terminal_receive_char rom) c (s\<lparr>terminal_state := TS_WAITBRACKET\<rparr>))"
proof -
  have a: "terminal_receive_char rom 27 s = s\<lparr>terminal_state := TS_WAITBRACKET\<rparr>"
    using assms by (subst rx_unfold) (simp add: rx_with_def config_defs terminal_receive_char_vt102_def)
  have "terminal_receive_char rom c (s\<lparr>terminal_state := TS_WAITBRACKET\<rparr>) =
      vt102_escape rom (terminal_receive_char rom) c (s\<lparr>terminal_state := TS_WAITBRACKET\<rparr>)"
    if "c \<notin> {8, 10, 11, 13}"
    using assms(2) that by (subst rx_unfold) (simp add: rx_with_def config_defs terminal_receive_char_vt102_def)
  then show ?thesis by (simp add: a)
qed

lemma rx_save:
  assumes "terminal_state s = TS_NORMAL" "\<not> vt52_mode s"
  shows "fold (terminal_receive_char rom) [27, 55] s = cmd_save s"
proof -
  have "s\<lparr>terminal_state := TS_NORMAL\<rparr> = s" using assms(1) by simp
  then show ?thesis
    using rx_escape [OF assms, of rom 55] by (simp add: vt102_escape_def terminal_process_command_def)
qed

lemma rx_restore:
  assumes "terminal_state s = TS_NORMAL" "\<not> vt52_mode s"
  shows "fold (terminal_receive_char rom) [27, 56] s = cmd_restore s"
proof -
  have "s\<lparr>terminal_state := TS_NORMAL\<rparr> = s" using assms(1) by simp
  then show ?thesis
    using rx_escape [OF assms, of rom 56] by (simp add: vt102_escape_def terminal_process_command_def)
qed

lemma within_region_keeps:
  "saved_pen (move_cursor_within_region row col topl botl s) = saved_pen s"
  by (simp add: move_cursor_within_region_def Let_def load_cur_attr_def saved_pen_def)

text \<open>Save and restore are inverse: if \<open>ESC 7\<close> was received in state \<open>s\<close> and nothing stored
  over the saved values since, \<open>ESC 8\<close> brings back the cursor, the pending wrap, the origin mode,
  the colours, the attribute and both character sets of \<open>s\<close>, provided the cursor now is inside
  the scroll region and so is the saved row.\<close>

theorem restore_undoes_save:
  assumes "terminal_state s = TS_NORMAL" "\<not> vt52_mode s" "on_screen s"
    "saved_pen t = saved_pen (fold (terminal_receive_char rom) [27, 55] s)"
    "terminal_state t = TS_NORMAL" "\<not> vt52_mode t"
    "scroll_region_start t \<le> cursor_row t" "cursor_row t \<le> scroll_region_end t"
    "scroll_region_start t \<le> cursor_row s" "cursor_row s \<le> scroll_region_end t"
  shows "pen (fold (terminal_receive_char rom) [27, 56] t) = pen s"
proof -
  have sp: "saved_pen t = pen s"
    unfolding assms(4) rx_save [OF assms(1,2)] by (simp add: saved_pen_def pen_def cmd_save_def)
  let ?m = "move_cursor_limited (saved_row t) (saved_col t) t"
  have "saved_pen ?m = saved_pen t" using assms(7,8) by (simp add: move_cursor_limited_def within_region_keeps)
  then have m: "saved_pen ?m = pen s" using sp by simp
  have rc: "saved_row t = cursor_row s" "saved_col t = cursor_col s" using sp by (simp_all add: saved_pen_def pen_def)
  have "cursor_row ?m = cursor_row s" "cursor_col ?m = cursor_col s"
    using assms(3,7-10) by (auto simp: move_cursor_limited_def move_cursor_within_region_def Let_def
        load_cur_attr_def rc ncols_80 on_screen_def)
  then show ?thesis
    unfolding rx_restore [OF assms(5,6)] using m
    by (simp add: cmd_restore_def Let_def) (simp add: pen_def saved_pen_def)
qed

theorem restore_undoes_save_witness:
  "pen (fold (terminal_receive_char (\<lambda>_. 0)) [27, 56]
     ((fold (terminal_receive_char (\<lambda>_. 0)) [27, 55] demo_term)\<lparr>cursor_row := 20, color_fg := 3\<rparr>)) = pen demo_term"
proof -
  let ?t = "(fold (terminal_receive_char (\<lambda>_. 0)) [27, 55] demo_term)\<lparr>cursor_row := 20, color_fg := 3\<rparr>"
  have t: "?t = (cmd_save demo_term)\<lparr>cursor_row := 20, color_fg := 3\<rparr>"
    by (simp only: rx_save [OF demo_normal])
  have "saved_pen ?t = saved_pen (fold (terminal_receive_char (\<lambda>_. 0)) [27, 55] demo_term)"
    by (simp add: saved_pen_def)
  moreover have "terminal_state ?t = TS_NORMAL" "\<not> vt52_mode ?t" "scroll_region_start ?t \<le> cursor_row ?t"
    "cursor_row ?t \<le> scroll_region_end ?t" "scroll_region_start ?t \<le> cursor_row demo_term"
    "cursor_row demo_term \<le> scroll_region_end ?t" "on_screen demo_term"
    unfolding t by (simp_all add: cmd_save_def demo_defs on_screen_def)
  ultimately show ?thesis
    using restore_undoes_save [where s = demo_term and t = ?t and rom = "\<lambda>_. 0"] demo_normal by blast
qed

section \<open>Keys\<close>

lemma send_char_noecho: "\<not> localecho s \<Longrightarrow> send_char e c s = s\<lparr>t_keyq := serial_send_char c (t_keyq s)\<rparr>"
  by (simp add: send_char_def Let_def)

lemma special_key_nul:
  assumes "0x80 \<le> key" "key AND 0xFF \<noteq> HID_KEY_PAUSE" "key \<noteq> HID_KEY_F10" "\<not> localecho s"
  shows "terminal_process_key rom key s = s\<lparr>t_keyq := serial_send_char 0 (t_keyq s)\<rparr>"
proof -
  have "\<not> key < 0x80" using assms(1) by (simp only: linorder_not_less)
  then have "fst (keyboard_map_key_ascii key) = 0" by (simp add: keyboard_map_key_ascii_def)
  then show ?thesis
    using assms(2-)
    by (simp add: terminal_process_key_def config_defs terminal_process_key_vt_def Let_def key_defs
        keyboard_russian_mode_def send_char_noecho)
qed

text \<open>A key that the keyboard delivers as a code of 0x80 and above (the arrows, Insert, Home, End,
  Page Up and Down, the function keys) queues the single byte NUL for Linux, in normal and in
  application cursor mode alike: \<open>keyboard_map_key_ascii\<close> returns 0 for it, so none of the cases
  that build \<open>ESC [ A\<close> or \<open>ESC O A\<close> is ever taken.\<close>

theorem special_keys_send_nul:
  assumes "0x80 \<le> key" "key \<le> 0x97" "\<not> localecho s" "keyq_ok (t_keyq s)"
    "length (keyq_bytes (t_keyq s)) < 255"
  shows "keyq_bytes (t_keyq (terminal_process_key rom key s)) = keyq_bytes (t_keyq s) @ [0]"
proof -
  have "key AND 0xFF \<noteq> HID_KEY_PAUSE"
  proof
    assume eq: "key AND 0xFF = HID_KEY_PAUSE"
    have "unat key \<le> 0x97" using assms(2) by (simp add: word_le_nat_alt)
    moreover have "unat (key AND 0xFF) = unat key mod 2 ^ 8"
      using unat_and_mask [of key 8] by (simp add: mask_eq_exp_minus_1)
    ultimately show False using eq by (simp add: HID_KEY_PAUSE_def)
  qed
  moreover have "key \<noteq> HID_KEY_F10" using assms(2) by (auto simp: HID_KEY_F10_def)
  ultimately show ?thesis
    using assms keyq_bytes_send [OF assms(4), of 0] by (simp add: special_key_nul)
qed

theorem special_keys_send_nul_witness:
  "keyq_bytes (t_keyq (terminal_process_key (\<lambda>_. 0) 0x80 (demo_term\<lparr>cursor_key_mode := True\<rparr>))) = [0]"
  using special_keys_send_nul [where key = "0x80" and s = "demo_term\<lparr>cursor_key_mode := True\<rparr>" and rom = "\<lambda>_. 0"]
  by (simp add: demo_defs keyq_ok_def keyq_bytes_def rq_len_def KEYQ_SIZE_def)

lemma process_key_vt_plain:
  assumes c: "fst (keyboard_map_key_ascii key) = c" "c < 0x80" and e: "\<not> localecho s"
  shows "terminal_process_key_vt rom key s =
    s\<lparr>t_keyq := serial_send_char (if c = 0x7f then 8 else c) (t_keyq s)\<rparr>"
proof -
  have "c \<noteq> KEY_UP" "c \<noteq> KEY_DOWN" "c \<noteq> KEY_RIGHT" "c \<noteq> KEY_LEFT" "\<not> KEY_F1 \<le> c" "c \<noteq> KEY_INSERT" "c \<noteq> KEY_HOME"
    using c(2) by (auto simp: key_defs word_le_nat_alt word_less_nat_alt)
  note special = this
  have "keyboard_russian_mode = False" by (simp add: keyboard_russian_mode_def)
  note simps = terminal_process_key_vt_def Let_def c(1) special this config_defs send_char_noecho [OF e]
  consider "c = KEY_ENTER" | "c = KEY_BACKSPACE" | "c = KEY_DELETE"
    | "c \<noteq> KEY_ENTER" "c \<noteq> KEY_BACKSPACE" "c \<noteq> KEY_DELETE" by blast
  then show ?thesis
  proof cases
    case 1
    then show ?thesis by (simp only: simps) (simp add: key_defs)
  next
    case 2
    then show ?thesis by (simp only: simps) (simp add: key_defs)
  next
    case 3
    then show ?thesis by (simp only: simps) (simp add: key_defs)
  next
    case 4
    then have "c \<noteq> 0x7f" by (simp add: KEY_DELETE_def)
    then show ?thesis by (simp only: simps 4) simp
  qed
qed

text \<open>Keys below 0x80.\<close>

lemma process_key_queues:
  assumes "key < 0x80" "\<not> localecho s" "keyq_ok (t_keyq s)" "length (keyq_bytes (t_keyq s)) < 255"
  shows "keyq_bytes (t_keyq (terminal_process_key rom key s)) =
    keyq_bytes (t_keyq s) @ [if key = 0x7f then 8 else ucast key]"
    and "keyq_ok (t_keyq (terminal_process_key rom key s))"
proof -
  have less: "unat key < 128" using assms(1) by (simp add: word_less_nat_alt)
  then have u: "unat (ucast key :: u8) = unat key"
    by (simp add: unsigned_ucast_eq take_bit_nat_eq_self)
  have k: "fst (keyboard_map_key_ascii key) = ucast key" "(ucast key :: u8) < 0x80"
    using assms(1) less by (simp_all add: keyboard_map_key_ascii_def word_less_nat_alt u)
  have "key AND 0xFF \<noteq> HID_KEY_PAUSE"
  proof
    assume eq: "key AND 0xFF = HID_KEY_PAUSE"
    have "unat (key AND 0xFF) = unat key mod 2 ^ 8"
      using unat_and_mask [of key 8] by (simp add: mask_eq_exp_minus_1)
    then show False using eq less by (simp add: HID_KEY_PAUSE_def)
  qed
  moreover have "key \<noteq> HID_KEY_F10" using assms(1) by (auto simp: HID_KEY_F10_def)
  moreover have "(ucast key :: u8) = 0x7f \<longleftrightarrow> key = 0x7f"
    using u by (simp add: word_unat_eq_iff)
  ultimately have "terminal_process_key rom key s =
      s\<lparr>t_keyq := serial_send_char (if key = 0x7f then 8 else ucast key) (t_keyq s)\<rparr>"
    using process_key_vt_plain [OF k assms(2)] by (simp add: terminal_process_key_def config_defs)
  then show "keyq_bytes (t_keyq (terminal_process_key rom key s)) =
    keyq_bytes (t_keyq s) @ [if key = 0x7f then 8 else ucast key]"
    and "keyq_ok (t_keyq (terminal_process_key rom key s))"
    using assms keyq_bytes_send [OF assms(3)] keyq_ok_send [OF assms(3)] by simp_all
qed

section \<open>Control sequences that miss their command\<close>

lemma csi_final [simp]:
  "final_byte 104" "final_byte 108" "final_byte 83" "final_byte 84" "final_byte 76" "final_byte 77" "final_byte 109"
  by (simp_all add: final_byte_def digit_byte_def)

lemma rx_csi1:
  assumes "terminal_state s = TS_NORMAL" "\<not> vt52_mode s" "final_byte f"
  shows "fold (terminal_receive_char rom) (csi priv [p] f) s =
    (terminal_process_command (terminal_receive_char rom) (if priv then 63 else 0) f 1
       (put_params 0 [p] (vt_params s)) (csi_state priv [p] s))\<lparr>terminal_state := TS_NORMAL\<rparr>"
  using rx_csi [OF assms(1,2) _ _ assms(3), of "[p]" rom priv] by simp

lemma put_params_0: "ps \<noteq> [] \<Longrightarrow> put_params 0 ps old 0 = of_nat (ps ! 0)"
  by (simp add: put_params_def)

text \<open>C39: The alternate-screen mode is never recognised: \<open>params\<close> holds bytes, 1049 arrives as 25, and
  \<open>CSI ? 1049 h\<close> and \<open>CSI ? 1049 l\<close> only show and hide the cursor.  Nothing is cleared, saved or
  restored; leaving a full-screen program hides the cursor.\<close>

theorem alternate_screen_is_cursor_visibility:
  assumes "terminal_state s = TS_NORMAL" "\<not> vt52_mode s"
  shows "let s' = fold (terminal_receive_char rom) (csi True [1049] (if enter then 104 else 108)) s in
    cursor_shown s' = enter \<and> t_fb s' = t_fb s \<and> pen s' = pen s \<and> saved_pen s' = saved_pen s"
proof -
  have "of_nat 1049 = (25 :: u8)" by simp
  then show ?thesis
    using rx_csi1 [OF assms, of "if enter then 104 else 108" rom True 1049]
    by (simp add: put_params_0 terminal_process_command_def cmd_mode_def Let_def)
      (simp add: csi_state_def pen_def saved_pen_def)
qed

theorem alternate_screen_is_cursor_visibility_witness:
  "\<not> cursor_shown (fold (terminal_receive_char (\<lambda>_. 0)) (csi True [1049] 108) demo_term)"
  using alternate_screen_is_cursor_visibility [OF demo_normal, of "\<lambda>_. 0" False] by (simp add: Let_def)

text \<open>The loop of \<open>S\<close> and \<open>T\<close>: scrolling by \<open>n - 1\<close>, then \<open>n - 2\<close>, down to 0.\<close>

lemma scroll_zero: "framebuf_scroll_region rs re 0 f g b = b"
  by (simp add: framebuf_scroll_region_def Let_def)

text \<open>Scroll up and scroll down by one line do nothing: the loop \<open>while( n-- )\<close> passes the
  decremented count, so \<open>CSI S\<close>, \<open>CSI 1 S\<close>, \<open>CSI T\<close> and \<open>CSI 1 T\<close> scroll by 0 lines.\<close>

theorem scroll_by_one_does_nothing:
  assumes "terminal_state s = TS_NORMAL" "\<not> vt52_mode s" "n \<le> 1"
  shows "t_fb (fold (terminal_receive_char rom) (csi False [n] (if up then 83 else 84)) s) = t_fb s"
proof -
  have "count_param (of_nat n) = 1" using assms(3) by (cases n) (auto simp: count_param_def)
  then show ?thesis
    using rx_csi1 [OF assms(1,2), of "if up then 83 else 84" rom False n]
    by (simp add: put_params_0 terminal_process_command_def cmd_scroll_def Let_def scroll_zero
        load_cur_attr_def on_fb_def)
qed

theorem scroll_by_one_does_nothing_witness:
  "t_fb (fold (terminal_receive_char (\<lambda>_. 0)) (csi False [1] 83) demo_term) = t_fb demo_term"
  using scroll_by_one_does_nothing [OF demo_normal, of 1 "\<lambda>_. 0" True] by simp

text \<open>Insert-line and delete-line swap roles for counts of 129 to 255: the signed 8-bit count of
  \<open>framebuf_scroll_region\<close> wraps, so \<open>CSI n L\<close> does exactly what deleting \<open>256 - n\<close> lines does,
  and \<open>CSI n M\<close> what inserting \<open>256 - n\<close> lines does.\<close>

theorem large_line_counts_reverse:
  assumes "terminal_state s = TS_NORMAL" "\<not> vt52_mode s" "128 < n" "n < 256"
  shows "t_fb (fold (terminal_receive_char rom) (csi False [n] (if ins then 76 else 77)) s) =
    t_fb (fold (terminal_receive_char rom) (csi False [256 - n] (if ins then 77 else 76)) s)"
proof -
  have c0: "count_param (of_nat m) = int m" if "1 \<le> m" "m < 256" for m
    using that by (simp add: count_param_def unsigned_of_nat take_bit_nat_eq_self)
  have c: "count_param (of_nat n) = int n" "count_param (of_nat (256 - n)) = 256 - int n"
    using c0 [of n] c0 [of "256 - n"] assms(3,4) by (simp_all only: of_nat_diff)
  have z: "(256 :: 8 word) = 0" by simp
  show ?thesis
    unfolding rx_csi1 [OF assms(1,2) csi_final(5)] rx_csi1 [OF assms(1,2) csi_final(6)] if_distrib
    by (cases ins) (simp_all add: rx_csi1 [OF assms(1,2)] put_params_0 terminal_process_command_def
        cmd_lines_def Let_def load_cur_attr_def on_fb_def c bottom_of_def z)
qed

theorem large_line_counts_reverse_witness:
  "t_fb (fold (terminal_receive_char (\<lambda>_. 0)) (csi False [255] 76) demo_term) =
   t_fb (fold (terminal_receive_char (\<lambda>_. 0)) (csi False [1] 77) demo_term)"
  using large_line_counts_reverse [OF demo_normal, of 255 "\<lambda>_. 0" True] by simp

text \<open>The 256-colour form of SGR reads past the parameters it was given: \<open>38;5\<close> as the last two
  of them takes as its colour the byte of \<open>params\<close> that follows, which an earlier sequence left
  there, or, when they are the 15th and 16th, the memory behind the array.\<close>

theorem sgr_color_reads_past_params:
  assumes "terminal_state s = TS_NORMAL" "\<not> vt52_mode s" "length ps \<le> 14"
    "list_all (\<lambda>p. p = 1) ps"
  shows "color_fg (fold (terminal_receive_char rom) (csi False (ps @ [38, 5]) 109) s) =
    vt_params s (length ps + 2) AND 15"
proof -
  let ?ps = "ps @ [38, 5]" and ?n = "length ps + 2"
  let ?p = "put_params 0 ?ps (vt_params s)"
  have n: "unat (of_nat ?n :: u8) = ?n" using assms(3) by (intro unat_of_nat_small) simp
  have one: "?p i = 1" if "i < length ps" for i
    using that assms(4) by (simp add: put_params_def nth_append list_all_length)
  have last: "?p (length ps) = 38" "?p (Suc (length ps)) = 5" "?p ?n = vt_params s ?n"
    by (simp_all add: put_params_def nth_append)
  have loop: "color_fg (sgr_loop (of_nat ?n) ?p i u) = vt_params s ?n AND 15" if "i \<le> length ps" for i u
    using that
  proof (induction "length ps - i" arbitrary: i u)
    case 0
    then have i: "i = length ps" by simp
    have "sgr_step (of_nat ?n) ?p i u = (i + 3, u\<lparr>color_fg := vt_params s ?n AND 15\<rparr>)"
      using last n by (simp add: sgr_step_def Let_def i)
    then show ?case
      using n by (subst sgr_loop.simps, simp add: i) (subst sgr_loop.simps, simp)
  next
    case (Suc k)
    then have "i < length ps" by simp
    then have "sgr_step (of_nat ?n) ?p i u = (i + 1, u\<lparr>attr := attr u OR ATTR_BOLD\<rparr>)"
      using one by (simp add: sgr_step_def Let_def)
    then show ?case using Suc n by (subst sgr_loop.simps) simp
  qed
  have "length ?ps \<le> 16" "?ps \<noteq> []" using assms(3) by simp_all
  then show ?thesis
    using rx_csi [OF assms(1,2) _ _ csi_final(7), of ?ps rom False] loop [of 0]
    by (simp add: terminal_process_command_def cmd_attributes_def)
qed

theorem sgr_color_reads_past_params_witness:
  "color_fg (fold (terminal_receive_char (\<lambda>_. 0)) (csi False [38, 5] 109) (demo_term\<lparr>vt_params := (\<lambda>i. of_nat i)\<rparr>)) = 2"
  using sgr_color_reads_past_params [where s = "demo_term\<lparr>vt_params := (\<lambda>i. of_nat i)\<rparr>" and ps = "[]" and rom = "\<lambda>_. 0"]
  by (simp add: demo_normal)

section \<open>VT52\<close>

text \<open>A VT52 colour command never ends: after \<open>ESC b\<close> or \<open>ESC c\<close> in VT52 mode the parser stays in
  its parameter state for good, so no later byte prints, moves the cursor or leaves VT52 mode;
  each of them only sets the colour again.\<close>

theorem vt52_color_never_ends:
  assumes "vt52_mode s" "terminal_state s = TS_READPARAM" "v52_start_char s = 98 \<or> v52_start_char s = 99"
  shows "let s' = fold (terminal_receive_char rom) bytes s in
    terminal_state s' = TS_READPARAM \<and> vt52_mode s' \<and> t_fb s' = t_fb s \<and>
    cursor_row s' = cursor_row s \<and> cursor_col s' = cursor_col s"
  unfolding Let_def using assms
proof (induction bytes arbitrary: s)
  case (Cons c cs)
  have rx: "terminal_receive_char rom c s = vt52_param c s"
    using Cons.prems by (subst rx_unfold) (simp add: rx_with_def config_defs terminal_receive_char_vt52_def)
  have "vt52_mode (vt52_param c s)" "terminal_state (vt52_param c s) = TS_READPARAM"
    "v52_start_char (vt52_param c s) = v52_start_char s" "t_fb (vt52_param c s) = t_fb s"
    "cursor_row (vt52_param c s) = cursor_row s" "cursor_col (vt52_param c s) = cursor_col s"
    using Cons.prems by (auto simp: vt52_param_def)
  then show ?case using Cons.IH [of "vt52_param c s"] Cons.prems(3) by (simp add: rx)
qed simp

theorem vt52_color_never_ends_witness:
  "t_fb (fold (terminal_receive_char (\<lambda>_. 0)) [33, 27, 60, 65]
     (demo_term\<lparr>vt52_mode := True, terminal_state := TS_READPARAM, v52_start_char := 98\<rparr>)) = t_fb demo_term"
  using vt52_color_never_ends [where rom = "\<lambda>_. 0" and bytes = "[33, 27, 60, 65]" and
      s = "demo_term\<lparr>vt52_mode := True, terminal_state := TS_READPARAM, v52_start_char := 98\<rparr>"]
  by (simp add: Let_def)

end
