(* ===== verification/Hid.thy ===== *)
theory Hid
  imports Fifo
begin

text \<open>
  \<open>firmware/master-ioserver/usbhid/hid_app.c\<close>: keyboards, mice and gamepads on the USB host
  port.  TinyUSB is the record \<open>tuh\<close>, an argument of the callbacks that ask it something;
  the calls the callbacks make to it are collected in \<open>host_calls\<close>, in order.
\<close>

section \<open>Gamepad maps\<close>

datatype dpad_mode = DPAD_AXIS | DPAD_HAT | DPAD_BITS

record btn_bit =
  bb_byte :: u8
  bb_mask :: u8

record gamepad_map =
  gm_vid :: u16
  gm_pid :: u16
  gm_mode :: dpad_mode
  gm_dpad_x :: u8
  gm_dpad_y :: u8
  gm_a :: btn_bit
  gm_b :: btn_bit
  gm_x :: btn_bit
  gm_y :: btn_bit
  gm_l :: btn_bit
  gm_r :: btn_bit
  gm_start :: btn_bit
  gm_select :: btn_bit

abbreviation bb :: "u8 \<Rightarrow> u8 \<Rightarrow> btn_bit" where
  "bb i m \<equiv> \<lparr>bb_byte = i, bb_mask = m\<rparr>"

definition known_hid_maps :: "gamepad_map list" where
  "known_hid_maps = [
     \<lparr>gm_vid = 0x046D, gm_pid = 0xC219, gm_mode = DPAD_HAT, gm_dpad_x = 5, gm_dpad_y = 0,
      gm_a = bb 5 0x20, gm_b = bb 5 0x40, gm_x = bb 5 0x10, gm_y = bb 5 0x80,
      gm_l = bb 6 0x01, gm_r = bb 6 0x02, gm_start = bb 6 0x20, gm_select = bb 6 0x10\<rparr>,
     \<lparr>gm_vid = 0x081F, gm_pid = 0xE401, gm_mode = DPAD_AXIS, gm_dpad_x = 0, gm_dpad_y = 1,
      gm_a = bb 5 0x20, gm_b = bb 5 0x40, gm_x = bb 5 0x10, gm_y = bb 5 0x80,
      gm_l = bb 6 0x01, gm_r = bb 6 0x02, gm_start = bb 6 0x20, gm_select = bb 6 0x10\<rparr>,
     \<lparr>gm_vid = 0x11FF, gm_pid = 0x3331, gm_mode = DPAD_AXIS, gm_dpad_x = 0, gm_dpad_y = 1,
      gm_a = bb 5 0x80, gm_b = bb 5 0x40, gm_x = bb 5 0x20, gm_y = bb 5 0x10,
      gm_l = bb 6 0x04, gm_r = bb 6 0x08, gm_start = bb 6 0x20, gm_select = bb 6 0x10\<rparr>,
     \<lparr>gm_vid = 0x2563, gm_pid = 0x0575, gm_mode = DPAD_HAT, gm_dpad_x = 2, gm_dpad_y = 0,
      gm_a = bb 0 0x04, gm_b = bb 0 0x02, gm_x = bb 0 0x08, gm_y = bb 0 0x01,
      gm_l = bb 0 0x10, gm_r = bb 0 0x20, gm_start = bb 1 0x02, gm_select = bb 1 0x01\<rparr>,
     \<lparr>gm_vid = 0xFEED, gm_pid = 0x2320, gm_mode = DPAD_HAT, gm_dpad_x = 5, gm_dpad_y = 0,
      gm_a = bb 6 0x01, gm_b = bb 6 0x02, gm_x = bb 6 0x08, gm_y = bb 6 0x04,
      gm_l = bb 6 0x10, gm_r = bb 6 0x20, gm_start = bb 7 0x08, gm_select = bb 7 0x04\<rparr>]"

definition fallback_hid_map :: gamepad_map where
  "fallback_hid_map =
     \<lparr>gm_vid = 0, gm_pid = 0, gm_mode = DPAD_AXIS, gm_dpad_x = 3, gm_dpad_y = 4,
      gm_a = bb 5 0x20, gm_b = bb 5 0x40, gm_x = bb 5 0x10, gm_y = bb 5 0x80,
      gm_l = bb 6 0x01, gm_r = bb 6 0x02, gm_start = bb 6 0x20, gm_select = bb 6 0x10\<rparr>"

definition xinput_default_map :: gamepad_map where
  "xinput_default_map =
     \<lparr>gm_vid = 0, gm_pid = 0, gm_mode = DPAD_BITS, gm_dpad_x = 0xFF, gm_dpad_y = 0xFF,
      gm_a = bb 1 0x10, gm_b = bb 1 0x20, gm_x = bb 1 0x40, gm_y = bb 1 0x80,
      gm_l = bb 1 0x01, gm_r = bb 1 0x02, gm_start = bb 0 0x10, gm_select = bb 0 0x20\<rparr>"

definition known_xinput_maps :: "gamepad_map list" where
  "known_xinput_maps = [
     \<lparr>gm_vid = 0x045E, gm_pid = 0x028E, gm_mode = DPAD_BITS, gm_dpad_x = 0xFF, gm_dpad_y = 0xFF,
      gm_a = bb 1 0x20, gm_b = bb 1 0x10, gm_x = bb 1 0x80, gm_y = bb 1 0x40,
      gm_l = bb 1 0x01, gm_r = bb 1 0x02, gm_start = bb 0 0x10, gm_select = bb 0 0x20\<rparr>,
     \<lparr>gm_vid = 0x046D, gm_pid = 0xC21F, gm_mode = DPAD_BITS, gm_dpad_x = 0xFF, gm_dpad_y = 0xFF,
      gm_a = bb 1 0x10, gm_b = bb 1 0x20, gm_x = bb 1 0x40, gm_y = bb 1 0x80,
      gm_l = bb 1 0x01, gm_r = bb 1 0x02, gm_start = bb 0 0x10, gm_select = bb 0 0x20\<rparr>]"

definition find_map :: "gamepad_map list \<Rightarrow> gamepad_map \<Rightarrow> u16 \<Rightarrow> u16 \<Rightarrow> gamepad_map" where
  "find_map known other vid pid =
     (case filter (\<lambda>m. gm_vid m = vid \<and> gm_pid m = pid) known of m # _ \<Rightarrow> m | [] \<Rightarrow> other)"

definition find_hid_map :: "u16 \<Rightarrow> u16 \<Rightarrow> gamepad_map" where
  "find_hid_map = find_map known_hid_maps fallback_hid_map"

definition find_xinput_map :: "u16 \<Rightarrow> u16 \<Rightarrow> gamepad_map" where
  "find_xinput_map = find_map known_xinput_maps xinput_default_map"

section \<open>State\<close>

definition MAX_REPORT :: nat where "MAX_REPORT = 4"
definition CFG_TUH_HID :: nat where "CFG_TUH_HID = 8"
definition MAX_GAMEPADS :: nat where "MAX_GAMEPADS = 2"
definition KEY_ACTION_QUEUE_SIZE :: nat where "KEY_ACTION_QUEUE_SIZE = 32"
definition USB_RAW_CHAR_QUEUE_SIZE :: nat where "USB_RAW_CHAR_QUEUE_SIZE = 16"

record report_info =
  report_id :: u8
  ri_usage :: u8
  usage_page :: u16

record hid_info =
  report_count :: u8
  report_infos :: "report_info arr"

record kbd_report =
  kr_modifier :: u8
  kr_keycode :: "u8 list"   \<comment> \<open>six key codes\<close>

record mouse_report =
  mr_buttons :: u8
  mr_x :: u8
  mr_y :: u8
  mr_wheel :: u8
  mr_pan :: u8

datatype gp_source = GP_SRC_NONE | GP_SRC_HID | GP_SRC_XINPUT

record gamepad_slot =
  gs_axis_x :: u8
  gs_axis_y :: u8
  gs_dpad :: u8
  gs_buttons :: u16
  gs_connected :: bool
  gs_dev :: u8
  gs_inst :: u8
  gs_source :: gp_source
  gs_map :: "gamepad_map option"   \<comment> \<open>a pointer that may be NULL\<close>

record key_action =
  ka_keycode :: u8
  ka_down :: bool

record 'a ring =
  rg_data :: "'a arr"
  rg_head :: nat
  rg_tail :: nat

text \<open>Calls into TinyUSB.\<close>

datatype host_call = HidReceive u8 u8 | XinputReceive u8 u8 | XinputSetLed u8 u8 u8 bool

record hid =
  infos :: "hid_info arr"
  prev_kbd :: kbd_report
  prev_mouse :: mouse_report
  cumulative_dx :: u16
  cumulative_dy :: u16
  cumulative_wheel :: u8
  current_buttons :: u8
  mouse_has_motion :: bool
  slots :: "gamepad_slot arr"
  keyboard_connected :: bool
  mouse_connected :: bool
  key_actions :: "key_action ring"
  raw_chars :: "u8 ring"
  host_calls :: "host_call list"

text \<open>
  What TinyUSB answers: the protocol of an interface, the ids of a device, and the report
  descriptor parser, which overwrites the array it is given and returns the count.
\<close>

record tuh =
  tuh_hid_interface_protocol :: "u8 \<Rightarrow> u8 \<Rightarrow> u8"
  tuh_vid_pid_get :: "u8 \<Rightarrow> u16 \<times> u16"
  tuh_hid_parse_report_descriptor :: "u8 list \<Rightarrow> report_info arr \<Rightarrow> u8 \<times> report_info arr"

definition HID_ITF_PROTOCOL_NONE :: u8 where "HID_ITF_PROTOCOL_NONE = 0"
definition HID_ITF_PROTOCOL_KEYBOARD :: u8 where "HID_ITF_PROTOCOL_KEYBOARD = 1"
definition HID_ITF_PROTOCOL_MOUSE :: u8 where "HID_ITF_PROTOCOL_MOUSE = 2"
definition HID_USAGE_PAGE_DESKTOP :: u16 where "HID_USAGE_PAGE_DESKTOP = 1"
definition HID_USAGE_DESKTOP_MOUSE :: u8 where "HID_USAGE_DESKTOP_MOUSE = 2"
definition HID_USAGE_DESKTOP_JOYSTICK :: u8 where "HID_USAGE_DESKTOP_JOYSTICK = 4"
definition HID_USAGE_DESKTOP_GAMEPAD :: u8 where "HID_USAGE_DESKTOP_GAMEPAD = 5"
definition HID_USAGE_DESKTOP_KEYBOARD :: u8 where "HID_USAGE_DESKTOP_KEYBOARD = 6"

lemmas hid_consts = MAX_REPORT_def CFG_TUH_HID_def MAX_GAMEPADS_def HID_ITF_PROTOCOL_NONE_def
  HID_ITF_PROTOCOL_KEYBOARD_def HID_ITF_PROTOCOL_MOUSE_def HID_USAGE_PAGE_DESKTOP_def
  HID_USAGE_DESKTOP_MOUSE_def HID_USAGE_DESKTOP_JOYSTICK_def HID_USAGE_DESKTOP_GAMEPAD_def
  HID_USAGE_DESKTOP_KEYBOARD_def

definition call_host :: "host_call \<Rightarrow> hid \<Rightarrow> hid" where
  "call_host k s = s\<lparr>host_calls := host_calls s @ [k]\<rparr>"

definition on_slot :: "nat \<Rightarrow> (gamepad_slot \<Rightarrow> gamepad_slot) \<Rightarrow> hid \<Rightarrow> hid" where
  "on_slot i f s = s\<lparr>slots := (slots s)(i := f (slots s i))\<rparr>"

section \<open>Gamepad slots\<close>

text \<open>The first index below \<open>n\<close> that satisfies a condition, as the \<open>for\<close> loops with a return find it.\<close>

definition first_below :: "nat \<Rightarrow> (nat \<Rightarrow> bool) \<Rightarrow> nat option" where
  "first_below n p = (case filter p [0..<n] of i # _ \<Rightarrow> Some i | [] \<Rightarrow> None)"

definition find_or_alloc_gamepad_slot :: "u8 \<Rightarrow> u8 \<Rightarrow> gp_source \<Rightarrow> hid \<Rightarrow> nat option \<times> hid" where
  "find_or_alloc_gamepad_slot dev inst src s =
     (case first_below MAX_GAMEPADS (\<lambda>i. gs_connected (slots s i) \<and> gs_dev (slots s i) = dev \<and>
        gs_inst (slots s i) = inst \<and> gs_source (slots s i) = src) of
        Some i \<Rightarrow> (Some i, s)
      | None \<Rightarrow> (case first_below MAX_GAMEPADS (\<lambda>i. \<not> gs_connected (slots s i)) of
          Some i \<Rightarrow> (Some i, on_slot i (\<lambda>g. g\<lparr>gs_dev := dev, gs_inst := inst, gs_source := src\<rparr>) s)
        | None \<Rightarrow> (None, s)))"

definition find_gamepad_slot_by_dev :: "u8 \<Rightarrow> gp_source \<Rightarrow> hid \<Rightarrow> nat option" where
  "find_gamepad_slot_by_dev dev src s =
     first_below MAX_GAMEPADS (\<lambda>i. gs_connected (slots s i) \<and> gs_dev (slots s i) = dev \<and>
        gs_source (slots s i) = src)"

section \<open>Keyboard\<close>

definition queue_key_action :: "u8 \<Rightarrow> bool \<Rightarrow> hid \<Rightarrow> hid" where
  "queue_key_action keycode down s =
     (let q = key_actions s; next_head = (rg_head q + 1) mod KEY_ACTION_QUEUE_SIZE
      in if next_head \<noteq> rg_tail q
         then s\<lparr>key_actions := q\<lparr>rg_data := (rg_data q)(rg_head q := \<lparr>ka_keycode = keycode, ka_down = down\<rparr>),
                                 rg_head := next_head\<rparr>\<rparr>
         else s)"

definition find_keycode_in_report :: "kbd_report \<Rightarrow> u8 \<Rightarrow> bool" where
  "find_keycode_in_report r k \<longleftrightarrow> k \<in> set (take 6 (kr_keycode r))"

definition usb_raw_char_push :: "u8 \<Rightarrow> hid \<Rightarrow> hid" where
  "usb_raw_char_push ch s =
     (let q = raw_chars s; next = (rg_head q + 1) mod USB_RAW_CHAR_QUEUE_SIZE
      in if next \<noteq> rg_tail q
         then s\<lparr>raw_chars := q\<lparr>rg_data := (rg_data q)(rg_head q := ch), rg_head := next\<rparr>\<rparr>
         else s)"

definition usbhid_keycode_to_ascii :: "u8 \<Rightarrow> u8 \<Rightarrow> u8" where
  "usbhid_keycode_to_ascii code modifier =
     (let shift = modifier AND (0x02 OR 0x20) \<noteq> 0
      in if code \<ge> 0x04 \<and> code \<le> 0x1D then (if shift then 65 + (code - 0x04) else 97 + (code - 0x04))
         else if code \<ge> 0x1E \<and> code \<le> 0x27 then
           (if shift then [33, 64, 35, 36, 37, 94, 38, 42, 40, 41]
            else [49, 50, 51, 52, 53, 54, 55, 56, 57, 48]) ! unat (code - 0x1E)
         else if code = 0x28 then 13
         else if code = 0x2B then 9
         else if code = 0x2A then 8
         else if code = 0x2C then 32
         else if code = 0x2D then (if shift then 95 else 45)
         else if code = 0x2E then (if shift then 43 else 61)
         else if code = 0x2F then (if shift then 123 else 91)
         else if code = 0x30 then (if shift then 125 else 93)
         else if code = 0x31 then (if shift then 124 else 92)
         else if code = 0x33 then (if shift then 58 else 59)
         else if code = 0x34 then (if shift then 34 else 39)
         else if code = 0x35 then (if shift then 126 else 96)
         else if code = 0x36 then (if shift then 60 else 44)
         else if code = 0x37 then (if shift then 62 else 46)
         else if code = 0x38 then (if shift then 63 else 47)
         else 0)"

text \<open>The three modifier pairs: \<open>keys\<close> holds the left and the right key.\<close>

definition queue_modifier :: "u8 \<Rightarrow> u8 \<Rightarrow> u8 \<Rightarrow> u8 \<Rightarrow> hid \<Rightarrow> hid" where
  "queue_modifier keys keycode released pressed s =
     (let s = (if released AND keys \<noteq> 0 then queue_key_action keycode False s else s)
      in if pressed AND keys \<noteq> 0 then queue_key_action keycode True s else s)"

definition kbd_release :: "kbd_report \<Rightarrow> u8 \<Rightarrow> hid \<Rightarrow> hid" where
  "kbd_release r k s =
     (if k \<noteq> 0 \<and> \<not> find_keycode_in_report r k then queue_key_action k False s else s)"

definition kbd_press :: "kbd_report \<Rightarrow> kbd_report \<Rightarrow> u8 \<Rightarrow> hid \<Rightarrow> hid" where
  "kbd_press r prev k s =
     (if k \<noteq> 0 \<and> \<not> find_keycode_in_report prev k
      then (let s = queue_key_action k True s; ch = usbhid_keycode_to_ascii k (kr_modifier r)
            in if ch \<noteq> 0 then usb_raw_char_push ch s else s)
      else s)"

definition process_kbd_report :: "kbd_report \<Rightarrow> kbd_report \<Rightarrow> hid \<Rightarrow> hid" where
  "process_kbd_report r prev s =
     (let released = kr_modifier prev AND NOT (kr_modifier r);
          pressed = kr_modifier r AND NOT (kr_modifier prev);
          s = queue_modifier (0x02 OR 0x20) 0xE1 released pressed s;
          s = queue_modifier (0x01 OR 0x10) 0xE0 released pressed s;
          s = queue_modifier (0x04 OR 0x40) 0xE2 released pressed s;
          s = fold (kbd_release r) (take 6 (kr_keycode prev)) s
      in fold (kbd_press r prev) (take 6 (kr_keycode r)) s)"

text \<open>The eight bytes of a boot report; byte 1 is reserved.\<close>

definition as_kbd_report :: "u8 arr \<Rightarrow> kbd_report" where
  "as_kbd_report p = \<lparr>kr_modifier = p 0, kr_keycode = map p [2..<8]\<rparr>"

definition take_kbd_report :: "u8 arr \<Rightarrow> hid \<Rightarrow> hid" where
  "take_kbd_report p s =
     (process_kbd_report (as_kbd_report p) (prev_kbd s) s)\<lparr>prev_kbd := as_kbd_report p\<rparr>"

section \<open>Mouse\<close>

definition process_mouse_report :: "mouse_report \<Rightarrow> hid \<Rightarrow> hid" where
  "process_mouse_report r s =
     s\<lparr>cumulative_dx := cumulative_dx s + scast (mr_x r),
       cumulative_dy := cumulative_dy s - scast (mr_y r),
       cumulative_wheel := cumulative_wheel s + mr_wheel r,
       current_buttons := mr_buttons r AND 0x07,
       mouse_has_motion := (if mr_x r \<noteq> 0 \<or> mr_y r \<noteq> 0 then True else mouse_has_motion s),
       prev_mouse := r\<rparr>"

text \<open>A report shorter than the structure is padded with zeros.\<close>

definition padded_mouse_report :: "u8 arr \<Rightarrow> u16 \<Rightarrow> mouse_report" where
  "padded_mouse_report p len =
     (let byte = (\<lambda>i. if i < unat len then p i else 0)
      in \<lparr>mr_buttons = byte 0, mr_x = byte 1, mr_y = byte 2, mr_wheel = byte 3, mr_pan = byte 4\<rparr>)"

section \<open>Gamepads\<close>

definition eval_btn :: "btn_bit \<Rightarrow> u8 arr \<Rightarrow> u16 \<Rightarrow> u16 \<Rightarrow> u16" where
  "eval_btn b p len out_mask =
     (if ucast (bb_byte b) \<ge> len then 0
      else if p (unat (bb_byte b)) AND bb_mask b \<noteq> 0 then out_mask else 0)"

definition hat_dpad :: "u8 \<Rightarrow> u8" where
  "hat_dpad h =
     (if h = 0 then 0x01 else if h = 1 then 0x01 OR 0x08 else if h = 2 then 0x08
      else if h = 3 then 0x02 OR 0x08 else if h = 4 then 0x02 else if h = 5 then 0x02 OR 0x04
      else if h = 6 then 0x04 else if h = 7 then 0x01 OR 0x04 else 0)"

definition decode_dpad :: "gamepad_map \<Rightarrow> u8 arr \<Rightarrow> u16 \<Rightarrow> u8" where
  "decode_dpad m p len =
     (case gm_mode m of
        DPAD_AXIS \<Rightarrow>
          (if ucast (gm_dpad_x m) < len \<and> ucast (gm_dpad_y m) < len
           then (let x = p (unat (gm_dpad_x m)); y = p (unat (gm_dpad_y m))
                 in (if x < 0x40 then 0x04 else 0) OR (if x > 0xC0 then 0x08 else 0) OR
                    (if y < 0x40 then 0x01 else 0) OR (if y > 0xC0 then 0x02 else 0))
           else 0)
      | DPAD_HAT \<Rightarrow>
          (if ucast (gm_dpad_x m) < len then hat_dpad (p (unat (gm_dpad_x m)) AND 0x0F) else 0)
      | DPAD_BITS \<Rightarrow>
          (if len \<ge> 1
           then (if p 0 AND 0x01 \<noteq> 0 then 0x01 else 0) OR (if p 0 AND 0x02 \<noteq> 0 then 0x02 else 0) OR
                (if p 0 AND 0x04 \<noteq> 0 then 0x04 else 0) OR (if p 0 AND 0x08 \<noteq> 0 then 0x08 else 0)
           else 0))"

definition decode_buttons :: "gamepad_map \<Rightarrow> u8 arr \<Rightarrow> u16 \<Rightarrow> u16" where
  "decode_buttons m p len =
     eval_btn (gm_a m) p len 0x0001 OR eval_btn (gm_b m) p len 0x0002 OR
     eval_btn (gm_x m) p len 0x0004 OR eval_btn (gm_y m) p len 0x0008 OR
     eval_btn (gm_l m) p len 0x0010 OR eval_btn (gm_r m) p len 0x0020 OR
     eval_btn (gm_start m) p len 0x0040 OR eval_btn (gm_select m) p len 0x0080"

text \<open>The slot number comes from the two searches, so only its upper bound can fail.\<close>

definition process_gamepad_report :: "nat \<Rightarrow> u8 arr option \<Rightarrow> u16 \<Rightarrow> hid \<Rightarrow> hid" where
  "process_gamepad_report slot report len s =
     (case report of
        None \<Rightarrow> s
      | Some p \<Rightarrow>
          if slot \<ge> MAX_GAMEPADS \<or> len < 2 then s
          else let m = (case gs_map (slots s slot) of Some m \<Rightarrow> m | None \<Rightarrow> fallback_hid_map)
               in on_slot slot (\<lambda>g. g\<lparr>gs_dpad := decode_dpad m p len,
                                     gs_buttons := decode_buttons m p len\<rparr>) s)"

definition drop_slot :: "nat \<Rightarrow> hid \<Rightarrow> hid" where
  "drop_slot = (\<lambda>i. on_slot i (\<lambda>g. g\<lparr>gs_connected := False, gs_buttons := 0, gs_dpad := 0,
     gs_axis_x := 0, gs_axis_y := 0, gs_dev := 0, gs_source := GP_SRC_NONE, gs_map := None\<rparr>))"

definition connect_slot :: "nat \<Rightarrow> hid \<Rightarrow> hid" where
  "connect_slot i = on_slot i (\<lambda>g. g\<lparr>gs_connected := True\<rparr>)"

section \<open>Reports of composite devices\<close>

text \<open>
  Which report description applies, and the report without its id.  With a single report
  and id 0 there is no id byte; otherwise the first description with the id is taken.
\<close>

definition pick_report :: "hid_info \<Rightarrow> u8 arr \<Rightarrow> u16 \<Rightarrow> report_info option \<times> u8 arr \<times> u16" where
  "pick_report h p len =
     (if report_count h = 1 \<and> report_id (report_infos h 0) = 0 then (Some (report_infos h 0), p, len)
      else (map_option (report_infos h)
              (first_below (min (unat (report_count h)) MAX_REPORT)
                 (\<lambda>i. p 0 = report_id (report_infos h i))),
            \<lambda>i. p (i + 1), len - 1))"

definition generic_mouse :: "u8 arr \<Rightarrow> u16 \<Rightarrow> hid \<Rightarrow> hid" where
  "generic_mouse p len s =
     (if len \<ge> 3 then process_mouse_report (padded_mouse_report p len) s else s)"

definition generic_gamepad :: "u8 \<Rightarrow> u8 \<Rightarrow> u8 arr \<Rightarrow> u16 \<Rightarrow> hid \<Rightarrow> hid" where
  "generic_gamepad dev inst p len s =
     (case find_or_alloc_gamepad_slot dev inst GP_SRC_HID s of
        (Some i, s) \<Rightarrow> process_gamepad_report i (Some p) len (connect_slot i s)
      | (None, s) \<Rightarrow> s)"

definition process_generic_report :: "u8 \<Rightarrow> u8 \<Rightarrow> u8 arr option \<Rightarrow> u16 \<Rightarrow> hid \<Rightarrow> hid" where
  "process_generic_report dev inst report len s =
     (case report of
        None \<Rightarrow> s
      | Some p \<Rightarrow>
          if unat inst \<ge> CFG_TUH_HID \<or> len = 0 then s
          else let h = infos s (unat inst)
               in if report_count h = 0 \<or> unat (report_count h) > MAX_REPORT then s
                  else (case pick_report h p len of
                      (None, _, _) \<Rightarrow> s
                    | (Some ri, p, len) \<Rightarrow>
                        if usage_page ri = HID_USAGE_PAGE_DESKTOP then
                          (if ri_usage ri = HID_USAGE_DESKTOP_KEYBOARD then take_kbd_report p s
                           else if ri_usage ri = HID_USAGE_DESKTOP_MOUSE then generic_mouse p len s
                           else if ri_usage ri = HID_USAGE_DESKTOP_GAMEPAD \<or>
                                   ri_usage ri = HID_USAGE_DESKTOP_JOYSTICK
                           then generic_gamepad dev inst p len s
                           else s)
                        else s))"

section \<open>XInput callbacks\<close>

record xinput_gamepad =
  wButtons :: u16
  bLeftTrigger :: u8
  bRightTrigger :: u8
  sThumbLX :: u16
  sThumbLY :: u16
  sThumbRX :: u16
  sThumbRY :: u16

definition xinput_axis_quantise :: "u16 \<Rightarrow> u8" where
  "xinput_axis_quantise v =
     (if sint v > 0x2000 then 0x7F else if sint v < - 0x2000 then 0x80 else 0x00)"

definition xinput_trigger_quantise :: "u8 \<Rightarrow> u8" where
  "xinput_trigger_quantise v = (if v > 0x20 then 0xFF else 0x00)"

definition tuh_xinput_mount_cb :: "tuh \<Rightarrow> u8 \<Rightarrow> u8 \<Rightarrow> hid \<Rightarrow> hid" where
  "tuh_xinput_mount_cb t dev inst s =
     (case find_or_alloc_gamepad_slot dev inst GP_SRC_XINPUT s of
        (None, s) \<Rightarrow> call_host (XinputReceive dev inst) s
      | (Some i, s) \<Rightarrow>
          (case tuh_vid_pid_get t dev of (vid, pid) \<Rightarrow>
             let s = on_slot i (\<lambda>g. g\<lparr>gs_connected := True, gs_map := Some (find_xinput_map vid pid),
                                      gs_buttons := 0, gs_dpad := 0\<rparr>) s
             in call_host (XinputReceive dev inst) (call_host (XinputSetLed dev inst 1 True) s)))"

definition tuh_xinput_umount_cb :: "u8 \<Rightarrow> u8 \<Rightarrow> hid \<Rightarrow> hid" where
  "tuh_xinput_umount_cb dev inst s =
     fold (\<lambda>i s. if gs_connected (slots s i) \<and> gs_source (slots s i) = GP_SRC_XINPUT \<and>
                    gs_dev (slots s i) = dev \<and> gs_inst (slots s i) = inst
                 then drop_slot i s else s) [0..<MAX_GAMEPADS] s"

definition xinput_synth :: "xinput_gamepad \<Rightarrow> u8 arr" where
  "xinput_synth p =
     (\<lambda>i. [ucast (wButtons p AND 0xFF), ucast (drop_bit 8 (wButtons p) AND 0xFF),
           xinput_trigger_quantise (bLeftTrigger p), xinput_trigger_quantise (bRightTrigger p),
           xinput_axis_quantise (sThumbLX p), xinput_axis_quantise (sThumbLY p),
           xinput_axis_quantise (sThumbRX p), xinput_axis_quantise (sThumbRY p)] ! i)"

definition tuh_xinput_report_received_cb :: "u8 \<Rightarrow> u8 \<Rightarrow> xinput_gamepad option \<Rightarrow> hid \<Rightarrow> hid" where
  "tuh_xinput_report_received_cb dev inst xid_itf s =
     call_host (XinputReceive dev inst)
       (case (find_gamepad_slot_by_dev dev GP_SRC_XINPUT s, xid_itf) of
          (Some i, Some p) \<Rightarrow> process_gamepad_report i (Some (xinput_synth p)) 8 s
        | _ \<Rightarrow> s)"

section \<open>HID callbacks\<close>

text \<open>The usages an interface without a boot protocol announces.\<close>

definition announces :: "hid_info \<Rightarrow> (u8 \<Rightarrow> bool) \<Rightarrow> bool" where
  "announces h p \<longleftrightarrow>
     list_ex (\<lambda>i. usage_page (report_infos h i) = HID_USAGE_PAGE_DESKTOP \<and> p (ri_usage (report_infos h i)))
       [0 ..< min (unat (report_count h)) MAX_REPORT]"

definition mount_gamepad :: "tuh \<Rightarrow> u8 \<Rightarrow> u8 \<Rightarrow> hid \<Rightarrow> hid" where
  "mount_gamepad t dev inst s =
     (case find_or_alloc_gamepad_slot dev inst GP_SRC_HID s of
        (Some i, s) \<Rightarrow>
          (case tuh_vid_pid_get t dev of (vid, pid) \<Rightarrow>
             on_slot i (\<lambda>g. g\<lparr>gs_connected := True, gs_map := Some (find_hid_map vid pid)\<rparr>) s)
      | (None, s) \<Rightarrow> s)"

definition mount_generic :: "tuh \<Rightarrow> u8 \<Rightarrow> u8 \<Rightarrow> u8 list \<Rightarrow> hid \<Rightarrow> hid" where
  "mount_generic t dev inst desc s =
     (if unat inst \<ge> CFG_TUH_HID then s
      else case tuh_hid_parse_report_descriptor t desc (report_infos (infos s (unat inst))) of (n, arr) \<Rightarrow>
        let h = \<lparr>report_count = n, report_infos = arr\<rparr>;
            s = s\<lparr>infos := (infos s)(unat inst := h)\<rparr>;
            is_gamepad = announces h (\<lambda>u. u = HID_USAGE_DESKTOP_GAMEPAD \<or> u = HID_USAGE_DESKTOP_JOYSTICK);
            is_mouse = announces h (\<lambda>u. u = HID_USAGE_DESKTOP_MOUSE);
            is_keyboard = announces h (\<lambda>u. u = HID_USAGE_DESKTOP_KEYBOARD);
            s = (if is_mouse then s\<lparr>mouse_connected := True\<rparr> else s);
            s = (if is_keyboard then s\<lparr>keyboard_connected := True\<rparr> else s);
            is_gamepad = (is_gamepad \<or> (\<not> is_gamepad \<and> \<not> is_mouse \<and> \<not> is_keyboard \<and> n = 0))
        in if is_gamepad then mount_gamepad t dev inst s else s)"

definition tuh_hid_mount_cb :: "tuh \<Rightarrow> u8 \<Rightarrow> u8 \<Rightarrow> u8 list \<Rightarrow> hid \<Rightarrow> hid" where
  "tuh_hid_mount_cb t dev inst desc s =
     (let proto = tuh_hid_interface_protocol t dev inst;
          s = (if proto = HID_ITF_PROTOCOL_KEYBOARD then s\<lparr>keyboard_connected := True\<rparr>
               else if proto = HID_ITF_PROTOCOL_MOUSE then s\<lparr>mouse_connected := True\<rparr> else s);
          s = (if proto = HID_ITF_PROTOCOL_NONE then mount_generic t dev inst desc s else s)
      in call_host (HidReceive dev inst) s)"

definition tuh_hid_umount_cb :: "tuh \<Rightarrow> u8 \<Rightarrow> u8 \<Rightarrow> hid \<Rightarrow> hid" where
  "tuh_hid_umount_cb t dev inst s =
     (let proto = tuh_hid_interface_protocol t dev inst
      in if proto = HID_ITF_PROTOCOL_KEYBOARD then s\<lparr>keyboard_connected := False\<rparr>
         else if proto = HID_ITF_PROTOCOL_MOUSE then s\<lparr>mouse_connected := False\<rparr>
         else if proto = HID_ITF_PROTOCOL_NONE then
           (case find_gamepad_slot_by_dev dev GP_SRC_HID s of Some i \<Rightarrow> drop_slot i s | None \<Rightarrow> s)
         else s)"

definition tuh_hid_report_received_cb :: "tuh \<Rightarrow> u8 \<Rightarrow> u8 \<Rightarrow> u8 arr option \<Rightarrow> u16 \<Rightarrow> hid \<Rightarrow> hid" where
  "tuh_hid_report_received_cb t dev inst report len s =
     (let proto = tuh_hid_interface_protocol t dev inst
      in call_host (HidReceive dev inst)
        (case report of
           None \<Rightarrow> s
         | Some p \<Rightarrow>
             if proto = HID_ITF_PROTOCOL_KEYBOARD then (if len \<ge> 8 then take_kbd_report p s else s)
             else if proto = HID_ITF_PROTOCOL_MOUSE then generic_mouse p len s
             else if len \<ge> 2 then
               (case find_gamepad_slot_by_dev dev GP_SRC_HID s of
                  Some i \<Rightarrow> process_gamepad_report i report len (connect_slot i s)
                | None \<Rightarrow> process_generic_report dev inst report len s)
             else s))"

section \<open>Public interface\<close>

definition usbhid_init :: "hid \<Rightarrow> hid" where
  "usbhid_init s =
     s\<lparr>prev_kbd := \<lparr>kr_modifier = 0, kr_keycode = replicate 6 0\<rparr>,
       prev_mouse := \<lparr>mr_buttons = 0, mr_x = 0, mr_y = 0, mr_wheel = 0, mr_pan = 0\<rparr>,
       cumulative_dx := 0, cumulative_dy := 0, cumulative_wheel := 0, current_buttons := 0,
       mouse_has_motion := False,
       key_actions := (key_actions s)\<lparr>rg_head := 0, rg_tail := 0\<rparr>\<rparr>"

definition usbhid_get_keyboard_state :: "hid \<Rightarrow> u8 list \<times> u8 \<times> bool" where
  "usbhid_get_keyboard_state s =
     (take 6 (kr_keycode (prev_kbd s)), kr_modifier (prev_kbd s),
      rg_head (key_actions s) \<noteq> rg_tail (key_actions s))"

text \<open>Horizontal and vertical motion, wheel, buttons, and whether there was motion.\<close>

definition usbhid_get_mouse_state :: "hid \<Rightarrow> (u16 \<times> u16 \<times> u8 \<times> u8 \<times> bool) \<times> hid" where
  "usbhid_get_mouse_state s =
     ((cumulative_dx s, cumulative_dy s, cumulative_wheel s, current_buttons s, mouse_has_motion s),
      s\<lparr>cumulative_dx := 0, cumulative_dy := 0, cumulative_wheel := 0, mouse_has_motion := False\<rparr>)"

definition usbhid_get_key_action :: "hid \<Rightarrow> (key_action \<times> hid) option" where
  "usbhid_get_key_action s =
     (let q = key_actions s
      in if rg_head q = rg_tail q then None
         else Some (rg_data q (rg_tail q),
                    s\<lparr>key_actions := q\<lparr>rg_tail := (rg_tail q + 1) mod KEY_ACTION_QUEUE_SIZE\<rparr>\<rparr>))"

definition hid_to_kbd_state_bit :: "u8 \<Rightarrow> u16" where
  "hid_to_kbd_state_bit k =
     (if k = 0x52 then push_bit 0 1 else if k = 0x51 then push_bit 1 1
      else if k = 0x50 then push_bit 2 1 else if k = 0x4F then push_bit 3 1
      else if k = 0x1B then push_bit 4 1 else if k = 0x1D then push_bit 5 1
      else if k = 0x16 then push_bit 6 1 else if k = 0x04 then push_bit 7 1
      else if k = 0x14 then push_bit 8 1 else if k = 0x1A then push_bit 9 1
      else if k = 0x28 then push_bit 10 1 else if k = 0x58 then push_bit 10 1
      else if k = 0x2C then push_bit 11 1 else if k = 0x29 then push_bit 12 1
      else if k = 0x45 then push_bit 13 1 else if k = 0x44 then push_bit 14 1
      else 0)"

definition usbhid_get_kbd_state :: "hid \<Rightarrow> u16" where
  "usbhid_get_kbd_state s =
     fold (\<lambda>k st. if k \<noteq> 0 then st OR hid_to_kbd_state_bit k else st)
       (take 6 (kr_keycode (prev_kbd s))) 0"

definition usbhid_get_raw_char :: "hid \<Rightarrow> (u8 \<times> hid) option" where
  "usbhid_get_raw_char s =
     (let q = raw_chars s
      in if rg_head q = rg_tail q then None
         else Some (rg_data q (rg_tail q),
                    s\<lparr>raw_chars := q\<lparr>rg_tail := (rg_tail q + 1) mod USB_RAW_CHAR_QUEUE_SIZE\<rparr>\<rparr>))"

definition usbhid_ctrl_alt_del_pressed :: "hid \<Rightarrow> bool" where
  "usbhid_ctrl_alt_del_pressed s \<longleftrightarrow>
     (let m = kr_modifier (prev_kbd s)
      in m AND 0x11 \<noteq> 0 \<and> m AND 0x44 \<noteq> 0 \<and> 0x4C \<in> set (take 6 (kr_keycode (prev_kbd s))))"

record gamepad_state =
  st_axis_x :: u8
  st_axis_y :: u8
  st_dpad :: u8
  st_buttons :: u16
  st_connected :: bool

definition no_gamepad :: gamepad_state where
  "no_gamepad = \<lparr>st_axis_x = 0, st_axis_y = 0, st_dpad = 0, st_buttons = 0, st_connected = False\<rparr>"

definition usbhid_gamepad_connected_idx :: "int \<Rightarrow> hid \<Rightarrow> bool" where
  "usbhid_gamepad_connected_idx idx s \<longleftrightarrow>
     \<not> (idx < 0 \<or> idx \<ge> int MAX_GAMEPADS) \<and> gs_connected (slots s (nat idx))"

definition usbhid_get_gamepad_state_idx :: "int \<Rightarrow> hid \<Rightarrow> gamepad_state" where
  "usbhid_get_gamepad_state_idx idx s =
     (if idx < 0 \<or> idx \<ge> int MAX_GAMEPADS \<or> \<not> gs_connected (slots s (nat idx)) then no_gamepad
      else let g = slots s (nat idx)
           in \<lparr>st_axis_x = gs_axis_x g, st_axis_y = gs_axis_y g, st_dpad = gs_dpad g,
               st_buttons = gs_buttons g, st_connected = gs_connected g\<rparr>)"

definition usbhid_gamepad_connected :: "hid \<Rightarrow> bool" where
  "usbhid_gamepad_connected s \<longleftrightarrow> list_ex (\<lambda>i. gs_connected (slots s i)) [0..<MAX_GAMEPADS]"

definition usbhid_get_gamepad_state :: "hid \<Rightarrow> gamepad_state" where
  "usbhid_get_gamepad_state s =
     fold (\<lambda>i st. if gs_connected (slots s i)
                  then st\<lparr>st_dpad := st_dpad st OR gs_dpad (slots s i),
                          st_buttons := st_buttons st OR gs_buttons (slots s i), st_connected := True\<rparr>
                  else st) [0..<MAX_GAMEPADS] no_gamepad"

end
