(* ===== verification/HidProps.thy ===== *)
theory HidProps
  imports Hid
begin

text \<open>
  The USB input side: the two queues as bounded FIFOs, the key actions a report causes, the
  gamepad slots through plugging and unplugging, the d-pad decoder and the mouse accumulator.
\<close>

section \<open>The queues\<close>

definition ring_ok :: "nat \<Rightarrow> 'a ring \<Rightarrow> bool" where
  "ring_ok N q \<longleftrightarrow> rg_head q < N \<and> rg_tail q < N"

definition ring_list :: "nat \<Rightarrow> 'a ring \<Rightarrow> 'a list" where
  "ring_list N q = win N (rg_data q) (rg_tail q) (rq_len N (rg_head q) (rg_tail q))"

definition ring_push :: "nat \<Rightarrow> 'a ring \<Rightarrow> 'a \<Rightarrow> 'a ring" where
  "ring_push N q x =
     (if (rg_head q + 1) mod N \<noteq> rg_tail q
      then q\<lparr>rg_data := (rg_data q)(rg_head q := x), rg_head := (rg_head q + 1) mod N\<rparr> else q)"

definition ring_pop :: "nat \<Rightarrow> 'a ring \<Rightarrow> ('a \<times> 'a ring) option" where
  "ring_pop N q =
     (if rg_head q = rg_tail q then None
      else Some (rg_data q (rg_tail q), q\<lparr>rg_tail := (rg_tail q + 1) mod N\<rparr>))"

lemma ring_ok_push: "ring_ok N q \<Longrightarrow> ring_ok N (ring_push N q x)"
  by (auto simp: ring_ok_def ring_push_def)

lemma ring_list_push:
  assumes "ring_ok N q"
  shows "ring_list N (ring_push N q x) =
    (if length (ring_list N q) < N - 1 then ring_list N q @ [x] else ring_list N q)"
proof -
  have ht: "rg_head q < N" "rg_tail q < N" using assms by (auto simp: ring_ok_def)
  have "length (ring_list N q) < N - 1 \<longleftrightarrow> (rg_head q + 1) mod N \<noteq> rg_tail q"
    using rq_full [OF ht] rq_len_less [of N "rg_head q" "rg_tail q"] ht by (auto simp: ring_list_def)
  then show ?thesis
    using rq_push(1) [OF ht] rq_push(2) [OF ht, where d = "rg_data q" and x = x]
    by (simp add: ring_push_def ring_list_def)
qed

lemma ring_pop_None: "ring_ok N q \<Longrightarrow> ring_pop N q = None \<longleftrightarrow> ring_list N q = []"
  using rq_len_0 [of "rg_head q" N "rg_tail q"]
  by (auto simp: ring_ok_def ring_pop_def ring_list_def simp flip: length_0_conv)

lemma ring_pop_Some:
  assumes "ring_ok N q" "ring_pop N q = Some (x, q')"
  shows "ring_list N q = x # ring_list N q' \<and> ring_ok N q'"
proof -
  have ht: "rg_head q < N" "rg_tail q < N" using assms(1) by (auto simp: ring_ok_def)
  have ne: "rg_head q \<noteq> rg_tail q" using assms(2) by (auto simp: ring_pop_def)
  show ?thesis
    using assms(2) ht ne rq_pop(1) [OF ht ne] rq_pop(2) [OF ht ne, where d = "rg_data q"]
    by (auto simp: ring_pop_def ring_list_def ring_ok_def)
qed

lemma length_ring_list: "ring_ok N q \<Longrightarrow> length (ring_list N q) \<le> N - 1"
  using rq_len_less [of N "rg_head q" "rg_tail q"] by (auto simp: ring_list_def ring_ok_def)

text \<open>The code's operations are these on the two rings of the state.\<close>

lemma queue_key_action_ring:
  "queue_key_action k d s = s\<lparr>key_actions := ring_push 32 (key_actions s) \<lparr>ka_keycode = k, ka_down = d\<rparr>\<rparr>"
  by (simp add: queue_key_action_def ring_push_def KEY_ACTION_QUEUE_SIZE_def Let_def)

lemma raw_char_push_ring:
  "usb_raw_char_push c s = s\<lparr>raw_chars := ring_push 16 (raw_chars s) c\<rparr>"
  by (simp add: usb_raw_char_push_def ring_push_def USB_RAW_CHAR_QUEUE_SIZE_def Let_def)

lemma get_key_action_ring:
  "usbhid_get_key_action s = map_option (\<lambda>(a, q). (a, s\<lparr>key_actions := q\<rparr>)) (ring_pop 32 (key_actions s))"
  by (simp add: usbhid_get_key_action_def ring_pop_def KEY_ACTION_QUEUE_SIZE_def Let_def)

lemma get_raw_char_ring:
  "usbhid_get_raw_char s = map_option (\<lambda>(a, q). (a, s\<lparr>raw_chars := q\<rparr>)) (ring_pop 16 (raw_chars s))"
  by (simp add: usbhid_get_raw_char_def ring_pop_def USB_RAW_CHAR_QUEUE_SIZE_def Let_def)

abbreviation key_list :: "hid \<Rightarrow> key_action list" where
  "key_list s \<equiv> ring_list 32 (key_actions s)"

abbreviation queues_ok :: "hid \<Rightarrow> bool" where
  "queues_ok s \<equiv> ring_ok 32 (key_actions s) \<and> ring_ok 16 (raw_chars s)"

interpretation key_q: bounded_fifo "\<lambda>s a. queue_key_action (ka_keycode a) (ka_down a) s"
  usbhid_get_key_action key_list queues_ok 31
  by unfold_locales
    (auto simp: queue_key_action_ring get_key_action_ring ring_ok_push ring_list_push ring_pop_None
      length_ring_list [of 32, simplified] dest: ring_pop_Some)

interpretation raw_q: bounded_fifo "\<lambda>s c. usb_raw_char_push c s"
  usbhid_get_raw_char "\<lambda>s. ring_list 16 (raw_chars s)" queues_ok 15
  by unfold_locales
    (auto simp: raw_char_push_ring get_raw_char_ring ring_ok_push ring_list_push ring_pop_None
      length_ring_list [of 16, simplified] dest: ring_pop_Some)

section \<open>What a keyboard report causes\<close>

definition modifier_actions :: "u8 \<Rightarrow> u8 \<Rightarrow> u8 \<Rightarrow> u8 \<Rightarrow> key_action list" where
  "modifier_actions keys k released pressed =
     (if released AND keys \<noteq> 0 then [\<lparr>ka_keycode = k, ka_down = False\<rparr>] else []) @
     (if pressed AND keys \<noteq> 0 then [\<lparr>ka_keycode = k, ka_down = True\<rparr>] else [])"

definition report_keys :: "kbd_report \<Rightarrow> u8 list" where
  "report_keys r = filter (\<lambda>k. k \<noteq> 0) (take 6 (kr_keycode r))"

definition key_changes :: "kbd_report \<Rightarrow> kbd_report \<Rightarrow> key_action list" where
  "key_changes prev r =
     map (\<lambda>k. \<lparr>ka_keycode = k, ka_down = False\<rparr>) (filter (\<lambda>k. k \<notin> set (report_keys r)) (report_keys prev)) @
     map (\<lambda>k. \<lparr>ka_keycode = k, ka_down = True\<rparr>) (filter (\<lambda>k. k \<notin> set (report_keys prev)) (report_keys r))"

definition report_actions :: "kbd_report \<Rightarrow> kbd_report \<Rightarrow> key_action list" where
  "report_actions prev r =
     (let released = kr_modifier prev AND NOT (kr_modifier r);
          pressed = kr_modifier r AND NOT (kr_modifier prev)
      in modifier_actions (0x02 OR 0x20) 0xE1 released pressed @
         modifier_actions (0x01 OR 0x10) 0xE0 released pressed @
         modifier_actions (0x04 OR 0x40) 0xE2 released pressed @ key_changes prev r)"

abbreviation push_actions :: "key_action list \<Rightarrow> key_action ring \<Rightarrow> key_action ring" where
  "push_actions as q \<equiv> fold (\<lambda>a q. ring_push 32 q a) as q"

lemma queue_modifier_ring:
  "queue_modifier keys k released pressed s =
     s\<lparr>key_actions := push_actions (modifier_actions keys k released pressed) (key_actions s)\<rparr>"
  by (simp add: queue_modifier_def modifier_actions_def queue_key_action_ring)

lemma kbd_release_ring:
  "key_actions (fold (kbd_release r) ks s) =
     push_actions (map (\<lambda>k. \<lparr>ka_keycode = k, ka_down = False\<rparr>)
       (filter (\<lambda>k. k \<notin> set (report_keys r)) (filter (\<lambda>k. k \<noteq> 0) ks))) (key_actions s)"
  by (induction ks arbitrary: s)
    (auto simp: kbd_release_def queue_key_action_ring find_keycode_in_report_def report_keys_def)

lemma kbd_press_ring:
  "key_actions (fold (kbd_press r prev) ks s) =
     push_actions (map (\<lambda>k. \<lparr>ka_keycode = k, ka_down = True\<rparr>)
       (filter (\<lambda>k. k \<notin> set (report_keys prev)) (filter (\<lambda>k. k \<noteq> 0) ks))) (key_actions s)"
  by (induction ks arbitrary: s)
    (auto simp: kbd_press_def queue_key_action_ring raw_char_push_ring find_keycode_in_report_def
      report_keys_def Let_def)

lemma process_kbd_report_ring:
  "key_actions (process_kbd_report r prev s) = push_actions (report_actions prev r) (key_actions s)"
  by (simp add: process_kbd_report_def Let_def kbd_press_ring kbd_release_ring queue_modifier_ring
      report_actions_def key_changes_def report_keys_def [of r] report_keys_def [of prev] flip: filter_filter)

lemma ring_list_pushes:
  "ring_ok N q \<Longrightarrow> 0 < N \<Longrightarrow>
   ring_ok N (fold (\<lambda>a q. ring_push N q a) as q) \<and>
   ring_list N (fold (\<lambda>a q. ring_push N q a) as q) = ring_list N q @ take (N - 1 - length (ring_list N q)) as"
proof (induction as arbitrary: q)
  case (Cons a as)
  then show ?case
    using length_ring_list [OF Cons.prems(1)]
    by (auto simp: ring_ok_push ring_list_push take_Cons')
qed simp

lemma length_report_actions: "length (report_actions prev r) \<le> 18"
proof -
  have m: "length (modifier_actions keys k a b) \<le> 2" for keys k a b by (simp add: modifier_actions_def)
  have k: "length (report_keys x) \<le> 6" for x
    unfolding report_keys_def by (rule order_trans [OF length_filter_le]) simp
  have f: "length (filter p (report_keys x)) \<le> 6" for p x
    using k [of x] by (rule order_trans [OF length_filter_le])
  have c: "length (key_changes prev r) \<le> 12"
    using add_mono [OF f f] by (simp add: key_changes_def)
  show ?thesis
    using m [of "0x02 OR 0x20" 0xE1] m [of "0x01 OR 0x10" 0xE0] m [of "0x04 OR 0x40" 0xE2] c
    unfolding report_actions_def Let_def length_append
    by (intro order_trans [OF add_mono [OF m add_mono [OF m add_mono [OF m c]]]]) simp
qed

lemma key_list_report:
  assumes "ring_ok 32 (key_actions s)"
  shows "key_list (process_kbd_report r prev s) =
    key_list s @ take (31 - length (key_list s)) (report_actions prev r)"
  using ring_list_pushes [OF assms, of "report_actions prev r"] by (simp add: process_kbd_report_ring)

text \<open>The keys a listener believes held, from the actions alone.\<close>

definition apply_action :: "key_action \<Rightarrow> u8 set \<Rightarrow> u8 set" where
  "apply_action a held = (if ka_down a then insert (ka_keycode a) held else held - {ka_keycode a})"

lemma apply_releases:
  "fold apply_action (map (\<lambda>k. \<lparr>ka_keycode = k, ka_down = False\<rparr>) ks) held = held - set ks"
  by (induction ks arbitrary: held) (auto simp: apply_action_def)

lemma apply_presses:
  "fold apply_action (map (\<lambda>k. \<lparr>ka_keycode = k, ka_down = True\<rparr>) ks) held = held \<union> set ks"
  by (induction ks arbitrary: held) (auto simp: apply_action_def)

lemma apply_key_changes: "fold apply_action (key_changes prev r) (set (report_keys prev)) = set (report_keys r)"
  by (auto simp: key_changes_def apply_releases apply_presses)

definition modifier_code :: "u8 \<Rightarrow> bool" where
  "modifier_code k \<longleftrightarrow> k = 0xE0 \<or> k = 0xE1 \<or> k = 0xE2"

definition plain_keys :: "kbd_report \<Rightarrow> bool" where
  "plain_keys r \<longleftrightarrow> length (kr_keycode r) = 6 \<and> list_all (\<lambda>k. \<not> modifier_code k) (kr_keycode r)"

lemma report_keys_plain: "plain_keys r \<Longrightarrow> k \<in> set (report_keys r) \<Longrightarrow> \<not> modifier_code k"
  by (auto simp: plain_keys_def report_keys_def list_all_iff)

lemma filter_report_actions:
  assumes "plain_keys prev" "plain_keys r"
  shows "filter (\<lambda>a. \<not> modifier_code (ka_keycode a)) (report_actions prev r) = key_changes prev r"
proof -
  have "filter (\<lambda>a. \<not> modifier_code (ka_keycode a)) (key_changes prev r) = key_changes prev r"
    using assms report_keys_plain by (auto simp: key_changes_def intro!: filter_True)
  then show ?thesis by (simp add: report_actions_def modifier_actions_def modifier_code_def Let_def)
qed


text \<open>Before start-up: nothing connected, arbitrary arrays.\<close>

definition boot_hid :: "hid_info arr \<Rightarrow> gamepad_slot arr \<Rightarrow> key_action arr \<Rightarrow> u8 arr \<Rightarrow> hid" where
  "boot_hid ifs sl ka rc = \<lparr>infos = ifs,
     prev_kbd = \<lparr>kr_modifier = 0, kr_keycode = replicate 6 0\<rparr>,
     prev_mouse = \<lparr>mr_buttons = 0, mr_x = 0, mr_y = 0, mr_wheel = 0, mr_pan = 0\<rparr>,
     cumulative_dx = 0, cumulative_dy = 0, cumulative_wheel = 0, current_buttons = 0,
     mouse_has_motion = False,
     slots = (\<lambda>i. if i < MAX_GAMEPADS then (sl i)\<lparr>gs_connected := False\<rparr> else sl i),
     keyboard_connected = False, mouse_connected = False,
     key_actions = \<lparr>rg_data = ka, rg_head = 0, rg_tail = 0\<rparr>,
     raw_chars = \<lparr>rg_data = rc, rg_head = 0, rg_tail = 0\<rparr>, host_calls = []\<rparr>"

definition demo_hid :: hid where
  "demo_hid = boot_hid (\<lambda>_. \<lparr>report_count = 0, report_infos = (\<lambda>_. \<lparr>report_id = 0, ri_usage = 0, usage_page = 0\<rparr>)\<rparr>)
     (\<lambda>_. \<lparr>gs_axis_x = 0, gs_axis_y = 0, gs_dpad = 0, gs_buttons = 0, gs_connected = False, gs_dev = 0,
           gs_inst = 0, gs_source = GP_SRC_NONE, gs_map = None\<rparr>)
     (\<lambda>_. \<lparr>ka_keycode = 0, ka_down = False\<rparr>) (\<lambda>_. 0)"

lemmas demo_hid_defs = demo_hid_def boot_hid_def hid_consts

lemma ring_empty [simp]: "ring_list N \<lparr>rg_data = d, rg_head = h, rg_tail = h\<rparr> = []"
  by (simp add: ring_list_def rq_len_def)

lemma demo_hid_queues: "key_list demo_hid = []" "ring_ok 32 (key_actions demo_hid)"
  by (simp_all add: demo_hid_defs ring_ok_def)

text \<open>Left shift, A and B pressed together in one report.\<close>

definition demo_keys :: "u8 arr" where
  "demo_keys = (\<lambda>i. [0x02, 0, 0x04, 0x05, 0, 0, 0, 0] ! i)"

lemma demo_keys_report: "as_kbd_report demo_keys = \<lparr>kr_modifier = 0x02, kr_keycode = [4, 5, 0, 0, 0, 0]\<rparr>"
  by (simp add: as_kbd_report_def demo_keys_def upt_rec)

lemma demo_hid_prev: "prev_kbd demo_hid = \<lparr>kr_modifier = 0, kr_keycode = [0, 0, 0, 0, 0, 0]\<rparr>"
  by (simp add: demo_hid_defs numeral_eq_Suc)


section \<open>Any sequence of events\<close>

datatype hid_event =
    Mount u8 u8 "u8 list"
  | Umount u8 u8
  | Report u8 u8 "u8 arr option" u16
  | XMount u8 u8
  | XUmount u8 u8
  | XReport u8 u8 "xinput_gamepad option"
  | GetKey
  | GetChar
  | GetMouse

fun do_hid :: "tuh \<Rightarrow> hid_event \<Rightarrow> hid \<Rightarrow> hid" where
  "do_hid t (Mount dev inst desc) s = tuh_hid_mount_cb t dev inst desc s"
| "do_hid t (Umount dev inst) s = tuh_hid_umount_cb t dev inst s"
| "do_hid t (Report dev inst p len) s = tuh_hid_report_received_cb t dev inst p len s"
| "do_hid t (XMount dev inst) s = tuh_xinput_mount_cb t dev inst s"
| "do_hid t (XUmount dev inst) s = tuh_xinput_umount_cb dev inst s"
| "do_hid t (XReport dev inst p) s = tuh_xinput_report_received_cb dev inst p s"
| "do_hid t GetKey s = (case usbhid_get_key_action s of Some (_, s) \<Rightarrow> s | None \<Rightarrow> s)"
| "do_hid t GetChar s = (case usbhid_get_raw_char s of Some (_, s) \<Rightarrow> s | None \<Rightarrow> s)"
| "do_hid t GetMouse s = snd (usbhid_get_mouse_state s)"

definition slot_key :: "gamepad_slot \<Rightarrow> u8 \<times> u8 \<times> gp_source" where
  "slot_key g = (gs_dev g, gs_inst g, gs_source g)"

definition slots_ok :: "hid \<Rightarrow> bool" where
  "slots_ok s \<longleftrightarrow>
     (\<forall>i < MAX_GAMEPADS. gs_connected (slots s i) \<longrightarrow> gs_source (slots s i) \<noteq> GP_SRC_NONE) \<and>
     (\<forall>i < MAX_GAMEPADS. \<forall>j < MAX_GAMEPADS. gs_connected (slots s i) \<and> gs_connected (slots s j) \<and>
        slot_key (slots s i) = slot_key (slots s j) \<longrightarrow> i = j)"

text \<open>Nothing outside the arrays is touched.\<close>

definition hid_frame :: "hid \<Rightarrow> hid \<Rightarrow> bool" where
  "hid_frame s s' \<longleftrightarrow>
     (\<forall>i \<ge> MAX_GAMEPADS. slots s' i = slots s i) \<and> (\<forall>i \<ge> CFG_TUH_HID. infos s' i = infos s i) \<and>
     (\<forall>i \<ge> 32. rg_data (key_actions s') i = rg_data (key_actions s) i) \<and>
     (\<forall>i \<ge> 16. rg_data (raw_chars s') i = rg_data (raw_chars s) i)"

definition hid_step :: "hid \<Rightarrow> hid \<Rightarrow> bool" where
  "hid_step s s' \<longleftrightarrow> (slots_ok s \<and> queues_ok s \<longrightarrow> slots_ok s' \<and> queues_ok s' \<and> hid_frame s s')"

lemma hid_step_refl [simp]: "hid_step s s"
  by (simp add: hid_step_def hid_frame_def)

lemma hid_step_trans: "hid_step s s' \<Longrightarrow> hid_step s' s'' \<Longrightarrow> hid_step s s''"
  by (auto simp: hid_step_def hid_frame_def)

lemma hid_step_fold: "(\<And>x s. hid_step s (f x s)) \<Longrightarrow> hid_step s (fold f xs s)"
  by (induction xs arbitrary: s) (auto intro: hid_step_trans)

text \<open>Steps that leave slots, interface table and queues alone.\<close>

lemma hid_step_same:
  "slots s' = slots s \<Longrightarrow> infos s' = infos s \<Longrightarrow> key_actions s' = key_actions s \<Longrightarrow>
   raw_chars s' = raw_chars s \<Longrightarrow> hid_step s s'"
  by (simp add: hid_step_def hid_frame_def slots_ok_def)

lemma ring_push_frame: "ring_ok N q \<Longrightarrow> N \<le> i \<Longrightarrow> rg_data (ring_push N q x) i = rg_data q i"
  by (auto simp: ring_ok_def ring_push_def)

lemma queue_key_action_step: "hid_step s (queue_key_action k d s)"
  by (auto simp: hid_step_def hid_frame_def slots_ok_def queue_key_action_ring ring_ok_push ring_push_frame)

lemma raw_char_push_step: "hid_step s (usb_raw_char_push c s)"
  by (auto simp: hid_step_def hid_frame_def slots_ok_def raw_char_push_ring ring_ok_push ring_push_frame)

lemma hid_step_if: "hid_step s (f s) \<Longrightarrow> hid_step s (if c then f s else s)"
  by simp

lemma queue_modifier_step: "hid_step s (queue_modifier keys k r p s)"
  unfolding queue_modifier_def Let_def
  by (rule hid_step_trans; rule hid_step_if; rule queue_key_action_step)

lemma kbd_release_step: "hid_step s (kbd_release r k s)"
  by (simp add: kbd_release_def queue_key_action_step)

lemma kbd_press_step: "hid_step s (kbd_press r prev k s)"
  by (simp add: kbd_press_def Let_def queue_key_action_step
      hid_step_trans [OF queue_key_action_step raw_char_push_step])

lemma process_kbd_report_step: "hid_step s (process_kbd_report r prev s)"
  unfolding process_kbd_report_def Let_def
  by (rule hid_step_trans [OF queue_modifier_step hid_step_trans [OF queue_modifier_step
        hid_step_trans [OF queue_modifier_step hid_step_trans [OF
          hid_step_fold [OF kbd_release_step] hid_step_fold [OF kbd_press_step]]]]])

lemma take_kbd_report_step: "hid_step s (take_kbd_report p s)"
  unfolding take_kbd_report_def by (rule hid_step_trans [OF process_kbd_report_step hid_step_same]) simp_all

lemma process_mouse_report_step: "hid_step s (process_mouse_report r s)"
  by (simp add: process_mouse_report_def hid_step_same)

lemma generic_mouse_step: "hid_step s (generic_mouse p len s)"
  by (simp add: generic_mouse_def process_mouse_report_step)

lemma call_host_step: "hid_step s (call_host k s)"
  by (simp add: call_host_def hid_step_same)

text \<open>An update of one slot that leaves its identity alone, or clears the connection.\<close>

lemma on_slot_step:
  assumes "i < MAX_GAMEPADS"
    "gs_connected (f (slots s i)) \<Longrightarrow> gs_connected (slots s i) \<and> slot_key (f (slots s i)) = slot_key (slots s i)"
  shows "hid_step s (on_slot i f s)"
  using assms by (auto simp: hid_step_def hid_frame_def slots_ok_def on_slot_def slot_key_def)

lemma first_below_Some: "first_below n p = Some i \<Longrightarrow> i < n \<and> p i"
  unfolding first_below_def
  by (metis (no_types, lifting) atLeastLessThan_iff filter_eq_ConsD in_set_conv_decomp list.case_eq_if
      list.exhaust_sel mem_Collect_eq option.distinct(1) option.inject set_filter set_upt list.set_sel(1))

lemma first_below_None: "first_below n p = None \<longleftrightarrow> (\<forall>i < n. \<not> p i)"
proof (cases "first_below n p")
  case None
  then have "filter p [0..<n] = []" by (auto simp: first_below_def split: list.splits)
  with None show ?thesis by (auto simp: filter_empty_conv)
next
  case (Some i)
  with first_below_Some [OF Some] show ?thesis by auto
qed

text \<open>A slot found or allocated, then marked connected without changing its identity.\<close>

lemma find_or_alloc_connect:
  assumes a: "find_or_alloc_gamepad_slot dev inst src s = (Some i, s1)" and src: "src \<noteq> GP_SRC_NONE"
    and f: "\<And>g. slot_key (f g) = slot_key g"
  shows "i < MAX_GAMEPADS" "hid_step s (on_slot i f s1)"
    "slot_key (slots s1 i) = (dev, inst, src)"
proof -
  let ?p = "\<lambda>i. gs_connected (slots s i) \<and> gs_dev (slots s i) = dev \<and> gs_inst (slots s i) = inst \<and>
    gs_source (slots s i) = src"
  have *: "i < MAX_GAMEPADS \<and> slot_key (slots s1 i) = (dev, inst, src) \<and> hid_step s (on_slot i f s1)"
  proof (cases "first_below MAX_GAMEPADS ?p")
    case (Some j)
    then have "s1 = s" "j = i" using a by (auto simp: find_or_alloc_gamepad_slot_def)
    moreover have "slot_key (slots s j) = (dev, inst, src)" "gs_connected (slots s j)" "j < MAX_GAMEPADS"
      using first_below_Some [OF Some] by (auto simp: slot_key_def)
    ultimately show ?thesis by (auto simp: f intro!: on_slot_step)
  next
    case None
    then obtain j where j: "first_below MAX_GAMEPADS (\<lambda>i. \<not> gs_connected (slots s i)) = Some j"
      "i = j" "s1 = on_slot j (\<lambda>g. g\<lparr>gs_dev := dev, gs_inst := inst, gs_source := src\<rparr>) s"
      using a by (auto simp: find_or_alloc_gamepad_slot_def split: option.splits)
    note new = first_below_Some [OF j(1)] and none = None [unfolded first_below_None]
    have key: "slot_key (f g) = (dev, inst, src)" if "slot_key g = (dev, inst, src)" for g
      using f that by simp
    have "slots_ok (on_slot i f s1)" if "slots_ok s"
    proof -
      have k: "slot_key (slots (on_slot i f s1) i) = (dev, inst, src)"
        by (simp add: on_slot_def j(3) f) (simp add: slot_key_def j(2))
      have o: "slots (on_slot i f s1) m = slots s m" if "m \<noteq> i" for m
        using that by (simp add: on_slot_def j)
      have d: "slot_key (slots s m) \<noteq> (dev, inst, src)" if "m < MAX_GAMEPADS" "gs_connected (slots s m)" for m
        using none that by (auto simp: slot_key_def)
      show ?thesis
        unfolding slots_ok_def
      proof (intro conjI allI impI)
        fix m assume m: "m < MAX_GAMEPADS" "gs_connected (slots (on_slot i f s1) m)"
        show "gs_source (slots (on_slot i f s1) m) \<noteq> GP_SRC_NONE"
        proof (cases "m = i")
          case True
          then show ?thesis using k src by (simp add: slot_key_def)
        next
          case False
          then show ?thesis using m o \<open>slots_ok s\<close> by (simp add: slots_ok_def)
        qed
      next
        fix m n assume m: "m < MAX_GAMEPADS" and n: "n < MAX_GAMEPADS" and "gs_connected (slots (on_slot i f s1) m) \<and>
          gs_connected (slots (on_slot i f s1) n) \<and>
          slot_key (slots (on_slot i f s1) m) = slot_key (slots (on_slot i f s1) n)"
        then show "m = n"
          using m n k o d \<open>slots_ok s\<close> by (cases "m = i"; cases "n = i") (auto simp: slots_ok_def)
      qed
    qed
    then show ?thesis using new j by (auto simp: slot_key_def hid_step_def hid_frame_def on_slot_def)
  qed
  then show "i < MAX_GAMEPADS" "hid_step s (on_slot i f s1)" "slot_key (slots s1 i) = (dev, inst, src)"
    by blast+
qed

lemma find_or_alloc_None: "find_or_alloc_gamepad_slot dev inst src s = (None, s1) \<Longrightarrow> s1 = s"
  by (auto simp: find_or_alloc_gamepad_slot_def split: option.splits)

lemma process_gamepad_report_step: "hid_step s (process_gamepad_report i p len s)"
  by (auto simp: process_gamepad_report_def Let_def slot_key_def split: option.splits intro!: on_slot_step)

lemma generic_gamepad_step: "hid_step s (generic_gamepad dev inst p len s)"
proof (cases "find_or_alloc_gamepad_slot dev inst GP_SRC_HID s")
  case (Pair r s1)
  show ?thesis
  proof (cases r)
    case None
    then have "s1 = s" using Pair by (simp add: find_or_alloc_None)
    then show ?thesis using Pair None by (simp add: generic_gamepad_def)
  next
    case (Some i)
    have "hid_step s (connect_slot i s1)"
      unfolding connect_slot_def
      using Pair Some by (intro find_or_alloc_connect(2)) (auto simp: slot_key_def)
    then show ?thesis
      using Pair Some hid_step_trans [OF _ process_gamepad_report_step] by (simp add: generic_gamepad_def)
  qed
qed

lemma process_generic_report_step: "hid_step s (process_generic_report dev inst p len s)"
  by (auto simp: process_generic_report_def Let_def take_kbd_report_step generic_mouse_step
      generic_gamepad_step split: option.splits prod.splits)

lemma mount_gamepad_step: "hid_step s (mount_gamepad t dev inst s)"
proof (cases "find_or_alloc_gamepad_slot dev inst GP_SRC_HID s")
  case (Pair r s1)
  show ?thesis
  proof (cases r)
    case None
    then have "s1 = s" using Pair by (simp add: find_or_alloc_None)
    then show ?thesis using Pair None by (simp add: mount_gamepad_def)
  next
    case (Some i)
    with Pair find_or_alloc_connect(2) [of dev inst GP_SRC_HID s i s1] show ?thesis
      by (auto simp: mount_gamepad_def slot_key_def split: prod.splits)
  qed
qed

lemma set_info_step: "inst < CFG_TUH_HID \<Longrightarrow> hid_step s (s\<lparr>infos := (infos s)(inst := h)\<rparr>)"
  by (auto simp: hid_step_def hid_frame_def slots_ok_def)

lemma hid_step_same2:
  "hid_step s0 s \<Longrightarrow> slots s' = slots s \<Longrightarrow> infos s' = infos s \<Longrightarrow> key_actions s' = key_actions s \<Longrightarrow>
   raw_chars s' = raw_chars s \<Longrightarrow> hid_step s0 s'"
  by (rule hid_step_trans [OF _ hid_step_same])

lemma mount_generic_step: "hid_step s (mount_generic t dev inst desc s)"
proof (cases "unat inst < CFG_TUH_HID")
  case True
  obtain n arr where p: "tuh_hid_parse_report_descriptor t desc (report_infos (infos s (unat inst))) = (n, arr)"
    by fastforce
  let ?s = "\<lambda>h. s\<lparr>infos := (infos s)(unat inst := h)\<rparr>"
  have 1: "hid_step s (?s h)" for h using True by (rule set_info_step)
  have 2: "hid_step s (?s h\<lparr>mouse_connected := m, keyboard_connected := k\<rparr>)" for m k h
    by (rule hid_step_same2 [OF 1]) simp_all
  have 3: "hid_step s (?s h\<lparr>mouse_connected := m\<rparr>)" "hid_step s (?s h\<lparr>keyboard_connected := k\<rparr>)" for m k h
    by (rule hid_step_same2 [OF 1]; simp)+
  show ?thesis
    using True by (auto simp: mount_generic_def p Let_def 1 2 3 intro!: hid_step_trans [OF _ mount_gamepad_step])
qed (simp add: mount_generic_def)

lemma drop_slot_step: "i < MAX_GAMEPADS \<Longrightarrow> hid_step s (drop_slot i s)"
  unfolding drop_slot_def by (rule on_slot_step) simp_all

lemma hid_mount_step: "hid_step s (tuh_hid_mount_cb t dev inst desc s)"
  unfolding tuh_hid_mount_cb_def Let_def
  by (rule hid_step_trans [OF _ call_host_step], cases "tuh_hid_interface_protocol t dev inst = HID_ITF_PROTOCOL_NONE")
    (auto simp: hid_consts mount_generic_step intro!: hid_step_same)

lemma find_by_dev_Some:
  "find_gamepad_slot_by_dev dev src s = Some i \<Longrightarrow>
   i < MAX_GAMEPADS \<and> gs_connected (slots s i) \<and> gs_dev (slots s i) = dev \<and> gs_source (slots s i) = src"
  unfolding find_gamepad_slot_by_dev_def by (drule first_below_Some) simp

lemma hid_umount_step: "hid_step s (tuh_hid_umount_cb t dev inst s)"
  unfolding tuh_hid_umount_cb_def Let_def
  by (auto split: option.splits intro!: hid_step_same drop_slot_step dest: find_by_dev_Some)

lemma hid_report_step: "hid_step s (tuh_hid_report_received_cb t dev inst p len s)"
proof -
  have "hid_step s (process_gamepad_report i p len (connect_slot i s))"
    if "find_gamepad_slot_by_dev dev GP_SRC_HID s = Some i" for i
    unfolding connect_slot_def
    by (rule hid_step_trans [OF on_slot_step process_gamepad_report_step])
      (use find_by_dev_Some [OF that] in \<open>auto simp: slot_key_def\<close>)
  then show ?thesis
    unfolding tuh_hid_report_received_cb_def Let_def
    by (intro hid_step_trans [OF _ call_host_step])
      (auto simp: take_kbd_report_step generic_mouse_step process_generic_report_step split: option.splits)
qed

lemma xinput_mount_step: "hid_step s (tuh_xinput_mount_cb t dev inst s)"
proof (cases "find_or_alloc_gamepad_slot dev inst GP_SRC_XINPUT s")
  case (Pair r s1)
  show ?thesis
  proof (cases r)
    case None
    then have "s1 = s" using Pair by (simp add: find_or_alloc_None)
    then show ?thesis using Pair None by (simp add: tuh_xinput_mount_cb_def call_host_step)
  next
    case (Some i)
    with Pair find_or_alloc_connect(2) [of dev inst GP_SRC_XINPUT s i s1] show ?thesis
      by (auto simp: tuh_xinput_mount_cb_def slot_key_def Let_def split: prod.splits
          intro!: hid_step_trans [OF hid_step_trans [OF _ call_host_step] call_host_step])
  qed
qed

lemma xinput_umount_step: "hid_step s (tuh_xinput_umount_cb dev inst s)"
proof -
  have "[0..<MAX_GAMEPADS] = [0, 1]" by (simp add: MAX_GAMEPADS_def upt_rec)
  moreover have d: "hid_step s (if b then drop_slot i s else s)" if "i < 2" for b i s
    using that by (simp add: drop_slot_step MAX_GAMEPADS_def)
  ultimately show ?thesis
    unfolding tuh_xinput_umount_cb_def by (simp only: fold_simps) (rule hid_step_trans; rule d; simp)
qed

lemma xinput_report_step: "hid_step s (tuh_xinput_report_received_cb dev inst p s)"
  unfolding tuh_xinput_report_received_cb_def
  by (rule hid_step_trans [OF _ call_host_step]) (auto simp: process_gamepad_report_step split: option.splits)

lemma ring_pop_ok: "ring_ok N q \<Longrightarrow> ring_pop N q = Some (x, q') \<Longrightarrow> ring_ok N q' \<and> rg_data q' = rg_data q"
  by (auto simp: ring_ok_def ring_pop_def split: if_splits)

lemma do_hid_step: "hid_step s (do_hid t e s)"
proof (cases e)
  case GetKey
  then show ?thesis
    by (auto simp: get_key_action_ring hid_step_def hid_frame_def slots_ok_def split: option.splits dest: ring_pop_ok)
next
  case GetChar
  then show ?thesis
    by (auto simp: get_raw_char_ring hid_step_def hid_frame_def slots_ok_def split: option.splits dest: ring_pop_ok)
next
  case GetMouse
  then show ?thesis by (simp add: usbhid_get_mouse_state_def hid_step_same)
qed (simp_all add: hid_mount_step hid_umount_step hid_report_step xinput_mount_step xinput_umount_step
    xinput_report_step del: split_paired_All)

lemma hid_run_step: "hid_step s (fold (do_hid t) es s)"
  by (rule hid_step_fold) (rule do_hid_step)

text \<open>C15: Whatever devices are plugged, unplugged and report, in any order and with any data, from
  start-up on: no two connected gamepad slots stand for the same interface, a connected slot
  always has a source, the indices of both queues stay inside them, and nothing outside the
  slots, the interface table and the queues is ever written.\<close>

theorem usb_input_stays_consistent:
  "let s0 = boot_hid ifs sl ka rc; s = fold (do_hid t) es (usbhid_init s0)
   in slots_ok s \<and> ring_ok 32 (key_actions s) \<and> ring_ok 16 (raw_chars s) \<and> hid_frame s0 s"
proof -
  let ?s0 = "boot_hid ifs sl ka rc"
  have "hid_step ?s0 (usbhid_init ?s0)"
    by (rule hid_step_same) (simp_all add: usbhid_init_def boot_hid_def)
  then have "hid_step ?s0 (fold (do_hid t) es (usbhid_init ?s0))"
    by (rule hid_step_trans [OF _ hid_run_step])
  moreover have "slots_ok ?s0" "queues_ok ?s0"
    by (auto simp: slots_ok_def boot_hid_def ring_ok_def)
  ultimately show ?thesis by (simp add: hid_step_def Let_def)
qed

section \<open>Re-arming the endpoints\<close>

text \<open>
  TinyUSB delivers one report per request, so a callback that forgets to ask for the next
  report silences its device.  Only the callbacks themselves call the host.
\<close>

lemma host_calls_quiet [simp]:
  "host_calls (queue_key_action k d s) = host_calls s"
  "host_calls (usb_raw_char_push c s) = host_calls s"
  "host_calls (on_slot i f s) = host_calls s"
  "host_calls (process_mouse_report r s) = host_calls s"
  "host_calls (call_host x s) = host_calls s @ [x]"
  by (simp_all add: queue_key_action_ring raw_char_push_ring on_slot_def process_mouse_report_def call_host_def)

lemma host_calls_fold: "(\<And>x s. host_calls (f x s) = host_calls s) \<Longrightarrow> host_calls (fold f xs s) = host_calls s"
  by (induction xs arbitrary: s) simp_all

lemma host_calls_kbd [simp]: "host_calls (take_kbd_report p s) = host_calls s"
proof -
  have "host_calls (kbd_release r k s) = host_calls s" "host_calls (kbd_press r prev k s) = host_calls s"
    "host_calls (queue_modifier keys k rel pre s) = host_calls s" for r prev k keys rel pre s
    by (simp_all add: kbd_release_def kbd_press_def queue_modifier_def Let_def)
  then show ?thesis
    by (simp add: take_kbd_report_def process_kbd_report_def Let_def host_calls_fold)
qed

lemma host_calls_alloc: "find_or_alloc_gamepad_slot dev inst src s = (r, s1) \<Longrightarrow> host_calls s1 = host_calls s"
  by (auto simp: find_or_alloc_gamepad_slot_def split: option.splits)

lemma host_calls_gamepad [simp]:
  "host_calls (process_gamepad_report i p len s) = host_calls s"
  "host_calls (connect_slot i s) = host_calls s"
  "host_calls (generic_mouse p' len s) = host_calls s"
  "host_calls (generic_gamepad dev inst p' len s) = host_calls s"
  "host_calls (mount_gamepad t dev inst s) = host_calls s"
  by (auto simp: process_gamepad_report_def connect_slot_def generic_mouse_def generic_gamepad_def
      mount_gamepad_def Let_def host_calls_alloc split: option.splits prod.splits)

lemma host_calls_generic [simp]: "host_calls (process_generic_report dev inst p len s) = host_calls s"
  by (auto simp: process_generic_report_def Let_def split: option.splits prod.splits)

text \<open>C34: Every mount and every report callback, HID and XInput, whatever the device, the report and the
  state (slots full, instance out of range, report empty or unknown), asks the host for exactly
  one next report of the interface it was called for, so no device goes silent.\<close>

theorem every_callback_rearms:
  "host_calls (tuh_hid_mount_cb t dev inst desc s) = host_calls s @ [HidReceive dev inst] \<and>
   host_calls (tuh_hid_report_received_cb t dev inst p len s) = host_calls s @ [HidReceive dev inst] \<and>
   filter (\<lambda>k. k = XinputReceive dev inst) (host_calls (tuh_xinput_mount_cb t dev inst s)) =
     filter (\<lambda>k. k = XinputReceive dev inst) (host_calls s) @ [XinputReceive dev inst] \<and>
   host_calls (tuh_xinput_report_received_cb dev inst x s) = host_calls s @ [XinputReceive dev inst]"
proof -
  have "host_calls (mount_generic t dev inst desc s) = host_calls s" for s
    by (simp add: mount_generic_def Let_def split: prod.splits)
  then have 1: "host_calls (tuh_hid_mount_cb t dev inst desc s) = host_calls s @ [HidReceive dev inst]"
    by (simp add: tuh_hid_mount_cb_def Let_def)
  have 2: "host_calls (tuh_hid_report_received_cb t dev inst p len s) = host_calls s @ [HidReceive dev inst]"
    by (cases p) (simp_all add: tuh_hid_report_received_cb_def Let_def split: option.split)
  have 3: "filter (\<lambda>k. k = XinputReceive dev inst) (host_calls (tuh_xinput_mount_cb t dev inst s)) =
     filter (\<lambda>k. k = XinputReceive dev inst) (host_calls s) @ [XinputReceive dev inst]"
    by (cases "find_or_alloc_gamepad_slot dev inst GP_SRC_XINPUT s")
      (simp add: tuh_xinput_mount_cb_def Let_def host_calls_alloc split: option.split prod.split)
  have 4: "host_calls (tuh_xinput_report_received_cb dev inst x s) = host_calls s @ [XinputReceive dev inst]"
    by (simp add: tuh_xinput_report_received_cb_def split: option.split)
  from 1 2 3 4 show ?thesis by blast
qed

section \<open>Mouse\<close>

lemma mouse_sums:
  "cumulative_dx (fold process_mouse_report rs s) = cumulative_dx s + (\<Sum>r \<leftarrow> rs. scast (mr_x r))"
  "cumulative_dy (fold process_mouse_report rs s) = cumulative_dy s - (\<Sum>r \<leftarrow> rs. scast (mr_y r))"
  "cumulative_wheel (fold process_mouse_report rs s) = cumulative_wheel s + (\<Sum>r \<leftarrow> rs. mr_wheel r)"
  "mouse_has_motion (fold process_mouse_report rs s) \<longleftrightarrow>
     mouse_has_motion s \<or> list_ex (\<lambda>r. mr_x r \<noteq> 0 \<or> mr_y r \<noteq> 0) rs"
  by (induction rs arbitrary: s) (simp_all add: process_mouse_report_def add.assoc diff_diff_eq)

text \<open>The motion a reader of the mouse collects is the sum of the sign-extended motions of all the reports since
  its last read, modulo 16 bits, with the vertical axis turned round; reading resets it.\<close>

theorem mouse_motion_accumulates:
  assumes "usbhid_get_mouse_state (fold process_mouse_report rs (snd (usbhid_get_mouse_state s))) =
    ((dx, dy, wheel, buttons, motion), s')"
  shows "dx = (\<Sum>r \<leftarrow> rs. scast (mr_x r)) \<and> dy = - (\<Sum>r \<leftarrow> rs. scast (mr_y r)) \<and>
    wheel = (\<Sum>r \<leftarrow> rs. mr_wheel r) \<and> (motion \<longleftrightarrow> list_ex (\<lambda>r. mr_x r \<noteq> 0 \<or> mr_y r \<noteq> 0) rs) \<and>
    cumulative_dx s' = 0 \<and> cumulative_dy s' = 0"
proof -
  let ?s0 = "snd (usbhid_get_mouse_state s)"
  have "dx = cumulative_dx (fold process_mouse_report rs ?s0)" "dy = cumulative_dy (fold process_mouse_report rs ?s0)"
    "wheel = cumulative_wheel (fold process_mouse_report rs ?s0)"
    "motion = mouse_has_motion (fold process_mouse_report rs ?s0)" "cumulative_dx s' = 0" "cumulative_dy s' = 0"
    using assms unfolding usbhid_get_mouse_state_def [of "fold process_mouse_report rs ?s0"] by auto
  moreover have "cumulative_dx ?s0 = 0" "cumulative_dy ?s0 = 0" "cumulative_wheel ?s0 = 0" "\<not> mouse_has_motion ?s0"
    by (simp_all add: usbhid_get_mouse_state_def)
  ultimately show ?thesis using mouse_sums [of rs ?s0] by simp
qed

definition demo_motion :: "mouse_report list" where
  "demo_motion = [\<lparr>mr_buttons = 1, mr_x = 0xFF, mr_y = 2, mr_wheel = 0, mr_pan = 0\<rparr>,
     \<lparr>mr_buttons = 9, mr_x = 0x80, mr_y = 0x80, mr_wheel = 0xFF, mr_pan = 0\<rparr>]"

theorem mouse_motion_accumulates_witness:
  "case usbhid_get_mouse_state (fold process_mouse_report demo_motion (snd (usbhid_get_mouse_state demo_hid))) of
     ((dx, dy, wheel, buttons, motion), s') \<Rightarrow> dx = - 129 \<and> dy = 126 \<and> motion \<and> cumulative_dx s' = 0"
proof -
  have "(\<Sum>r \<leftarrow> demo_motion. scast (mr_x r)) = (- 129 :: u16)" "(\<Sum>r \<leftarrow> demo_motion. scast (mr_y r)) = (- 126 :: u16)"
    "list_ex (\<lambda>r. mr_x r = 0 \<longrightarrow> mr_y r \<noteq> 0) demo_motion"
    by (simp_all add: demo_motion_def)
  note vals = this
  show ?thesis
    by (auto simp del: word_neg_numeral_alt split: prod.split dest!: mouse_motion_accumulates) (simp_all add: vals)
qed

section \<open>Gamepads\<close>

lemma or_less_256: "(a :: u16) < 256 \<Longrightarrow> b < 256 \<Longrightarrow> a OR b < 256"
proof -
  assume ab: "a < 256" "b < 256"
  have iff: "x < 256 \<longleftrightarrow> take_bit 8 (uint x) = uint x" for x :: u16
    by (simp add: word_less_alt take_bit_int_eq_self_iff)
  show "a OR b < 256" using ab unfolding iff by (simp add: uint_or take_bit_or)
qed

lemma four_directions:
  "(if a then 0x04 else 0) OR (if b then 0x08 else 0) OR (if c then 0x01 else 0) OR (if d then 0x02 else 0) < (16 :: u8)"
  "\<not> (a \<and> b) \<Longrightarrow> \<not> (c \<and> d) \<Longrightarrow>
   ((if a then 0x04 else 0) OR (if b then 0x08 else 0) OR (if c then 0x01 else 0) OR (if d then 0x02 else 0)) AND 0x03 \<noteq> (0x03 :: u8) \<and>
   ((if a then 0x04 else 0) OR (if b then 0x08 else 0) OR (if c then 0x01 else 0) OR (if d then 0x02 else 0)) AND 0x0C \<noteq> (0x0C :: u8)"
  by (cases a; cases b; cases c; cases d; simp)+

lemma hat_directions:
  "hat_dpad h < 16" "hat_dpad h AND 0x03 \<noteq> 0x03 \<and> hat_dpad h AND 0x0C \<noteq> 0x0C"
  by (simp_all add: hat_dpad_def)

lemma bits_directions:
  "(if a then 0x01 else 0) OR (if b then 0x02 else 0) OR (if c then 0x04 else 0) OR (if d then 0x08 else 0) < (16 :: u8)"
  by (cases a; cases b; cases c; cases d; simp)

lemma eval_btn_less: "m < 256 \<Longrightarrow> eval_btn b p len m < 256"
  by (simp add: eval_btn_def)

lemma decode_buttons_less: "decode_buttons m p len < 256"
  unfolding decode_buttons_def
  by (intro or_less_256 eval_btn_less) simp_all

lemma axis_not_both: "\<not> ((x :: u8) < 0x40 \<and> x > 0xC0)"
  by (auto simp: word_less_nat_alt)

text \<open>The d-pad and the buttons a report decodes to use only their four and eight bits, and on every
  pad with a hat or analog axes opposite directions are never both pressed, for any report
  bytes and any length.\<close>

theorem dpad_is_a_direction:
  "decode_dpad m p len < 16 \<and> decode_buttons m p len < 256 \<and>
   (gm_mode m \<noteq> DPAD_BITS \<longrightarrow>
      (decode_dpad m p len AND 0x03 \<noteq> 0x03 \<and> decode_dpad m p len AND 0x0C \<noteq> 0x0C))"
proof (intro conjI impI)
  show "decode_buttons m p len < 256" by (rule decode_buttons_less)
  show "decode_dpad m p len < 16"
    by (cases "gm_mode m")
      (simp_all only: decode_dpad_def Let_def four_directions hat_directions bits_directions dpad_mode.case
        split: if_split; simp)+
  assume "gm_mode m \<noteq> DPAD_BITS"
  then consider "gm_mode m = DPAD_AXIS" | "gm_mode m = DPAD_HAT" by (cases "gm_mode m") auto
  then have "decode_dpad m p len AND 0x03 \<noteq> 0x03 \<and> decode_dpad m p len AND 0x0C \<noteq> 0x0C"
  proof cases
    case 1
    then show ?thesis
      using four_directions(2) [OF axis_not_both axis_not_both, of "p (unat (gm_dpad_x m))" "p (unat (gm_dpad_y m))"]
      by (simp only: decode_dpad_def Let_def dpad_mode.case split: if_split) simp
  next
    case 2
    then show ?thesis using hat_directions(2) by (simp add: decode_dpad_def)
  qed
  then show "decode_dpad m p len AND 0x03 \<noteq> 0x03" "decode_dpad m p len AND 0x0C \<noteq> 0x0C" by simp_all
qed

theorem dpad_is_a_direction_witness:
  "decode_dpad fallback_hid_map (\<lambda>_. 0xFF) 8 AND 0x03 \<noteq> 0x03"
  using dpad_is_a_direction [of fallback_hid_map "\<lambda>_. 0xFF" 8] by (simp add: fallback_hid_map_def)

text \<open>C40: Two gamepads behind one receiver are two interfaces of one device, but reports and unplugging
  look a slot up by the device address alone: with the first pad in slot 0, no report of any
  interface of the device ever reaches slot 1, and unplugging any of them frees slot 0 and
  leaves slot 1 as it was.\<close>

theorem second_pad_drives_first_slot:
  assumes "gs_connected (slots s 0)" "gs_dev (slots s 0) = dev" "gs_source (slots s 0) = GP_SRC_HID"
    and "tuh_hid_interface_protocol t dev inst = HID_ITF_PROTOCOL_NONE"
  shows "slots (tuh_hid_report_received_cb t dev inst p len s) 1 = slots s 1 \<and>
    \<not> gs_connected (slots (tuh_hid_umount_cb t dev inst s) 0) \<and>
    slots (tuh_hid_umount_cb t dev inst s) 1 = slots s 1"
proof -
  have "[0..<MAX_GAMEPADS] = [0, 1]" by (simp add: MAX_GAMEPADS_def upt_rec)
  then have f: "find_gamepad_slot_by_dev dev GP_SRC_HID s = Some 0"
    using assms(1-3) by (simp add: find_gamepad_slot_by_dev_def first_below_def)
  have "slots (process_gamepad_report 0 p len (connect_slot 0 s)) 1 = slots s 1" for p
    by (simp add: process_gamepad_report_def connect_slot_def on_slot_def Let_def split: option.split)
  from this [of p] show ?thesis
    using assms(4) f
    by (cases p) (simp_all add: tuh_hid_report_received_cb_def tuh_hid_umount_cb_def drop_slot_def on_slot_def call_host_def
        Let_def hid_consts)
qed

text \<open>A receiver at address 3 with its first pad mounted on interface 0; interface 1 is unplugged.\<close>

definition demo_tuh :: tuh where
  "demo_tuh = \<lparr>tuh_hid_interface_protocol = (\<lambda>_ _. 0), tuh_vid_pid_get = (\<lambda>_. (0x046D, 0xC219)),
     tuh_hid_parse_report_descriptor = (\<lambda>_ arr. (0, arr))\<rparr>"

definition demo_pad :: hid where
  "demo_pad = tuh_hid_mount_cb demo_tuh 3 0 [] demo_hid"

lemma demo_pad_slot:
  "gs_connected (slots demo_pad 0)" "gs_dev (slots demo_pad 0) = 3" "gs_source (slots demo_pad 0) = GP_SRC_HID"
  by (simp_all add: demo_pad_def demo_tuh_def tuh_hid_mount_cb_def mount_generic_def mount_gamepad_def
      announces_def find_or_alloc_gamepad_slot_def first_below_def on_slot_def call_host_def Let_def
      demo_hid_defs upt_rec)

theorem second_pad_drives_first_slot_witness:
  "\<not> gs_connected (slots (tuh_hid_umount_cb demo_tuh 3 1 demo_pad) 0)"
  using second_pad_drives_first_slot [where s = demo_pad and t = demo_tuh and inst = 1, OF demo_pad_slot]
  by (simp add: demo_tuh_def HID_ITF_PROTOCOL_NONE_def)

end
