(* ===== verification/Input.thy ===== *)
theory Input
  imports HidProps TermQuirks
begin

text \<open>
  From a key to the terminal engine: \<open>term/input.c\<close> turns key actions into events,
  \<open>term/term_input.c\<close> turns events into the key codes of the engine, and \<open>keyboard_tick\<close> of
  \<open>src/main.c\<close> drives both and decodes the bytes of the serial console.
\<close>

section \<open>Events\<close>

text \<open>The \<open>KEY_*\<close> codes of \<open>input.h\<close>; those of \<open>term_compat.h\<close> have other values.\<close>

abbreviation (input) "EV_ENTER \<equiv> 0x100 :: int"
abbreviation (input) "EV_ESC \<equiv> 0x101 :: int"
abbreviation (input) "EV_BACKSPACE \<equiv> 0x102 :: int"
abbreviation (input) "EV_TAB \<equiv> 0x103 :: int"
abbreviation (input) "EV_UP \<equiv> 0x104 :: int"
abbreviation (input) "EV_DOWN \<equiv> 0x105 :: int"
abbreviation (input) "EV_LEFT \<equiv> 0x106 :: int"
abbreviation (input) "EV_RIGHT \<equiv> 0x107 :: int"
abbreviation (input) "EV_PGUP \<equiv> 0x108 :: int"
abbreviation (input) "EV_PGDN \<equiv> 0x109 :: int"
abbreviation (input) "EV_HOME \<equiv> 0x10a :: int"
abbreviation (input) "EV_END \<equiv> 0x10b :: int"
abbreviation (input) "EV_DELETE \<equiv> 0x10c :: int"
abbreviation (input) "EV_INSERT \<equiv> 0x10d :: int"
abbreviation (input) "EV_F1 \<equiv> 0x10e :: int"

record input_event =
  ev_code :: int
  ev_shift :: bool
  ev_ctrl :: bool
  ev_alt :: bool

record kmods =
  shift_down :: bool
  ctrl_down :: bool
  alt_down :: bool

definition input_init :: "kmods \<Rightarrow> kmods" where
  "input_init m = m\<lparr>shift_down := False, ctrl_down := False, alt_down := False\<rparr>"

definition keycode_to_special :: "u8 \<Rightarrow> int" where
  "keycode_to_special kc =
     (if kc = 0x28 then EV_ENTER else if kc = 0x58 then EV_ENTER else if kc = 0x29 then EV_ESC
      else if kc = 0x2A then EV_BACKSPACE else if kc = 0x2B then EV_TAB
      else if kc = 0x4F then EV_RIGHT else if kc = 0x50 then EV_LEFT
      else if kc = 0x51 then EV_DOWN else if kc = 0x52 then EV_UP
      else if kc = 0x4B then EV_PGUP else if kc = 0x4E then EV_PGDN
      else if kc = 0x4A then EV_HOME else if kc = 0x4D then EV_END
      else if kc = 0x4C then EV_DELETE else if kc = 0x49 then EV_INSERT
      else if kc = 0x3A then EV_F1 else if kc = 0x3B then EV_F1 + 1 else if kc = 0x3C then EV_F1 + 2
      else if kc = 0x3D then EV_F1 + 3 else if kc = 0x3E then EV_F1 + 4 else if kc = 0x3F then EV_F1 + 5
      else if kc = 0x40 then EV_F1 + 6 else if kc = 0x41 then EV_F1 + 7 else if kc = 0x42 then EV_F1 + 8
      else if kc = 0x43 then EV_F1 + 9 else if kc = 0x44 then EV_F1 + 10 else if kc = 0x45 then EV_F1 + 11
      else 0)"

text \<open>The body of the loop of \<open>input_poll\<close>: an event to return, or \<open>continue\<close>.\<close>

definition poll_action :: "key_action \<Rightarrow> kmods \<Rightarrow> input_event option \<times> kmods" where
  "poll_action a m =
     (let kc = ka_keycode a; down = ka_down a
      in if kc = 0xE1 then (None, m\<lparr>shift_down := down\<rparr>)
         else if kc = 0xE0 then (None, m\<lparr>ctrl_down := down\<rparr>)
         else if kc = 0xE2 then (None, m\<lparr>alt_down := down\<rparr>)
         else if \<not> down then (None, m)
         else let special = keycode_to_special kc;
                  ev = (\<lambda>code. \<lparr>ev_code = code, ev_shift = shift_down m, ev_ctrl = ctrl_down m,
                                ev_alt = alt_down m\<rparr>)
              in if special \<noteq> 0 then (Some (ev special), m)
                 else let ch = usbhid_keycode_to_ascii kc (if shift_down m then 0x02 else 0)
                      in if ch = 0 \<or> ch < 0x20 \<or> ch > 0x7E then (None, m) else (Some (ev (uint ch)), m))"

text \<open>
  \<open>None\<close> is a loop that has not returned within the fuel; \<open>Some (None, \<dots>)\<close> is the return of
  \<open>false\<close>.  The queue holds at most 31 actions, so 32 rounds are enough
  (\<open>input_poll_list\<close>).
\<close>

primrec input_poll :: "nat \<Rightarrow> kmods \<Rightarrow> hid \<Rightarrow> (input_event option \<times> kmods \<times> hid) option" where
  "input_poll 0 m s = None"
| "input_poll (Suc n) m s =
     (case usbhid_get_key_action s of
        None \<Rightarrow> Some (None, m, s)
      | Some (a, s) \<Rightarrow>
          (case poll_action a m of
             (Some ev, m) \<Rightarrow> Some (Some ev, m, s)
           | (None, m) \<Rightarrow> input_poll n m s))"

section \<open>Events to the engine\<close>

definition map_special :: "int \<Rightarrow> u16" where
  "map_special code =
     (if code = EV_ENTER then 0x0d else if code = EV_ESC then 0x1b else if code = EV_BACKSPACE then 0x08
      else if code = EV_TAB then 0x09 else if code = EV_DELETE then 0x7f else if code = EV_UP then 0x80
      else if code = EV_DOWN then 0x81 else if code = EV_LEFT then 0x82 else if code = EV_RIGHT then 0x83
      else if code = EV_INSERT then 0x84 else if code = EV_HOME then 0x85 else if code = EV_END then 0x86
      else if code = EV_PGUP then 0x87 else if code = EV_PGDN then 0x88
      else if EV_F1 \<le> code \<and> code \<le> EV_F1 + 11 then 0x8c + of_int (code - EV_F1)
      else 0)"

definition apply_ctrl :: "int \<Rightarrow> u16" where
  "apply_ctrl c =
     (if c \<ge> 97 \<and> c \<le> 122 then of_int (c - 97 + 1)
      else if c \<ge> 65 \<and> c \<le> 90 then of_int (c - 65 + 1)
      else if c \<ge> 91 \<and> c \<le> 95 then of_int (c - 64)
      else if c = 64 \<or> c = 32 then 0
      else if c = 63 then 0x7f
      else of_int c)"

definition terminal_feed_event :: "(nat \<Rightarrow> u8) \<Rightarrow> input_event \<Rightarrow> terminal \<Rightarrow> terminal" where
  "terminal_feed_event rom ev s =
     (let s = s\<lparr>t_mods := term_compat_set_mods (ev_shift ev) (ev_ctrl ev) (ev_alt ev) (t_mods s)\<rparr>
      in if ev_code ev \<ge> 0x100 then
           (let key = map_special (ev_code ev) in if key = 0 then s else terminal_process_key rom key s)
         else if ev_ctrl ev then terminal_process_key rom (apply_ctrl (ev_code ev)) s
         else terminal_process_key rom (of_int (ev_code ev)) s)"

section \<open>The keyboard part of the main loop\<close>

datatype seq = SEQ_NONE | SEQ_ESC | SEQ_CSI

record console =
  c_hid :: hid
  c_mods :: kmods
  c_term :: terminal
  c_seq :: seq
  c_deadline :: u64

text \<open>
  What one pass meets: the callbacks TinyUSB runs inside \<open>usbhid_task\<close>, the clock at the
  timeout check and when a timeout is set, and the byte of the serial line, negative when
  there is none.
\<close>

record tick_env =
  te_usb :: "hid_event list"
  te_now :: u64
  te_arm :: u64
  te_char :: int

definition plain_event :: "int \<Rightarrow> input_event" where
  "plain_event code = \<lparr>ev_code = code, ev_shift = False, ev_ctrl = False, ev_alt = False\<rparr>"

definition feed :: "(nat \<Rightarrow> u8) \<Rightarrow> int \<Rightarrow> console \<Rightarrow> console" where
  "feed rom code c = c\<lparr>c_term := terminal_feed_event rom (plain_event code) (c_term c)\<rparr>"

text \<open>\<open>while (input_poll(&ev)) terminal_feed_event(&ev)\<close>, with the same fuel.\<close>

primrec poll_all :: "(nat \<Rightarrow> u8) \<Rightarrow> nat \<Rightarrow> console \<Rightarrow> console option" where
  "poll_all rom 0 c = None"
| "poll_all rom (Suc n) c =
     (case input_poll 32 (c_mods c) (c_hid c) of
        None \<Rightarrow> None
      | Some (None, m, s) \<Rightarrow> Some (c\<lparr>c_mods := m, c_hid := s\<rparr>)
      | Some (Some ev, m, s) \<Rightarrow>
          poll_all rom n (c\<lparr>c_mods := m, c_hid := s, c_term := terminal_feed_event rom ev (c_term c)\<rparr>))"

definition seq_timeout :: "(nat \<Rightarrow> u8) \<Rightarrow> u64 \<Rightarrow> console \<Rightarrow> console" where
  "seq_timeout rom now c =
     (if c_seq c \<noteq> SEQ_NONE \<and> sint (c_deadline c - now) < 0
      then (let c = feed rom 27 c; c = (if c_seq c = SEQ_CSI then feed rom 91 c else c)
            in c\<lparr>c_seq := SEQ_NONE\<rparr>)
      else c)"

text \<open>The last lines of \<open>keyboard_tick\<close>: the byte itself, CR and LF as Enter.\<close>

definition feed_byte :: "(nat \<Rightarrow> u8) \<Rightarrow> int \<Rightarrow> console \<Rightarrow> console" where
  "feed_byte rom ch = feed rom (if ch = 13 \<or> ch = 10 then EV_ENTER else ch)"

definition arrow_code :: "int \<Rightarrow> int option" where
  "arrow_code ch =
     (if ch = 65 then Some EV_UP else if ch = 66 then Some EV_DOWN else if ch = 67 then Some EV_RIGHT
      else if ch = 68 then Some EV_LEFT else None)"

definition serial_byte :: "(nat \<Rightarrow> u8) \<Rightarrow> u64 \<Rightarrow> int \<Rightarrow> console \<Rightarrow> console" where
  "serial_byte rom now ch c =
     (case c_seq c of
        SEQ_NONE \<Rightarrow>
          if ch = 27 then c\<lparr>c_seq := SEQ_ESC, c_deadline := now + 50000\<rparr> else feed_byte rom ch c
      | SEQ_ESC \<Rightarrow>
          if ch = 91 \<or> ch = 79 then c\<lparr>c_seq := SEQ_CSI, c_deadline := now + 50000\<rparr>
          else feed_byte rom ch ((feed rom 27 c)\<lparr>c_seq := SEQ_NONE\<rparr>)
      | SEQ_CSI \<Rightarrow>
          (let c = c\<lparr>c_seq := SEQ_NONE\<rparr>
           in case arrow_code ch of
                Some k \<Rightarrow> feed rom k c
              | None \<Rightarrow> feed_byte rom ch (feed rom 91 (feed rom 27 c))))"

definition keyboard_tick :: "(nat \<Rightarrow> u8) \<Rightarrow> tuh \<Rightarrow> tick_env \<Rightarrow> console \<Rightarrow> console option" where
  "keyboard_tick rom t e c =
     map_option (\<lambda>c. let c = seq_timeout rom (te_now e) c
                     in if te_char e < 0 then c else serial_byte rom (te_arm e) (te_char e) c)
       (poll_all rom 32 (c\<lparr>c_hid := fold (do_hid t) (te_usb e) (c_hid c)\<rparr>))"

end
