(* ===== verification/InputProps.thy ===== *)
theory InputProps
  imports Input
begin

text \<open>
  The keyboard path as a whole: the polling loops return and lose nothing, a key of the USB
  keyboard arrives as its byte in the queue to Linux, and what the serial decoder makes of
  escape sequences.
\<close>

section \<open>The loops return\<close>

text \<open>The same loops over the list of queued actions.\<close>

fun poll_list :: "key_action list \<Rightarrow> kmods \<Rightarrow> input_event option \<times> kmods \<times> key_action list" where
  "poll_list [] m = (None, m, [])"
| "poll_list (a # as) m =
     (case poll_action a m of (Some ev, m) \<Rightarrow> (Some ev, m, as) | (None, m) \<Rightarrow> poll_list as m)"

fun action_events :: "key_action list \<Rightarrow> kmods \<Rightarrow> input_event list \<times> kmods" where
  "action_events [] m = ([], m)"
| "action_events (a # as) m =
     (case poll_action a m of
        (Some ev, m) \<Rightarrow> (case action_events as m of (evs, m) \<Rightarrow> (ev # evs, m))
      | (None, m) \<Rightarrow> action_events as m)"

lemma length_poll_list: "poll_list as m = (r, m', as') \<Longrightarrow> length as' \<le> length as \<and> (r \<noteq> None \<longrightarrow> length as' < length as)"
proof (induction as arbitrary: m)
  case (Cons a as)
  show ?case
  proof (cases "poll_action a m")
    case (Pair ev m1)
    then show ?thesis using Cons.prems Cons.IH [of m1] by (cases ev) auto
  qed
qed simp

lemma poll_list_None: "poll_list as m = (r, m', as') \<Longrightarrow> r = None \<Longrightarrow> as' = []"
proof (induction as arbitrary: m)
  case (Cons a as)
  show ?case
  proof (cases "poll_action a m")
    case (Pair ev m1)
    then show ?thesis using Cons.prems Cons.IH [of m1] by (cases ev) auto
  qed
qed simp

lemma action_events_poll:
  "action_events as m = (case poll_list as m of
     (None, m, _) \<Rightarrow> ([], m)
   | (Some ev, m, as) \<Rightarrow> (case action_events as m of (evs, m) \<Rightarrow> (ev # evs, m)))"
proof (induction as arbitrary: m)
  case (Cons a as)
  show ?case
  proof (cases "poll_action a m")
    case (Pair ev m1)
    then show ?thesis using Cons.IH [of m1] by (cases ev) auto
  qed
qed simp

lemma input_poll_list:
  "ring_ok 32 (key_actions s) \<Longrightarrow> length (key_list s) < n \<Longrightarrow>
   \<exists>s'. input_poll n m s = Some (fst (poll_list (key_list s) m), fst (snd (poll_list (key_list s) m)), s') \<and>
     key_list s' = snd (snd (poll_list (key_list s) m)) \<and> ring_ok 32 (key_actions s')"
proof (induction n arbitrary: m s)
  case (Suc n)
  note ok = Suc.prems(1)
  show ?case
  proof (cases "ring_pop 32 (key_actions s)")
    case None
    then have "key_list s = []" using ring_pop_None [OF ok] by simp
    with None ok show ?thesis by (simp add: get_key_action_ring)
  next
    case (Some aq)
    obtain a q where aq: "aq = (a, q)" by fastforce
    let ?s = "s\<lparr>key_actions := q\<rparr>"
    have k: "key_list s = a # key_list ?s" "ring_ok 32 (key_actions ?s)"
      using ring_pop_Some [OF ok Some [unfolded aq]] by simp_all
    obtain ev m1 where e: "poll_action a m = (ev, m1)" by fastforce
    show ?thesis
    proof (cases ev)
      case None
      then show ?thesis
        using Suc.IH [OF k(2), of m1] Suc.prems(2) k Some aq e by (simp add: get_key_action_ring)
    next
      case (Some ev')
      then show ?thesis
        using k e \<open>ring_pop 32 (key_actions s) = Some aq\<close> aq by (simp add: get_key_action_ring)
    qed
  qed
qed simp

lemma poll_all_events:
  "ring_ok 32 (key_actions (c_hid c)) \<Longrightarrow> length (key_list (c_hid c)) < n \<Longrightarrow>
   \<exists>c'. poll_all rom n c = Some c' \<and> key_list (c_hid c') = [] \<and> c_seq c' = c_seq c \<and>
     c_deadline c' = c_deadline c \<and>
     c_term c' = fold (terminal_feed_event rom) (fst (action_events (key_list (c_hid c)) (c_mods c))) (c_term c) \<and>
     c_mods c' = snd (action_events (key_list (c_hid c)) (c_mods c))"
proof (induction n arbitrary: c)
  case (Suc n)
  obtain r m as where p: "poll_list (key_list (c_hid c)) (c_mods c) = (r, m, as)" by (metis prod_cases3)
  have "length (key_list (c_hid c)) < 32"
    using length_ring_list [OF Suc.prems(1)] by simp
  from input_poll_list [OF Suc.prems(1) this, of "c_mods c"] p obtain s' where
    s: "input_poll 32 (c_mods c) (c_hid c) = Some (r, m, s')" "key_list s' = as" "ring_ok 32 (key_actions s')"
    by auto
  show ?case
  proof (cases r)
    case None
    moreover have "as = []" using poll_list_None [OF p] None by simp
    ultimately show ?thesis using s p by (simp add: action_events_poll)
  next
    case (Some ev)
    let ?c = "c\<lparr>c_mods := m, c_hid := s', c_term := terminal_feed_event rom ev (c_term c)\<rparr>"
    have "length (key_list (c_hid ?c)) < n"
      using length_poll_list [OF p] Some s(2) Suc.prems(2) by simp
    from Suc.IH [OF _ this] s(3) show ?thesis
      using s p Some by (auto simp: action_events_poll [of "key_list (c_hid c)"] split: prod.splits)
  qed
qed simp

text \<open>C19: A pass over the keyboard returns, whatever is queued: every queued key action is taken exactly
  once and in order, the events they amount to are fed to the engine in that order, and the
  queue is empty afterwards.\<close>

theorem keyboard_polling_returns:
  assumes "ring_ok 32 (key_actions (c_hid c))"
  shows "\<exists>c'. poll_all rom 32 c = Some c' \<and> key_list (c_hid c') = [] \<and>
    c_term c' = fold (terminal_feed_event rom) (fst (action_events (key_list (c_hid c)) (c_mods c))) (c_term c) \<and>
    c_mods c' = snd (action_events (key_list (c_hid c)) (c_mods c))"
  using poll_all_events [OF assms, of 32] length_ring_list [OF assms] by auto

definition demo_console :: console where
  "demo_console = \<lparr>c_hid = demo_hid, c_mods = \<lparr>shift_down = False, ctrl_down = False, alt_down = False\<rparr>,
     c_term = demo_term, c_seq = SEQ_NONE, c_deadline = 0\<rparr>"

theorem keyboard_polling_returns_witness:
  "\<exists>c'. poll_all (\<lambda>_. 0) 32 demo_console = Some c' \<and> c_term c' = demo_term"
  using keyboard_polling_returns [where c = demo_console and rom = "\<lambda>_. 0"]
  by (simp add: demo_console_def demo_hid_queues) blast

section \<open>A key press arrives as its byte\<close>

lemma letter_cases:
  assumes "4 \<le> (k :: u8)" "k \<le> 0x1D"
  obtains j where "j < 26" "k = of_nat (4 + j)"
proof
  have "4 \<le> unat k" "unat k \<le> 29" using assms by (simp_all add: word_le_nat_alt)
  then show "unat k - 4 < 26" "k = of_nat (4 + (unat k - 4))" by simp_all
qed

lemma letter_ascii:
  assumes "j < 26"
  shows "usbhid_keycode_to_ascii (of_nat (4 + j)) md =
    of_nat ((if md AND 0x22 \<noteq> 0 then 65 else 97) + j)"
proof -
  have u: "unat (of_nat (4 + j) :: u8) = 4 + j" using assms by (intro unat_of_nat_small) simp
  have "4 \<le> (of_nat (4 + j) :: u8)" "(of_nat (4 + j) :: u8) \<le> 0x1D"
    unfolding word_le_nat_alt u using assms by simp_all
  then show ?thesis by (simp add: usbhid_keycode_to_ascii_def Let_def)
qed

lemma not_special: "unat k < 40 \<Longrightarrow> keycode_to_special k = 0"
  by (auto simp: keycode_to_special_def)

lemma poll_printable:
  assumes "\<not> modifier_code k" "keycode_to_special k = 0"
    "usbhid_keycode_to_ascii k (if shift_down m then 0x02 else 0) = ch" "32 \<le> unat ch" "unat ch \<le> 126"
  shows "poll_action \<lparr>ka_keycode = k, ka_down = True\<rparr> m =
    (Some \<lparr>ev_code = int (unat ch), ev_shift = shift_down m, ev_ctrl = ctrl_down m, ev_alt = alt_down m\<rparr>, m)"
proof -
  have "ch \<noteq> 0" "\<not> ch < 0x20" "\<not> ch > 0x7E"
    using assms(4,5) by (auto simp: word_less_nat_alt)
  then show ?thesis
    using assms(1-3) by (simp add: poll_action_def modifier_code_def Let_def)
qed

lemma letter_key:
  assumes "j < 26" "k = of_nat (4 + j)"
  shows "unat k = 4 + j" "k \<noteq> 0" "\<not> modifier_code k" "keycode_to_special k = 0"
proof -
  show u: "unat k = 4 + j" using assms unat_of_nat_small [of "4 + j", where 'a = 8] by simp
  show "k \<noteq> 0" "\<not> modifier_code k" using u assms(1) by (auto simp: modifier_code_def)
  show "keycode_to_special k = 0" using u assms(1) by (intro not_special) simp
qed

lemma letter_poll:
  assumes "j < 26" "k = of_nat (4 + j)"
  shows "poll_action \<lparr>ka_keycode = k, ka_down = True\<rparr> m =
    (Some \<lparr>ev_code = int ((if shift_down m then 65 else 97) + j), ev_shift = shift_down m,
           ev_ctrl = ctrl_down m, ev_alt = alt_down m\<rparr>, m)"
proof -
  define base :: nat where "base = (if shift_down m then 65 else 97)"
  have b: "base = 65 \<or> base = 97" by (simp add: base_def)
  have u: "unat (of_nat (base + j) :: u8) = base + j" using assms(1) b by (intro unat_of_nat_small) auto
  have "usbhid_keycode_to_ascii k (if shift_down m then 0x02 else 0) = of_nat (base + j)"
    unfolding assms(2) letter_ascii [OF assms(1)] base_def by simp
  from poll_printable [OF letter_key(3,4) [OF assms] this] show ?thesis
    unfolding u base_def [symmetric] using assms(1) b by auto
qed

text \<open>A boot report with one letter key and at most one modifier.\<close>

definition letter_report :: "u8 \<Rightarrow> nat \<Rightarrow> u8 arr" where
  "letter_report md j = (\<lambda>i. [md, 0, of_nat (4 + j), 0, 0, 0, 0, 0] ! i)"

definition idle_kbd :: kbd_report where
  "idle_kbd = \<lparr>kr_modifier = 0, kr_keycode = [0, 0, 0, 0, 0, 0]\<rparr>"

definition idle_mods :: kmods where
  "idle_mods = \<lparr>shift_down = False, ctrl_down = False, alt_down = False\<rparr>"

lemma as_letter_report:
  "as_kbd_report (letter_report md j) = \<lparr>kr_modifier = md, kr_keycode = [of_nat (4 + j), 0, 0, 0, 0, 0]\<rparr>"
  by (simp add: as_kbd_report_def letter_report_def upt_rec)

lemma letter_actions:
  assumes "j < 26" "k = of_nat (4 + j)"
  shows "report_actions idle_kbd \<lparr>kr_modifier = md, kr_keycode = [k, 0, 0, 0, 0, 0]\<rparr> =
    (if md AND 0x22 \<noteq> 0 then [\<lparr>ka_keycode = 0xE1, ka_down = True\<rparr>] else []) @
    (if md AND 0x11 \<noteq> 0 then [\<lparr>ka_keycode = 0xE0, ka_down = True\<rparr>] else []) @
    (if md AND 0x44 \<noteq> 0 then [\<lparr>ka_keycode = 0xE2, ka_down = True\<rparr>] else []) @
    [\<lparr>ka_keycode = k, ka_down = True\<rparr>]"
  using letter_key(2) [OF assms]
  by (simp add: report_actions_def modifier_actions_def key_changes_def report_keys_def idle_kbd_def)

lemma poll_modifier:
  "poll_action \<lparr>ka_keycode = 0xE1, ka_down = d\<rparr> m = (None, m\<lparr>shift_down := d\<rparr>)"
  "poll_action \<lparr>ka_keycode = 0xE0, ka_down = d\<rparr> m = (None, m\<lparr>ctrl_down := d\<rparr>)"
  "poll_action \<lparr>ka_keycode = 0xE2, ka_down = d\<rparr> m = (None, m\<lparr>alt_down := d\<rparr>)"
  by (simp_all add: poll_action_def)

lemma letter_events:
  assumes "j < 26" "k = of_nat (4 + j)"
  shows "fst (action_events (report_actions idle_kbd \<lparr>kr_modifier = md, kr_keycode = [k, 0, 0, 0, 0, 0]\<rparr>) idle_mods) =
    [\<lparr>ev_code = int ((if md AND 0x22 \<noteq> 0 then 65 else 97) + j), ev_shift = md AND 0x22 \<noteq> 0,
      ev_ctrl = md AND 0x11 \<noteq> 0, ev_alt = md AND 0x44 \<noteq> 0\<rparr>]"
  unfolding letter_actions [OF assms]
  by (simp add: poll_modifier letter_poll [OF assms] idle_mods_def)

text \<open>The byte a letter with these modifiers stands for.\<close>

definition letter_byte :: "u8 \<Rightarrow> nat \<Rightarrow> nat" where
  "letter_byte md j = (if md AND 0x11 \<noteq> 0 then 1 + j else if md AND 0x22 \<noteq> 0 then 65 + j else 97 + j)"

lemma feed_letter:
  assumes "j < 26" "\<not> localecho s" "keyq_ok (t_keyq s)" "length (keyq_bytes (t_keyq s)) < 255"
  shows "keyq_bytes (t_keyq (terminal_feed_event rom
      \<lparr>ev_code = int ((if md AND 0x22 \<noteq> 0 then 65 else 97) + j), ev_shift = sh,
       ev_ctrl = md AND 0x11 \<noteq> 0, ev_alt = al\<rparr> s)) = keyq_bytes (t_keyq s) @ [of_nat (letter_byte md j)]"
    and "keyq_ok (t_keyq (terminal_feed_event rom
      \<lparr>ev_code = int ((if md AND 0x22 \<noteq> 0 then 65 else 97) + j), ev_shift = sh,
       ev_ctrl = md AND 0x11 \<noteq> 0, ev_alt = al\<rparr> s))"
proof -
  define base :: nat where "base = (if md AND 0x22 \<noteq> 0 then 65 else 97)"
  have b: "base = 65 \<or> base = 97" by (simp add: base_def)
  let ?s = "s\<lparr>t_mods := term_compat_set_mods sh (md AND 0x11 \<noteq> 0) al (t_mods s)\<rparr>"
  have n: "letter_byte md j < 127" using assms(1) by (simp add: letter_byte_def)
  then have u: "unat (of_nat (letter_byte md j) :: u16) = letter_byte md j" by (intro unat_of_nat_small) simp
  have k: "of_nat (letter_byte md j) < (0x80 :: u16)" "of_nat (letter_byte md j) \<noteq> (0x7f :: u16)"
    using n by (auto simp: word_less_nat_alt u) (use u in force)
  have "apply_ctrl (int (base + j)) = of_nat (1 + j)"
    using assms(1) b by (auto simp: apply_ctrl_def algebra_simps)
  then have "terminal_feed_event rom \<lparr>ev_code = int (base + j), ev_shift = sh,
       ev_ctrl = md AND 0x11 \<noteq> 0, ev_alt = al\<rparr> s = terminal_process_key rom (of_nat (letter_byte md j)) ?s"
    using assms(1) b unfolding terminal_feed_event_def Let_def by (auto simp: letter_byte_def base_def)
  then show "keyq_bytes (t_keyq (terminal_feed_event rom
      \<lparr>ev_code = int ((if md AND 0x22 \<noteq> 0 then 65 else 97) + j), ev_shift = sh,
       ev_ctrl = md AND 0x11 \<noteq> 0, ev_alt = al\<rparr> s)) = keyq_bytes (t_keyq s) @ [of_nat (letter_byte md j)]"
    and "keyq_ok (t_keyq (terminal_feed_event rom
      \<lparr>ev_code = int ((if md AND 0x22 \<noteq> 0 then 65 else 97) + j), ev_shift = sh,
       ev_ctrl = md AND 0x11 \<noteq> 0, ev_alt = al\<rparr> s))"
    unfolding base_def [symmetric]
    using process_key_queues [of "of_nat (letter_byte md j)" ?s rom] k assms(2-4) n
    by (simp_all add: unsigned_of_nat take_bit_nat_eq_self)
qed

text \<open>A letter key pressed on the USB keyboard, alone, with Shift or with Ctrl (left or right, Alt in
  addition changes nothing), arrives as exactly one byte at the end of the queue to Linux in the
  same pass of the main loop: the small letter, the capital, or the control code.\<close>

lemma typed_letter_queued:
  assumes "j < 26" "ring_ok 32 (key_actions (c_hid c))" "key_list (c_hid c) = []"
    "prev_kbd (c_hid c) = idle_kbd" "c_mods c = idle_mods" "c_seq c = SEQ_NONE"
    "\<not> localecho (c_term c)" "keyq_ok (t_keyq (c_term c))" "length (keyq_bytes (t_keyq (c_term c))) < 255"
    "tuh_hid_interface_protocol t dev inst = HID_ITF_PROTOCOL_KEYBOARD"
    "te_usb e = [Report dev inst (Some (letter_report md j)) 8]" "te_char e < 0"
  shows "\<exists>c'. keyboard_tick rom t e c = Some c' \<and>
    keyq_bytes (t_keyq (c_term c')) = keyq_bytes (t_keyq (c_term c)) @ [of_nat (letter_byte md j)] \<and> keyq_ok (t_keyq (c_term c'))"
proof -
  let ?k = "of_nat (4 + j) :: u8"
  let ?r = "\<lparr>kr_modifier = md, kr_keycode = [?k, 0, 0, 0, 0, 0]\<rparr>"
  let ?s = "do_hid t (Report dev inst (Some (letter_report md j)) 8) (c_hid c)"
  have s: "?s = call_host (HidReceive dev inst) (take_kbd_report (letter_report md j) (c_hid c))"
    using assms(10) by (simp add: tuh_hid_report_received_cb_def)
  have ka: "key_actions ?s = key_actions (process_kbd_report ?r idle_kbd (c_hid c))"
    using assms(4) unfolding s take_kbd_report_def as_letter_report call_host_def by simp
  have kl: "key_list ?s = report_actions idle_kbd ?r" and ok: "ring_ok 32 (key_actions ?s)"
    using key_list_report [OF assms(2), of ?r idle_kbd] length_report_actions [of idle_kbd ?r] assms(3)
      ring_list_pushes [OF assms(2), of "report_actions idle_kbd ?r"]
    unfolding ka by (simp_all add: process_kbd_report_ring)
  let ?c = "c\<lparr>c_hid := ?s\<rparr>"
  have "length (key_list (c_hid ?c)) < 32" using kl length_report_actions [of idle_kbd ?r] by simp
  from poll_all_events [OF _ this, of rom] ok obtain c' where
    c': "poll_all rom 32 ?c = Some c'" "c_seq c' = SEQ_NONE"
    "c_term c' = fold (terminal_feed_event rom) (fst (action_events (report_actions idle_kbd ?r) idle_mods)) (c_term c)"
    using assms(5,6) kl by auto
  have "keyboard_tick rom t e c = Some c'"
    using c'(1,2) assms(11,12) by (simp add: keyboard_tick_def seq_timeout_def del: do_hid.simps)
  moreover have "keyq_bytes (t_keyq (c_term c')) = keyq_bytes (t_keyq (c_term c)) @ [of_nat (letter_byte md j)]"
    unfolding c'(3) letter_events [OF assms(1) refl] using feed_letter(1) [OF assms(1,7,8,9)] by simp
  moreover have "keyq_ok (t_keyq (c_term c'))"
    unfolding c'(3) letter_events [OF assms(1) refl] using feed_letter(2) [OF assms(1,7,8,9)] by simp
  ultimately show ?thesis by blast
qed

definition demo_kbd_tuh :: tuh where
  "demo_kbd_tuh = demo_tuh\<lparr>tuh_hid_interface_protocol := (\<lambda>_ _. HID_ITF_PROTOCOL_KEYBOARD)\<rparr>"

lemma demo_console_idle:
  "c_hid demo_console = demo_hid" "prev_kbd demo_hid = idle_kbd" "c_mods demo_console = idle_mods"
  "c_seq demo_console = SEQ_NONE" "\<not> localecho (c_term demo_console)" "keyq_ok (t_keyq (c_term demo_console))"
  "keyq_bytes (t_keyq (c_term demo_console)) = []"
  by (simp_all add: demo_console_def demo_hid_prev idle_kbd_def idle_mods_def demo_defs keyq_ok_def
      keyq_bytes_def rq_len_def KEYQ_SIZE_def)

text \<open>Both Shift keys share one key code: with both held, letting go of one queues a Shift release, and
  a letter pressed then is a small letter although the other Shift is still down.\<close>

theorem releasing_one_shift_drops_both:
  assumes "j < 26" "k = of_nat (4 + j)"
  shows "let r1 = \<lparr>kr_modifier = 0x22, kr_keycode = [0, 0, 0, 0, 0, 0]\<rparr>;
             r2 = \<lparr>kr_modifier = 0x20, kr_keycode = [0, 0, 0, 0, 0, 0]\<rparr>;
             r3 = \<lparr>kr_modifier = 0x20, kr_keycode = [k, 0, 0, 0, 0, 0]\<rparr>;
             m = snd (action_events (report_actions r1 r2) (idle_mods\<lparr>shift_down := True\<rparr>))
    in map ev_code (fst (action_events (report_actions r2 r3) m)) = [int (97 + j)]"
  using letter_key(2) [OF assms]
  by (simp add: Let_def report_actions_def modifier_actions_def key_changes_def report_keys_def poll_modifier
      letter_poll [OF assms] idle_mods_def)

theorem releasing_one_shift_drops_both_witness:
  "let r1 = \<lparr>kr_modifier = 0x22, kr_keycode = [0, 0, 0, 0, 0, 0]\<rparr>;
       r2 = \<lparr>kr_modifier = 0x20, kr_keycode = [0, 0, 0, 0, 0, 0]\<rparr>;
       r3 = \<lparr>kr_modifier = 0x20, kr_keycode = [4, 0, 0, 0, 0, 0]\<rparr>;
       m = snd (action_events (report_actions r1 r2) (idle_mods\<lparr>shift_down := True\<rparr>))
   in map ev_code (fst (action_events (report_actions r2 r3) m)) = [97]"
  using releasing_one_shift_drops_both [where j = 0 and k = 4] by simp

section \<open>The serial line\<close>

text \<open>A pass with no USB traffic.\<close>

definition quiet_tick :: "u64 \<Rightarrow> int \<Rightarrow> tick_env" where
  "quiet_tick now ch = \<lparr>te_usb = [], te_now = now, te_arm = now, te_char = ch\<rparr>"

lemma quiet_keyboard_tick:
  assumes "ring_ok 32 (key_actions (c_hid c))" "key_list (c_hid c) = []"
  shows "keyboard_tick rom t (quiet_tick now ch) c =
    Some (let c = seq_timeout rom now c in if ch < 0 then c else serial_byte rom now ch c)"
proof -
  have "key_actions (c_hid c) = key_actions (c_hid c) \<and> ring_pop 32 (key_actions (c_hid c)) = None"
    using ring_pop_None [OF assms(1)] assms(2) by simp
  then have "poll_all rom 32 c = Some c"
    by (simp add: numeral_eq_Suc get_key_action_ring)
  then show ?thesis by (simp add: keyboard_tick_def quiet_tick_def Let_def)
qed

text \<open>An arrow key of a serial terminal, \<open>ESC [ A\<close> to \<open>ESC [ D\<close> or the same with \<open>O\<close>, whose bytes arrive
  within 50 ms of each other, becomes one arrow key event and nothing else.\<close>

theorem serial_arrow_is_one_key:
  assumes "ring_ok 32 (key_actions (c_hid c))" "key_list (c_hid c) = []" "c_seq c = SEQ_NONE"
    "b = 91 \<or> b = 79" "arrow_code ch = Some code" "unat d1 \<le> 50000" "unat d2 \<le> 50000"
  shows "\<exists>c1 c2 c3. keyboard_tick rom t (quiet_tick now 27) c = Some c1 \<and>
    keyboard_tick rom t (quiet_tick (now + d1) b) c1 = Some c2 \<and>
    keyboard_tick rom t (quiet_tick (now + d1 + d2) ch) c2 = Some c3 \<and>
    c_seq c3 = SEQ_NONE \<and> c_term c3 = terminal_feed_event rom (plain_event code) (c_term c)"
proof -
  have late: "\<not> sint (now + 50000 - (now + d)) < 0" if "unat d \<le> 50000" for now d :: u64
  proof -
    have "now + 50000 - (now + d) = of_nat (50000 - unat d)"
      using that by (simp add: of_nat_diff)
    moreover have "sint (of_nat (50000 - unat d) :: u64) = int (50000 - unat d)"
      by (simp add: signed_of_nat signed_take_bit_int_eq_self)
    ultimately show ?thesis by simp
  qed
  have ch: "ch \<ge> 0" using assms(5) by (auto simp: arrow_code_def split: if_splits)
  let ?c1 = "c\<lparr>c_seq := SEQ_ESC, c_deadline := now + 50000\<rparr>"
  let ?c2 = "c\<lparr>c_seq := SEQ_CSI, c_deadline := now + d1 + 50000\<rparr>"
  have 1: "keyboard_tick rom t (quiet_tick now 27) c = Some ?c1"
    using assms(1-3) by (simp add: quiet_keyboard_tick seq_timeout_def serial_byte_def)
  have 2: "keyboard_tick rom t (quiet_tick (now + d1) b) ?c1 = Some ?c2"
    using assms(1,2,4) late [OF assms(6), of now]
    by (auto simp: quiet_keyboard_tick seq_timeout_def serial_byte_def)
  have 3: "keyboard_tick rom t (quiet_tick (now + d1 + d2) ch) ?c2 = Some (feed rom code (c\<lparr>c_deadline := now + d1 + 50000, c_seq := SEQ_NONE\<rparr>))"
    using assms(1,2,5) late [OF assms(7), of "now + d1"] ch
    by (simp add: quiet_keyboard_tick seq_timeout_def serial_byte_def Let_def)
  from 1 2 3 show ?thesis by (simp add: feed_def)
qed

theorem serial_arrow_is_one_key_witness:
  "\<exists>c1 c2 c3. keyboard_tick (\<lambda>_. 0) demo_tuh (quiet_tick 7 27) demo_console = Some c1 \<and>
    keyboard_tick (\<lambda>_. 0) demo_tuh (quiet_tick 8 91) c1 = Some c2 \<and>
    keyboard_tick (\<lambda>_. 0) demo_tuh (quiet_tick 10 66) c2 = Some c3 \<and> c_seq c3 = SEQ_NONE"
  using serial_arrow_is_one_key [where c = demo_console and rom = "\<lambda>_. 0" and t = demo_tuh and now = 7 and
      ?d1.0 = 1 and ?d2.0 = 2 and b = 91 and ch = 66 and code = EV_DOWN]
  by (simp add: demo_console_idle demo_hid_queues arrow_code_def) blast

text \<open>A key the serial decoder does not know loses its introducer: \<open>ESC O P\<close>, which is F1, is delivered as
  \<open>ESC [ P\<close>, a different key, because the second byte is not remembered.\<close>

theorem unknown_ss3_becomes_csi:
  assumes "c_seq c = SEQ_NONE" "arrow_code ch = None"
  shows "fold (serial_byte rom now) [27, 79, ch] c = fold (serial_byte rom now) [27, 91, ch] c"
  using assms by (simp add: serial_byte_def)

theorem unknown_ss3_becomes_csi_witness:
  "fold (serial_byte (\<lambda>_. 0) 0) [27, 79, 80] demo_console = fold (serial_byte (\<lambda>_. 0) 0) [27, 91, 80] demo_console"
  by (rule unknown_ss3_becomes_csi) (simp_all add: demo_console_idle arrow_code_def)

end
