(* ===== verification/Storage.thy ===== *)
theory Storage
  imports Prelude "HOL-Library.Monad_Syntax"
begin

text \<open>
  \<open>firmware/master-ioserver/src/storage.c\<close>: the medium the master serves, the microSD card or
  the RAM disk that stands in for it.  The disk layer it calls is an argument: a record of
  operations on a card state of any type (\<open>SdStore\<close> fills it with the driver of this
  repository).  An operation gives \<open>None\<close> when it does not return.
\<close>

definition STORAGE_SECTOR :: u32 where "STORAGE_SECTOR = 512"
definition RAMDISK_SECTORS :: u32 where "RAMDISK_SECTORS = 128"

text \<open>
  \<open>True\<close> is \<open>RES_OK\<close> (for \<open>disk_initialize\<close>, a status of 0).  A read gives the bytes it puts
  into the buffer even when it fails; a write gets the memory its pointer points to.
\<close>

record 'd diskio =
  io_initialize :: "'d \<Rightarrow> (bool \<times> 'd) option"
  io_sector_count :: "'d \<Rightarrow> (u32 option \<times> 'd) option"
  io_read :: "u32 \<Rightarrow> u32 \<Rightarrow> 'd \<Rightarrow> (bool \<times> u8 list \<times> 'd) option"
  io_write :: "u32 \<Rightarrow> u32 \<Rightarrow> u8 arr \<Rightarrow> 'd \<Rightarrow> (bool \<times> 'd) option"

record 'd storage =
  ramdisk :: "u8 arr"
  have_card :: bool
  card :: 'd

section \<open>Memory\<close>

text \<open>\<open>memcpy\<close> into and out of an array, at a byte offset.\<close>

definition mem_put :: "nat \<Rightarrow> u8 list \<Rightarrow> u8 arr \<Rightarrow> u8 arr" where
  "mem_put off bs m = (\<lambda>i. if off \<le> i \<and> i < off + length bs then bs ! (i - off) else m i)"

definition mem_get :: "nat \<Rightarrow> nat \<Rightarrow> u8 arr \<Rightarrow> u8 list" where
  "mem_get off n m = map m [off ..< off + n]"

lemma length_mem_get [simp]: "length (mem_get off n m) = n"
  by (simp add: mem_get_def)

lemma mem_get_put_same [simp]: "length bs = n \<Longrightarrow> mem_get off n (mem_put off bs m) = bs"
  by (rule nth_equalityI) (auto simp: mem_get_def mem_put_def)

lemma mem_get_put_apart:
  "off + n \<le> off' \<or> off' + length bs \<le> off \<Longrightarrow> mem_get off n (mem_put off' bs m) = mem_get off n m"
  by (auto simp: mem_get_def mem_put_def)

lemma mem_put_beyond: "off + length bs \<le> N \<Longrightarrow> N \<le> i \<Longrightarrow> mem_put off bs m i = m i"
  by (simp add: mem_put_def)

lemma unat_u32: "unat (x :: u32) < 2 ^ 32"
  by (rule order_less_le_trans [OF unsigned_less]) simp

text \<open>A 32-bit word in memory, little-endian.\<close>

definition le32 :: "u32 \<Rightarrow> u8 list" where
  "le32 v = [ucast v, ucast (drop_bit 8 v), ucast (drop_bit 16 v), ucast (drop_bit 24 v)]"

definition un_le32 :: "u8 list \<Rightarrow> u32" where
  "un_le32 bs = ucast (bs ! 0) OR push_bit 8 (ucast (bs ! 1)) OR push_bit 16 (ucast (bs ! 2)) OR
     push_bit 24 (ucast (bs ! 3))"

lemma length_le32 [simp]: "length (le32 v) = 4"
  by (simp add: le32_def)

lemma un_le32_le32 [simp]: "un_le32 (le32 v @ bs) = v"
proof (rule bit_word_eqI)
  fix n assume "n < LENGTH(32)"
  then consider "n < 8" | "8 \<le> n" "n < 16" | "16 \<le> n" "n < 24" | "24 \<le> n" "n < 32" by fastforce
  then show "bit (un_le32 (le32 v @ bs)) n = bit v n"
    by cases (auto simp: un_le32_def le32_def bit_or_iff bit_push_bit_iff bit_ucast_iff bit_drop_bit_eq)
qed

section \<open>Operations\<close>

definition ramdisk_sector :: "nat \<Rightarrow> u8 list" where
  "ramdisk_sector s = concat (map (\<lambda>j. le32 (push_bit 16 (of_nat s) OR of_nat (4 * j))) [0..<128])"

definition ramdisk_fill :: "'d storage \<Rightarrow> 'd storage" where
  "ramdisk_fill st =
     st\<lparr>ramdisk := fold (\<lambda>s m. mem_put (s * 512) (ramdisk_sector s) m) [0 ..< unat RAMDISK_SECTORS] (ramdisk st)\<rparr>"

text \<open>The sector count, and the state, which says whether the medium is the card.\<close>

definition storage_init :: "'d diskio \<Rightarrow> 'd storage \<Rightarrow> (u32 \<times> 'd storage) option" where
  "storage_init d st = do {
     (ok, cd) \<leftarrow> io_initialize d (card st);
     (n, cd) \<leftarrow> (if ok then io_sector_count d cd else Some (None, cd));
     let st = st\<lparr>card := cd\<rparr>;
     Some (case n of
             Some sectors \<Rightarrow>
               if sectors \<noteq> 0 then (sectors, st\<lparr>have_card := True\<rparr>)
               else (RAMDISK_SECTORS, (ramdisk_fill st)\<lparr>have_card := False\<rparr>)
           | None \<Rightarrow> (RAMDISK_SECTORS, (ramdisk_fill st)\<lparr>have_card := False\<rparr>)) }"

text \<open>
  The status and the bytes put into the buffer.  The bound and the offsets are computed in
  32 bits, as in the source.
\<close>

definition storage_read :: "'d diskio \<Rightarrow> u32 \<Rightarrow> u32 \<Rightarrow> 'd storage \<Rightarrow> (int \<times> u8 list \<times> 'd storage) option" where
  "storage_read d lba count st =
     (if have_card st then do {
        (ok, bs, cd) \<leftarrow> io_read d lba count (card st);
        Some (if ok then 0 else - 5, bs, st\<lparr>card := cd\<rparr>) }
      else if lba + count > RAMDISK_SECTORS then Some (- 5, [], st)
      else Some (0, mem_get (unat (lba * STORAGE_SECTOR)) (unat (count * STORAGE_SECTOR)) (ramdisk st), st))"

text \<open>\<open>buf\<close> is the memory the source pointer points to.\<close>

definition storage_write :: "'d diskio \<Rightarrow> u32 \<Rightarrow> u32 \<Rightarrow> u8 arr \<Rightarrow> 'd storage \<Rightarrow> (int \<times> 'd storage) option" where
  "storage_write d lba count buf st =
     (if have_card st then do {
        (ok, cd) \<leftarrow> io_write d lba count buf (card st);
        Some (if ok then 0 else - 5, st\<lparr>card := cd\<rparr>) }
      else if lba + count > RAMDISK_SECTORS then Some (- 5, st)
      else Some (0, st\<lparr>ramdisk := mem_put (unat (lba * STORAGE_SECTOR))
                         (mem_get 0 (unat (count * STORAGE_SECTOR)) buf) (ramdisk st)\<rparr>))"

section \<open>The contract of a block device\<close>

text \<open>
  What a client of the storage relies on, over sectors numbered by naturals: a transfer
  inside the device succeeds, a read returns what is stored and a write stores exactly its
  sectors.  A checked device also refuses everything else.
\<close>

locale block_device =
  fixes rd :: "nat \<Rightarrow> nat \<Rightarrow> 's \<Rightarrow> ('b list list \<times> 's) option"
    and wr :: "nat \<Rightarrow> 'b list list \<Rightarrow> 's \<Rightarrow> 's option"
    and sectors :: "'s \<Rightarrow> 'b list list"
    and ok :: "'s \<Rightarrow> bool"
    and fits :: "'b list \<Rightarrow> bool"
  assumes rd_law: "ok s \<Longrightarrow> 0 < n \<Longrightarrow> lba + n \<le> length (sectors s) \<Longrightarrow>
      \<exists>s'. rd lba n s = Some (take n (drop lba (sectors s)), s') \<and> ok s' \<and> sectors s' = sectors s"
    and wr_law: "ok s \<Longrightarrow> bs \<noteq> [] \<Longrightarrow> list_all fits bs \<Longrightarrow> lba + length bs \<le> length (sectors s) \<Longrightarrow>
      \<exists>s'. wr lba bs s = Some s' \<and> ok s' \<and>
        sectors s' = take lba (sectors s) @ bs @ drop (lba + length bs) (sectors s)"
begin

lemma read_after_write:
  assumes "ok s" "bs \<noteq> []" "list_all fits bs" "lba + length bs \<le> length (sectors s)"
  obtains s1 s2 where "wr lba bs s = Some s1" "ok s1" "rd lba (length bs) s1 = Some (bs, s2)"
    "ok s2" "sectors s2 = sectors s1" "length (sectors s1) = length (sectors s)"
proof -
  obtain s1 where s1: "wr lba bs s = Some s1" "ok s1"
    "sectors s1 = take lba (sectors s) @ bs @ drop (lba + length bs) (sectors s)"
    using wr_law [OF assms] by blast
  have len: "length (sectors s1) = length (sectors s)" using s1(3) assms(4) by simp
  obtain s2 where "rd lba (length bs) s1 = Some (take (length bs) (drop lba (sectors s1)), s2)"
    "ok s2" "sectors s2 = sectors s1"
    using rd_law [OF s1(2), of "length bs" lba] assms(2,4) len by auto
  with s1 len that show thesis using assms(4) by simp
qed

lemma read_elsewhere:
  assumes "ok s" "bs \<noteq> []" "list_all fits bs" "lba + length bs \<le> length (sectors s)" "wr lba bs s = Some s1"
    "a + n \<le> lba \<or> lba + length bs \<le> a" "0 < n" "a + n \<le> length (sectors s)"
  shows "\<exists>s2. rd a n s1 = Some (take n (drop a (sectors s)), s2)"
proof -
  have s1: "ok s1" "sectors s1 = take lba (sectors s) @ bs @ drop (lba + length bs) (sectors s)"
    using wr_law [OF assms(1-4)] assms(5) by auto
  have len: "length (sectors s1) = length (sectors s)" using s1(2) assms(4) by simp
  have "take n (drop a (sectors s1)) = take n (drop a (sectors s))"
  proof (rule nth_equalityI)
    show "length (take n (drop a (sectors s1))) = length (take n (drop a (sectors s)))"
      unfolding length_take length_drop len ..
  next
    fix i assume "i < length (take n (drop a (sectors s1)))"
    then show "take n (drop a (sectors s1)) ! i = take n (drop a (sectors s)) ! i"
      using s1 assms(4,6) by (auto simp: nth_append)
  qed
  then show ?thesis
    using rd_law [OF s1(1) assms(7), of a] assms(8) unfolding len by auto
qed

end

locale checked_block_device = block_device +
  assumes rd_refuse: "ok s \<Longrightarrow> \<not> lba + n \<le> length (sectors s) \<Longrightarrow> rd lba n s = None"
    and wr_refuse: "ok s \<Longrightarrow> list_all fits bs \<Longrightarrow> \<not> lba + length bs \<le> length (sectors s) \<Longrightarrow> wr lba bs s = None"
begin

lemma written_fits: "ok s \<Longrightarrow> list_all fits bs \<Longrightarrow> wr lba bs s = Some s' \<Longrightarrow> lba + length bs \<le> length (sectors s)"
  using wr_refuse [of s bs lba] by fastforce

lemma read_fits: "ok s \<Longrightarrow> rd lba n s = Some r \<Longrightarrow> lba + n \<le> length (sectors s)"
  using rd_refuse [of s lba n] by fastforce

end

text \<open>The storage by naturals; a request whose end does not fit 32 bits has no call.\<close>

definition stor_rd :: "'d diskio \<Rightarrow> nat \<Rightarrow> nat \<Rightarrow> 'd storage \<Rightarrow> (u8 list list \<times> 'd storage) option" where
  "stor_rd d lba n st =
     (if lba + n < 2 ^ 32 then
        (case storage_read d (of_nat lba) (of_nat n) st of
           Some (r, bs, st) \<Rightarrow>
             if r = 0 then Some (map (\<lambda>i. take 512 (drop (i * 512) bs)) [0..<n], st) else None
         | None \<Rightarrow> None)
      else None)"

definition stor_wr :: "'d diskio \<Rightarrow> nat \<Rightarrow> u8 list list \<Rightarrow> 'd storage \<Rightarrow> 'd storage option" where
  "stor_wr d lba bs st =
     (if lba + length bs < 2 ^ 32 then
        (case storage_write d (of_nat lba) (of_nat (length bs)) (\<lambda>i. concat bs ! i) st of
           Some (r, st) \<Rightarrow> if r = 0 then Some st else None
         | None \<Rightarrow> None)
      else None)"

definition is_sector :: "u8 list \<Rightarrow> bool" where
  "is_sector b \<longleftrightarrow> length b = 512"

section \<open>The RAM disk keeps it\<close>

abbreviation sector_of :: "u8 arr \<Rightarrow> nat \<Rightarrow> u8 list" where
  "sector_of m i \<equiv> mem_get (i * 512) 512 m"

definition ram_sectors :: "'d storage \<Rightarrow> u8 list list" where
  "ram_sectors st = map (sector_of (ramdisk st)) [0..<128]"

definition ram_ok :: "'d storage \<Rightarrow> bool" where
  "ram_ok st \<longleftrightarrow> \<not> have_card st"

lemma u32_bound: "a + b < (2 :: nat) ^ 32 \<Longrightarrow> (of_nat a + of_nat b :: u32) > RAMDISK_SECTORS \<longleftrightarrow> a + b > 128"
proof -
  assume "a + b < (2 :: nat) ^ 32"
  then have "unat (of_nat (a + b) :: u32) = a + b" by (intro unat_of_nat_small) simp
  then show ?thesis by (simp add: RAMDISK_SECTORS_def word_less_nat_alt)
qed

lemma u32_offset: "n \<le> 128 \<Longrightarrow> unat (of_nat n * STORAGE_SECTOR) = n * 512"
proof -
  assume n: "n \<le> 128"
  have "(of_nat n * STORAGE_SECTOR :: u32) = of_nat (n * 512)" by (simp add: STORAGE_SECTOR_def)
  moreover have "unat (of_nat (n * 512) :: u32) = n * 512" using n by (intro unat_of_nat_small) simp
  ultimately show ?thesis by simp
qed

lemma take_drop_mem_get:
  "i < n \<Longrightarrow> take 512 (drop (i * 512) (mem_get off (n * 512) m)) = mem_get (off + i * 512) 512 m"
  by (rule nth_equalityI) (auto simp: mem_get_def algebra_simps)

lemma length_concat_sectors: "list_all is_sector bs \<Longrightarrow> length (concat bs) = length bs * 512"
  by (induction bs) (auto simp: is_sector_def)

lemma mem_get_concat: "list_all is_sector bs \<Longrightarrow> mem_get 0 (length bs * 512) (\<lambda>i. concat bs ! i) = concat bs"
  using length_concat_sectors [of bs] map_nth [of "concat bs"] by (simp add: mem_get_def)

lemma concat_sector: "list_all is_sector bs \<Longrightarrow> i < length bs \<Longrightarrow> take 512 (drop (i * 512) (concat bs)) = bs ! i"
proof (induction bs arbitrary: i)
  case (Cons b bs)
  show ?case
  proof (cases i)
    case 0
    then show ?thesis using Cons.prems by (simp add: is_sector_def)
  next
    case (Suc j)
    then show ?thesis using Cons by (simp add: is_sector_def)
  qed
qed simp

lemma sector_of_put:
  assumes "list_all is_sector bs"
  shows "sector_of (mem_put (lba * 512) (concat bs) m) i =
    (if lba \<le> i \<and> i < lba + length bs then bs ! (i - lba) else sector_of m i)"
proof (cases "lba \<le> i \<and> i < lba + length bs")
  case True
  let ?j = "i - lba"
  have "?j < length bs" "i = lba + ?j" using True by auto
  then have j: "?j < length bs" "i * 512 = lba * 512 + ?j * 512" by (metis add_mult_distrib)+
  have le: "?j * 512 + 512 \<le> length (concat bs)"
    using j(1) length_concat_sectors [OF assms] by simp
  have "sector_of (mem_put (lba * 512) (concat bs) m) i = take 512 (drop (?j * 512) (concat bs))"
    by (rule nth_equalityI) (use le j(2) in \<open>auto simp: mem_get_def mem_put_def\<close>)
  with True j(1) show ?thesis by (simp add: concat_sector [OF assms])
next
  case False
  then have "i * 512 + 512 \<le> lba * 512 \<or> lba * 512 + length (concat bs) \<le> i * 512"
    by (simp add: length_concat_sectors [OF assms]) linarith
  then show ?thesis unfolding if_not_P [OF False] by (rule mem_get_put_apart)
qed

lemma ram_rd_law:
  assumes "ram_ok st"
  shows "stor_rd d lba n st =
     (if lba + n \<le> length (ram_sectors st) then Some (take n (drop lba (ram_sectors st)), st) else None)"
proof (cases "lba + n \<le> 128")
  case True
  then have "storage_read d (of_nat lba) (of_nat n) st = Some (0, mem_get (lba * 512) (n * 512) (ramdisk st), st)"
    using assms by (simp add: storage_read_def ram_ok_def u32_bound u32_offset not_less)
  moreover have "map (\<lambda>i. take 512 (drop (i * 512) (mem_get (lba * 512) (n * 512) (ramdisk st)))) [0..<n] =
    take n (drop lba (ram_sectors st))"
    using True by (intro nth_equalityI) (auto simp: take_drop_mem_get ram_sectors_def algebra_simps)
  ultimately show ?thesis using True by (simp add: stor_rd_def ram_sectors_def)
next
  case False
  then show ?thesis
    using assms u32_bound [of lba n] by (simp add: stor_rd_def ram_sectors_def storage_read_def ram_ok_def)
qed

lemma ram_wr_law:
  assumes "ram_ok st" "list_all is_sector bs"
  shows "lba + length bs \<le> 128 \<Longrightarrow>
      stor_wr d lba bs st = Some (st\<lparr>ramdisk := mem_put (lba * 512) (concat bs) (ramdisk st)\<rparr>)"
    and "\<not> lba + length bs \<le> 128 \<Longrightarrow> stor_wr d lba bs st = None"
  using assms u32_bound [of lba "length bs"]
  by (auto simp: stor_wr_def storage_write_def ram_ok_def u32_offset mem_get_concat not_less)

interpretation ram: checked_block_device "stor_rd d" "stor_wr d" ram_sectors ram_ok is_sector
proof
  fix st :: "'a storage" and lba n :: nat and bs :: "u8 list list"
  assume ok: "ram_ok st"
  show "\<exists>s'. stor_rd d lba n st = Some (take n (drop lba (ram_sectors st)), s') \<and> ram_ok s' \<and> ram_sectors s' = ram_sectors st"
    if "lba + n \<le> length (ram_sectors st)"
    using ok that by (simp add: ram_rd_law)
  show "stor_rd d lba n st = None" if "\<not> lba + n \<le> length (ram_sectors st)"
    using ok that by (simp add: ram_rd_law)
  assume bs: "list_all is_sector bs"
  show "\<exists>s'. stor_wr d lba bs st = Some s' \<and> ram_ok s' \<and>
      ram_sectors s' = take lba (ram_sectors st) @ bs @ drop (lba + length bs) (ram_sectors st)"
    if le: "lba + length bs \<le> length (ram_sectors st)"
  proof (intro exI conjI)
    let ?s = "st\<lparr>ramdisk := mem_put (lba * 512) (concat bs) (ramdisk st)\<rparr>"
    show "stor_wr d lba bs st = Some ?s" using ram_wr_law(1) [OF ok bs] le by (simp add: ram_sectors_def)
    show "ram_ok ?s" using ok by (simp add: ram_ok_def)
    show "ram_sectors ?s = take lba (ram_sectors st) @ bs @ drop (lba + length bs) (ram_sectors st)"
      using le by (intro nth_equalityI) (auto simp: ram_sectors_def sector_of_put [OF bs] nth_append)
  qed
  show "stor_wr d lba bs st = None" if "\<not> lba + length bs \<le> length (ram_sectors st)"
    using ram_wr_law(2) [OF ok bs] that by (simp add: ram_sectors_def)
qed

text \<open>On the RAM disk a write of whole sectors inside the device succeeds, reading them back gives the
  same bytes, and reading any other sectors gives what it gave before.\<close>

theorem ramdisk_read_after_write:
  assumes "\<not> have_card st" "bs \<noteq> []" "list_all is_sector bs" "lba + length bs \<le> 128"
  shows "\<exists>st'. stor_wr d lba bs st = Some st' \<and> \<not> have_card st' \<and>
    map_option fst (stor_rd d lba (length bs) st') = Some bs \<and>
    (\<forall>a n. 0 < n \<and> (a + n \<le> lba \<or> lba + length bs \<le> a) \<longrightarrow>
       map_option fst (stor_rd d a n st') = map_option fst (stor_rd d a n st))"
proof -
  have ok: "ram_ok st" and len: "lba + length bs \<le> length (ram_sectors st)"
    using assms(1,4) by (simp_all add: ram_ok_def ram_sectors_def)
  obtain s1 s2 where w: "stor_wr d lba bs st = Some s1" "ram_ok s1" "stor_rd d lba (length bs) s1 = Some (bs, s2)"
    by (rule ram.read_after_write [OF ok assms(2,3) len])
  have "map_option fst (stor_rd d a n s1) = map_option fst (stor_rd d a n st)"
    if "0 < n" "a + n \<le> lba \<or> lba + length bs \<le> a" for a n
  proof (cases "a + n \<le> length (ram_sectors st)")
    case True
    from ram.read_elsewhere [OF ok assms(2,3) len w(1) that(2,1) True] show ?thesis
      using True by (auto simp: ram_rd_law [OF ok])
  next
    case False
    then have "stor_rd d a n st = None" "stor_rd d a n s1 = None"
      using ram.rd_refuse [OF ok] ram.rd_refuse [OF w(2)] by (auto simp: ram_sectors_def)
    then show ?thesis by simp
  qed
  with w show ?thesis by (auto simp: ram_ok_def)
qed

definition demo_store :: "unit storage" where
  "demo_store = \<lparr>ramdisk = (\<lambda>_. 0), have_card = False, card = ()\<rparr>"

definition demo_disk :: "unit diskio" where
  "demo_disk = \<lparr>io_initialize = (\<lambda>c. Some (False, c)), io_sector_count = (\<lambda>c. Some (None, c)),
      io_read = (\<lambda>_ _ c. Some (False, [], c)), io_write = (\<lambda>_ _ _ c. Some (False, c))\<rparr>"

theorem ramdisk_read_after_write_witness:
  "\<exists>st'. stor_wr demo_disk 127 [replicate 512 7] demo_store = Some st' \<and>
     map_option fst (stor_rd demo_disk 127 1 st') = Some [replicate 512 7]"
  using ramdisk_read_after_write [of demo_store "[replicate 512 7]" 127 demo_disk]
  by (auto simp: demo_store_def is_sector_def)

lemma mem_get_fill:
  "s < n \<Longrightarrow> sector_of (fold (\<lambda>s m. mem_put (s * 512) (ramdisk_sector s) m) [0..<n] m) s = ramdisk_sector s"
proof (induction n)
  case (Suc n)
  have len: "length (ramdisk_sector i) = 512" for i
    by (simp add: ramdisk_sector_def length_concat comp_def sum_list_triv)
  show ?case
  proof (cases "s = n")
    case False
    then have "s * 512 + 512 \<le> n * 512" using Suc.prems by linarith
    with Suc False show ?thesis by (simp add: mem_get_put_apart)
  qed (simp add: len)
qed simp

text \<open>Without a card the device has 128 sectors and every one of them can be told from its content: the
  word at byte \<open>4 j\<close> of sector \<open>s\<close> reads as \<open>(s << 16) | 4 j\<close>.\<close>

theorem ramdisk_sectors_tell_their_number:
  assumes "io_initialize d (card st) = Some (False, cd)" "s < 128" "j < 128"
  shows "\<exists>st'. storage_init d st = Some (128, st') \<and>
    un_le32 (drop (4 * j) (sector_of (ramdisk st') s)) = push_bit 16 (of_nat s) OR of_nat (4 * j)"
proof -
  have d: "drop (4 * j) (concat (map (\<lambda>j. le32 (f j)) [0..<n])) = le32 (f j) @ concat (map (\<lambda>j. le32 (f j)) [Suc j..<n])"
    if "j < n" for f :: "nat \<Rightarrow> u32" and n j
  proof -
    have "[0..<n] = [0..<j] @ j # [Suc j..<n]"
      using that by (metis le_add_same_cancel1 le_add_diff_inverse less_imp_le upt_add_eq_append upt_conv_Cons zero_le)
    moreover have "length (concat (map (\<lambda>j. le32 (f j)) [0..<j])) = 4 * j"
      by (simp add: length_concat comp_def sum_list_triv)
    ultimately show ?thesis by simp
  qed
  let ?st = "(ramdisk_fill (st\<lparr>card := cd\<rparr>))\<lparr>have_card := False\<rparr>"
  have "storage_init d st = Some (128, ?st)"
    using assms(1) by (simp add: storage_init_def RAMDISK_SECTORS_def)
  moreover have "sector_of (ramdisk ?st) s = ramdisk_sector s"
    using assms(2) by (simp add: ramdisk_fill_def mem_get_fill RAMDISK_SECTORS_def)
  ultimately show ?thesis
    using d [OF assms(3), of "\<lambda>j. push_bit 16 (of_nat s) OR of_nat (4 * j)"]
    by (simp add: ramdisk_sector_def)
qed

theorem ramdisk_sectors_tell_their_number_witness:
  "\<exists>st'. storage_init demo_disk demo_store = Some (128, st') \<and>
     un_le32 (drop 8 (sector_of (ramdisk st') 3)) = 0x30008"
  using ramdisk_sectors_tell_their_number [of demo_disk demo_store "()" 3 2] by (simp add: demo_disk_def)

text \<open>C35: The bound \<open>lba + count > RAMDISK_SECTORS\<close> is a 32-bit sum: a request whose last sector is number
  \<open>2^32 - 1\<close> wraps to zero, is accepted, and writes its sectors outside the RAM disk.\<close>

theorem wrapped_write_escapes_ramdisk:
  assumes "\<not> have_card st" "0 < n" "n \<le> 8"
  shows "\<exists>st'. storage_write d (- of_nat n) (of_nat n) buf st = Some (0, st') \<and>
    ramdisk st' (2 ^ 32 - n * 512) = buf 0 \<and> (\<forall>i < 128. sector_of (ramdisk st') i = sector_of (ramdisk st) i)"
proof -
  have e: "(- of_nat n * STORAGE_SECTOR :: u32) = - of_nat (n * 512)" by (simp add: STORAGE_SECTOR_def)
  have u: "unat (of_nat (n * 512) :: u32) = n * 512" using assms(3) by (intro unat_of_nat_small) simp
  have off: "unat (- of_nat n * STORAGE_SECTOR :: u32) = 2 ^ 32 - n * 512"
  proof -
    have "of_nat (2 ^ 32 - n * 512) = (of_nat (2 ^ 32) - of_nat (n * 512) :: u32)"
      using assms(3) by (intro of_nat_diff) simp
    then have "(- of_nat (n * 512) :: u32) = of_nat (2 ^ 32 - n * 512)" by simp
    moreover have "unat (of_nat (2 ^ 32 - n * 512) :: u32) = 2 ^ 32 - n * 512"
      using assms(2,3) by (intro unat_of_nat_small) simp
    ultimately show ?thesis unfolding e by (simp only:)
  qed
  have len: "unat (of_nat n * STORAGE_SECTOR) = n * 512" using assms(3) by (intro u32_offset) simp
  let ?m = "mem_put (2 ^ 32 - n * 512) (mem_get 0 (n * 512) buf) (ramdisk st)"
  have "storage_write d (- of_nat n) (of_nat n) buf st = Some (0, st\<lparr>ramdisk := ?m\<rparr>)"
    using assms(1) by (simp only: storage_write_def off len) simp
  moreover have "sector_of ?m i = sector_of (ramdisk st) i" if "i < 128" for i
  proof (rule mem_get_put_apart)
    show "i * 512 + 512 \<le> 2 ^ 32 - n * 512 \<or> 2 ^ 32 - n * 512 + length (mem_get 0 (n * 512) buf) \<le> i * 512"
      using that assms(3) by simp
  qed
  moreover have "?m (2 ^ 32 - n * 512) = buf 0" using assms(2) by (simp add: mem_put_def mem_get_def)
  ultimately show ?thesis by simp
qed

theorem wrapped_write_escapes_ramdisk_witness:
  "\<exists>st'. storage_write demo_disk (- 1) 1 (\<lambda>_. 9) demo_store = Some (0, st') \<and> ramdisk st' (2 ^ 32 - 512) = 9"
  using wrapped_write_escapes_ramdisk [of demo_store 1 demo_disk "\<lambda>_. 9"]
  by (auto simp: demo_store_def)

end
