(* ===== verification/Display.thy ===== *)
theory Display
  imports TermProps
begin

text \<open>
  What the master shows: the palette (\<open>term/palette.c\<close>), the font buffer (\<open>term/font.c\<close>), the
  scanline renderer (\<open>term/textmode_render.c\<close>) and the per-frame work (\<open>src/display_tick.c\<close>).  The
  font sheet and the timer are arguments.
\<close>

section \<open>Palette\<close>

definition sys16 :: "u32 list" where
  "sys16 = [0x000000, 0x800000, 0x008000, 0x808000, 0x000080, 0x800080, 0x008080, 0xC0C0C0,
            0x808080, 0xFF0000, 0x00FF00, 0xFFFF00, 0x0000FF, 0xFF00FF, 0x00FFFF, 0xFFFFFF]"

definition rgb888_to_rgb565 :: "u32 \<Rightarrow> u16" where
  "rgb888_to_rgb565 c =
     (let r = ucast (drop_bit 16 c) :: u8; g = ucast (drop_bit 8 c) :: u8; b = ucast c :: u8
      in push_bit 8 (ucast (r AND 0xF8)) OR push_bit 3 (ucast (g AND 0xFC)) OR
         ucast (drop_bit 3 (b AND 0xF8)))"

definition palette_set_rgb888 :: "u8 \<Rightarrow> u32 \<Rightarrow> u16 arr \<Rightarrow> u16 arr" where
  "palette_set_rgb888 index rgb888 pal = pal(unat index := rgb888_to_rgb565 rgb888)"

definition lvl :: "u8 list" where "lvl = [0, 95, 135, 175, 215, 255]"

definition cube_rgb :: "nat \<Rightarrow> nat \<Rightarrow> nat \<Rightarrow> u32" where
  "cube_rgb r g b = push_bit 16 (ucast (lvl ! r)) OR push_bit 8 (ucast (lvl ! g)) OR ucast (lvl ! b)"

definition grey_rgb :: "nat \<Rightarrow> u32" where
  "grey_rgb i = (let v = of_nat (8 + i * 10) :: u8 in push_bit 16 (ucast v) OR push_bit 8 (ucast v) OR ucast v)"

text \<open>\<open>palette_init\<close>: three loops; the second carries \<open>idx\<close>.\<close>

definition palette_init :: "u16 arr \<Rightarrow> u16 arr" where
  "palette_init pal =
     (let pal = fold (\<lambda>i pal. pal(i := rgb888_to_rgb565 (sys16 ! i))) [0..<16] pal;
          (idx, pal) = fold (\<lambda>r. fold (\<lambda>g. fold (\<lambda>b (idx, pal).
              (idx + 1, pal(idx := rgb888_to_rgb565 (cube_rgb r g b)))) [0..<6]) [0..<6]) [0..<6] (16, pal)
      in fold (\<lambda>i pal. pal(232 + i := rgb888_to_rgb565 (grey_rgb i))) [0..<24] pal)"

section \<open>Font\<close>

definition FONT_HEIGHT :: nat where "FONT_HEIGHT = 16"
definition FONT_UNDERLINE :: nat where "FONT_UNDERLINE = 14"
definition SHEET_W :: nat where "SHEET_W = 512"
definition SHEET_H :: nat where "SHEET_H = 64"

definition font_init :: "u8 arr \<Rightarrow> u8 arr \<Rightarrow> u8 arr" where
  "font_init font_vga_bmp font_scanline =
     (let bytes_per_row = SHEET_W div 8
      in fold (\<lambda>br. fold (\<lambda>bc fs.
           let cr = (SHEET_H - br - 1) mod FONT_HEIGHT;
               cn = ((SHEET_H - br - 1) div FONT_HEIGHT) * bytes_per_row + bc
           in fs(cr * 256 + cn := font_vga_bmp (br * bytes_per_row + bc))) [0..<bytes_per_row])
         [0..<SHEET_H] font_scanline)"

section \<open>Renderer\<close>

definition TEXT_YOFFSET :: int where "TEXT_YOFFSET = 40"
definition TEXT_ACTIVE_H :: int where "TEXT_ACTIVE_H = 400"

record textmode =
  tm_cur_col :: u8
  tm_cur_row :: u8
  tm_cur_visible :: bool
  tm_cur_beg :: u8
  tm_cur_end :: u8

definition textmode_set_cursor :: "int \<Rightarrow> int \<Rightarrow> bool \<Rightarrow> textmode \<Rightarrow> textmode" where
  "textmode_set_cursor col row visible t =
     t\<lparr>tm_cur_col := of_int col, tm_cur_row := of_int row, tm_cur_visible := visible\<rparr>"

definition textmode_set_cursor_lines :: "u8 \<Rightarrow> u8 \<Rightarrow> textmode \<Rightarrow> textmode" where
  "textmode_set_cursor_lines b e t = t\<lparr>tm_cur_beg := b, tm_cur_end := e\<rparr>"

text \<open>The colours and the glyph byte of a cell on one of its scanlines.\<close>

definition cell_colours :: "u16 arr \<Rightarrow> u8 arr \<Rightarrow> nat \<Rightarrow> u16 \<times> u16" where
  "cell_colours pal buf p =
     (let fg = pal (unat (buf (p + CELL_FG))); bg = pal (unat (buf (p + CELL_BG)))
      in if buf (p + CELL_ATTR) AND ATTR_INVERSE \<noteq> 0 then (bg, fg) else (fg, bg))"

definition cell_glyph :: "textmode \<Rightarrow> bool \<Rightarrow> u8 arr \<Rightarrow> u8 arr \<Rightarrow> nat \<Rightarrow> nat \<Rightarrow> nat \<Rightarrow> u8" where
  "cell_glyph tm phase_on font buf row col subline =
     (let p = row * CELL_PITCH + col * CELL_BYTES; at = buf (p + CELL_ATTR);
          cursor_on = (tm_cur_visible tm \<and> phase_on \<and> row = unat (tm_cur_row tm));
          g = font (subline * 256 + unat (buf (p + CELL_CHAR)));
          g = (if at AND ATTR_UNDERLINE \<noteq> 0 \<and> subline = FONT_UNDERLINE then 0xFF else g);
          g = (if at AND ATTR_BLINK \<noteq> 0 \<and> \<not> phase_on then 0x00 else g)
      in if cursor_on \<and> col = unat (tm_cur_col tm) \<and> subline \<ge> unat (tm_cur_beg tm) \<and>
            subline \<le> unat (tm_cur_end tm)
         then NOT g else g)"

definition map2 :: "u16 \<Rightarrow> u16 \<Rightarrow> u32 list" where
  "map2 fg bg =
     [ucast bg OR push_bit 16 (ucast bg), ucast bg OR push_bit 16 (ucast fg),
      ucast fg OR push_bit 16 (ucast bg), ucast fg OR push_bit 16 (ucast fg)]"

definition cell_words :: "u16 \<Rightarrow> u16 \<Rightarrow> u8 \<Rightarrow> u32 list" where
  "cell_words fg bg g =
     [map2 fg bg ! unat (drop_bit 6 g), map2 fg bg ! unat (drop_bit 4 g AND 3),
      map2 fg bg ! unat (drop_bit 2 g AND 3), map2 fg bg ! unat (g AND 3)]"

text \<open>The 320 words written to the line buffer; \<open>t\<close> is the microsecond timer.\<close>

definition render_ctext256 :: "u32 \<Rightarrow> textmode \<Rightarrow> u16 arr \<Rightarrow> u8 arr \<Rightarrow> u8 arr \<Rightarrow> int \<Rightarrow> u32 list" where
  "render_ctext256 t tm pal font buf line =
     (let y = line - TEXT_YOFFSET
      in if y < 0 \<or> y \<ge> TEXT_ACTIVE_H then replicate (TEXT_COLS * 4) 0
         else let row = nat y div 16; subline = nat y mod 16; phase_on = bit t 19
              in concat (map (\<lambda>col.
                   case cell_colours pal buf (row * CELL_PITCH + col * CELL_BYTES) of (fg, bg) \<Rightarrow>
                     cell_words fg bg (cell_glyph tm phase_on font buf row col subline)) [0..<TEXT_COLS]))"

section \<open>Per-frame work\<close>

record screen_state =
  ss_next_us :: u32
  ss_textmode :: textmode

definition display_set_cursor :: "int \<Rightarrow> int \<Rightarrow> bool \<Rightarrow> textmode \<Rightarrow> textmode" where
  "display_set_cursor = textmode_set_cursor"

definition display_tick :: "u32 \<Rightarrow> screen_state \<times> terminal \<Rightarrow> screen_state \<times> terminal" where
  "display_tick now = (\<lambda>(d, s).
     if sint (now - ss_next_us d) < 0 then (d, s)
     else let d = d\<lparr>ss_next_us := now + 16667\<rparr>;
              s = on_fb framebuf_task s
          in case terminal_get_cursor s of (col, row, visible) \<Rightarrow>
               (d\<lparr>ss_textmode := display_set_cursor col row visible (ss_textmode d)\<rparr>, s))"

section \<open>Pixels\<close>

text \<open>The colour of pixel \<open>x\<close> of a line: two per word, the left one in the low half.\<close>

definition pixel :: "u32 list \<Rightarrow> nat \<Rightarrow> u16" where
  "pixel ws x = (if even x then ucast (ws ! (x div 2)) else ucast (drop_bit 16 (ws ! (x div 2))))"

lemma low_half:
  fixes a b :: u16
  shows "(ucast (ucast a OR push_bit 16 (ucast b) :: u32) :: u16) = a"
  by (rule bit_word_eqI) (auto simp: bit_ucast_iff bit_or_iff bit_push_bit_iff)

lemma high_half:
  fixes a b :: u16
  shows "(ucast (drop_bit 16 (ucast a OR push_bit 16 (ucast b) :: u32)) :: u16) = b"
proof (rule bit_word_eqI)
  fix n assume "n < LENGTH(16)"
  moreover have "\<not> bit a (16 + n)" using bit_imp_le_length [of a "16 + n"] by auto
  ultimately show "bit (ucast (drop_bit 16 (ucast a OR push_bit 16 (ucast b) :: u32)) :: u16) n = bit b n"
    by (simp add: bit_ucast_iff bit_or_iff bit_push_bit_iff bit_drop_bit_eq del: drop_bit_or)
qed

lemma map2_pixel:
  assumes "i < 4"
  shows "(ucast (map2 fg bg ! i) :: u16) = (if bit i 1 then fg else bg)"
    and "(ucast (drop_bit 16 (map2 fg bg ! i)) :: u16) = (if bit i 0 then fg else bg)"
proof -
  have "i = 0 \<or> i = 1 \<or> i = 2 \<or> i = 3" using assms by linarith
  then show "(ucast (map2 fg bg ! i) :: u16) = (if bit i 1 then fg else bg)"
    "(ucast (drop_bit 16 (map2 fg bg ! i)) :: u16) = (if bit i 0 then fg else bg)"
    by (auto simp: map2_def low_half high_half bit_iff_odd simp del: drop_bit_or)
qed

lemma two_bits: "unat (drop_bit k g AND 3 :: u8) < 4" "bit (unat (drop_bit k g AND 3 :: u8)) 1 = bit g (k + 1)"
  "bit (unat (drop_bit k g AND 3 :: u8)) 0 = bit g k"
proof -
  have m: "(3 :: u8) = mask 2" by (simp add: mask_eq_exp_minus_1)
  show "unat (drop_bit k g AND 3 :: u8) < 4"
    unfolding m unat_and_mask by simp
  show "bit (unat (drop_bit k g AND 3 :: u8)) 1 = bit g (k + 1)" "bit (unat (drop_bit k g AND 3 :: u8)) 0 = bit g k"
    unfolding m by (auto simp: bit_unsigned_iff bit_and_iff bit_mask_iff bit_drop_bit_eq)
qed

lemma cell_words_alt:
  "cell_words fg bg g = map (\<lambda>k. map2 fg bg ! unat (drop_bit (6 - 2 * k) g AND 3)) [0..<4]"
proof -
  have "drop_bit 6 g AND 3 = drop_bit 6 g"
  proof (rule bit_word_eqI)
    fix n assume "n < LENGTH(8)"
    have "bit (3 :: u8) n" if "bit g (6 + n)"
    proof -
      have "6 + n < 8" using bit_imp_le_length [OF that] by simp
      then have "n = 0 \<or> n = 1" by linarith
      then show ?thesis by (auto simp: bit_1_iff numeral_eq_Suc bit_numeral_rec)
    qed
    then show "bit (drop_bit 6 g AND 3) n = bit (drop_bit 6 g) n"
      by (auto simp: bit_and_iff bit_drop_bit_eq)
  qed
  then show ?thesis by (simp add: cell_words_def upt_rec)
qed

lemma cell_words_pixel:
  assumes "x < 8"
  shows "pixel (cell_words fg bg g) x = (if bit g (7 - x) then fg else bg)"
proof -
  define k where "k = x div 2"
  have k: "k < 4" using assms by (simp add: k_def)
  have w: "cell_words fg bg g ! k = map2 fg bg ! unat (drop_bit (6 - 2 * k) g AND 3)"
    using k by (simp add: cell_words_alt)
  show ?thesis
  proof (cases "even x")
    case True
    then have "x = 2 * k" by (simp add: k_def)
    then have "6 - 2 * k + 1 = 7 - x" using assms by simp
    then show ?thesis
      using True w two_bits(2) [of "6 - 2 * k" g] by (simp add: pixel_def flip: k_def add: map2_pixel(1) [OF two_bits(1)])
  next
    case False
    then have "x = 2 * k + 1" by (simp add: k_def)
    then have "6 - 2 * k = 7 - x" using assms by simp
    then show ?thesis
      using False w two_bits(3) [of "6 - 2 * k" g] by (simp add: pixel_def flip: k_def add: map2_pixel(2) [OF two_bits(1)])
  qed
qed

lemma concat_blocks_nth:
  assumes "\<And>i. i < n \<Longrightarrow> length (f i) = k" "i < n" "j < k"
  shows "concat (map f [0..<n]) ! (k * i + j) = f i ! j"
  using assms
proof (induction n)
  case (Suc n)
  have len: "length (concat (map f [0..<n])) = k * n"
  proof -
    have "(\<Sum>i\<leftarrow>[0..<n]. length (f i)) = (\<Sum>i\<leftarrow>[0..<n]. k)"
      by (rule arg_cong [where f = sum_list], rule map_cong) (use Suc.prems(1) in auto)
    then show ?thesis by (simp add: length_concat comp_def sum_list_triv)
  qed
  show ?case
  proof (cases "i = n")
    case True
    then show ?thesis using len Suc.prems(3) by (simp add: nth_append)
  next
    case False
    then have "i < n" using Suc.prems(2) by simp
    then have "k * i + j < k * n"
      using Suc.prems(3) mult_le_mono2 [of "Suc i" n k] by simp
    then show ?thesis using Suc.IH Suc.prems \<open>i < n\<close> len by (simp add: nth_append)
  qed
qed simp

text \<open>Whether a pixel of a cell shows its ink, in plain terms.\<close>

definition pixel_lit :: "textmode \<Rightarrow> bool \<Rightarrow> u8 arr \<Rightarrow> cell \<Rightarrow> nat \<Rightarrow> nat \<Rightarrow> nat \<Rightarrow> nat \<Rightarrow> bool" where
  "pixel_lit tm phase_on font c row col subline px \<longleftrightarrow>
     ((c_attr c AND ATTR_UNDERLINE \<noteq> 0 \<and> subline = 14 \<or> bit (font (subline * 256 + unat (c_char c))) (7 - px)) \<and>
      (c_attr c AND ATTR_BLINK \<noteq> 0 \<longrightarrow> phase_on)) \<noteq>
     (tm_cur_visible tm \<and> phase_on \<and> row = unat (tm_cur_row tm) \<and> col = unat (tm_cur_col tm) \<and>
      unat (tm_cur_beg tm) \<le> subline \<and> subline \<le> unat (tm_cur_end tm))"

lemma glyph_bits:
  assumes "k < 8"
  shows "bit (let g = (if u then 0xFF else g0); g = (if b then 0x00 else g) in if c then NOT g else g :: u8) k \<longleftrightarrow>
    ((u \<or> bit g0 k) \<and> \<not> b) \<noteq> c"
proof -
  have "(255 :: int) = mask 8" by (simp add: mask_eq_exp_minus_1)
  then have "bit (255 :: int) k" using assms by (simp only: bit_mask_iff) simp
  moreover have "\<not> bit (- 256 :: int) k"
    using calculation bit_not_int_iff [of 255 k] by simp
  ultimately show ?thesis using assms by (cases u; cases b; cases c) (simp_all add: bit_not_iff)
qed

lemma bit_glyph:
  assumes "px < 8"
  shows "bit (cell_glyph tm phase_on font buf row col subline) (7 - px) =
    pixel_lit tm phase_on font (screen buf row col) row col subline px"
proof -
  have a: "row * CELL_PITCH + col * CELL_BYTES = 320 * row + 4 * col" by (simp add: geometry)
  have k: "7 - px < 8" by simp
  show ?thesis
    unfolding cell_glyph_def Let_def a using glyph_bits [OF k, unfolded Let_def]
    by (auto simp: pixel_lit_def screen_def FONT_UNDERLINE_def geometry)
qed

lemma line_pixels:
  assumes "x < 640"
  shows "let ws = render_ctext256 t tm pal font buf line; y = nat (line - 40); row = y div 16; col = x div 8;
             c = screen buf row col; lit = pixel_lit tm (bit t 19) font c row col (y mod 16) (x mod 8)
    in length ws = 320 \<and>
       pixel ws x = (if line < 40 \<or> 440 \<le> line then 0
                     else pal (unat (if lit \<longleftrightarrow> c_attr c AND ATTR_INVERSE = 0 then c_fg c else c_bg c)))"
proof (cases "line < 40 \<or> 440 \<le> line")
  case True
  then show ?thesis
    using assms by (auto simp: render_ctext256_def TEXT_YOFFSET_def TEXT_ACTIVE_H_def geometry pixel_def Let_def)
next
  case False
  define y where "y = nat (line - 40)"
  define row col where "row = y div 16" and "col = x div 8"
  define p where "p = row * CELL_PITCH + col * CELL_BYTES"
  define f where "f = (\<lambda>col. case cell_colours pal buf (row * CELL_PITCH + col * CELL_BYTES) of (fg, bg) \<Rightarrow>
    cell_words fg bg (cell_glyph tm (bit t 19) font buf row col (y mod 16)))"
  have ws: "render_ctext256 t tm pal font buf line = concat (map f [0..<80])"
    using False by (simp add: render_ctext256_def TEXT_YOFFSET_def TEXT_ACTIVE_H_def TEXT_COLS_def Let_def
        f_def y_def row_def)
  have l4: "length (f i) = 4" for i by (simp add: f_def cell_words_def split: prod.split)
  have col: "col < 80" "x mod 8 < 8" "x div 2 = 4 * col + (x mod 8) div 2" "(x mod 8) div 2 < 4"
    using assms by (simp_all add: col_def) presburger+
  have ev: "even (x mod 8) = even x" by presburger
  have "pixel (concat (map f [0..<80])) x = pixel (f col) (x mod 8)"
    unfolding pixel_def col(3) concat_blocks_nth [OF l4 col(1,4)] by (simp add: ev)
  moreover obtain fg bg where fb: "cell_colours pal buf p = (fg, bg)" by fastforce
  ultimately have px: "pixel (concat (map f [0..<80])) x =
      (if pixel_lit tm (bit t 19) font (screen buf row col) row col (y mod 16) (x mod 8) then fg else bg)"
    using cell_words_pixel [OF col(2), of fg bg] bit_glyph [OF col(2)] by (simp add: f_def p_def)
  have a: "buf (p + CELL_FG) = c_fg (screen buf row col)" "buf (p + CELL_BG) = c_bg (screen buf row col)"
    "buf (p + CELL_ATTR) = c_attr (screen buf row col)"
    by (simp_all add: p_def screen_def geometry mult.commute)
  have len: "length (concat (map f [0..<80])) = 320"
    by (simp add: length_concat comp_def l4 sum_list_triv)
  show ?thesis
    using fb False len px unfolding Let_def ws y_def [symmetric] row_def [symmetric] col_def [symmetric]
    by (auto simp: cell_colours_def Let_def a split: if_splits)
qed

text \<open>C28: Every pixel of the picture is the one its cell calls for: in the middle 400 lines, pixel \<open>x\<close> shows the
  foreground of the cell it falls into where the glyph has ink, the underline runs or the cursor
  inverts it, not while a blinking cell is dark, and the background elsewhere, the two exchanged
  for an inverse cell; above and below the picture is black, and a line is always 640 pixels.\<close>

theorem pixels_show_the_screen:
  assumes "x < 640"
  shows "let ws = render_ctext256 t tm pal font buf line; y = nat (line - 40); row = y div 16; col = x div 8;
             c = screen buf row col; lit = pixel_lit tm (bit t 19) font c row col (y mod 16) (x mod 8)
    in length ws = 320 \<and>
       pixel ws x = (if line < 40 \<or> 440 \<le> line then 0
                     else pal (unat (if lit \<longleftrightarrow> c_attr c AND ATTR_INVERSE = 0 then c_fg c else c_bg c)))"
  using assms by (rule line_pixels)

theorem pixels_show_the_screen_witness:
  "pixel (render_ctext256 0 \<lparr>tm_cur_col = 0, tm_cur_row = 0, tm_cur_visible = False, tm_cur_beg = 14, tm_cur_end = 15\<rparr>
     (\<lambda>i. of_nat i) (\<lambda>_. 0x80) (\<lambda>a. if a mod 4 = 1 then 7 else 0) 40) 0 = 7"
  using pixels_show_the_screen [of 0 0 "\<lparr>tm_cur_col = 0, tm_cur_row = 0, tm_cur_visible = False, tm_cur_beg = 14, tm_cur_end = 15\<rparr>"
      "\<lambda>i. of_nat i" "\<lambda>_. 0x80" "\<lambda>a. if a mod 4 = 1 then 7 else 0" 40]
  by (simp add: pixel_lit_def screen_def Let_def bit_numeral_rec)

section \<open>The tables\<close>

lemma fold_product:
  "fold (\<lambda>i. fold (\<lambda>j. f i j) js) is s = fold (\<lambda>(i, j). f i j) (List.product is js) s"
proof (induction "is" arbitrary: s)
  case (Cons i "is")
  have "fold (f i) js s = fold (\<lambda>(i, j). f i j) (map (Pair i) js) s" for s
    by (induction js arbitrary: s) simp_all
  then show ?case using Cons by simp
qed simp

lemma fold_store_next:
  "fold (\<lambda>x (idx, pal). (idx + 1, pal(idx := h x))) xs (n, pal) =
     (n + length xs, \<lambda>i. if n \<le> i \<and> i < n + length xs then h (xs ! (i - n)) else pal i)"
proof (induction xs arbitrary: n pal)
  case (Cons x xs)
  show ?case
    unfolding fold_simps case_prod_conv Cons.IH comp_def
    by (auto simp: fun_eq_iff nth_Cons Suc_le_eq split: nat.split) (metis Suc_diff_Suc diff_Suc_Suc nat.inject)+
qed (auto simp: fun_eq_iff)

lemma fold_store_from:
  "fold (\<lambda>i pal. pal(k + i := h i)) [0..<n] pal = (\<lambda>i. if k \<le> i \<and> i < k + n then h (i - k) else (pal i :: 'a))"
  by (induction n) (auto simp: fun_eq_iff)

lemma cube_fold:
  "fold (\<lambda>r. fold (\<lambda>g. fold (\<lambda>b (idx, pal). (idx + 1, pal(idx := h r g b))) bs) gs) rs (n, pal) =
     (let xs = List.product (List.product rs gs) bs
      in (n + length xs, \<lambda>i. if n \<le> i \<and> i < n + length xs
                             then (case xs ! (i - n) of ((r, g), b) \<Rightarrow> h r g b) else pal i))"
proof -
  have "fold (\<lambda>r. fold (\<lambda>g. fold (\<lambda>b (idx, pal). (idx + 1, pal(idx := h r g b))) bs) gs) rs (n, pal) =
    fold (\<lambda>x. fold (\<lambda>b (idx, pal). (idx + 1, pal(idx := h (fst x) (snd x) b))) bs) (List.product rs gs) (n, pal)"
    by (subst fold_product) (simp add: case_prod_unfold)
  also have "\<dots> = fold (\<lambda>x (idx, pal). (idx + 1, pal(idx := case x of ((r, g), b) \<Rightarrow> h r g b)))
      (List.product (List.product rs gs) bs) (n, pal)"
    unfolding fold_product by (simp add: case_prod_unfold)
  finally show ?thesis unfolding fold_store_next Let_def .
qed

lemma palette_init_alt:
  "palette_init pal = (\<lambda>i. if i < 16 then rgb888_to_rgb565 (sys16 ! i)
     else if i < 232 then rgb888_to_rgb565 (cube_rgb ((i - 16) div 6 div 6) ((i - 16) div 6 mod 6) ((i - 16) mod 6))
     else if i < 256 then rgb888_to_rgb565 (grey_rgb (i - 232)) else pal i)"
proof -
  have nth: "List.product (List.product [0..<6] [0..<6]) [0..<6] ! j = ((j div 6 div 6, j div 6 mod 6), j mod 6)"
    if "j < 216" for j :: nat
  proof -
    have "j div 6 < 36" "j div 6 div 6 < 6" using that by (simp_all add: less_mult_imp_div_less)
    then show ?thesis using that by (simp add: product_nth)
  qed
  note sys = fold_store_from [of 0 "\<lambda>i. rgb888_to_rgb565 (sys16 ! i)" 16, simplified]
  note grey = fold_store_from [of 232 "\<lambda>i. rgb888_to_rgb565 (grey_rgb i)" 24]
  show ?thesis
    unfolding palette_init_def Let_def cube_fold sys prod.case grey
    by (rule ext) (simp add: nth)
qed

lemma font_init_at:
  assumes "l < 16" "c < 256"
  shows "font_init bmp fs (256 * l + c) = bmp ((63 - (16 * (c div 64) + l)) * 64 + c mod 64)"
proof -
  let ?f = "\<lambda>(br, bc). ((64 - br - 1) mod 16) * 256 + ((64 - br - 1) div 16 * 64 + bc)"
  let ?g = "\<lambda>y. (63 - (16 * (y mod 256 div 64) + y div 256), y mod 64)"
  let ?ix = "List.product [0..<64] [0..<64 :: nat]"
  let ?br = "63 - (16 * (c div 64) + l)"
  have fi: "font_init bmp fs = fold (\<lambda>x fs. fs(?f x := (case x of (br, bc) \<Rightarrow> bmp (br * 64 + bc)))) ?ix fs"
    unfolding font_init_def Let_def fold_product
    by (rule fold_cong) (auto simp: fun_eq_iff SHEET_W_def SHEET_H_def FONT_HEIGHT_def)
  have inj: "inj_on ?f (set ?ix)"
  proof (rule inj_on_inverseI [where g = ?g])
    fix x assume "x \<in> set ?ix"
    then obtain br bc where x: "x = (br, bc)" and b: "br < 64" "bc < 64" by auto
    define a where "a = 63 - br"
    have a: "a < 64" "64 - br - 1 = a" "br = 63 - a" using b by (simp_all add: a_def)
    have "a div 16 < 4" using a(1) by (simp add: less_mult_imp_div_less)
    then have lo: "a div 16 * 64 + bc < 256" using b by simp
    have d: "(a mod 16 * 256 + (a div 16 * 64 + bc)) div 256 = a mod 16"
      "(a mod 16 * 256 + (a div 16 * 64 + bc)) mod 256 = a div 16 * 64 + bc"
      using lo by simp_all
    have m: "(a mod 16 * 256 + (a div 16 * 64 + bc)) mod 64 = bc"
    proof -
      have "(a mod 16 * 256 + (a div 16 * 64 + bc)) = (a mod 16 * 4 + a div 16) * 64 + bc" by simp
      then show ?thesis using b by (metis mod_less mod_mult_self3)
    qed
    have "(a div 16 * 64 + bc) div 64 = a div 16" using b by simp
    then show "?g (?f x) = x" unfolding x prod.case a(2) d m using a by simp
  qed
  have c4: "c div 64 < 4" using assms by (simp add: less_mult_imp_div_less)
  then have br: "64 - ?br - 1 = 16 * (c div 64) + l" "?br < 64" using assms by linarith+
  have "?f (?br, c mod 64) = 256 * l + c"
    using assms(1) by (simp only: br prod.case) simp
  moreover have "(?br, c mod 64) \<in> set ?ix" using br by simp
  ultimately show ?thesis
    using fold_upd_at [OF distinct_product [OF distinct_upt distinct_upt] inj, of "(?br, c mod 64)" "\<lambda>(br, bc). bmp (br * 64 + bc)" fs]
    unfolding fi by simp
qed

text \<open>The palette has its 16 system colours, the 6x6x6 cube in the order \<open>16 + 36 r + 6 g + b\<close> and the 24
  greys, and nothing else is written; the font buffer holds scanline \<open>l\<close> of character \<open>c\<close> at
  \<open>256 l + c\<close>, read from the sheet that stores its lines bottom-up.\<close>

theorem display_tables:
  "(i < 16 \<longrightarrow> palette_init pal i = rgb888_to_rgb565 (sys16 ! i)) \<and>
   (r < 6 \<and> g < 6 \<and> b < 6 \<longrightarrow> palette_init pal (16 + 36 * r + 6 * g + b) = rgb888_to_rgb565 (cube_rgb r g b)) \<and>
   (i < 24 \<longrightarrow> palette_init pal (232 + i) = rgb888_to_rgb565 (grey_rgb i)) \<and>
   (256 \<le> i \<longrightarrow> palette_init pal i = pal i) \<and>
   (l < 16 \<and> c < 256 \<longrightarrow> font_init bmp fs (256 * l + c) = bmp ((63 - (16 * (c div 64) + l)) * 64 + c mod 64))"
proof -
  have "palette_init pal (16 + 36 * r + 6 * g + b) = rgb888_to_rgb565 (cube_rgb r g b)" if "r < 6" "g < 6" "b < 6"
  proof -
    have "(36 * r + (6 * g + b)) div 6 = 6 * r + g" "(36 * r + (6 * g + b)) mod 6 = b"
      using div_mult_self3 [of 6 b "6 * r + g"] mod_mult_self3 [of "6 * r + g" 6 b] that(3)
      by (simp_all add: algebra_simps)
    then show ?thesis using that by (simp add: palette_init_alt)
  qed
  then show ?thesis using font_init_at [of l c bmp fs] by (simp add: palette_init_alt)
qed

theorem display_tables_witness:
  "palette_init (\<lambda>_. 0) 0 = rgb888_to_rgb565 (sys16 ! 0) \<and> palette_init (\<lambda>_. 0) 231 = rgb888_to_rgb565 (cube_rgb 5 5 5) \<and>
   font_init (\<lambda>i. of_nat i) (\<lambda>_. 0) 65 = (of_nat 3009 :: u8)"
  using display_tables [of 0 "\<lambda>_. 0" 5 5 5 0 65 "\<lambda>i. of_nat i" "\<lambda>_. 0"] by simp

end
