(* ===== verification/VMode.thy ===== *)
theory VMode
  imports Display
begin

text \<open>
  How the master describes its picture to the scan-out library: the timings of the video mode, its
  strips and slots (\<open>DispHSTX/_display/disphstx/disphstx_vmode.c\<close>), the text format of this firmware
  (\<open>term/textmode_render.c\<close>) and \<open>display_init\<close> (\<open>term/display.c\<close>).  The library is modelled in
  the configuration of \<open>term/config.h\<close>: DVI only, one strip, one slot, every built-in format off.
  C \<open>int\<close> is \<open>int\<close>, fields keep their width; a division by zero, which C leaves open, gives zero,
  as on the processor.  \<open>malloc\<close> is an argument.
\<close>

section \<open>Configuration and types\<close>

definition DISPHSTX_STRIP_MAX :: int where "DISPHSTX_STRIP_MAX = 1"
definition DISPHSTX_SLOT_MAX :: int where "DISPHSTX_SLOT_MAX = 1"
definition DISPHSTX_WIDTHMAX :: nat where "DISPHSTX_WIDTHMAX = 640"

datatype disphstx_err = ERR_OK | ERR_BROKEN | ERR_STRIPNUM | ERR_NOSTRIP | ERR_SLOTNUM | ERR_FONTH | ERR_FONT
  | ERR_BUF | ERR_PALVGA | ERR_ALIGN | ERR_SUPPORT | ERR_COLMOD | ERR_HSTXBUF | ERR_HSTXFONT | ERR_PATDIM
  | ERR_ATTRBUF | ERR_PITCHALIGN | ERR_FORMAT

text \<open>The objects a slot points to.\<close>

datatype ptr = Null | Cellbuf | Palette_rgb565 | Font_scanline | Heap nat

datatype walign = WALIGN_32 | WALIGN_16 | WALIGN_8 | WALIGN_REP

datatype render_fn = Render_No | Render_ctext256

definition DISPHSTX_FORMAT_NONE :: u8 where "DISPHSTX_FORMAT_NONE = 0"
definition DISPHSTX_FORMAT_CUSTOM :: u8 where "DISPHSTX_FORMAT_CUSTOM = 1"
definition DISPHSTX_GRP_16 :: u8 where "DISPHSTX_GRP_16 = 8"
definition COL16_BLACK :: u16 where "COL16_BLACK = 0"

record vtime =
  vt_hpol :: bool
  vt_vpol :: bool
  vt_clkdiv :: u8
  vt_hactive :: u16
  vt_hfront :: u16
  vt_hsync :: u16
  vt_hback :: u16
  vt_htotal :: u16
  vt_vactive :: u16
  vt_vfront :: u16
  vt_vsync :: u16
  vt_vback :: u16
  vt_vtotal :: u16
  vt_sysclk :: u32

definition vmodetime_640x480_fast :: vtime where
  "vmodetime_640x480_fast = \<lparr>vt_hpol = False, vt_vpol = False, vt_clkdiv = 2,
     vt_hactive = 640, vt_hfront = 16, vt_hsync = 96, vt_hback = 48, vt_htotal = 800,
     vt_vactive = 480, vt_vfront = 10, vt_vsync = 2, vt_vback = 33, vt_vtotal = 525, vt_sysclk = 252000\<rparr>"

record vcolor =
  vc_textmode :: bool
  vc_colmode :: bool
  vc_tilemode :: bool
  vc_hstxmode :: bool
  vc_userender :: bool
  vc_attrmode :: bool
  vc_graphmode :: bool
  vc_colbits :: u8
  vc_grp :: u8
  vc_tilew :: u8
  vc_palnum :: u16
  vc_defpal :: ptr
  vc_defpalvga :: ptr
  vc_expand_tmds :: u32
  vc_render_dvi :: render_fn

text \<open>Both entries of \<open>DispHstxVColorList\<close> that this configuration leaves are the empty format; other indices are not defined.\<close>

definition no_vcolor :: vcolor where
  "no_vcolor = \<lparr>vc_textmode = False, vc_colmode = False, vc_tilemode = False, vc_hstxmode = False, vc_userender = False,
     vc_attrmode = False, vc_graphmode = False, vc_colbits = 0, vc_grp = DISPHSTX_GRP_16, vc_tilew = 0, vc_palnum = 0,
     vc_defpal = Null, vc_defpalvga = Null, vc_expand_tmds = 0, vc_render_dvi = Render_No\<rparr>"

definition ctext256_vcolor :: vcolor where
  "ctext256_vcolor = \<lparr>vc_textmode = True, vc_colmode = False, vc_tilemode = False, vc_hstxmode = False, vc_userender = True,
     vc_attrmode = False, vc_graphmode = False, vc_colbits = 16, vc_grp = DISPHSTX_GRP_16, vc_tilew = 0, vc_palnum = 256,
     vc_defpal = Null, vc_defpalvga = Null,
     vc_expand_tmds = push_bit 21 4 OR push_bit 16 8 OR push_bit 13 5 OR push_bit 8 3 OR push_bit 5 4 OR push_bit 0 29,
     vc_render_dvi = Render_ctext256\<rparr>"

record vslot =
  vs_format :: u8
  vs_walign :: walign
  vs_curpos :: u8
  vs_currow :: u8
  vs_curbeg :: u8
  vs_curend :: u8
  vs_curspeed :: u8
  vs_fonth :: "16 word"
  vs_data_inx :: u16
  vs_width :: u16
  vs_hdbl :: u16
  vs_w :: u16
  vs_pitch :: u16
  vs_vdbl :: u16
  vs_lines :: u16
  vs_h :: u16
  vs_gap_col :: u16
  vs_gap_len :: "16 word"
  vs_buf :: ptr
  vs_pal :: ptr
  vs_palvga :: ptr
  vs_font :: ptr
  vs_vactive_1 :: "u32 arr"
  vs_vactive_2 :: "u32 list"
  vs_vcolor :: vcolor

text \<open>Where a DMA transfer reads and writes: the command words of a mode, the line buffers, registers.\<close>

datatype dma_addr = Vsync_off | Vsync_on | Vsync_blank | Vactive_1 nat nat nat | Vactive_2 nat nat | Vactive_3 nat
  | Line_buffer nat | Hstx_fifo | Expand_shift | Expand_tmds | Zero

datatype treq = Treq_hstx | Treq_force

text \<open>The bits of a control word that differ; all transfers are quiet, enabled, of high priority, and chain to the command channel.\<close>

record dma_ctrl =
  ct_treq :: treq
  ct_inc_read :: bool
  ct_inc_write :: bool
  ct_size :: nat
  ct_bswap :: bool

record dma_cmd =
  dc_ctrl :: dma_ctrl
  dc_write :: dma_addr
  dc_count :: nat
  dc_read :: dma_addr

record vstrip =
  st_height :: u16
  st_slotnum :: u8
  st_vactive_3 :: "u32 list"
  st_cmd :: "dma_cmd list"
  st_cmd2 :: "dma_cmd list"
  st_slot :: "vslot arr"

text \<open>\<open>bufnext\<close> points to one of the three fixed command buffers, or to one of the two of a strip.\<close>

datatype cmd_ptr = Off_cmd | On_cmd | Blank_cmd | Active_cmd nat nat

record vmode =
  vm_stripnum :: u8
  vm_bufinx :: u8
  vm_line :: u16
  vm_bufnext :: cmd_ptr
  vm_vsync_off :: "u32 list"
  vm_vsync_off_cmd :: "dma_cmd list"
  vm_vsync_on :: "u32 list"
  vm_vsync_on_cmd :: "dma_cmd list"
  vm_vsync_blank :: "u32 list"
  vm_vsync_blank_cmd :: "dma_cmd list"
  vm_vtime :: vtime
  vm_strip :: "vstrip arr"

definition put_slot :: "nat \<Rightarrow> (vslot \<Rightarrow> vslot) \<Rightarrow> vslot arr \<Rightarrow> vslot arr" where
  "put_slot i f slots = slots(i := f (slots i))"

section \<open>Building a mode\<close>

definition DispHstxVModeInitTime :: "vtime \<Rightarrow> vmode \<Rightarrow> vmode" where
  "DispHstxVModeInitTime vt v = v\<lparr>vm_vtime := vt, vm_stripnum := 0\<rparr>"

definition strip_room :: "vmode \<Rightarrow> int" where
  "strip_room v = fold (\<lambda>i room. room - uint (st_height (vm_strip v i))) [0..<unat (vm_stripnum v)] (uint (vt_vactive (vm_vtime v)))"

definition DispHstxVModeAddStrip :: "int \<Rightarrow> vmode \<Rightarrow> disphstx_err \<times> vmode" where
  "DispHstxVModeAddStrip height v =
     (if uint (vm_stripnum v) \<ge> DISPHSTX_STRIP_MAX then (ERR_STRIPNUM, v)
      else let maxheight = strip_room v
           in if maxheight < 0 then (ERR_BROKEN, v)
              else let n = unat (vm_stripnum v);
                       height = (if height < 0 \<or> height > maxheight then maxheight else height)
                   in (ERR_OK, v\<lparr>vm_strip := (vm_strip v)(n := (vm_strip v n)\<lparr>st_slotnum := 0, st_height := of_int height\<rparr>),
                                 vm_stripnum := of_nat (n + 1)\<rparr>))"

subsection \<open>The width of a slot\<close>

record slot_req =
  sq_hdbl :: int
  sq_vdbl :: int
  sq_w :: int
  sq_format :: int
  sq_buf :: ptr
  sq_pitch :: int
  sq_pal :: ptr
  sq_palvga :: ptr
  sq_font :: ptr
  sq_fonth :: int
  sq_gap_col :: u16
  sq_gap_len :: int

text \<open>What the earlier slots of the strip and their separators leave.\<close>

definition slot_room :: "vtime \<Rightarrow> vslot arr \<Rightarrow> nat \<Rightarrow> int" where
  "slot_room vt slots n = fold (\<lambda>i room. room - uint (vs_width (slots i)) -
       (if sint (vs_gap_len (slots i)) > 0 then sint (vs_gap_len (slots i)) else 0)) [0..<n] (uint (vt_hactive vt))"

definition limit_separator :: "vslot arr \<Rightarrow> nat \<Rightarrow> int \<Rightarrow> (int \<times> vslot arr) option" where
  "limit_separator slots n maxwidth =
     (if maxwidth < 0 then
        if n > 0 \<and> sint (vs_gap_len (slots (n - 1))) > 0 then
          let maxwidth = maxwidth + sint (vs_gap_len (slots (n - 1)))
          in if maxwidth \<ge> 0 then Some (0, put_slot n (vs_gap_len_update (\<lambda>_. of_int maxwidth)) slots) else None
        else None
      else Some (maxwidth, slots))"

record fitted =
  ft_width :: int
  ft_w :: int
  ft_gap_col :: u16
  ft_gap_len :: int

definition fit_width :: "int \<Rightarrow> int \<Rightarrow> u16 \<Rightarrow> int \<Rightarrow> int \<Rightarrow> fitted" where
  "fit_width hdbl oldw gap_col gap_len maxwidth =
     (let width = oldw * hdbl;
          (gap_len, maxwidth) = (if width < 0 \<and> gap_len > 0
            then let gap_len = (if gap_len > maxwidth then maxwidth else gap_len) in (gap_len, maxwidth - gap_len)
            else (gap_len, maxwidth));
          width = (if width < 0 \<or> width > maxwidth then maxwidth else width);
          w = width div hdbl; width2 = w * hdbl;
          (gap_col, gap_len, width) = (if width2 \<noteq> width
            then (if gap_len \<le> 0 then COL16_BLACK else gap_col, width - width2, width2) else (gap_col, gap_len, width));
          maxwidth = maxwidth - width;
          gap_len = (if gap_len > maxwidth \<or> oldw < 0 then maxwidth else gap_len)
      in \<lparr>ft_width = width, ft_w = w, ft_gap_col = gap_col, ft_gap_len = gap_len\<rparr>)"

definition slot_walign :: "vcolor \<Rightarrow> int \<Rightarrow> int \<Rightarrow> int \<Rightarrow> disphstx_err + walign" where
  "slot_walign vc palnum hdbl w =
     (let colbits = (if palnum \<noteq> 0 then 16 else uint (vc_colbits vc));
          pixword = 32 div colbits; pixhalf = 16 div colbits; pixbyte = (if colbits < 8 then 8 div colbits else 1);
          align = (if hdbl = 1 \<and> colbits \<noteq> 12 then
                     if w AND (pixword - 1) \<noteq> 0 then
                       if w AND (pixhalf - 1) \<noteq> 0 then
                         if w AND (pixbyte - 1) \<noteq> 0 then Inl ERR_ALIGN else Inr WALIGN_8
                       else Inr WALIGN_16
                     else Inr WALIGN_32
                   else if colbits < 8 then Inl ERR_SUPPORT else Inr WALIGN_REP)
      in case align of Inl e \<Rightarrow> Inl e
         | Inr a \<Rightarrow> Inr (if vc_hstxmode vc \<or> colbits = 12 then WALIGN_16 else a))"

text \<open>One pass from \<open>slot_regap\<close> to the alignment of the width.\<close>

definition fit_slot :: "vtime \<Rightarrow> int \<Rightarrow> int \<Rightarrow> int \<Rightarrow> u16 \<Rightarrow> int \<Rightarrow> vslot arr \<Rightarrow> nat \<Rightarrow>
    (disphstx_err \<times> vslot arr) + (fitted \<times> vslot arr)" where
  "fit_slot vt palnum hdbl w gap_col gap_len slots n =
     (case limit_separator slots n (slot_room vt slots n) of
        None \<Rightarrow> Inl (ERR_BROKEN, slots)
      | Some (maxwidth, slots) \<Rightarrow>
          let f = fit_width hdbl w gap_col gap_len maxwidth;
              slots = put_slot n (\<lambda>s. s\<lparr>vs_width := of_int (ft_width f), vs_hdbl := of_int hdbl, vs_w := of_int (ft_w f)\<rparr>) slots
          in case slot_walign (vs_vcolor (slots n)) palnum hdbl (ft_w f) of
               Inl e \<Rightarrow> Inl (e, slots)
             | Inr a \<Rightarrow> Inr (f, put_slot n (vs_walign_update (\<lambda>_. a)) slots))"

definition slot_valid :: "vslot \<Rightarrow> bool" where
  "slot_valid s \<longleftrightarrow> vs_width s > 0 \<and> vs_format s \<noteq> DISPHSTX_FORMAT_NONE"

primrec previous_valid :: "vslot arr \<Rightarrow> nat \<Rightarrow> nat" where
  "previous_valid slots 0 = 0"
| "previous_valid slots (Suc i) = (if slot_valid (slots (Suc i)) then Suc i else previous_valid slots i)"

text \<open>An automatic separator before the slot: at most one more pass.\<close>

definition place_slot :: "vtime \<Rightarrow> int \<Rightarrow> int \<Rightarrow> slot_req \<Rightarrow> vslot arr \<Rightarrow> nat \<Rightarrow>
    (disphstx_err \<times> vslot arr) + (fitted \<times> vslot arr)" where
  "place_slot vt palnum hdbl q slots n =
     (case fit_slot vt palnum hdbl (sq_w q) (sq_gap_col q) (sq_gap_len q) slots n of
        Inl e \<Rightarrow> Inl e
      | Inr (f, slots) \<Rightarrow>
          if n > 0 \<and> sint (vs_gap_len (slots (n - 1))) < 0 then
            if ft_width f = 0 then Inr (f, put_slot (n - 1) (vs_gap_len_update (\<lambda>_. 0)) slots)
            else let sprev = slots (previous_valid slots (n - 1)); slot = slots n
                 in if vc_grp (vs_vcolor slot) \<noteq> vc_grp (vs_vcolor sprev) \<or> vs_hdbl slot \<noteq> vs_hdbl sprev \<or>
                       vs_walign slot \<noteq> vs_walign sprev
                    then fit_slot vt palnum hdbl (sq_w q) (ft_gap_col f) (sq_gap_len q)
                           (put_slot (n - 1) (\<lambda>s. s\<lparr>vs_gap_len := 20, vs_gap_col := COL16_BLACK\<rparr>) slots) n
                    else Inr (f, slots)
          else Inr (f, slots))"

subsection \<open>The rest of a slot\<close>

definition auto_pitch :: "vcolor \<Rightarrow> int \<Rightarrow> int" where
  "auto_pitch vc w =
     (let bits = uint (vc_colbits vc);
          pitch = (if bits = 1 then ((w + 7) div 8 + 3) AND NOT 3
                   else if bits = 2 then ((w + 3) div 4 + 3) AND NOT 3
                   else if bits = 3 then (w + 9) div 10 * 4
                   else if bits = 4 then ((w + 1) div 2 + 3) AND NOT 3
                   else if bits = 6 then (w + 4) div 5 * 4
                   else if bits = 8 then (w + 3) AND NOT 3
                   else if bits = 12 then (w + 7) div 8 * 12
                   else w * 2);
          pitch = (if vc_tilemode vc then (w + uint (vc_tilew vc) - 1) div uint (vc_tilew vc) else pitch);
          pitch = (if vc_attrmode vc then (w + 3) div 4 else pitch)
      in (pitch + 3) AND NOT 3)"

text \<open>The rows of a slot, its frame buffer, its font or attributes, and its palettes.\<close>

definition slot_rows :: "vcolor \<Rightarrow> slot_req \<Rightarrow> int \<Rightarrow> disphstx_err + int" where
  "slot_rows vc q lines =
     (let fonth = sq_fonth q
      in if vc_textmode vc \<and> fonth < 1 then Inl ERR_FONTH
         else if vc_textmode vc \<and> sq_font q = Null then Inl ERR_FONT
         else let h = (if vc_textmode vc then (lines + fonth - 1) div fonth else lines)
              in Inr (if vc_tilemode vc then (h + uint (vc_tilew vc) - 1) div uint (vc_tilew vc) else h))"

definition slot_buffer :: "(nat \<Rightarrow> int \<Rightarrow> ptr) \<Rightarrow> vcolor \<Rightarrow> slot_req \<Rightarrow> int \<Rightarrow> int \<Rightarrow> disphstx_err + ptr" where
  "slot_buffer malloc vc q pitch h =
     (if \<not> vc_colmode vc \<and> \<not> vc_hstxmode vc \<and> pitch > 0 \<and> h > 0
      then let buf = (if sq_buf q = Null then malloc 0 (pitch * h) else sq_buf q)
           in if buf = Null then Inl ERR_BUF else Inr buf
      else Inr (sq_buf q))"

definition slot_font :: "(nat \<Rightarrow> int \<Rightarrow> ptr) \<Rightarrow> vcolor \<Rightarrow> slot_req \<Rightarrow> int \<Rightarrow> disphstx_err + ptr" where
  "slot_font malloc vc q h =
     (if vc_attrmode vc \<and> sq_font q = Null
      then let font = malloc 1 (sq_fonth q * ((h + 4) div 4)) in if font = Null then Inl ERR_ATTRBUF else Inr font
      else Inr (sq_font q))"

definition slot_palettes :: "vcolor \<Rightarrow> slot_req \<Rightarrow> int \<Rightarrow> ptr \<times> ptr" where
  "slot_palettes vc q palnum =
     (let defaults = (sq_pal q = Null \<and> palnum > 0);
          pal = (if defaults then vc_defpal vc else sq_pal q);
          palvga = (if defaults \<and> sq_palvga q = Null then vc_defpalvga vc else sq_palvga q)
      in (pal, if palnum = 0 then vc_defpalvga vc else palvga))"

definition finish_slot :: "(nat \<Rightarrow> int \<Rightarrow> ptr) \<Rightarrow> int \<Rightarrow> slot_req \<Rightarrow> u16 \<Rightarrow> int \<Rightarrow> fitted \<Rightarrow> vslot \<Rightarrow> disphstx_err \<times> vslot" where
  "finish_slot malloc palnum q height vdbl f s =
     (let vc = vs_vcolor s; fonth = sq_fonth q; lines = (uint height + vdbl - 1) div vdbl
      in case slot_rows vc q lines of
           Inl e \<Rightarrow> (e, s)
         | Inr h \<Rightarrow>
             let s = s\<lparr>vs_vcolor := vc\<lparr>vc_palnum := of_int palnum\<rparr>, vs_vdbl := of_int vdbl, vs_lines := of_int lines, vs_h := of_int h\<rparr>;
                 pitch = (if sq_pitch q < 0 then auto_pitch vc (ft_w f) else sq_pitch q)
             in if pitch AND 3 \<noteq> 0 then (ERR_PITCHALIGN, s)
                else let s = s\<lparr>vs_pitch := of_int pitch\<rparr>
                     in case slot_buffer malloc vc q pitch h of
                          Inl e \<Rightarrow> (e, s)
                        | Inr buf \<Rightarrow>
                            let s = s\<lparr>vs_buf := buf\<rparr>
                            in case slot_font malloc vc q h of
                                 Inl e \<Rightarrow> (e, s)
                               | Inr font \<Rightarrow> (case slot_palettes vc q palnum of (pal, palvga) \<Rightarrow>
                                   (ERR_OK, s\<lparr>vs_pal := pal, vs_palvga := palvga, vs_font := font, vs_fonth := of_int fonth,
                                      vs_gap_col := ft_gap_col f, vs_gap_len := of_int (ft_gap_len f),
                                      vs_curpos := - 1, vs_currow := - 1, vs_curbeg := of_int (fonth - 2),
                                      vs_curend := of_int (fonth - 1), vs_curspeed := 12\<rparr>)))"

definition fill_slot :: "(nat \<Rightarrow> int \<Rightarrow> ptr) \<Rightarrow> vcolor \<Rightarrow> slot_req \<Rightarrow> vtime \<Rightarrow> u16 \<Rightarrow> vslot arr \<Rightarrow> nat \<Rightarrow> disphstx_err \<times> vslot arr" where
  "fill_slot malloc custom q vt height slots n =
     (let hdbl_max = 32 div uint (vt_clkdiv vt);
          hdbl = (if sq_hdbl q < 1 then 1 else sq_hdbl q);
          hdbl = (if hdbl > hdbl_max then hdbl_max else hdbl);
          vdbl = (if sq_vdbl q > uint height then uint height else sq_vdbl q);
          vdbl = (if vdbl < 1 then 1 else vdbl);
          vc = (if sq_format q = uint DISPHSTX_FORMAT_CUSTOM then custom else no_vcolor);
          slots = put_slot n (\<lambda>s. s\<lparr>vs_format := of_int (sq_format q), vs_vcolor := vc\<rparr>) slots
      in if vc_hstxmode vc \<and> sq_buf q = Null then (ERR_HSTXBUF, slots)
         else if vc_hstxmode vc \<and> sq_font q = Null then (ERR_HSTXFONT, slots)
         else let palnum = (if vc_colmode vc then sq_fonth q else uint (vc_palnum vc))
              in case place_slot vt palnum hdbl q slots n of
                   Inl e \<Rightarrow> e
                 | Inr (f, slots) \<Rightarrow>
                     (case finish_slot malloc palnum q height vdbl f (slots n) of (e, s) \<Rightarrow> (e, slots(n := s))))"

text \<open>The slot is counted before it is checked.\<close>

definition DispHstxVModeAddSlot :: "(nat \<Rightarrow> int \<Rightarrow> ptr) \<Rightarrow> vcolor \<Rightarrow> slot_req \<Rightarrow> vmode \<Rightarrow> disphstx_err \<times> vmode" where
  "DispHstxVModeAddSlot malloc custom q v =
     (let stripnum = uint (vm_stripnum v) - 1
      in if stripnum < 0 then (ERR_NOSTRIP, v)
         else if stripnum \<ge> DISPHSTX_STRIP_MAX then (ERR_BROKEN, v)
         else let k = nat stripnum; strip = vm_strip v k; n = unat (st_slotnum strip)
              in if int n \<ge> DISPHSTX_SLOT_MAX then (ERR_SLOTNUM, v)
                 else (case fill_slot malloc custom q (vm_vtime v) (st_height strip) (st_slot strip) n of
                         (e, slots) \<Rightarrow> (e, v\<lparr>vm_strip := (vm_strip v)(k := strip\<lparr>st_slotnum := of_nat (n + 1), st_slot := slots\<rparr>)\<rparr>)))"

section \<open>Filling up a strip\<close>

definition strip_width :: "vstrip \<Rightarrow> int" where
  "strip_width st = fold (\<lambda>i w. w + uint (vs_width (st_slot st i)) +
       (if sint (vs_gap_len (st_slot st i)) > 0 then sint (vs_gap_len (st_slot st i)) else 0)) [0..<unat (st_slotnum st)] 0"

definition fill_strip :: "vtime \<Rightarrow> vstrip \<Rightarrow> vstrip" where
  "fill_strip vt st =
     (let w = strip_width st; w0 = uint (vt_hactive vt); n = unat (st_slotnum st); last = st_slot st (n - 1)
      in if \<not> w < w0 then st
         else if n > 0 \<and> (sint (vs_gap_len last) < 0 \<or> int n \<ge> DISPHSTX_SLOT_MAX)
         then st\<lparr>st_slot := put_slot (n - 1) (vs_gap_len_update (\<lambda>g. if sint g > 0 then g + of_int (w0 - w) else of_int (w0 - w)))
                   (st_slot st)\<rparr>
         else st\<lparr>st_slotnum := of_nat (n + 1), st_slot := put_slot n (\<lambda>s. s\<lparr>vs_format := DISPHSTX_FORMAT_NONE, vs_vcolor := no_vcolor,
                   vs_gap_len := of_int (w0 - w), vs_gap_col := COL16_BLACK, vs_width := 0, vs_hdbl := 1, vs_w := 0,
                   vs_walign := WALIGN_8, vs_vdbl := 1, vs_lines := st_height st, vs_pitch := 0, vs_buf := Null,
                   vs_pal := Null, vs_palvga := Null\<rparr>) (st_slot st)\<rparr>)"

definition DispHstxPrePrepare :: "vmode \<Rightarrow> vmode" where
  "DispHstxPrePrepare v =
     v\<lparr>vm_strip := fold (\<lambda>k strip. strip(k := fill_strip (vm_vtime v) (strip k))) [0..<unat (vm_stripnum v)] (vm_strip v)\<rparr>"

section \<open>The picture of this firmware\<close>

definition textmode_register_custom_format :: "vcolor \<Rightarrow> vcolor" where
  "textmode_register_custom_format _ = ctext256_vcolor"

definition text_slot :: slot_req where
  "text_slot = \<lparr>sq_hdbl = 1, sq_vdbl = 1, sq_w = 640, sq_format = uint DISPHSTX_FORMAT_CUSTOM, sq_buf = Cellbuf,
     sq_pitch = int CELL_PITCH, sq_pal = Palette_rgb565, sq_palvga = Null, sq_font = Font_scanline,
     sq_fonth = int FONT_HEIGHT, sq_gap_col = 0, sq_gap_len = 0\<rparr>"

record display =
  di_palette :: "u16 arr"
  di_font :: "u8 arr"
  di_cells :: "u8 arr"
  di_custom :: vcolor
  di_mode :: vmode

text \<open>\<open>display_init\<close> as far as the start of the scan-out, with the error code it prints.\<close>

definition display_init :: "(nat \<Rightarrow> int \<Rightarrow> ptr) \<Rightarrow> u8 arr \<Rightarrow> display \<Rightarrow> disphstx_err \<times> display" where
  "display_init malloc font_vga_bmp d =
     (let d = d\<lparr>di_palette := palette_init (di_palette d), di_font := font_init font_vga_bmp (di_font d),
                di_cells := cellbuf_init (di_cells d), di_custom := textmode_register_custom_format (di_custom d)\<rparr>;
          v = snd (DispHstxVModeAddStrip (- 1) (DispHstxVModeInitTime vmodetime_640x480_fast (di_mode d)))
      in case DispHstxVModeAddSlot malloc (di_custom d) text_slot v of (err, v) \<Rightarrow> (err, d\<lparr>di_mode := v\<rparr>))"

section \<open>What a slot that was accepted satisfies\<close>

text \<open>The two stages of \<open>fit_width\<close>: what is asked for, then what is left.\<close>

lemma fit_width_cases:
  fixes w gap_len :: int and gap_col :: u16
  assumes "0 \<le> maxwidth" "1 \<le> hdbl"
  obtains width room gap where "0 \<le> width" "width \<le> room" "room \<le> maxwidth" "w < 0 \<longrightarrow> width = room"
    "0 \<le> w \<and> w * hdbl \<le> maxwidth \<longrightarrow> width = w * hdbl" "0 \<le> gap \<or> gap = gap_len"
    "ft_w (fit_width hdbl w gap_col gap_len maxwidth) = width div hdbl"
    "ft_width (fit_width hdbl w gap_col gap_len maxwidth) = width div hdbl * hdbl"
    "ft_gap_len (fit_width hdbl w gap_col gap_len maxwidth) =
       (if gap > room - width div hdbl * hdbl \<or> w < 0 then room - width div hdbl * hdbl else gap)"
proof -
  have n: "w * hdbl < 0 \<longleftrightarrow> w < 0" using assms(2) by (auto simp: mult_less_0_iff)
  define room where "room = (if w < 0 \<and> gap_len > 0 then maxwidth - (if gap_len > maxwidth then maxwidth else gap_len) else maxwidth)"
  define width where "width = (if w < 0 \<or> w * hdbl > room then room else w * hdbl)"
  define gap0 where "gap0 = (if w < 0 \<and> gap_len > 0 then (if gap_len > maxwidth then maxwidth else gap_len) else gap_len)"
  define gap where "gap = (if width div hdbl * hdbl \<noteq> width then width - width div hdbl * hdbl else gap0)"
  show ?thesis
  proof (rule that [of width room gap])
    show "0 \<le> width" "width \<le> room" "room \<le> maxwidth" "w < 0 \<longrightarrow> width = room"
      "0 \<le> w \<and> w * hdbl \<le> maxwidth \<longrightarrow> width = w * hdbl"
      using assms(1) n by (auto simp: width_def room_def)
    have "0 \<le> width" using assms(1) n by (auto simp: width_def room_def)
    then have "width div hdbl * hdbl \<le> width" using assms(2) by (simp add: minus_mod_eq_div_mult [symmetric])
    then show "0 \<le> gap \<or> gap = gap_len" using assms(1) by (auto simp: gap_def gap0_def)
    have f: "fit_width hdbl w gap_col gap_len maxwidth = (case if w < 0 \<and> 0 < gap_len
        then (if gap_len > maxwidth then maxwidth else gap_len, maxwidth - (if gap_len > maxwidth then maxwidth else gap_len))
        else (gap_len, maxwidth) of (g, room) \<Rightarrow>
        let width = (if w < 0 \<or> w * hdbl > room then room else w * hdbl);
            (c, g, width') = (if width div hdbl * hdbl \<noteq> width
              then (if g \<le> 0 then COL16_BLACK else gap_col, width - width div hdbl * hdbl, width div hdbl * hdbl) else (gap_col, g, width))
        in \<lparr>ft_width = width', ft_w = width div hdbl, ft_gap_col = c,
              ft_gap_len = (if g > room - width' \<or> w < 0 then room - width' else g)\<rparr>)"
      by (simp add: fit_width_def Let_def n)
    have "(if w < 0 \<and> 0 < gap_len
        then (if gap_len > maxwidth then maxwidth else gap_len, maxwidth - (if gap_len > maxwidth then maxwidth else gap_len))
        else (gap_len, maxwidth)) = (gap0, room)"
      by (auto simp: gap0_def room_def)
    then have f: "fit_width hdbl w gap_col gap_len maxwidth = (let (c, g, width') = (if width div hdbl * hdbl \<noteq> width
              then (if gap0 \<le> 0 then COL16_BLACK else gap_col, width - width div hdbl * hdbl, width div hdbl * hdbl) else (gap_col, gap0, width))
        in \<lparr>ft_width = width', ft_w = width div hdbl, ft_gap_col = c,
              ft_gap_len = (if g > room - width' \<or> w < 0 then room - width' else g)\<rparr>)"
      unfolding f width_def by (simp only: prod.case Let_def)
    show "ft_w (fit_width hdbl w gap_col gap_len maxwidth) = width div hdbl"
      "ft_width (fit_width hdbl w gap_col gap_len maxwidth) = width div hdbl * hdbl"
      "ft_gap_len (fit_width hdbl w gap_col gap_len maxwidth) =
         (if gap > room - width div hdbl * hdbl \<or> w < 0 then room - width div hdbl * hdbl else gap)"
      unfolding f by (cases "width div hdbl * hdbl = width"; simp add: Let_def gap_def)+
  qed
qed

lemma fit_width_fits:
  fixes w gap_len :: int and gap_col :: u16
  assumes "0 \<le> maxwidth" "1 \<le> hdbl"
  defines "f \<equiv> fit_width hdbl w gap_col gap_len maxwidth"
  shows "0 \<le> ft_width f" "ft_width f = ft_w f * hdbl" "ft_width f + max 0 (ft_gap_len f) \<le> maxwidth"
    "min 0 gap_len \<le> ft_gap_len f" "0 \<le> w \<Longrightarrow> w * hdbl \<le> maxwidth \<Longrightarrow> ft_width f = w * hdbl"
proof -
  obtain width room gap where c: "0 \<le> width" "width \<le> room" "room \<le> maxwidth" "w < 0 \<longrightarrow> width = room"
    "0 \<le> w \<and> w * hdbl \<le> maxwidth \<longrightarrow> width = w * hdbl" "0 \<le> gap \<or> gap = gap_len"
    "ft_w f = width div hdbl" "ft_width f = width div hdbl * hdbl"
    "ft_gap_len f = (if gap > room - width div hdbl * hdbl \<or> w < 0 then room - width div hdbl * hdbl else gap)"
    using fit_width_cases [OF assms(1,2), of w gap_len gap_col, folded f_def] by blast
  have r: "0 \<le> width div hdbl * hdbl" "width div hdbl * hdbl \<le> width"
    using c(1) assms(2) pos_mod_sign [of hdbl width] pos_imp_zdiv_nonneg_iff [of hdbl width]
    by (simp_all add: minus_mod_eq_div_mult [symmetric] zmod_le_nonneg_dividend)
  then show "0 \<le> ft_width f" "ft_width f = ft_w f * hdbl" "ft_width f + max 0 (ft_gap_len f) \<le> maxwidth"
    "min 0 gap_len \<le> ft_gap_len f"
    using c(2,3,6-) by auto
  show "0 \<le> w \<Longrightarrow> w * hdbl \<le> maxwidth \<Longrightarrow> ft_width f = w * hdbl"
    using c(5,8) assms(2) by simp
qed

lemma finish_slot_keeps:
  "finish_slot malloc palnum q height vdbl f s = (e, s') \<Longrightarrow>
     vs_width s' = vs_width s \<and> vs_w s' = vs_w s \<and> vs_hdbl s' = vs_hdbl s \<and> vs_walign s' = vs_walign s \<and> vs_format s' = vs_format s"
  unfolding finish_slot_def Let_def by (auto split: sum.splits if_splits prod.splits)

lemma slot_checks_fail: "slot_rows vc q lines \<noteq> Inl ERR_OK" "slot_buffer malloc vc q pitch h \<noteq> Inl ERR_OK"
  "slot_font malloc vc q h \<noteq> Inl ERR_OK" "slot_walign vc palnum hdbl w \<noteq> Inl ERR_OK"
  by (simp_all add: slot_rows_def slot_buffer_def slot_font_def slot_walign_def Let_def split: sum.split)

lemma finish_slot_ok:
  "finish_slot malloc palnum q height vdbl f s = (ERR_OK, s') \<Longrightarrow>
     vs_gap_len s' = of_int (ft_gap_len f) \<and> (\<exists>pitch. pitch AND 3 = 0 \<and> vs_pitch s' = of_int pitch)"
  unfolding finish_slot_def Let_def by (auto simp: slot_checks_fail split: sum.splits if_splits prod.splits)

lemma place_first_slot:
  assumes "place_slot vt palnum hdbl q slots 0 = Inr (f, slots')"
  shows "f = fit_width hdbl (sq_w q) (sq_gap_col q) (sq_gap_len q) (uint (vt_hactive vt)) \<and>
    vs_width (slots' 0) = of_int (ft_width f) \<and> vs_w (slots' 0) = of_int (ft_w f) \<and> vs_hdbl (slots' 0) = of_int hdbl"
proof -
  have "slot_room vt slots 0 = uint (vt_hactive vt)" by (simp add: slot_room_def)
  moreover have "\<not> uint (vt_hactive vt) < 0" by simp
  ultimately show ?thesis
    using assms by (auto simp: place_slot_def fit_slot_def limit_separator_def put_slot_def Let_def split: sum.splits if_splits)
qed

lemma place_first_fails: "place_slot vt palnum hdbl q slots 0 \<noteq> Inl (ERR_OK, s)"
proof -
  have "limit_separator slots 0 (slot_room vt slots 0) = Some (uint (vt_hactive vt), slots)"
    by (simp add: limit_separator_def slot_room_def)
  then show ?thesis by (auto simp: place_slot_def fit_slot_def Let_def slot_checks_fail split: sum.splits)
qed

lemma first_slot_ok:
  assumes "fill_slot malloc custom q vt height slots 0 = (ERR_OK, slots')" "1 \<le> vt_clkdiv vt" "vt_clkdiv vt \<le> 32"
  obtains hdbl f pitch where "1 \<le> hdbl" "hdbl \<le> 32"
    "f = fit_width hdbl (sq_w q) (sq_gap_col q) (sq_gap_len q) (uint (vt_hactive vt))"
    "vs_width (slots' 0) = of_int (ft_width f)" "vs_w (slots' 0) = of_int (ft_w f)" "vs_hdbl (slots' 0) = of_int hdbl"
    "vs_gap_len (slots' 0) = of_int (ft_gap_len f)" "pitch AND 3 = 0" "vs_pitch (slots' 0) = of_int pitch"
proof -
  have c: "1 \<le> uint (vt_clkdiv vt)" "uint (vt_clkdiv vt) \<le> 32"
    using assms(2,3) by (simp_all add: word_le_def)
  then have m: "1 \<le> 32 div uint (vt_clkdiv vt)" "32 div uint (vt_clkdiv vt) \<le> 32"
    using zdiv_mono2 [of 32 "uint (vt_clkdiv vt)" 32] zdiv_mono2 [of 32 1 "uint (vt_clkdiv vt)"] by simp_all
  define hdbl where "hdbl = (let h = if sq_hdbl q < 1 then 1 else sq_hdbl q in if h > 32 div uint (vt_clkdiv vt) then 32 div uint (vt_clkdiv vt) else h)"
  have h: "1 \<le> hdbl" "hdbl \<le> 32" using m by (auto simp: hdbl_def Let_def)
  let ?vdbl = "let d = if sq_vdbl q > uint height then uint height else sq_vdbl q in if d < 1 then 1 else d"
  let ?vc = "if sq_format q = uint DISPHSTX_FORMAT_CUSTOM then custom else no_vcolor"
  let ?palnum = "if vc_colmode ?vc then sq_fonth q else uint (vc_palnum ?vc)"
  let ?slots = "put_slot 0 (\<lambda>s. s\<lparr>vs_format := of_int (sq_format q), vs_vcolor := ?vc\<rparr>) slots"
  have "(case place_slot vt ?palnum hdbl q ?slots 0 of Inl e \<Rightarrow> e | Inr (f, slots) \<Rightarrow>
      (case finish_slot malloc ?palnum q height ?vdbl f (slots 0) of (e, s) \<Rightarrow> (e, slots(0 := s)))) = (ERR_OK, slots')"
    using assms(1) unfolding fill_slot_def Let_def hdbl_def by (simp split: if_split_asm)
  then obtain f slots1 where p: "place_slot vt ?palnum hdbl q ?slots 0 = Inr (f, slots1)"
    and e: "finish_slot malloc ?palnum q height ?vdbl f (slots1 0) = (ERR_OK, slots' 0)"
    using place_first_fails [of vt ?palnum hdbl q ?slots] by (auto split: sum.splits prod.splits)
  from finish_slot_ok [OF e] obtain pitch where "pitch AND 3 = 0" "vs_pitch (slots' 0) = of_int pitch" by blast
  with place_first_slot [OF p] finish_slot_keeps [OF e] finish_slot_ok [OF e] h show ?thesis
    by (intro that [of hdbl f pitch]) simp_all
qed

text \<open>A slot that is accepted lies inside the line with its separator, is a whole number of graphics pixels wide
  and has a pitch of whole words.  One that is refused is counted all the same: the strip is full
  and every later slot is refused for their number.\<close>

lemma slot_accepted_or_spent:
  assumes "DispHstxVModeAddSlot malloc custom q v = (e, v')" "vm_stripnum v = 1" "st_slotnum (vm_strip v 0) = 0"
    "uint (vt_hactive (vm_vtime v)) < 2 ^ 15" "1 \<le> vt_clkdiv (vm_vtime v)" "vt_clkdiv (vm_vtime v) \<le> 32" "- (2 ^ 15) \<le> sq_gap_len q"
  shows "(e = ERR_OK \<longrightarrow> (let s = st_slot (vm_strip v' 0) 0 in
            uint (vs_width s) = uint (vs_w s) * uint (vs_hdbl s) \<and>
            uint (vs_width s) + max 0 (sint (vs_gap_len s)) \<le> uint (vt_hactive (vm_vtime v)) \<and> vs_pitch s AND 3 = 0)) \<and>
    (\<forall>q'. fst (DispHstxVModeAddSlot malloc custom q' v') = ERR_SLOTNUM)"
proof -
  obtain e' slots where f: "fill_slot malloc custom q (vm_vtime v) (st_height (vm_strip v 0)) (st_slot (vm_strip v 0)) 0 = (e', slots)"
    by fastforce
  then have v': "e' = e" "v' = v\<lparr>vm_strip := (vm_strip v)(0 := (vm_strip v 0)\<lparr>st_slotnum := 1, st_slot := slots\<rparr>)\<rparr>"
    using assms(1-3) by (simp_all add: DispHstxVModeAddSlot_def DISPHSTX_STRIP_MAX_def DISPHSTX_SLOT_MAX_def)
  have full: "fst (DispHstxVModeAddSlot malloc custom q' v') = ERR_SLOTNUM" for q'
    using assms(2) by (simp add: v'(2) DispHstxVModeAddSlot_def DISPHSTX_STRIP_MAX_def DISPHSTX_SLOT_MAX_def)
  have "(let s = slots 0 in uint (vs_width s) = uint (vs_w s) * uint (vs_hdbl s) \<and>
      uint (vs_width s) + max 0 (sint (vs_gap_len s)) \<le> uint (vt_hactive (vm_vtime v)) \<and> vs_pitch s AND 3 = 0)" if "e = ERR_OK"
  proof -
    from f that v'(1) have "fill_slot malloc custom q (vm_vtime v) (st_height (vm_strip v 0)) (st_slot (vm_strip v 0)) 0 = (ERR_OK, slots)" by simp
    from first_slot_ok [OF this assms(5,6)] obtain hdbl ft pitch where h: "1 \<le> hdbl" "hdbl \<le> 32"
      and ft: "ft = fit_width hdbl (sq_w q) (sq_gap_col q) (sq_gap_len q) (uint (vt_hactive (vm_vtime v)))"
      and s: "vs_width (slots 0) = of_int (ft_width ft)" "vs_w (slots 0) = of_int (ft_w ft)" "vs_hdbl (slots 0) = of_int hdbl"
        "vs_gap_len (slots 0) = of_int (ft_gap_len ft)" "pitch AND 3 = 0" "vs_pitch (slots 0) = of_int pitch" .
    note fits = fit_width_fits [where w = "sq_w q" and gap_len = "sq_gap_len q" and gap_col = "sq_gap_col q", OF _ h(1), of "uint (vt_hactive (vm_vtime v))", folded ft]
    have b: "0 \<le> ft_width ft" "ft_width ft < 2 ^ 15" "- (2 ^ 15) \<le> ft_gap_len ft" "ft_gap_len ft < 2 ^ 15"
      using fits(1,3,4) assms(4,7) by auto
    have w: "0 \<le> ft_w ft" "ft_w ft \<le> ft_width ft"
      using fits(2) b(1) h(1) by (auto simp: zero_le_mult_iff mult_le_cancel_left1)
    have "uint (of_int (ft_width ft) :: u16) = ft_width ft" "uint (of_int (ft_w ft) :: u16) = ft_w ft"
      "uint (of_int hdbl :: u16) = hdbl" "sint (of_int (ft_gap_len ft) :: 16 word) = ft_gap_len ft"
      using b w h by (simp_all add: uint_word_of_int signed_of_int signed_take_bit_int_eq_self)
    moreover have "(of_int pitch :: u16) AND 3 = 0"
    proof -
      have "(of_int (pitch AND 3) :: u16) = of_int pitch AND of_int 3" by (rule of_int_and_eq)
      then show ?thesis using s(5) by simp
    qed
    ultimately show ?thesis using fits(2,3) by (simp add: s Let_def)
  qed
  then show ?thesis using full by (simp add: v'(2))
qed

lemma text_slot_fits:
  "fit_width 1 640 0 0 640 = \<lparr>ft_width = 640, ft_w = 640, ft_gap_col = 0, ft_gap_len = 0\<rparr>"
  by (simp add: fit_width_def)

lemma text_slot_walign: "slot_walign ctext256_vcolor 256 1 640 = Inr WALIGN_32"
  by (simp add: slot_walign_def ctext256_vcolor_def)

lemma place_text_slot:
  assumes "vs_vcolor (slots 0) = ctext256_vcolor"
  shows "place_slot vmodetime_640x480_fast 256 1 text_slot slots 0 =
    Inr (\<lparr>ft_width = 640, ft_w = 640, ft_gap_col = 0, ft_gap_len = 0\<rparr>,
         put_slot 0 (\<lambda>s. s\<lparr>vs_width := 640, vs_hdbl := 1, vs_w := 640, vs_walign := WALIGN_32\<rparr>) slots)"
  using assms
  by (simp add: place_slot_def fit_slot_def limit_separator_def slot_room_def vmodetime_640x480_fast_def text_slot_def
      text_slot_fits text_slot_walign put_slot_def Let_def)

lemma ctext256_flags [simp]:
  "vc_textmode ctext256_vcolor" "\<not> vc_colmode ctext256_vcolor" "\<not> vc_tilemode ctext256_vcolor" "\<not> vc_hstxmode ctext256_vcolor"
  "vc_userender ctext256_vcolor" "\<not> vc_attrmode ctext256_vcolor" "vc_colbits ctext256_vcolor = 16" "vc_palnum ctext256_vcolor = 256"
  "vc_render_dvi ctext256_vcolor = Render_ctext256" "ctext256_vcolor\<lparr>vc_palnum := 256\<rparr> = ctext256_vcolor"
  by (simp_all add: ctext256_vcolor_def)

lemma text_slot_fields [simp]:
  "sq_hdbl text_slot = 1" "sq_vdbl text_slot = 1" "sq_w text_slot = 640" "sq_format text_slot = uint DISPHSTX_FORMAT_CUSTOM"
  "sq_buf text_slot = Cellbuf" "sq_pitch text_slot = 320" "sq_pal text_slot = Palette_rgb565" "sq_palvga text_slot = Null"
  "sq_font text_slot = Font_scanline" "sq_fonth text_slot = 16"
  by (simp_all add: text_slot_def FONT_HEIGHT_def geometry)

lemma text_slot_parts:
  "slot_rows ctext256_vcolor text_slot 480 = Inr 30" "slot_buffer malloc ctext256_vcolor text_slot 320 30 = Inr Cellbuf"
  "slot_font malloc ctext256_vcolor text_slot 30 = Inr Font_scanline" "slot_palettes ctext256_vcolor text_slot 256 = (Palette_rgb565, Null)"
  by (simp_all add: slot_rows_def slot_buffer_def slot_font_def slot_palettes_def)

lemma finish_text_slot:
  assumes "vs_vcolor s = ctext256_vcolor"
  shows "finish_slot malloc 256 text_slot 480 1 \<lparr>ft_width = 640, ft_w = 640, ft_gap_col = 0, ft_gap_len = 0\<rparr> s =
    (ERR_OK, s\<lparr>vs_vcolor := ctext256_vcolor, vs_vdbl := 1, vs_lines := 480, vs_h := 30, vs_pitch := 320, vs_buf := Cellbuf,
       vs_pal := Palette_rgb565, vs_palvga := Null, vs_font := Font_scanline, vs_fonth := 16, vs_gap_col := 0, vs_gap_len := 0,
       vs_curpos := - 1, vs_currow := - 1, vs_curbeg := 14, vs_curend := 15, vs_curspeed := 12\<rparr>)"
proof -
  have "(320 :: int) AND 3 = 0" by code_simp
  then show ?thesis by (simp add: finish_slot_def assms text_slot_parts)
qed

text \<open>The slot of the text screen, from whatever the slot held.\<close>

definition text_vslot :: "vslot \<Rightarrow> vslot" where
  "text_vslot s = s\<lparr>vs_format := DISPHSTX_FORMAT_CUSTOM, vs_width := 640, vs_hdbl := 1, vs_w := 640,
     vs_walign := WALIGN_32, vs_vcolor := ctext256_vcolor, vs_vdbl := 1, vs_lines := 480, vs_h := 30, vs_pitch := 320, vs_buf := Cellbuf, vs_pal := Palette_rgb565,
     vs_palvga := Null, vs_font := Font_scanline, vs_fonth := 16, vs_gap_col := 0, vs_gap_len := 0, vs_curpos := - 1,
     vs_currow := - 1, vs_curbeg := 14, vs_curend := 15, vs_curspeed := 12\<rparr>"

lemma fill_text_slot:
  "fill_slot malloc ctext256_vcolor text_slot vmodetime_640x480_fast 480 slots 0 = (ERR_OK, slots(0 := text_vslot (slots 0)))"
proof -
  have q: "uint (vt_clkdiv vmodetime_640x480_fast) = 2" by (simp add: vmodetime_640x480_fast_def)
  show ?thesis
    unfolding fill_slot_def Let_def q
    by (simp add: place_text_slot finish_text_slot put_slot_def text_vslot_def)
qed

lemma display_init_mode:
  "display_init malloc bmp d = (ERR_OK, \<lparr>di_palette = palette_init (di_palette d), di_font = font_init bmp (di_font d),
     di_cells = cellbuf_init (di_cells d), di_custom = ctext256_vcolor,
     di_mode = (di_mode d)\<lparr>vm_vtime := vmodetime_640x480_fast, vm_stripnum := 1, vm_strip := (vm_strip (di_mode d))(0 :=
       (vm_strip (di_mode d) 0)\<lparr>st_height := 480, st_slotnum := 1,
          st_slot := (st_slot (vm_strip (di_mode d) 0))(0 := text_vslot (st_slot (vm_strip (di_mode d) 0) 0))\<rparr>)\<rparr>\<rparr>)"
proof -
  have "uint (vt_vactive vmodetime_640x480_fast) = 480" by (simp add: vmodetime_640x480_fast_def)
  then show ?thesis
    by (simp add: display_init_def DispHstxVModeAddStrip_def DispHstxVModeInitTime_def DispHstxVModeAddSlot_def strip_room_def
        DISPHSTX_STRIP_MAX_def DISPHSTX_SLOT_MAX_def textmode_register_custom_format_def fill_text_slot)
qed

end
