(* ===== verification/ScanOut.thy ===== *)
theory ScanOut
  imports VMode
begin

text \<open>
  The scan-out of the picture (\<open>DispHSTX/_display/disphstx/disphstx_dvi.c\<close>): a prepared mode holds lists of
  DMA commands; every time one is through, an interrupt starts the next and renders the scanline after
  it.  The DMA engine and the HSTX expander, which turn these commands into symbols on the cable, are
  described here as their data sheet does, so that one can say what a monitor receives.
\<close>

section \<open>Symbols\<close>

text \<open>A word of the table and the number of ones in it, for the 256 levels.\<close>

definition TmdsTable :: "(u16 \<times> nat) list" where
  "TmdsTable =
    [(0x100, 1), (0x1ff, 9), (0x1fe, 8), (0x101, 2), (0x1fc, 7), (0x103, 3), (0x102, 2), (0x1fd, 8),
     (0x1f8, 6), (0x107, 4), (0x106, 3), (0x1f9, 7), (0x104, 2), (0x1fb, 8), (0x1fa, 7), (0x105, 3),
     (0x1f0, 5), (0x10f, 5), (0x10e, 4), (0x1f1, 6), (0x10c, 3), (0x1f3, 7), (0x1f2, 6), (0x10d, 4),
     (0x108, 2), (0x1f7, 8), (0x1f6, 7), (0x109, 3), (0x1f4, 6), (0x10b, 4), (0x25f, 7), (0x2a0, 3),
     (0x1e0, 4), (0x11f, 6), (0x11e, 5), (0x1e1, 5), (0x11c, 4), (0x1e3, 6), (0x1e2, 5), (0x11d, 5),
     (0x118, 3), (0x1e7, 7), (0x1e6, 6), (0x119, 4), (0x1e4, 5), (0x11b, 5), (0x24f, 6), (0x2b0, 4),
     (0x110, 2), (0x1ef, 8), (0x1ee, 7), (0x111, 3), (0x1ec, 6), (0x113, 4), (0x247, 5), (0x2b8, 5),
     (0x1e8, 5), (0x117, 5), (0x243, 4), (0x2bc, 6), (0x241, 3), (0x2be, 7), (0x2bf, 8), (0x240, 2),
     (0x1c0, 3), (0x13f, 7), (0x13e, 6), (0x1c1, 4), (0x13c, 5), (0x1c3, 5), (0x1c2, 4), (0x13d, 6),
     (0x138, 4), (0x1c7, 6), (0x1c6, 5), (0x139, 5), (0x1c4, 4), (0x13b, 6), (0x26f, 7), (0x290, 3),
     (0x130, 3), (0x1cf, 7), (0x1ce, 6), (0x131, 4), (0x1cc, 5), (0x133, 5), (0x267, 6), (0x298, 4),
     (0x1c8, 4), (0x137, 6), (0x263, 5), (0x29c, 5), (0x261, 4), (0x29e, 6), (0x29f, 7), (0x260, 3),
     (0x120, 2), (0x1df, 8), (0x1de, 7), (0x121, 3), (0x1dc, 6), (0x123, 4), (0x277, 7), (0x288, 3),
     (0x1d8, 5), (0x127, 5), (0x273, 6), (0x28c, 4), (0x271, 5), (0x28e, 5), (0x28f, 6), (0x270, 4),
     (0x1d0, 4), (0x12f, 6), (0x27b, 7), (0x284, 3), (0x279, 6), (0x286, 4), (0x287, 5), (0x278, 5),
     (0x27d, 7), (0x282, 3), (0x283, 4), (0x27c, 6), (0x281, 3), (0x27e, 7), (0x27f, 8), (0x280, 2),
     (0x180, 2), (0x17f, 8), (0x17e, 7), (0x181, 3), (0x17c, 6), (0x183, 4), (0x182, 3), (0x17d, 7),
     (0x178, 5), (0x187, 5), (0x186, 4), (0x179, 6), (0x184, 3), (0x17b, 7), (0x22f, 6), (0x2d0, 4),
     (0x170, 4), (0x18f, 6), (0x18e, 5), (0x171, 5), (0x18c, 4), (0x173, 6), (0x227, 5), (0x2d8, 5),
     (0x188, 3), (0x177, 7), (0x223, 4), (0x2dc, 6), (0x221, 3), (0x2de, 7), (0x2df, 8), (0x220, 2),
     (0x160, 3), (0x19f, 7), (0x19e, 6), (0x161, 4), (0x19c, 5), (0x163, 5), (0x237, 6), (0x2c8, 4),
     (0x198, 4), (0x167, 6), (0x233, 5), (0x2cc, 5), (0x231, 4), (0x2ce, 6), (0x2cf, 7), (0x230, 3),
     (0x190, 3), (0x16f, 7), (0x23b, 6), (0x2c4, 4), (0x239, 5), (0x2c6, 5), (0x2c7, 6), (0x238, 4),
     (0x23d, 6), (0x2c2, 4), (0x2c3, 5), (0x23c, 5), (0x2c1, 4), (0x23e, 6), (0x23f, 7), (0x2c0, 3),
     (0x140, 2), (0x1bf, 8), (0x1be, 7), (0x141, 3), (0x1bc, 6), (0x143, 4), (0x217, 5), (0x2e8, 5),
     (0x1b8, 5), (0x147, 5), (0x213, 4), (0x2ec, 6), (0x211, 3), (0x2ee, 7), (0x2ef, 8), (0x210, 2),
     (0x1b0, 4), (0x14f, 6), (0x21b, 5), (0x2e4, 5), (0x219, 4), (0x2e6, 6), (0x2e7, 7), (0x218, 3),
     (0x21d, 5), (0x2e2, 5), (0x2e3, 6), (0x21c, 4), (0x2e1, 5), (0x21e, 5), (0x21f, 6), (0x2e0, 4),
     (0x1a0, 3), (0x15f, 7), (0x20b, 4), (0x2f4, 6), (0x209, 3), (0x2f6, 7), (0x2f7, 8), (0x208, 2),
     (0x20d, 4), (0x2f2, 6), (0x2f3, 7), (0x20c, 3), (0x2f1, 6), (0x20e, 4), (0x20f, 5), (0x2f0, 5),
     (0x205, 3), (0x2fa, 7), (0x2fb, 8), (0x204, 2), (0x2f9, 7), (0x206, 3), (0x207, 4), (0x2f8, 6),
     (0x2fd, 8), (0x202, 2), (0x203, 3), (0x2fc, 7), (0x201, 2), (0x2fe, 8), (0x2ff, 9), (0x200, 1)]"

text \<open>The loop stops at the first balanced word.\<close>

definition DispHstxTmdsDC :: "nat \<Rightarrow> u16" where
  "DispHstxTmdsDC val =
     (let val = (if val > 239 then 239 else val)
      in case List.find (\<lambda>v. snd (TmdsTable ! v) = 5) [val..<256] of Some v \<Rightarrow> fst (TmdsTable ! v) | None \<Rightarrow> 0)"

definition DispHstxRgbToTmdsDC :: "u16 \<Rightarrow> u32" where
  "DispHstxRgbToTmdsDC col =
     (let b = unat (push_bit 3 (col AND 0x1f)); g = unat (push_bit 2 (drop_bit 5 col AND 0x3f));
          r = unat (push_bit 3 (drop_bit 11 col AND 0x1f))
      in ucast (DispHstxTmdsDC b) + push_bit 10 (ucast (DispHstxTmdsDC g)) + push_bit 20 (ucast (DispHstxTmdsDC r)))"

definition TMDS_CTRL_00 :: u32 where "TMDS_CTRL_00 = 0x0354"
definition TMDS_CTRL_01 :: u32 where "TMDS_CTRL_01 = 0x00ab"
definition TMDS_CTRL_10 :: u32 where "TMDS_CTRL_10 = 0x0154"
definition TMDS_CTRL_11 :: u32 where "TMDS_CTRL_11 = 0x02ab"

definition hdmi_sync :: "u32 \<Rightarrow> u32" where
  "hdmi_sync ctrl = ctrl OR push_bit 10 TMDS_CTRL_00 OR push_bit 20 TMDS_CTRL_00"

definition HDMI_BLACK :: u32 where "HDMI_BLACK = 0x1f0 OR push_bit 10 0x1f0 OR push_bit 20 0x1f0"

definition HSTX_CMD_RAW_REPEAT :: u32 where "HSTX_CMD_RAW_REPEAT = 0x1000"
definition HSTX_CMD_TMDS :: u32 where "HSTX_CMD_TMDS = 0x2000"
definition HSTX_CMD_NOP :: u32 where "HSTX_CMD_NOP = 0xf000"

section \<open>Preparing a mode\<close>

text \<open>The words for no sync, HSYNC, VSYNC and both, by the polarities.\<close>

definition sync_words :: "vtime \<Rightarrow> u32 \<times> u32 \<times> u32 \<times> u32" where
  "sync_words vt =
     (if vt_vpol vt then
        if vt_hpol vt then (hdmi_sync TMDS_CTRL_00, hdmi_sync TMDS_CTRL_01, hdmi_sync TMDS_CTRL_10, hdmi_sync TMDS_CTRL_11)
        else (hdmi_sync TMDS_CTRL_01, hdmi_sync TMDS_CTRL_00, hdmi_sync TMDS_CTRL_11, hdmi_sync TMDS_CTRL_10)
      else
        if vt_hpol vt then (hdmi_sync TMDS_CTRL_10, hdmi_sync TMDS_CTRL_11, hdmi_sync TMDS_CTRL_00, hdmi_sync TMDS_CTRL_01)
        else (hdmi_sync TMDS_CTRL_11, hdmi_sync TMDS_CTRL_10, hdmi_sync TMDS_CTRL_01, hdmi_sync TMDS_CTRL_00))"

definition ctrl_sync :: dma_ctrl where
  "ctrl_sync = \<lparr>ct_treq = Treq_hstx, ct_inc_read = True, ct_inc_write = False, ct_size = 4, ct_bswap = False\<rparr>"

definition ctrl_stop :: dma_ctrl where
  "ctrl_stop = \<lparr>ct_treq = Treq_force, ct_inc_read = False, ct_inc_write = False, ct_size = 1, ct_bswap = False\<rparr>"

definition ctrl_regs :: dma_ctrl where
  "ctrl_regs = \<lparr>ct_treq = Treq_force, ct_inc_read = True, ct_inc_write = True, ct_size = 4, ct_bswap = False\<rparr>"

definition sync_cmd :: "nat \<Rightarrow> dma_addr \<Rightarrow> dma_cmd" where
  "sync_cmd n data = \<lparr>dc_ctrl = ctrl_sync, dc_write = Hstx_fifo, dc_count = n, dc_read = data\<rparr>"

definition stop_cmd :: dma_cmd where
  "stop_cmd = \<lparr>dc_ctrl = ctrl_stop, dc_write = Zero, dc_count = 0, dc_read = Zero\<rparr>"

definition raw_repeat :: "u16 \<Rightarrow> u32" where
  "raw_repeat n = HSTX_CMD_RAW_REPEAT OR ucast n"

definition sync_line :: "vtime \<Rightarrow> u32 \<Rightarrow> u32 \<Rightarrow> u32 list" where
  "sync_line vt idle hsync =
     [HSTX_CMD_RAW_REPEAT OR (ucast (vt_hactive vt) + ucast (vt_hfront vt)), idle,
      raw_repeat (vt_hsync vt), hsync, raw_repeat (vt_hback vt), idle]"

definition blank_line :: "vtime \<Rightarrow> u32 \<Rightarrow> u32 \<Rightarrow> u32 list" where
  "blank_line vt idle hsync =
     [raw_repeat (vt_hactive vt), HDMI_BLACK, raw_repeat (vt_hfront vt), idle, raw_repeat (vt_hsync vt), hsync,
      raw_repeat (vt_hback vt), idle]"

definition hsync_suffix :: "vtime \<Rightarrow> u32 \<Rightarrow> u32 \<Rightarrow> u32 list" where
  "hsync_suffix vt idle hsync =
     [raw_repeat (vt_hfront vt), idle, HSTX_CMD_NOP, raw_repeat (vt_hsync vt), hsync, HSTX_CMD_NOP, HSTX_CMD_NOP,
      raw_repeat (vt_hback vt), idle]"

subsection \<open>A slot\<close>

text \<open>The strip while its slots are prepared: the two places in the render buffer and the two command lists.\<close>

record prep =
  pr_render :: nat
  pr_render2 :: nat
  pr_cmd :: "dma_cmd list"
  pr_cmd2 :: "dma_cmd list"
  pr_slot :: "vslot arr"

definition slot_colbits :: "vslot \<Rightarrow> int" where
  "slot_colbits s = (if vc_palnum (vs_vcolor s) \<noteq> 0 then 16 else uint (vc_colbits (vs_vcolor s)))"

definition expand_shift_word :: "vslot \<Rightarrow> u32" where
  "expand_shift_word s =
     (let colbits = slot_colbits s;
          reg = (if vs_hdbl s \<le> 1 then
                   (case vs_walign s of
                      WALIGN_32 \<Rightarrow> (32 div colbits) AND 0x1f
                    | WALIGN_16 \<Rightarrow> 16 div colbits
                    | _ \<Rightarrow> if colbits < 8 then 8 div colbits else 1)
                 else uint (vs_hdbl s));
          shft = (if colbits = 12 then 0 else if colbits = 3 \<or> colbits = 6 then colbits else 32 - colbits)
      in push_bit 24 (of_int (reg AND 0x1f)) OR push_bit 16 (of_int shft) OR push_bit 8 1 OR push_bit 0 0)"

primrec find_previous :: "vslot arr \<Rightarrow> nat \<Rightarrow> nat option" where
  "find_previous slots 0 = None"
| "find_previous slots (Suc i) =
     (if vs_w (slots i) > 0 \<and> vs_format (slots i) \<noteq> DISPHSTX_FORMAT_NONE then Some i else find_previous slots i)"

text \<open>The command that sets the expander up, when this slot is the first or differs from the one before.\<close>

definition expander_cmd :: "nat \<Rightarrow> vslot arr \<Rightarrow> nat \<Rightarrow> dma_cmd list" where
  "expander_cmd k slots i =
     (let s = slots i; same = (\<lambda>n j. vs_vactive_1 s n = vs_vactive_1 (slots j) n);
          cmd = (\<lambda>w n r. [\<lparr>dc_ctrl = ctrl_regs, dc_write = w, dc_count = n, dc_read = r\<rparr>])
      in if vs_format s = DISPHSTX_FORMAT_NONE \<or> \<not> vs_w s > 0 then []
         else case find_previous slots i of
                None \<Rightarrow> cmd Expand_shift 2 (Vactive_1 k i 0)
              | Some j \<Rightarrow>
                  if same 0 j \<and> same 1 j then []
                  else if same 0 j then cmd Expand_tmds 1 (Vactive_1 k i 1)
                  else cmd Expand_shift (if same 1 j then 1 else 2) (Vactive_1 k i 0))"

definition data_size :: "vslot \<Rightarrow> nat" where
  "data_size s =
     (let size = (case vs_walign s of WALIGN_32 \<Rightarrow> 4 | WALIGN_16 \<Rightarrow> 2 | _ \<Rightarrow> if slot_colbits s < 16 then 1 else 2)
      in if vc_colmode (vs_vcolor s) then 2 else size)"

definition ctrl_data :: "vslot \<Rightarrow> dma_ctrl" where
  "ctrl_data s =
     \<lparr>ct_treq = Treq_hstx, ct_inc_read = (\<not> vc_colmode (vs_vcolor s)), ct_inc_write = False, ct_size = data_size s,
      ct_bswap = (slot_colbits s < 16 \<and> slot_colbits s \<notin> {3, 6, 12})\<rparr>"

definition data_count :: "vslot \<Rightarrow> nat" where
  "data_count s =
     (let n = uint (vs_w s); colbits = slot_colbits s
      in nat (case vs_walign s of WALIGN_32 \<Rightarrow> n div (32 div colbits) | WALIGN_16 \<Rightarrow> n div (16 div colbits)
              | WALIGN_8 \<Rightarrow> n div (8 div colbits) | WALIGN_REP \<Rightarrow> n))"

definition separator :: "int \<Rightarrow> u32 \<Rightarrow> u32 list" where
  "separator n tmds =
     (let rep = (\<lambda>k. HSTX_CMD_RAW_REPEAT OR of_int k)
      in if n < 4 then [rep n, tmds]
         else if n < 8 then [rep (n div 2), tmds, rep ((n + 1) div 2), tmds]
         else [rep (n div 4), tmds, HSTX_CMD_NOP, rep ((n + 1) div 4), tmds, rep ((n + 2) div 4), tmds, rep ((n + 3) div 4), tmds])"

definition prepare_registers :: "vslot \<Rightarrow> vslot" where
  "prepare_registers s = s\<lparr>vs_vactive_1 := (vs_vactive_1 s)(0 := expand_shift_word s, 1 := vc_expand_tmds (vs_vcolor s))\<rparr>"

definition prepare_slot :: "nat \<Rightarrow> nat \<Rightarrow> prep \<Rightarrow> prep" where
  "prepare_slot k i p =
     (let p = p\<lparr>pr_render := (pr_render p + 3) div 4 * 4, pr_render2 := (pr_render2 p + 3) div 4 * 4,
                pr_slot := put_slot i prepare_registers (pr_slot p)\<rparr>;
          c = expander_cmd k (pr_slot p) i;
          p = p\<lparr>pr_cmd := pr_cmd p @ c, pr_cmd2 := pr_cmd2 p @ c\<rparr>;
          s = pr_slot p i; vc = vs_vcolor s; n = data_count s;
          p = (if n > 0 then
                 let p = (if \<not> vc_hstxmode vc then
                            p\<lparr>pr_slot := put_slot i (\<lambda>s. s\<lparr>vs_vactive_1 := (vs_vactive_1 s)(2 := HSTX_CMD_TMDS OR ucast (vs_width s))\<rparr>) (pr_slot p),
                              pr_cmd := pr_cmd p @ [sync_cmd 1 (Vactive_1 k i 2)], pr_cmd2 := pr_cmd2 p @ [sync_cmd 1 (Vactive_1 k i 2)]\<rparr>
                          else p);
                     data = (\<lambda>r. \<lparr>dc_ctrl = ctrl_data s, dc_write = Hstx_fifo, dc_count = n, dc_read = Line_buffer r\<rparr>);
                     p = p\<lparr>pr_slot := put_slot i (\<lambda>s. s\<lparr>vs_data_inx := of_nat (4 * length (pr_cmd p) + 3)\<rparr>) (pr_slot p),
                           pr_cmd := pr_cmd p @ [data (pr_render p)], pr_cmd2 := pr_cmd2 p @ [data (pr_render2 p)]\<rparr>;
                     len = (if vc_userender vc then (if ct_inc_read (ctrl_data s) then n else 1) * data_size s else 0)
                 in p\<lparr>pr_render := pr_render p + len, pr_render2 := pr_render2 p + len\<rparr>
               else p);
          gap = sint (vs_gap_len s)
      in if gap > 0 then
           let data = separator gap (DispHstxRgbToTmdsDC (vs_gap_col s)); c = sync_cmd (length data) (Vactive_2 k i)
           in p\<lparr>pr_slot := put_slot i (vs_vactive_2_update (\<lambda>_. data)) (pr_slot p), pr_cmd := pr_cmd p @ [c], pr_cmd2 := pr_cmd2 p @ [c]\<rparr>
         else p)"

definition RENDERLINE_SIZE :: nat where
  "RENDERLINE_SIZE = DISPHSTX_WIDTHMAX + 2 * nat DISPHSTX_SLOT_MAX + 4"

definition prepare_strip :: "vtime \<Rightarrow> nat \<Rightarrow> vstrip \<Rightarrow> vstrip" where
  "prepare_strip vt k st =
     (case sync_words vt of (v0h0, v0h1, _, _) \<Rightarrow>
        let p = fold (prepare_slot k) [0..<unat (st_slotnum st)]
                  \<lparr>pr_render = 0, pr_render2 = RENDERLINE_SIZE * 2, pr_cmd = [], pr_cmd2 = [], pr_slot = st_slot st\<rparr>;
            last = [sync_cmd 9 (Vactive_3 k), stop_cmd]
        in st\<lparr>st_vactive_3 := hsync_suffix vt v0h0 v0h1, st_cmd := pr_cmd p @ last, st_cmd2 := pr_cmd2 p @ last, st_slot := pr_slot p\<rparr>)"

definition DispHstxDviPrepare :: "vmode \<Rightarrow> vmode" where
  "DispHstxDviPrepare v =
     (let v = DispHstxPrePrepare v; vt = vm_vtime v
      in case sync_words vt of (v0h0, v0h1, v1h0, v1h1) \<Rightarrow>
           v\<lparr>vm_vsync_off := sync_line vt v0h0 v0h1, vm_vsync_off_cmd := [sync_cmd 6 Vsync_off, stop_cmd],
             vm_vsync_on := sync_line vt v1h0 v1h1, vm_vsync_on_cmd := [sync_cmd 6 Vsync_on, stop_cmd],
             vm_vsync_blank := blank_line vt v0h0 v0h1, vm_vsync_blank_cmd := [sync_cmd 8 Vsync_blank, stop_cmd],
             vm_strip := fold (\<lambda>k strip. strip(k := prepare_strip vt k (strip k))) [0..<unat (vm_stripnum v)] (vm_strip v)\<rparr>)"

section \<open>The interrupt\<close>

text \<open>What the renderer finds when it runs: the timer, the cursor, and the memory behind its pointers.\<close>

record seen =
  sn_time :: u32
  sn_textmode :: textmode
  sn_bytes :: "ptr \<Rightarrow> u8 arr"
  sn_halves :: "ptr \<Rightarrow> u16 arr"

text \<open>The state of the scan-out; the render buffer is read by words, and \<open>sc_started\<close> is the list the DMA works on.\<close>

record scan =
  sc_mode :: vmode
  sc_frame :: u32
  sc_lines :: "u32 arr"
  sc_started :: cmd_ptr

definition put_words :: "nat \<Rightarrow> u32 list \<Rightarrow> u32 arr \<Rightarrow> u32 arr" where
  "put_words off ws m = (\<lambda>i. if off \<le> i \<and> i < off + length ws then ws ! (i - off) else m i)"

definition strip_cmds :: "vstrip \<Rightarrow> nat \<Rightarrow> dma_cmd list" where
  "strip_cmds st b = (if b = 0 then st_cmd st else st_cmd2 st)"

text \<open>A renderer writes where the data command of its slot reads.\<close>

definition render_dvi :: "seen \<Rightarrow> vslot \<Rightarrow> int \<Rightarrow> dma_addr \<Rightarrow> u32 arr \<Rightarrow> u32 arr" where
  "render_dvi e s line dst m =
     (case vc_render_dvi (vs_vcolor s) of
        Render_No \<Rightarrow> m
      | Render_ctext256 \<Rightarrow>
          (case dst of
             Line_buffer off \<Rightarrow> put_words (off div 4) (render_ctext256 (sn_time e) (sn_textmode e) (sn_halves e (vs_pal s))
                                  (sn_bytes e (vs_font s)) (sn_bytes e (vs_buf s)) line) m
           | _ \<Rightarrow> m))"

definition render_slots :: "seen \<Rightarrow> vstrip \<Rightarrow> nat \<Rightarrow> int \<Rightarrow> u32 arr \<Rightarrow> u32 arr" where
  "render_slots e st b line m =
     fold (\<lambda>i m. let s = st_slot st i
                 in if vs_w s > 0 then render_dvi e s (line div uint (vs_vdbl s)) (dc_read (strip_cmds st b ! (unat (vs_data_inx s) div 4))) m
                    else m) [0..<unat (st_slotnum st)] m"

primrec active_line :: "seen \<Rightarrow> vmode \<Rightarrow> nat \<Rightarrow> nat list \<Rightarrow> int \<Rightarrow> u32 arr \<Rightarrow> cmd_ptr \<times> u32 arr" where
  "active_line e v b [] line m = (Blank_cmd, m)"
| "active_line e v b (k # ks) line m =
     (let st = vm_strip v k
      in if line < uint (st_height st) then (Active_cmd k b, render_slots e st b line m)
         else active_line e v b ks (line - uint (st_height st)) m)"

definition DispHstxDviIrqHandler :: "seen \<Rightarrow> scan \<Rightarrow> scan" where
  "DispHstxDviIrqHandler e s =
     (let v = sc_mode s; vt = vm_vtime v;
          s = s\<lparr>sc_started := vm_bufnext v\<rparr>;
          bufinx = vm_bufinx v XOR 1;
          line = uint (vm_line v) + 1;
          (line, frame) = (if line \<ge> uint (vt_vtotal vt) then (0, sc_frame s + 1) else (line, sc_frame s));
          v = v\<lparr>vm_bufinx := bufinx, vm_line := of_int line\<rparr>;
          (bufnext, m) =
            (if line < uint (vt_vactive vt) then active_line e v (unat bufinx) [0..<unat (vm_stripnum v)] line (sc_lines s)
             else if line \<ge> uint (vt_vactive vt) + uint (vt_vfront vt) \<and> line < uint (vt_vtotal vt) - uint (vt_vback vt)
             then (On_cmd, sc_lines s)
             else (Off_cmd, sc_lines s))
      in s\<lparr>sc_mode := v\<lparr>vm_bufnext := bufnext\<rparr>, sc_frame := frame, sc_lines := m\<rparr>)"

text \<open>Start-up, without the pins and the serialiser; the first interrupt is called.\<close>

definition DispHstxDviInit :: "seen \<Rightarrow> scan \<Rightarrow> scan" where
  "DispHstxDviInit e s =
     DispHstxDviIrqHandler e
       (s\<lparr>sc_mode := (DispHstxDviPrepare (sc_mode s))\<lparr>vm_line := 0, vm_bufnext := Blank_cmd, vm_bufinx := 0\<rparr>\<rparr>)"

section \<open>What a monitor receives\<close>

text \<open>
  The DMA engine: the command channel takes the commands one after the other, a data command moves
  words (the only size in this mode) from where it reads to where it writes, and a zero read address
  ends the list.  The result is the two expander registers and the words that entered the FIFO.
\<close>

definition dma_words :: "vmode \<Rightarrow> u32 arr \<Rightarrow> dma_addr \<Rightarrow> nat \<Rightarrow> u32 list" where
  "dma_words v m a n =
     (case a of
        Vsync_off \<Rightarrow> take n (vm_vsync_off v) | Vsync_on \<Rightarrow> take n (vm_vsync_on v) | Vsync_blank \<Rightarrow> take n (vm_vsync_blank v)
      | Vactive_1 k i j \<Rightarrow> map (vs_vactive_1 (st_slot (vm_strip v k) i)) [j..<j + n]
      | Vactive_2 k i \<Rightarrow> take n (vs_vactive_2 (st_slot (vm_strip v k) i))
      | Vactive_3 k \<Rightarrow> take n (st_vactive_3 (vm_strip v k))
      | Line_buffer off \<Rightarrow> map m [off div 4..<off div 4 + n]
      | _ \<Rightarrow> [])"

fun run_cmds :: "vmode \<Rightarrow> u32 arr \<Rightarrow> dma_cmd list \<Rightarrow> u32 \<times> u32 \<Rightarrow> (u32 \<times> u32) \<times> u32 list" where
  "run_cmds v m [] r = (r, [])"
| "run_cmds v m (c # cs) r =
     (let ws = dma_words v m (dc_read c) (dc_count c)
      in if dc_read c = Zero then (r, [])
         else case dc_write c of
                Hstx_fifo \<Rightarrow> (case run_cmds v m cs r of (r, out) \<Rightarrow> (r, ws @ out))
              | Expand_shift \<Rightarrow> run_cmds v m cs (ws ! 0, if dc_count c > 1 then ws ! 1 else snd r)
              | Expand_tmds \<Rightarrow> run_cmds v m cs (fst r, ws ! 0)
              | _ \<Rightarrow> run_cmds v m cs r)"

text \<open>A symbol is a raw word or three levels, red, green and blue, for the TMDS encoders.\<close>

datatype symbol = Raw u32 | Tmds u8 u8 u8

text \<open>A lane rotates the word and takes the top bits of the low byte.\<close>

definition tmds_lane :: "u32 \<Rightarrow> nat \<Rightarrow> u32 \<Rightarrow> u8" where
  "tmds_lane reg j w =
     (let bits = unat (drop_bit (8 * j + 5) reg AND 7) + 1; rot = unat (drop_bit (8 * j) reg AND 31)
      in ucast (word_rotr rot w) AND NOT (mask (8 - bits)))"

definition tmds_symbol :: "u32 \<times> u32 \<Rightarrow> u32 list \<Rightarrow> nat \<Rightarrow> symbol" where
  "tmds_symbol r ws x =
     (let per = unat (drop_bit 24 (fst r) AND 31); shift = unat (drop_bit 16 (fst r) AND 31);
          w = word_rotr (shift * (x mod per)) (ws ! (x div per))
      in Tmds (tmds_lane (snd r) 2 w) (tmds_lane (snd r) 1 w) (tmds_lane (snd r) 0 w))"

function expand :: "u32 \<times> u32 \<Rightarrow> u32 list \<Rightarrow> symbol list" where
  "expand r [] = []"
| "expand r (c # ws) =
     (let n = unat (c AND 0xFFF); op = c AND 0xF000
      in if op = HSTX_CMD_RAW_REPEAT then (case ws of [] \<Rightarrow> [] | d # ws \<Rightarrow> replicate n (Raw d) @ expand r ws)
         else if op = HSTX_CMD_TMDS then
           let per = unat (drop_bit 24 (fst r) AND 31); k = (n + per - 1) div per
           in map (tmds_symbol r ws) [0..<n] @ expand r (drop k ws)
         else if op = HSTX_CMD_NOP then expand r ws
         else [])"
  by pat_completeness auto
termination by (relation "measure (length \<circ> snd)") auto

definition ptr_cmds :: "vmode \<Rightarrow> cmd_ptr \<Rightarrow> dma_cmd list" where
  "ptr_cmds v p = (case p of Off_cmd \<Rightarrow> vm_vsync_off_cmd v | On_cmd \<Rightarrow> vm_vsync_on_cmd v | Blank_cmd \<Rightarrow> vm_vsync_blank_cmd v
     | Active_cmd k b \<Rightarrow> strip_cmds (vm_strip v k) b)"

definition on_wire :: "vmode \<Rightarrow> u32 arr \<Rightarrow> cmd_ptr \<Rightarrow> symbol list" where
  "on_wire v m p = (case run_cmds v m (ptr_cmds v p) (0, 0) of (r, ws) \<Rightarrow> expand r ws)"

subsection \<open>Colours\<close>

text \<open>The levels of an RGB565 colour, and the registers that make the expander produce them.\<close>

definition colour_symbol :: "u16 \<Rightarrow> symbol" where
  "colour_symbol c = Tmds (ucast (push_bit 3 (drop_bit 11 c AND 0x1f))) (ucast (push_bit 2 (drop_bit 5 c AND 0x3f))) (ucast (push_bit 3 (c AND 0x1f)))"

lemma lane_eq:
  fixes w :: u32 and c :: u16
  assumes "\<And>n. k \<le> n \<Longrightarrow> n < 8 \<Longrightarrow> bit w ((n + rot) mod 32) = bit c (n - k + l)"
  shows "(ucast (word_rotr rot w) AND NOT (mask k) :: u8) = ucast (push_bit k (drop_bit l c AND mask (8 - k)))"
proof (rule bit_word_eqI)
  fix n assume "n < LENGTH(8)"
  then have n: "n < 8" by simp
  have "bit (NOT (mask k :: u8)) n \<longleftrightarrow> k \<le> n" using n by (auto simp: bit_not_iff bit_mask_iff)
  moreover have "bit (ucast (word_rotr rot w) :: u8) n \<longleftrightarrow> bit w ((n + rot) mod 32)"
    using n by (simp add: bit_ucast_iff bit_word_rotr_iff)
  moreover have "bit (ucast (push_bit k (drop_bit l c AND mask (8 - k))) :: u8) n \<longleftrightarrow> k \<le> n \<and> bit c (n - k + l)"
    using n by (auto simp: bit_ucast_iff bit_push_bit_iff bit_and_iff bit_drop_bit_eq bit_mask_iff add.commute)
  ultimately show "bit (ucast (word_rotr rot w) AND NOT (mask k) :: u8) n =
      bit (ucast (push_bit k (drop_bit l c AND mask (8 - k))) :: u8) n"
    using assms n by (auto simp: bit_and_iff)
qed

lemma lanes_rgb565:
  fixes w :: u32
  defines "reg \<equiv> vc_expand_tmds ctext256_vcolor"
  shows "Tmds (tmds_lane reg 2 w) (tmds_lane reg 1 w) (tmds_lane reg 0 w) = colour_symbol (ucast w)"
proof -
  have f: "unat (drop_bit 21 reg AND 7) = 4" "unat (drop_bit 16 reg AND 31) = 8" "unat (drop_bit 13 reg AND 7) = 5"
    "unat (drop_bit 8 reg AND 31) = 3" "unat (drop_bit 5 reg AND 7) = 4" "unat (reg AND 31) = 29"
    by (simp_all add: reg_def ctext256_vcolor_def)
  have m: "(mask 5 :: u16) = 0x1f" "(mask 6 :: u16) = 0x3f" by (simp_all add: mask_eq_exp_minus_1)
  have l8: "(ucast (word_rotr 8 w) AND NOT (mask 3) :: u8) = ucast (push_bit 3 (drop_bit 11 (ucast w :: u16) AND mask (8 - 3)))"
    by (rule lane_eq) (simp add: bit_ucast_iff add.commute)
  have l3: "(ucast (word_rotr 3 w) AND NOT (mask 2) :: u8) = ucast (push_bit 2 (drop_bit 5 (ucast w :: u16) AND mask (8 - 2)))"
    by (rule lane_eq) (simp add: bit_ucast_iff add.commute)
  have l29: "(ucast (word_rotr 29 w) AND NOT (mask 3) :: u8) = ucast (push_bit 3 (drop_bit 0 (ucast w :: u16) AND mask (8 - 3)))"
    by (rule lane_eq) (auto simp: bit_ucast_iff mod_if)
  have "tmds_lane reg 2 w = ucast (push_bit 3 (drop_bit 11 (ucast w :: u16) AND 0x1f))"
    using l8 by (simp add: tmds_lane_def f m)
  moreover have "tmds_lane reg 1 w = ucast (push_bit 2 (drop_bit 5 (ucast w :: u16) AND 0x3f))"
    using l3 by (simp add: tmds_lane_def f m)
  moreover have "tmds_lane reg 0 w = ucast (push_bit 3 ((ucast w :: u16) AND 0x1f))"
    using l29 by (simp add: tmds_lane_def f m)
  ultimately show ?thesis by (simp add: colour_symbol_def)
qed

section \<open>Tables, separators and buffers\<close>

definition ones :: "u16 \<Rightarrow> nat" where
  "ones w = length (filter (bit w) [0..<10])"

text \<open>The table tells the number of ones of its words, and the search for a balanced word always ends inside it.\<close>

lemma table_counts_ones: "list_all (\<lambda>(w, n). ones w = n) TmdsTable \<and> length TmdsTable = 256"
  unfolding ones_def by code_simp

lemma balanced_word: "ones (DispHstxTmdsDC val) = 5"
proof -
  let ?v = "if val > 239 then 239 else val"
  have len: "length TmdsTable = 256" and ok: "\<And>w n. (w, n) \<in> set TmdsTable \<Longrightarrow> ones w = n"
    using table_counts_ones by (auto simp: list_all_iff)
  have "snd (TmdsTable ! 239) = 5" by (simp add: TmdsTable_def)
  moreover have "239 \<in> set [?v..<256]" by simp
  ultimately have "List.find (\<lambda>v. snd (TmdsTable ! v) = 5) [?v..<256] \<noteq> None" unfolding find_None_iff by blast
  then obtain k where k: "List.find (\<lambda>v. snd (TmdsTable ! v) = 5) [?v..<256] = Some k" by blast
  then have "snd (TmdsTable ! k) = 5" "k \<in> set [?v..<256]" unfolding find_Some_iff using nth_mem by blast+
  then have "ones (fst (TmdsTable ! k)) = 5"
    using ok [of "fst (TmdsTable ! k)" 5] nth_mem [of k TmdsTable] by (metis atLeastLessThan_iff len prod.collapse set_upt)
  then show ?thesis unfolding DispHstxTmdsDC_def Let_def k by simp
qed

text \<open>A separator of any length that fits a command is as long as it says.\<close>

lemma repeat_word:
  assumes "0 \<le> k" "k < 2 ^ 12"
  shows "expand r ((HSTX_CMD_RAW_REPEAT OR of_int k) # d # ws) = replicate (nat k) (Raw d) @ expand r ws"
proof -
  let ?w = "of_int k :: u32"
  have m: "(0xFFF :: u32) = mask 12" by (simp add: mask_eq_exp_minus_1)
  have w: "?w AND 0xFFF = ?w" and n: "unat ?w = nat k"
  proof -
    show n: "unat ?w = nat k" using assms by (simp add: unsigned_of_int take_bit_int_eq_self unsigned_word_eqI)
    have "unat (?w AND mask 12) = unat ?w" unfolding unat_and_mask n using assms by simp
    then show "?w AND 0xFFF = ?w" unfolding m by (rule unsigned_word_eqI)
  qed
  have "(HSTX_CMD_RAW_REPEAT OR ?w) AND 0xFFF = ?w"
    using w by (simp add: HSTX_CMD_RAW_REPEAT_def bit.conj_disj_distrib2)
  moreover have "?w AND 0xF000 = 0"
  proof -
    have "?w AND 0xF000 = (?w AND 0xFFF) AND 0xF000" by (simp only: w)
    also have "\<dots> = ?w AND (0xFFF AND 0xF000)" by (rule and.assoc)
    finally show ?thesis by simp
  qed
  then have "(HSTX_CMD_RAW_REPEAT OR ?w) AND 0xF000 = HSTX_CMD_RAW_REPEAT"
    by (simp add: HSTX_CMD_RAW_REPEAT_def bit.conj_disj_distrib2)
  ultimately show ?thesis using n by (simp add: Let_def)
qed

lemma quarters: "(n :: int) div 4 + ((n + 1) div 4 + ((n + 2) div 4 + (n + 3) div 4)) = n"
proof -
  define q r where "q = n div 4" and "r = n mod 4"
  have n: "n = 4 * q + r" by (simp add: q_def r_def)
  have "0 \<le> r" "r < 4" by (simp_all add: r_def)
  then have "r = 0 \<or> r = 1 \<or> r = 2 \<or> r = 3" by linarith
  then show ?thesis unfolding n by auto
qed

lemma separator_symbols:
  assumes "0 < n" "n < 2 ^ 12"
  shows "expand r (separator n d) = replicate (nat n) (Raw d)"
proof -
  have nop: "expand r (HSTX_CMD_NOP # ws) = expand r ws" for ws
    by (simp add: HSTX_CMD_NOP_def HSTX_CMD_RAW_REPEAT_def HSTX_CMD_TMDS_def)
  have two: "0 \<le> n div 2" "n div 2 < 2 ^ 12" "0 \<le> (n + 1) div 2" "(n + 1) div 2 < 2 ^ 12"
    and four: "0 \<le> n div 4" "n div 4 < 2 ^ 12" "0 \<le> (n + 1) div 4" "(n + 1) div 4 < 2 ^ 12" "0 \<le> (n + 2) div 4"
      "(n + 2) div 4 < 2 ^ 12" "0 \<le> (n + 3) div 4" "(n + 3) div 4 < 2 ^ 12"
    using assms by simp_all
  have halves: "n div 2 + (n + 1) div 2 = n" by presburger
  have one: "0 \<le> n" using assms(1) by simp
  consider "n < 4" | "\<not> n < 4" "n < 8" | "\<not> n < 4" "\<not> n < 8" by blast
  then show ?thesis
  proof cases
    case 1
    then show ?thesis by (simp only: separator_def Let_def if_True repeat_word [OF one assms(2)] expand.simps(1) append_Nil2)
  next
    case 2
    then show ?thesis
      by (simp only: separator_def Let_def if_True if_False repeat_word [OF two(1,2)] repeat_word [OF two(3,4)] expand.simps(1) append_Nil2
          replicate_add [symmetric] nat_add_distrib [OF two(1,3), symmetric] halves)
  next
    case 3
    have "nat (n div 4) + (nat ((n + 1) div 4) + (nat ((n + 2) div 4) + nat ((n + 3) div 4))) = nat n"
      using assms(1) quarters [of n] by (simp add: nat_add_distrib [symmetric])
    with 3 show ?thesis
      by (simp only: separator_def Let_def if_False repeat_word [OF four(1,2)] repeat_word [OF four(3,4)] repeat_word [OF four(5,6)]
          repeat_word [OF four(7,8)] nop expand.simps(1) append_Nil2 replicate_add [symmetric])
  qed
qed

text \<open>A strip that leaves a part of the line free gets it filled.\<close>

lemma strip_is_filled:
  assumes "st_slotnum st = 1" "strip_width st \<le> uint (vt_hactive vt)" "uint (vt_hactive vt) < 2 ^ 15"
  shows "strip_width (fill_strip vt st) = uint (vt_hactive vt)"
proof (cases "strip_width st = uint (vt_hactive vt)")
  case True
  then show ?thesis by (simp add: fill_strip_def)
next
  case False
  let ?s = "st_slot st 0" and ?w0 = "uint (vt_hactive vt)"
  let ?g = "sint (vs_gap_len ?s)"
  have w: "strip_width st = uint (vs_width ?s) + max 0 ?g" using assms(1) by (simp add: strip_width_def max_def)
  define d where "d = ?w0 - strip_width st"
  have d: "0 < d" "max 0 ?g + d < 2 ^ 15" using False assms(2,3) w uint_ge_0 [of "vs_width ?s"] unfolding d_def by linarith+
  have "fill_strip vt st = st\<lparr>st_slot := put_slot 0 (vs_gap_len_update (\<lambda>g. if sint g > 0 then g + of_int (?w0 - strip_width st)
      else of_int (?w0 - strip_width st))) (st_slot st)\<rparr>"
    using False assms(1,2) by (simp add: fill_strip_def Let_def DISPHSTX_SLOT_MAX_def)
  then have "fill_strip vt st = st\<lparr>st_slot := put_slot 0 (vs_gap_len_update (\<lambda>g. if sint g > 0 then g + of_int d else of_int d)) (st_slot st)\<rparr>"
    by (simp only: d_def)
  moreover have "(if ?g > 0 then vs_gap_len ?s + of_int d else of_int d) = (of_int (max 0 ?g + d) :: 16 word)"
    by (simp add: max_def)
  moreover have "sint (of_int (max 0 ?g + d) :: 16 word) = max 0 ?g + d"
  proof -
    have "sint (of_int k :: 16 word) = k" if "0 \<le> k" "k < 2 ^ 15" for k
      using that by (simp add: signed_of_int signed_take_bit_int_eq_self)
    then show ?thesis using d by (metis add_nonneg_nonneg max.cobounded1 order_less_imp_le)
  qed
  ultimately have "strip_width (fill_strip vt st) = uint (vs_width ?s) + (max 0 ?g + d)"
    using d(1) assms(1) by (simp add: strip_width_def put_slot_def)
  then show ?thesis by (simp add: d_def w)
qed

text \<open>The command buffer of a strip has room for four commands to a slot and the two at the end.\<close>

definition DISPHSTX_DVI_ACMDLEN :: nat where
  "DISPHSTX_DVI_ACMDLEN = 4 * (4 * nat DISPHSTX_SLOT_MAX + 2)"

lemma prepared_slot_commands:
  "length (pr_cmd (prepare_slot k i p)) \<le> length (pr_cmd p) + 4 \<and> length (pr_cmd2 (prepare_slot k i p)) \<le> length (pr_cmd2 p) + 4"
proof -
  have "length (expander_cmd k slots i) \<le> 1" for slots
    by (simp add: expander_cmd_def Let_def split: option.split)
  moreover define c where "c = expander_cmd k ((pr_slot p)(i := prepare_registers (pr_slot p i))) i"
  ultimately have "length c \<le> 1" by simp
  then show ?thesis by (simp add: prepare_slot_def Let_def put_slot_def flip: c_def)
qed

lemma commands_fit:
  assumes "int (unat (st_slotnum st)) \<le> DISPHSTX_SLOT_MAX"
  shows "4 * length (st_cmd (prepare_strip vt k st)) \<le> DISPHSTX_DVI_ACMDLEN \<and> 4 * length (st_cmd2 (prepare_strip vt k st)) \<le> DISPHSTX_DVI_ACMDLEN"
proof -
  have "length (pr_cmd (fold (prepare_slot k) is p)) \<le> length (pr_cmd p) + 4 * length is \<and>
      length (pr_cmd2 (fold (prepare_slot k) is p)) \<le> length (pr_cmd2 p) + 4 * length is" for "is" p
  proof (induction "is" arbitrary: p)
    case (Cons i "is")
    then show ?case using Cons.IH [of "prepare_slot k i p"] prepared_slot_commands [of k i p] by (auto; linarith)
  qed simp
  from this [of "[0..<unat (st_slotnum st)]" "\<lparr>pr_render = 0, pr_render2 = RENDERLINE_SIZE * 2, pr_cmd = [], pr_cmd2 = [], pr_slot = st_slot st\<rparr>"]
  moreover have "unat (st_slotnum st) \<le> 1" using assms unfolding DISPHSTX_SLOT_MAX_def by linarith
  ultimately show ?thesis
    by (auto simp: prepare_strip_def Let_def DISPHSTX_DVI_ACMDLEN_def DISPHSTX_SLOT_MAX_def split: prod.split)
qed

section \<open>The prepared mode\<close>

text \<open>What the scan-out finds after \<open>display_init\<close> and the preparation.\<close>

definition text_cmds :: "nat \<Rightarrow> dma_cmd list" where
  "text_cmds off =
     [\<lparr>dc_ctrl = ctrl_regs, dc_write = Expand_shift, dc_count = 2, dc_read = Vactive_1 0 0 0\<rparr>, sync_cmd 1 (Vactive_1 0 0 2),
      \<lparr>dc_ctrl = \<lparr>ct_treq = Treq_hstx, ct_inc_read = True, ct_inc_write = False, ct_size = 4, ct_bswap = False\<rparr>,
        dc_write = Hstx_fifo, dc_count = 320, dc_read = Line_buffer off\<rparr>,
      sync_cmd 9 (Vactive_3 0), stop_cmd]"

abbreviation vga where "vga \<equiv> vmodetime_640x480_fast"

definition ready :: "vmode \<Rightarrow> bool" where
  "ready v \<longleftrightarrow>
     vm_vtime v = vga \<and> vm_stripnum v = 1 \<and>
     vm_vsync_off v = sync_line vga (hdmi_sync TMDS_CTRL_11) (hdmi_sync TMDS_CTRL_10) \<and>
     vm_vsync_on v = sync_line vga (hdmi_sync TMDS_CTRL_01) (hdmi_sync TMDS_CTRL_00) \<and>
     vm_vsync_blank v = blank_line vga (hdmi_sync TMDS_CTRL_11) (hdmi_sync TMDS_CTRL_10) \<and>
     vm_vsync_off_cmd v = [sync_cmd 6 Vsync_off, stop_cmd] \<and> vm_vsync_on_cmd v = [sync_cmd 6 Vsync_on, stop_cmd] \<and>
     vm_vsync_blank_cmd v = [sync_cmd 8 Vsync_blank, stop_cmd] \<and>
     (let st = vm_strip v 0; s = st_slot st 0 in
        st_height st = 480 \<and> st_slotnum st = 1 \<and> st_cmd st = text_cmds 0 \<and> st_cmd2 st = text_cmds 1292 \<and>
        st_vactive_3 st = hsync_suffix vga (hdmi_sync TMDS_CTRL_11) (hdmi_sync TMDS_CTRL_10) \<and>
        vs_vcolor s = ctext256_vcolor \<and> vs_w s = 640 \<and> vs_vdbl s = 1 \<and> vs_data_inx s = 11 \<and>
        vs_pal s = Palette_rgb565 \<and> vs_font s = Font_scanline \<and> vs_buf s = Cellbuf \<and>
        vs_vactive_1 s 0 = 0x02100100 \<and> vs_vactive_1 s 1 = vc_expand_tmds ctext256_vcolor \<and>
        vs_vactive_1 s 2 = HSTX_CMD_TMDS OR 640)"

lemma ready_updates [simp]:
  "ready (v\<lparr>vm_bufinx := b\<rparr>) = ready v" "ready (v\<lparr>vm_line := l\<rparr>) = ready v" "ready (v\<lparr>vm_bufnext := q\<rparr>) = ready v"
  by (simp_all add: ready_def)

lemma text_slot_width:
  assumes "st_slotnum st = 1" "st_slot st 0 = text_vslot s0"
  shows "fill_strip vmodetime_640x480_fast st = st"
proof -
  have "strip_width st = 640"
    using assms by (simp add: strip_width_def text_vslot_def)
  then show ?thesis by (simp add: fill_strip_def vmodetime_640x480_fast_def)
qed

lemma text_vslot_fields [simp]:
  "vs_vcolor (text_vslot s) = ctext256_vcolor" "vs_width (text_vslot s) = 640" "vs_w (text_vslot s) = 640"
  "vs_hdbl (text_vslot s) = 1" "vs_walign (text_vslot s) = WALIGN_32" "vs_format (text_vslot s) = DISPHSTX_FORMAT_CUSTOM"
  "vs_gap_len (text_vslot s) = 0" "vs_vdbl (text_vslot s) = 1" "vs_buf (text_vslot s) = Cellbuf"
  "vs_pal (text_vslot s) = Palette_rgb565" "vs_font (text_vslot s) = Font_scanline" "vs_vactive_1 (text_vslot s) = vs_vactive_1 s"
  by (simp_all add: text_vslot_def)

text \<open>The slot once its expander registers are worked out.\<close>

lemma text_slot_registers:
  fixes s0 :: vslot
  defines "s \<equiv> prepare_registers (text_vslot s0)"
  shows "vs_vactive_1 s = (vs_vactive_1 s0)(0 := 0x02100100, 1 := vc_expand_tmds ctext256_vcolor)"
    "data_count s = 320" "data_size s = 4" "ctrl_data s = ctrl_sync" "vs_w s = 640" "vs_width s = 640" "vs_vcolor s = ctext256_vcolor"
    "vs_format s = DISPHSTX_FORMAT_CUSTOM" "vs_gap_len s = 0"
proof -
  have c: "slot_colbits s = 16" "slot_colbits (text_vslot s0) = 16" by (simp_all add: s_def slot_colbits_def prepare_registers_def)
  have "(2 :: int) AND 31 = 2" by code_simp
  then have "expand_shift_word (text_vslot s0) = 0x02100100"
    by (simp add: expand_shift_word_def c)
  then show "vs_vactive_1 s = (vs_vactive_1 s0)(0 := 0x02100100, 1 := vc_expand_tmds ctext256_vcolor)"
    by (simp add: s_def prepare_registers_def)
  show "data_count s = 320" "data_size s = 4" "ctrl_data s = ctrl_sync"
    by (simp_all add: data_count_def data_size_def ctrl_data_def ctrl_sync_def c) (simp_all add: s_def prepare_registers_def)
  show "vs_w s = 640" "vs_width s = 640" "vs_vcolor s = ctext256_vcolor" "vs_format s = DISPHSTX_FORMAT_CUSTOM" "vs_gap_len s = 0"
    by (simp_all add: s_def prepare_registers_def)
qed

lemma prepare_text_slot:
  fixes s0 :: vslot and slots :: "vslot arr" and p
  defines "p \<equiv> prepare_slot 0 0 \<lparr>pr_render = 0, pr_render2 = 1292, pr_cmd = [], pr_cmd2 = [], pr_slot = slots\<rparr>"
  assumes "slots 0 = text_vslot s0"
  shows "pr_cmd p = butlast (butlast (text_cmds 0)) \<and> pr_cmd2 p = butlast (butlast (text_cmds 1292)) \<and>
    pr_slot p 0 = (text_vslot s0)\<lparr>vs_vactive_1 := (vs_vactive_1 s0)(0 := 0x02100100, 1 := vc_expand_tmds ctext256_vcolor,
      2 := HSTX_CMD_TMDS OR 640), vs_data_inx := 11\<rparr>"
proof -
  have "expander_cmd 0 (put_slot 0 prepare_registers slots) 0 = [hd (text_cmds 0)]"
    using assms(2) by (simp add: expander_cmd_def put_slot_def text_slot_registers DISPHSTX_FORMAT_NONE_def DISPHSTX_FORMAT_CUSTOM_def text_cmds_def)
  moreover have "[hd (text_cmds 0)] = [hd (text_cmds 1292)]" by (simp add: text_cmds_def)
  moreover have "prepare_registers x\<lparr>vs_vactive_1 := f\<rparr> = x\<lparr>vs_vactive_1 := f\<rparr>" for x :: vslot and f
    by (simp add: prepare_registers_def)
  ultimately show ?thesis
    using assms(2) by (simp add: p_def prepare_slot_def Let_def put_slot_def text_slot_registers text_cmds_def ctrl_sync_def sync_cmd_def)
qed

lemma text_mode_ready:
  assumes "vm_vtime v = vmodetime_640x480_fast" "vm_stripnum v = 1" "st_height (vm_strip v 0) = 480" "st_slotnum (vm_strip v 0) = 1"
    "st_slot (vm_strip v 0) 0 = text_vslot s0"
  shows "ready (DispHstxDviPrepare v)"
proof -
  have pol: "sync_words vmodetime_640x480_fast = (hdmi_sync TMDS_CTRL_11, hdmi_sync TMDS_CTRL_10, hdmi_sync TMDS_CTRL_01, hdmi_sync TMDS_CTRL_00)"
    by (simp add: sync_words_def vmodetime_640x480_fast_def)
  have r: "RENDERLINE_SIZE * 2 = 1292" by (simp add: RENDERLINE_SIZE_def DISPHSTX_WIDTHMAX_def DISPHSTX_SLOT_MAX_def)
  note p = prepare_text_slot [of "st_slot (vm_strip v 0)" s0, OF assms(5)]
  have cmds: "butlast (butlast (text_cmds off)) @ [sync_cmd 9 (Vactive_3 0), stop_cmd] = text_cmds off" for off
    by (simp add: text_cmds_def)
  have "DispHstxPrePrepare v = v"
    using assms text_slot_width [OF assms(4,5)] by (simp add: DispHstxPrePrepare_def)
  then show ?thesis
    using p assms(1-4) by (simp add: DispHstxDviPrepare_def pol prepare_strip_def ready_def r cmds Let_def)
qed

section \<open>Lines on the wire\<close>

definition porches :: "vtime \<Rightarrow> u32 \<Rightarrow> u32 \<Rightarrow> symbol list" where
  "porches vt idle hsync = replicate (unat (vt_hfront vt)) (Raw idle) @ replicate (unat (vt_hsync vt)) (Raw hsync) @
     replicate (unat (vt_hback vt)) (Raw idle)"

definition sync_symbols :: "u32 \<Rightarrow> u32 \<Rightarrow> symbol list" where
  "sync_symbols idle hsync = replicate 640 (Raw idle) @ porches vga idle hsync"

definition black_symbols :: "symbol list" where
  "black_symbols = replicate 640 (Raw HDMI_BLACK) @ porches vga (hdmi_sync TMDS_CTRL_11) (hdmi_sync TMDS_CTRL_10)"

definition picture_symbols :: "(nat \<Rightarrow> u16) \<Rightarrow> symbol list" where
  "picture_symbols colour = map (\<lambda>x. colour_symbol (colour x)) [0..<640] @ porches vga (hdmi_sync TMDS_CTRL_11) (hdmi_sync TMDS_CTRL_10)"

lemma cmd_bits:
  "HSTX_CMD_RAW_REPEAT OR 640 = 0x1280" "HSTX_CMD_RAW_REPEAT OR 656 = 0x1290" "HSTX_CMD_RAW_REPEAT OR 16 = 0x1010"
  "HSTX_CMD_RAW_REPEAT OR 96 = 0x1060" "HSTX_CMD_RAW_REPEAT OR 48 = 0x1030" "HSTX_CMD_TMDS OR 640 = 0x2280"
  by (simp_all add: HSTX_CMD_RAW_REPEAT_def HSTX_CMD_TMDS_def)

lemma expand_steps:
  "c AND 0xF000 = 0x1000 \<Longrightarrow> expand r (c # d # ws) = replicate (unat (c AND 0xFFF)) (Raw d) @ expand r ws"
  "expand r (HSTX_CMD_NOP # ws) = expand r ws"
  "expand (0x02100100, tm) (0x2280 # ws) = map (tmds_symbol (0x02100100, tm) ws) [0..<640] @ expand (0x02100100, tm) (drop 320 ws)"
  by (simp_all add: HSTX_CMD_RAW_REPEAT_def HSTX_CMD_NOP_def HSTX_CMD_TMDS_def)

lemma vga_words:
  "raw_repeat (vt_hactive vga) = 0x1280" "raw_repeat (vt_hfront vga) = 0x1010" "raw_repeat (vt_hsync vga) = 0x1060"
  "raw_repeat (vt_hback vga) = 0x1030" "HSTX_CMD_RAW_REPEAT OR (ucast (vt_hactive vga) + ucast (vt_hfront vga)) = 0x1290"
  "unat (vt_hfront vga) = 16" "unat (vt_hsync vga) = 96" "unat (vt_hback vga) = 48"
  by (simp_all add: vmodetime_640x480_fast_def raw_repeat_def HSTX_CMD_RAW_REPEAT_def)

lemma expand_porches:
  "expand r (hsync_suffix vga idle hsync) = porches vga idle hsync"
  by (simp add: hsync_suffix_def vga_words expand_steps porches_def del: expand.simps(2))

lemma wire_sync:
  assumes "ready v"
  shows "on_wire v m Off_cmd = sync_symbols (hdmi_sync TMDS_CTRL_11) (hdmi_sync TMDS_CTRL_10)"
    "on_wire v m On_cmd = sync_symbols (hdmi_sync TMDS_CTRL_01) (hdmi_sync TMDS_CTRL_00)"
    "on_wire v m Blank_cmd = black_symbols"
proof -
  have "expand r (sync_line vga idle hsync) = sync_symbols idle hsync" for r idle hsync
  proof -
    have "replicate 656 (Raw idle) = replicate 640 (Raw idle) @ replicate 16 (Raw idle)" by (simp flip: replicate_add)
    then show ?thesis
      by (simp add: sync_line_def vga_words expand_steps sync_symbols_def porches_def del: expand.simps(2))
  qed
  moreover have "expand r (blank_line vga (hdmi_sync TMDS_CTRL_11) (hdmi_sync TMDS_CTRL_10)) = black_symbols" for r
    by (simp add: blank_line_def vga_words expand_steps black_symbols_def porches_def del: expand.simps(2))
  moreover have "length (sync_line vga idle hsync) = 6" "length (blank_line vga idle hsync) = 8" for idle hsync
    by (simp_all add: sync_line_def blank_line_def)
  ultimately show "on_wire v m Off_cmd = sync_symbols (hdmi_sync TMDS_CTRL_11) (hdmi_sync TMDS_CTRL_10)"
    "on_wire v m On_cmd = sync_symbols (hdmi_sync TMDS_CTRL_01) (hdmi_sync TMDS_CTRL_00)"
    "on_wire v m Blank_cmd = black_symbols"
    using assms by (simp_all add: on_wire_def ready_def ptr_cmds_def dma_words_def sync_cmd_def stop_cmd_def Let_def)
qed

lemma pixel_symbol:
  assumes "x < 640" "320 \<le> length ws"
  shows "tmds_symbol (0x02100100, vc_expand_tmds ctext256_vcolor) ws x = colour_symbol (pixel ws x)"
proof -
  have "(ucast (word_rotr 16 w) :: u16) = ucast (drop_bit 16 w)" for w :: u32
    by (rule bit_word_eqI) (simp add: bit_ucast_iff bit_word_rotr_iff bit_drop_bit_eq add.commute)
  moreover have "word_rotr 0 w = w" for w :: u32
    by (rule bit_word_eqI) (simp add: bit_word_rotr_iff)
  ultimately have "(ucast (word_rotr (16 * (x mod 2)) (ws ! (x div 2))) :: u16) = pixel ws x"
    by (cases "even x") (simp_all add: pixel_def odd_iff_mod_2_eq_one even_iff_mod_2_eq_zero)
  with lanes_rgb565 [of "word_rotr (16 * (x mod 2)) (ws ! (x div 2))"] show ?thesis by (simp add: tmds_symbol_def Let_def)
qed

lemma wire_active:
  assumes "ready v" "b < 2"
  shows "on_wire v m (Active_cmd 0 b) = picture_symbols (pixel (map m [323 * b..<323 * b + 320]))"
proof -
  let ?ws = "map m [323 * b..<323 * b + 320]" and ?tm = "vc_expand_tmds ctext256_vcolor"
  let ?suffix = "hsync_suffix vga (hdmi_sync TMDS_CTRL_11) (hdmi_sync TMDS_CTRL_10)"
  have off: "strip_cmds (vm_strip v 0) b = text_cmds (1292 * b)"
    using assms by (auto simp: ready_def strip_cmds_def Let_def less_2_cases_iff)
  have l: "length ?suffix = 9" by (simp add: hsync_suffix_def)
  have "run_cmds v m (text_cmds (1292 * b)) (0, 0) = ((0x02100100, ?tm), 0x2280 # ?ws @ ?suffix)"
  proof -
    have "1292 * b div 4 = 323 * b" by simp
    then show ?thesis
      using assms l by (simp add: text_cmds_def ready_def dma_words_def sync_cmd_def stop_cmd_def Let_def cmd_bits)
  qed
  then have "on_wire v m (Active_cmd 0 b) = expand (0x02100100, ?tm) (0x2280 # ?ws @ ?suffix)"
    by (simp add: on_wire_def ptr_cmds_def off)
  also have "\<dots> = map (tmds_symbol (0x02100100, ?tm) (?ws @ ?suffix)) [0..<640] @ expand (0x02100100, ?tm) ?suffix"
    by (simp add: expand_steps del: expand.simps(2))
  also have "map (tmds_symbol (0x02100100, ?tm) (?ws @ ?suffix)) [0..<640] = map (\<lambda>x. colour_symbol (pixel ?ws x)) [0..<640]"
  proof (rule map_cong [OF refl])
    fix x assume "x \<in> set [0..<640]"
    then have x: "x < 640" "x div 2 < 320" by auto
    have "pixel (?ws @ ?suffix) x = pixel ?ws x" using x by (simp add: pixel_def nth_append)
    then show "tmds_symbol (0x02100100, ?tm) (?ws @ ?suffix) x = colour_symbol (pixel ?ws x)"
      using x(1) by (simp add: pixel_symbol)
  qed
  finally show ?thesis by (simp add: picture_symbols_def expand_porches)
qed

section \<open>Frames\<close>

text \<open>The mode after any number of interrupts, each with what its renderer found.\<close>

primrec scan_run :: "(nat \<Rightarrow> seen) \<Rightarrow> scan \<Rightarrow> nat \<Rightarrow> scan" where
  "scan_run env s 0 = DispHstxDviInit (env 0) s"
| "scan_run env s (Suc k) = DispHstxDviIrqHandler (env (Suc k)) (scan_run env s k)"

definition line_ptr :: "nat \<Rightarrow> nat \<Rightarrow> cmd_ptr" where
  "line_ptr line b = (if line < 480 then Active_cmd 0 b else if 490 \<le> line \<and> line < 492 then On_cmd else Off_cmd)"

definition picture_line :: "seen \<Rightarrow> nat \<Rightarrow> u32 list" where
  "picture_line e line = render_ctext256 (sn_time e) (sn_textmode e) (sn_halves e Palette_rgb565) (sn_bytes e Font_scanline)
     (sn_bytes e Cellbuf) (int line)"

lemma length_picture_line [simp]: "length (picture_line e line) = 320"
  using line_pixels [of 0 "sn_time e" "sn_textmode e" "sn_halves e Palette_rgb565" "sn_bytes e Font_scanline" "sn_bytes e Cellbuf" "int line"]
  by (simp add: picture_line_def Let_def)

definition scanning :: "nat \<Rightarrow> scan \<Rightarrow> bool" where
  "scanning n s \<longleftrightarrow> ready (sc_mode s) \<and> uint (vm_line (sc_mode s)) = int (n mod 525) \<and> unat (vm_bufinx (sc_mode s)) = n mod 2"

lemma ready_active:
  assumes "ready v" "b < 2" "line < 480"
  shows "active_line e v b [0..<unat (vm_stripnum v)] (int line) m = (Active_cmd 0 b, put_words (323 * b) (picture_line e line) m)"
proof -
  have "strip_cmds (vm_strip v 0) b = text_cmds (1292 * b)" "1292 * b div 4 = 323 * b"
    using assms by (auto simp: ready_def strip_cmds_def Let_def less_2_cases_iff)
  then show ?thesis
    using assms by (simp add: ready_def Let_def render_slots_def render_dvi_def text_cmds_def picture_line_def)
qed

lemma irq_step:
  fixes e :: seen and s :: scan
  assumes "scanning n s"
  defines "s' \<equiv> DispHstxDviIrqHandler e s" and "b \<equiv> Suc n mod 2" and "line \<equiv> Suc n mod 525"
  shows "scanning (Suc n) s'" "sc_started s' = vm_bufnext (sc_mode s)" "vm_bufnext (sc_mode s') = line_ptr line b"
    "sc_frame s' = sc_frame s + (if line = 0 then 1 else 0)"
    "sc_lines s' = (if line < 480 then put_words (323 * b) (picture_line e line) (sc_lines s) else sc_lines s)"
proof -
  let ?v = "sc_mode s"
  let ?v1 = "?v\<lparr>vm_bufinx := vm_bufinx ?v XOR 1, vm_line := of_nat line\<rparr>"
  have r: "ready ?v" and l: "uint (vm_line ?v) = int (n mod 525)" and bx: "unat (vm_bufinx ?v) = n mod 2"
    using assms(1) by (simp_all add: scanning_def)
  have b: "unat (vm_bufinx ?v XOR 1) = b"
  proof (cases "even n")
    case True
    then have "vm_bufinx ?v = 0" using bx by (simp add: unat_eq_0 even_iff_mod_2_eq_zero)
    then show ?thesis using True by (simp add: b_def mod_Suc even_iff_mod_2_eq_zero)
  next
    case False
    then have "unat (vm_bufinx ?v) = 1" using bx by (simp add: odd_iff_mod_2_eq_one)
    then have "vm_bufinx ?v = 1" by (metis unat_1 word_unat_eq_iff)
    then show ?thesis using False by (simp add: b_def mod_Suc odd_iff_mod_2_eq_one)
  qed
  have line: "(if uint (vm_line ?v) + 1 \<ge> 525 then (0, f + 1) else (uint (vm_line ?v) + 1, f)) =
      (int line, f + (if line = 0 then 1 else 0))" for f :: u32
    unfolding l by (auto simp: line_def mod_Suc)
  have lt: "line < 525" by (simp add: line_def)
  have vt: "uint (vt_vtotal vga) = 525" "uint (vt_vactive vga) = 480" "uint (vt_vfront vga) = 10" "uint (vt_vback vga) = 33"
    by (simp_all add: vmodetime_640x480_fast_def)
  have r1: "ready ?v1" "ready (?v1\<lparr>vm_bufnext := line_ptr line b\<rparr>)" using r by simp_all
  have s': "s' = s\<lparr>sc_started := vm_bufnext ?v, sc_mode := ?v1\<lparr>vm_bufnext := line_ptr line b\<rparr>,
      sc_frame := sc_frame s + (if line = 0 then 1 else 0),
      sc_lines := (if line < 480 then put_words (323 * b) (picture_line e line) (sc_lines s) else sc_lines s)\<rparr>"
  proof -
    have "b < 2" by (simp add: b_def)
    note act = ready_active [OF r1(1) this, of line e "sc_lines s"]
    have vm: "vm_vtime ?v = vga" using r by (simp add: ready_def)
    show ?thesis
      unfolding s'_def DispHstxDviIrqHandler_def Let_def vm vt line
      using act by (auto simp: b line_ptr_def)
  qed
  have u: "uint (of_nat line :: u16) = int line" using lt by (simp add: uint_nat unat_of_nat_small)
  show "scanning (Suc n) s'"
    using r1(2) u b by (simp add: s' scanning_def flip: line_def b_def)
  show "sc_started s' = vm_bufnext (sc_mode s)" "vm_bufnext (sc_mode s') = line_ptr line b"
    "sc_frame s' = sc_frame s + (if line = 0 then 1 else 0)"
    "sc_lines s' = (if line < 480 then put_words (323 * b) (picture_line e line) (sc_lines s) else sc_lines s)"
    by (simp_all add: s')
qed

text \<open>
  After interrupt \<open>k\<close> the line \<open>k\<close> is under way, and the next is in the other half of the buffer.
\<close>

definition next_ready :: "(nat \<Rightarrow> seen) \<Rightarrow> nat \<Rightarrow> scan \<Rightarrow> bool" where
  "next_ready env k s \<longleftrightarrow>
     (let line = Suc k mod 525; b = Suc k mod 2 in
        vm_bufnext (sc_mode s) = line_ptr line b \<and>
        (line < 480 \<longrightarrow> map (sc_lines s) [323 * b..<323 * b + 320] = picture_line (env k) line))"

lemma map_put_words:
  "length ws = n \<Longrightarrow> map (put_words off ws m) [off..<off + n] = ws"
  by (rule nth_equalityI) (simp_all add: put_words_def)

lemma irq_next_ready:
  assumes "scanning k s"
  shows "next_ready env k (DispHstxDviIrqHandler (env k) s)"
  using irq_step [OF assms, of "env k"] by (simp add: next_ready_def Let_def map_put_words)

lemma run_scanning:
  assumes "ready (DispHstxDviPrepare (sc_mode s0))"
  shows "scanning (Suc k) (scan_run env s0 k) \<and> next_ready env k (scan_run env s0 k) \<and>
    sc_frame (scan_run env s0 k) = sc_frame s0 + of_nat (Suc k div 525)"
proof (induction k)
  case 0
  let ?s = "s0\<lparr>sc_mode := (DispHstxDviPrepare (sc_mode s0))\<lparr>vm_line := 0, vm_bufnext := Blank_cmd, vm_bufinx := 0\<rparr>\<rparr>"
  have "scanning 0 ?s" using assms by (simp add: scanning_def)
  note st = irq_step [OF this, of "env 0"] irq_next_ready [OF this, of env]
  show ?case using st by (simp add: DispHstxDviInit_def)
next
  case (Suc k)
  then have sc: "scanning (Suc k) (scan_run env s0 k)" by simp
  note st = irq_step [OF sc, of "env (Suc k)"] irq_next_ready [OF sc, of env]
  have "Suc (Suc k) div 525 = Suc k div 525 + (if Suc (Suc k) mod 525 = 0 then 1 else 0)"
    by (simp add: div_Suc)
  then show ?case using st Suc.IH by simp
qed

definition shown :: "seen \<Rightarrow> nat \<Rightarrow> nat \<Rightarrow> u16" where
  "shown e line x =
     (let y = line - 40; row = y div 16; col = x div 8; c = screen (sn_bytes e Cellbuf) row col;
          lit = pixel_lit (sn_textmode e) (bit (sn_time e) 19) (sn_bytes e Font_scanline) c row col (y mod 16) (x mod 8)
      in if line < 40 \<or> 440 \<le> line then 0
         else sn_halves e Palette_rgb565 (unat (if lit \<longleftrightarrow> c_attr c AND ATTR_INVERSE = 0 then c_fg c else c_bg c)))"

lemma picture_line_shows: "x < 640 \<Longrightarrow> pixel (picture_line e line) x = shown e line x"
  using line_pixels [of x "sn_time e" "sn_textmode e" "sn_halves e Palette_rgb565" "sn_bytes e Font_scanline" "sn_bytes e Cellbuf" "int line"]
  by (auto simp: picture_line_def shown_def Let_def nat_diff_distrib)

lemma display_ready:
  assumes "snd (display_init malloc bmp d) = d'"
  shows "ready (DispHstxDviPrepare (di_mode d'))"
  using assms unfolding display_init_mode by (auto intro!: text_mode_ready)

lemma first_started: "sc_started (scan_run env s 0) = Blank_cmd"
  by (simp add: DispHstxDviInit_def DispHstxDviIrqHandler_def Let_def split: prod.split)

text \<open>The line under way is not touched by the renderer of the next one.\<close>

lemma other_half:
  assumes "scanning k s" "i \<in> {323 * (k mod 2)..<323 * (k mod 2) + 320}"
  shows "sc_lines (DispHstxDviIrqHandler e s) i = sc_lines s i"
  using irq_step(5) [OF assms(1), of e] assms(2) by (auto simp: put_words_def mod_Suc)

lemma line_on_wire:
  assumes "scanning k s" "next_ready env j s" "k = Suc j" "s' = DispHstxDviIrqHandler e s" "\<forall>i. m i = sc_lines s' i \<or> m i = sc_lines s i"
  shows "on_wire (sc_mode s') m (sc_started s') =
    (if k mod 525 < 480 then picture_symbols (shown (env j) (k mod 525))
     else if 490 \<le> k mod 525 \<and> k mod 525 < 492 then sync_symbols (hdmi_sync TMDS_CTRL_01) (hdmi_sync TMDS_CTRL_00)
     else sync_symbols (hdmi_sync TMDS_CTRL_11) (hdmi_sync TMDS_CTRL_10))"
proof -
  let ?line = "k mod 525" and ?b = "k mod 2"
  have r: "ready (sc_mode s')" using irq_step(1) [OF assms(1), of e] by (simp add: assms(4) scanning_def)
  have st: "sc_started s' = line_ptr ?line ?b"
    using irq_step(2) [OF assms(1), of e] assms(2-4) by (simp add: next_ready_def Let_def)
  show ?thesis
  proof (cases "?line < 480")
    case True
    have "m i = sc_lines s i" if "i \<in> {323 * ?b..<323 * ?b + 320}" for i
      using spec [OF assms(5), of i] other_half [OF assms(1) that, of e] assms(4) by auto
    then have "map m [323 * ?b..<323 * ?b + 320] = map (sc_lines s) [323 * ?b..<323 * ?b + 320]" by simp
    also have "\<dots> = picture_line (env j) ?line"
      using assms(2,3) True by (simp add: next_ready_def Let_def)
    finally have "on_wire (sc_mode s') m (sc_started s') = picture_symbols (pixel (picture_line (env j) ?line))"
      using wire_active [OF r, of ?b m] True by (simp add: st line_ptr_def)
    moreover have "picture_symbols (pixel (picture_line (env j) ?line)) = picture_symbols (shown (env j) ?line)"
      by (simp add: picture_symbols_def picture_line_shows)
    ultimately show ?thesis using True by simp
  next
    case False
    then show ?thesis using wire_sync [OF r, of m] unfolding st line_ptr_def by simp
  qed
qed

text \<open>C6: The picture reaches the cable: after \<open>display_init\<close>, the scan-out sends line after line, 525 of them to a
  frame, for ever, and each is 800 symbols long.  A line of the picture consists of the colours that the cells,
  the cursor and the palette call for at the moment the line is rendered, which is while the line
  before is sent, then of the porches and the pulse of the horizontal sync; lines 490 and 491 carry the
  vertical sync, and the lines around them nothing.  What is sent does not depend on how far the renderer has
  got with the next line, for that goes to the other half of the buffer.  The frames are counted.\<close>

theorem every_line_is_scanned_out:
  assumes "snd (display_init malloc bmp d) = d'" "sc_mode s0 = di_mode d'"
    "\<forall>i. m i = sc_lines (scan_run env s0 k) i \<or> 0 < k \<and> m i = sc_lines (scan_run env s0 (k - 1)) i"
  shows "let s = scan_run env s0 k; line = k mod 525; symbols = on_wire (sc_mode s) m (sc_started s) in
    length symbols = 800 \<and> sc_frame s = sc_frame s0 + of_nat (Suc k div 525) \<and>
    symbols = (if k = 0 then black_symbols
               else if line < 480 then picture_symbols (shown (env (k - 1)) line)
               else if 490 \<le> line \<and> line < 492 then sync_symbols (hdmi_sync TMDS_CTRL_01) (hdmi_sync TMDS_CTRL_00)
               else sync_symbols (hdmi_sync TMDS_CTRL_11) (hdmi_sync TMDS_CTRL_10))"
proof -
  let ?s = "scan_run env s0 k"
  from display_ready [OF assms(1)] have ready: "ready (DispHstxDviPrepare (sc_mode s0))" by (simp add: assms(2))
  note now = run_scanning [OF ready, of _ env]
  have symbols: "on_wire (sc_mode ?s) m (sc_started ?s) = (if k = 0 then black_symbols
      else if k mod 525 < 480 then picture_symbols (shown (env (k - 1)) (k mod 525))
      else if 490 \<le> k mod 525 \<and> k mod 525 < 492 then sync_symbols (hdmi_sync TMDS_CTRL_01) (hdmi_sync TMDS_CTRL_00)
      else sync_symbols (hdmi_sync TMDS_CTRL_11) (hdmi_sync TMDS_CTRL_10))"
  proof (cases k)
    case 0
    then show ?thesis
      using wire_sync(3) [of "sc_mode ?s" m] now [of k] first_started [of env s0] by (simp add: scanning_def del: scan_run.simps)
  next
    case (Suc j)
    then show ?thesis using line_on_wire [OF _ _ Suc, of "scan_run env s0 j" env ?s "env k" m] now [of j] assms(3) by simp
  qed
  have "length (on_wire (sc_mode ?s) m (sc_started ?s)) = 800"
    unfolding symbols by (simp add: black_symbols_def picture_symbols_def sync_symbols_def porches_def vga_words)
  then show ?thesis using symbols now [of k] by (simp add: Let_def)
qed

definition demo_seen :: seen where
  "demo_seen = \<lparr>sn_time = 0, sn_textmode = \<lparr>tm_cur_col = 0, tm_cur_row = 0, tm_cur_visible = False, tm_cur_beg = 14, tm_cur_end = 15\<rparr>,
     sn_bytes = (\<lambda>_ _. 0x41), sn_halves = (\<lambda>_ i. of_nat i)\<rparr>"

definition demo_slot :: vslot where
  "demo_slot = \<lparr>vs_format = 0, vs_walign = WALIGN_32, vs_curpos = 0, vs_currow = 0, vs_curbeg = 0, vs_curend = 0, vs_curspeed = 0,
     vs_fonth = 0, vs_data_inx = 0, vs_width = 0, vs_hdbl = 0, vs_w = 0, vs_pitch = 0, vs_vdbl = 0, vs_lines = 0, vs_h = 0,
     vs_gap_col = 0, vs_gap_len = 0, vs_buf = Null, vs_pal = Null, vs_palvga = Null, vs_font = Null, vs_vactive_1 = (\<lambda>_. 0),
     vs_vactive_2 = [], vs_vcolor = no_vcolor\<rparr>"

definition demo_mode :: vmode where
  "demo_mode = \<lparr>vm_stripnum = 0, vm_bufinx = 0, vm_line = 0, vm_bufnext = Off_cmd, vm_vsync_off = [], vm_vsync_off_cmd = [],
     vm_vsync_on = [], vm_vsync_on_cmd = [], vm_vsync_blank = [], vm_vsync_blank_cmd = [], vm_vtime = vga,
     vm_strip = (\<lambda>_. \<lparr>st_height = 0, st_slotnum = 0, st_vactive_3 = [], st_cmd = [], st_cmd2 = [], st_slot = (\<lambda>_. demo_slot)\<rparr>)\<rparr>"

definition demo_display :: display where
  "demo_display = \<lparr>di_palette = (\<lambda>_. 0), di_font = (\<lambda>_. 0), di_cells = (\<lambda>_. 0), di_custom = no_vcolor, di_mode = demo_mode\<rparr>"

definition demo_scan :: scan where
  "demo_scan = \<lparr>sc_mode = di_mode (snd (display_init (\<lambda>_ _. Null) (\<lambda>_. 0) demo_display)), sc_frame = 0, sc_lines = (\<lambda>_. 0), sc_started = Off_cmd\<rparr>"

text \<open>A line of the picture in the second frame, and one of the vertical sync.\<close>

theorem every_line_is_scanned_out_witness:
  "(let s = scan_run (\<lambda>_. demo_seen) demo_scan 625 in sc_frame s = 1 \<and>
      on_wire (sc_mode s) (sc_lines s) (sc_started s) = picture_symbols (shown demo_seen 100)) \<and>
   (let s = scan_run (\<lambda>_. demo_seen) demo_scan 490 in
      on_wire (sc_mode s) (sc_lines s) (sc_started s) = sync_symbols (hdmi_sync TMDS_CTRL_01) (hdmi_sync TMDS_CTRL_00))"
proof -
  have d: "snd (display_init (\<lambda>_ _. Null) (\<lambda>_. 0) demo_display) = snd (display_init (\<lambda>_ _. Null) (\<lambda>_. 0) demo_display)"
    "sc_mode demo_scan = di_mode (snd (display_init (\<lambda>_ _. Null) (\<lambda>_. 0) demo_display))" "sc_frame demo_scan = 0"
    by (simp_all add: demo_scan_def)
  let ?run = "scan_run (\<lambda>_. demo_seen) demo_scan"
  have "\<forall>i. sc_lines (?run k) i = sc_lines (?run k) i \<or> 0 < k \<and> sc_lines (?run k) i = sc_lines (?run (k - 1)) i" for k by simp
  note line = every_line_is_scanned_out [OF d(1,2) this]
  show ?thesis using line [of 625] line [of 490] by (simp add: Let_def d(3))
qed

end
