(* ===== verification/Server.thy ===== *)
theory Server
  imports Storage Display Input
begin

text \<open>
  \<open>firmware/master-ioserver/src/main.c\<close>: the master's side of the inter-chip link.  One pass of
  the main loop is \<open>main_pass\<close>, a function of what the pass meets; the wire format is that of
  \<open>common/link_blk.h\<close>.
\<close>

section \<open>Wire format\<close>

definition LINK_BLK_MAGIC :: u32 where "LINK_BLK_MAGIC = 0x4b4c4246"
definition LINK_BLK_SECTOR :: u32 where "LINK_BLK_SECTOR = 512"
definition LINK_BLK_MAX_SECTORS :: u32 where "LINK_BLK_MAX_SECTORS = 8"
definition LINK_BLK_OP_READ :: u32 where "LINK_BLK_OP_READ = 0"
definition LINK_BLK_OP_WRITE :: u32 where "LINK_BLK_OP_WRITE = 1"
definition LINK_BLK_OP_INFO :: u32 where "LINK_BLK_OP_INFO = 2"
definition LINK_BLK_OP_CON :: u32 where "LINK_BLK_OP_CON = 3"
definition LINK_CON_MAX_TX :: u32 where "LINK_CON_MAX_TX = 512"
definition LINK_CON_MAX_KEYS :: nat where "LINK_CON_MAX_KEYS = 32"

lemmas link_consts = LINK_BLK_MAGIC_def LINK_BLK_SECTOR_def LINK_BLK_MAX_SECTORS_def
  LINK_BLK_OP_READ_def LINK_BLK_OP_WRITE_def LINK_BLK_OP_INFO_def LINK_BLK_OP_CON_def
  LINK_CON_MAX_TX_def LINK_CON_MAX_KEYS_def

record link_blk_req =
  rq_magic :: u32
  rq_op :: u32
  rq_lba :: u32
  rq_count :: u32

text \<open>The status is a signed 32-bit integer.\<close>

record link_blk_rsp =
  rs_status :: u32
  rs_value :: u32

text \<open>The packed structures as the bytes of a frame.\<close>

definition req_bytes :: "link_blk_req \<Rightarrow> u8 list" where
  "req_bytes r = le32 (rq_magic r) @ le32 (rq_op r) @ le32 (rq_lba r) @ le32 (rq_count r)"

definition req_of_bytes :: "u8 list \<Rightarrow> link_blk_req" where
  "req_of_bytes bs = \<lparr>rq_magic = un_le32 bs, rq_op = un_le32 (drop 4 bs), rq_lba = un_le32 (drop 8 bs),
     rq_count = un_le32 (drop 12 bs)\<rparr>"

definition rsp_bytes :: "link_blk_rsp \<Rightarrow> u8 list" where
  "rsp_bytes r = le32 (rs_status r) @ le32 (rs_value r)"

definition rsp_of_bytes :: "u8 list \<Rightarrow> link_blk_rsp" where
  "rsp_of_bytes bs = \<lparr>rs_status = un_le32 bs, rs_value = un_le32 (drop 4 bs)\<rparr>"

lemma un_le32_le32_only [simp]: "un_le32 (le32 v) = v"
  using un_le32_le32 [of v "[]"] by simp

lemma req_roundtrip: "req_of_bytes (req_bytes r) = r"
  by (simp add: req_of_bytes_def req_bytes_def)

lemma rsp_roundtrip: "rsp_of_bytes (rsp_bytes r @ bs) = r"
  by (simp add: rsp_of_bytes_def rsp_bytes_def)

lemma length_req_bytes [simp]: "length (req_bytes r) = 16"
  by (simp add: req_bytes_def)

lemma length_rsp_bytes [simp]: "length (rsp_bytes r) = 8"
  by (simp add: rsp_bytes_def)

section \<open>Requests\<close>

record 'd server =
  sv_store :: "'d storage"
  capacity_sectors :: u32
  sv_con :: console
  sv_screen :: screen_state
  console_rx_bytes :: u32
  served :: u32
  errors :: u32

abbreviation sv_term :: "'d server \<Rightarrow> terminal" where
  "sv_term s \<equiv> c_term (sv_con s)"

definition on_term :: "(terminal \<Rightarrow> terminal) \<Rightarrow> 'd server \<Rightarrow> 'd server" where
  "on_term f s = s\<lparr>sv_con := (sv_con s)\<lparr>c_term := f (sv_term s)\<rparr>\<rparr>"

definition do_request :: "link_blk_req \<Rightarrow> u32 \<Rightarrow> int" where
  "do_request req capacity =
     (if rq_magic req \<noteq> LINK_BLK_MAGIC then - 22
      else if rq_op req = LINK_BLK_OP_INFO then 0
      else if rq_op req = LINK_BLK_OP_CON then (if rq_count req \<le> LINK_CON_MAX_TX then 0 else - 22)
      else if rq_count req = 0 \<or> rq_count req > LINK_BLK_MAX_SECTORS then - 22
      else if rq_lba req + rq_count req > capacity then - 5
      else 0)"

definition request_bytes :: "link_blk_req \<Rightarrow> int \<Rightarrow> u32" where
  "request_bytes req status =
     (if status = 0 \<and> rq_op req = LINK_BLK_OP_CON then rq_count req
      else if status = 0 \<and> rq_op req \<noteq> LINK_BLK_OP_INFO then rq_count req * LINK_BLK_SECTOR
      else 0)"

text \<open>Console output into the terminal engine: only the true length of the padded frame.\<close>

definition serve_console :: "(nat \<Rightarrow> u8) \<Rightarrow> u8 list option \<Rightarrow> u32 \<Rightarrow> 'd server \<Rightarrow> int \<times> 'd server" where
  "serve_console rom payload bytes s =
     (case payload of
        None \<Rightarrow> (- 5, s)
      | Some xfer \<Rightarrow>
          (0, (on_term (fold (terminal_receive_char rom) (take (unat bytes) xfer)) s)
                \<lparr>console_rx_bytes := console_rx_bytes s + bytes\<rparr>))"

definition serve_write :: "'d diskio \<Rightarrow> link_blk_req \<Rightarrow> u8 list option \<Rightarrow> 'd server \<Rightarrow> (int \<times> 'd server) option" where
  "serve_write d req payload s =
     (case payload of
        None \<Rightarrow> Some (- 5, s)
      | Some xfer \<Rightarrow> do {
          (r, st) \<leftarrow> storage_write d (rq_lba req) (rq_count req) (\<lambda>i. xfer ! i) (sv_store s);
          Some (r, s\<lparr>sv_store := st\<rparr>) })"

definition serve_read :: "'d diskio \<Rightarrow> link_blk_req \<Rightarrow> 'd server \<Rightarrow> (int \<times> u8 list \<times> 'd server) option" where
  "serve_read d req s = do {
     (r, bs, st) \<leftarrow> storage_read d (rq_lba req) (rq_count req) (sv_store s);
     Some (r, bs, s\<lparr>sv_store := st\<rparr>) }"

text \<open>The reply frame: status and value, then the sectors of a successful read or the key buffer.\<close>

definition serve_reply :: "link_blk_req \<Rightarrow> int \<Rightarrow> u8 list \<Rightarrow> 'd server \<Rightarrow> u8 list \<times> 'd server" where
  "serve_reply req status data s =
     (if status = 0 \<and> rq_op req = LINK_BLK_OP_READ then
        (rsp_bytes \<lparr>rs_status = of_int status, rs_value = capacity_sectors s\<rparr> @
           take (unat (request_bytes req status)) data, s)
      else if rq_op req = LINK_BLK_OP_CON then
        (case term_compat_take_keys LINK_CON_MAX_KEYS (t_keyq (sv_term s)) of (keys, q) \<Rightarrow>
           (rsp_bytes \<lparr>rs_status = of_int status, rs_value = of_nat (length keys)\<rparr> @
              keys @ replicate (LINK_CON_MAX_KEYS - length keys) 0,
            on_term (\<lambda>t. t\<lparr>t_keyq := q\<rparr>) s))
      else (rsp_bytes \<lparr>rs_status = of_int status, rs_value = capacity_sectors s\<rparr>, s))"

definition serve_data :: "(nat \<Rightarrow> u8) \<Rightarrow> 'd diskio \<Rightarrow> link_blk_req \<Rightarrow> u8 list option \<Rightarrow> 'd server \<Rightarrow>
    (int \<times> u8 list \<times> 'd server) option" where
  "serve_data rom d req payload s =
     (let status = do_request req (capacity_sectors s);
          bytes = request_bytes req status;
          (status, s) = (if status = 0 \<and> rq_op req = LINK_BLK_OP_CON \<and> bytes \<noteq> 0
                         then serve_console rom payload bytes s else (status, s))
      in do {
        (status, s) \<leftarrow> (if status = 0 \<and> rq_op req = LINK_BLK_OP_WRITE
                         then serve_write d req payload s else Some (status, s));
        if status = 0 \<and> rq_op req = LINK_BLK_OP_READ then serve_read d req s
        else Some (status, [], s) })"

text \<open>
  The master's answer to a request frame: the status, the reply frame, and the state after it.
  \<open>None\<close> is a disk layer that does not return.
\<close>

definition serve_frame :: "(nat \<Rightarrow> u8) \<Rightarrow> 'd diskio \<Rightarrow> u8 list \<Rightarrow> u8 list option \<Rightarrow> 'd server \<Rightarrow>
    (int \<times> u8 list \<times> 'd server) option" where
  "serve_frame rom d hdr payload s =
     (let req = req_of_bytes hdr in do {
        (status, data, s) \<leftarrow> serve_data rom d req payload s;
        let (reply, s) = serve_reply req status data s;
        Some (status, reply, s) })"

section \<open>Waiting for the doorbell\<close>

text \<open>
  \<open>wait_db_clear\<close> against a finite observation of the line: at each look, whether it is still
  up, whether the deadline has passed, and what the clock and the keyboard bring to the two
  ticks that follow.  \<open>None\<close> means that the observation ended before the loop did.
\<close>

record db_look =
  dl_raised :: bool
  dl_expired :: bool
  dl_now :: u32
  dl_tick :: tick_env

fun wait_db_clear :: "(nat \<Rightarrow> u8) \<Rightarrow> tuh \<Rightarrow> db_look list \<Rightarrow> screen_state \<times> console \<Rightarrow>
    (bool \<times> screen_state \<times> console) option" where
  "wait_db_clear rom t [] dc = None"
| "wait_db_clear rom t (l # ls) (d, c) =
     (if \<not> dl_raised l then Some (True, d, c)
      else if dl_expired l then Some (False, d, c)
      else case display_tick (dl_now l) (d, c_term c) of (d, s) \<Rightarrow>
        (case keyboard_tick rom t (dl_tick l) (c\<lparr>c_term := s\<rparr>) of
           None \<Rightarrow> None
         | Some c \<Rightarrow> wait_db_clear rom t ls (d, c)))"

section \<open>The main loop\<close>

text \<open>
  What one pass meets: the doorbell; for an idle pass the clock and the keyboard; for a
  transaction the header frame, unless it times out, the payload, if it arrives in full, whether
  the reply left in time, and the looks of \<open>wait_db_clear\<close>.
\<close>

record link_in =
  li_doorbell :: bool
  li_now :: u32
  li_tick :: tick_env
  li_header :: "u8 list option"
  li_payload :: "u8 list option"
  li_tx_finished :: bool
  li_looks :: "db_look list"

definition wait_clear :: "(nat \<Rightarrow> u8) \<Rightarrow> tuh \<Rightarrow> db_look list \<Rightarrow> 'd server \<Rightarrow> (bool \<times> 'd server) option" where
  "wait_clear rom t ls s =
     map_option (\<lambda>(ok, d, c). (ok, s\<lparr>sv_screen := d, sv_con := c\<rparr>))
       (wait_db_clear rom t ls (sv_screen s, sv_con s))"

definition count_error :: "'d server \<Rightarrow> 'd server" where
  "count_error s = s\<lparr>errors := errors s + 1\<rparr>"

definition idle_pass :: "(nat \<Rightarrow> u8) \<Rightarrow> tuh \<Rightarrow> link_in \<Rightarrow> 'd server \<Rightarrow> 'd server option" where
  "idle_pass rom t i s =
     (case display_tick (li_now i) (sv_screen s, sv_term s) of (d, tm) \<Rightarrow>
        map_option (\<lambda>c. s\<lparr>sv_screen := d, sv_con := c\<rparr>)
          (keyboard_tick rom t (li_tick i) ((sv_con s)\<lparr>c_term := tm\<rparr>)))"

text \<open>One pass of \<open>for (;;)\<close>: the reply frame, if one was sent, and the state.\<close>

definition main_pass :: "(nat \<Rightarrow> u8) \<Rightarrow> 'd diskio \<Rightarrow> tuh \<Rightarrow> link_in \<Rightarrow> 'd server \<Rightarrow>
    (u8 list option \<times> 'd server) option" where
  "main_pass rom d t i s =
     (if \<not> li_doorbell i then map_option (\<lambda>s. (None, s)) (idle_pass rom t i s)
      else case li_header i of
        None \<Rightarrow> map_option (\<lambda>(_, s). (None, s)) (wait_clear rom t (li_looks i) (count_error s))
      | Some hdr \<Rightarrow> do {
          (status, reply, s) \<leftarrow> serve_frame rom d hdr (li_payload i) s;
          (cleared, s) \<leftarrow> wait_clear rom t (li_looks i) (if \<not> li_tx_finished i then count_error s else s);
          let s = (if \<not> cleared then count_error s else s);
          Some (Some reply, if status = 0 then s\<lparr>served := served s + 1\<rparr> else count_error s) })"

section \<open>Start-up\<close>

text \<open>
  \<open>main\<close> up to its loop, as far as it sets state: the screen, the engine, the keyboard, the
  medium, and the greeting.  The name of the medium is the one \<open>storage_init\<close> leaves.
\<close>

definition medium_name :: "'d storage \<Rightarrow> string" where
  "medium_name st = (if have_card st then ''microSD'' else ''ramdisk (NO CARD)'')"

definition greeting :: "string \<Rightarrow> u8 list list" where
  "greeting medium =
     [[27, 91, 50, 74, 27, 91, 72] @ bytes_of ''FRANK master I/O server ready'' @ [13, 10],
      bytes_of ''HDMI 640x480p60, 80x25, medium '', bytes_of medium, [13, 10]]"

definition main_start :: "(nat \<Rightarrow> u8) \<Rightarrow> 'd diskio \<Rightarrow> 'd server \<Rightarrow> 'd server option" where
  "main_start rom d s =
     (let c = sv_con s;
          tm = on_fb (\<lambda>b. framebuf_init (b\<lparr>cellbuf := cellbuf_init (cellbuf b)\<rparr>)) (c_term c);
          c = c\<lparr>c_term := terminal_init tm, c_mods := input_init (c_mods c), c_hid := usbhid_init (c_hid c)\<rparr>
      in do {
        (cap, st) \<leftarrow> storage_init d (sv_store s);
        Some (s\<lparr>sv_store := st, capacity_sectors := cap, served := 0, errors := 0,
                sv_con := c\<lparr>c_term := fold (terminal_receive_string rom) (greeting (medium_name st)) (c_term c)\<rparr>\<rparr>) })"

section \<open>Flash timing\<close>

definition FLASH_MAX_FREQ_MHZ :: u32 where "FLASH_MAX_FREQ_MHZ = 66"

text \<open>
  The divisor and the new value of the timing register: \<open>CLKDIV\<close> is bits 0 to 7 and
  \<open>RXDELAY\<close> bits 8 to 10 of \<open>QMI_M0_TIMING\<close>.
\<close>

definition flash_divisor :: "u32 \<Rightarrow> u32" where
  "flash_divisor clock_hz =
     (let max_hz = FLASH_MAX_FREQ_MHZ * 1000000;
          divisor = (clock_hz + max_hz - 1) div max_hz;
          divisor = (if divisor < 1 then 1 else divisor)
      in if divisor > 255 then 255 else divisor)"

definition flash_set_clkdiv :: "u32 \<Rightarrow> u32 \<Rightarrow> u32 \<times> u32" where
  "flash_set_clkdiv clock_hz timing =
     (let divisor = flash_divisor clock_hz;
          rxdelay = (if clock_hz div divisor > 100000000 then divisor + 1 else divisor);
          t = timing AND NOT (0xFF OR 0x700)
      in (divisor, t OR (divisor OR push_bit 8 rxdelay)))"

end
