(* ===== verification/Bringup.thy ===== *)
theory Bringup
  imports ScanOut Server
begin

text \<open>
  The clocks of the master from \<open>clocks_bringup\<close> (\<open>src/main.c\<close>) to the running picture: the PLL search and the
  change of the system clock of the scan-out library (\<open>disphstx_picolibsk.c\<close>), the start of a display
  mode (\<open>disphstx_vmode.c\<close>) and the request that makes the second core start the scan-out
  (\<open>disphstx_dvi.c\<close>).  The clock and console calls of the SDK are an argument with their documented
  effect as a hypothesis; waiting for a lock or a regulator is left out.
\<close>

section \<open>The PLL search\<close>

record pll_best =
  pb_margin :: int
  pb_khz :: u32
  pb_vco :: u32
  pb_fbdiv :: nat
  pb_pd1 :: nat
  pb_pd2 :: nat

definition pll_margin :: "u32 \<Rightarrow> u32 \<Rightarrow> int" where
  "pll_margin reqkhz khz = (let margin = sint (khz - reqkhz) in if margin < 0 then - margin else margin)"

definition pll_consider :: "u32 \<Rightarrow> u32 \<Rightarrow> nat \<Rightarrow> nat \<Rightarrow> nat \<Rightarrow> pll_best \<Rightarrow> pll_best" where
  "pll_consider reqkhz vco fbdiv pd1 pd2 b =
     (let khz = vco div of_nat (pd1 * pd2); margin = pll_margin reqkhz khz
      in if margin < pb_margin b
         then \<lparr>pb_margin = margin, pb_khz = khz, pb_vco = vco, pb_fbdiv = fbdiv, pb_pd1 = pd1, pb_pd2 = pd2\<rparr> else b)"

text \<open>The three loops; what the outputs hold when nothing is found is \<open>b0\<close>, but for the frequency, which is 0.\<close>

definition PllCalc :: "pll_best \<Rightarrow> u32 \<Rightarrow> u32 \<Rightarrow> u32 \<Rightarrow> u32 \<Rightarrow> bool \<Rightarrow> bool \<times> pll_best" where
  "PllCalc b0 reqkhz input vcomin vcomax lowvco =
     (let fbdivs = (if lowvco then [16..<321] else rev [16..<321]);
          b = fold (\<lambda>fbdiv b.
                let vco = of_nat fbdiv * input
                in if vco \<ge> vcomin \<and> vco \<le> vcomax
                   then fold (\<lambda>pd1. fold (\<lambda>pd2. pll_consider reqkhz vco fbdiv pd1 pd2) (rev [1..<Suc pd1])) (rev [1..<8]) b
                   else b) fbdivs (b0\<lparr>pb_margin := 100000, pb_khz := 0\<rparr>)
      in (pb_khz b = reqkhz \<and> pb_vco b = pb_khz b * of_nat (pb_pd1 b) * of_nat (pb_pd2 b), b))"

definition PLL_VCO_MIN :: u32 where "PLL_VCO_MIN = 400"
definition PLL_VCO_MAX :: u32 where "PLL_VCO_MAX = 1600"

definition PllCalcDef :: "pll_best \<Rightarrow> u32 \<Rightarrow> bool \<times> pll_best" where
  "PllCalcDef b0 reqkhz = PllCalc b0 reqkhz 12000 (PLL_VCO_MIN * 1000) (PLL_VCO_MAX * 1000) False"

section \<open>Clocks, voltage and flash\<close>

datatype clock = Clk_sys | Clk_peri | Clk_hstx

datatype clock_source = From_pll_sys | From_pll_usb | From_clk_sys

text \<open>The calls of the SDK, the peripheral clock that the divisor of the UART was worked out for, and a constant.\<close>

record 'h clock_sdk =
  cs_hz :: "clock \<Rightarrow> 'h \<Rightarrow> u32"
  cs_configure :: "clock \<Rightarrow> clock_source \<Rightarrow> u32 \<Rightarrow> u32 \<Rightarrow> 'h \<Rightarrow> 'h"
  cs_set_sys_khz :: "u32 \<Rightarrow> 'h \<Rightarrow> 'h"
  cs_stdio_init :: "'h \<Rightarrow> 'h"
  cs_uart_clock :: "'h \<Rightarrow> u32"
  cs_SYS_CLK_HZ :: u32

definition clock_laws :: "'h clock_sdk \<Rightarrow> bool" where
  "clock_laws sdk \<longleftrightarrow>
     (\<forall>c c' src sf f h. cs_hz sdk c (cs_configure sdk c' src sf f h) = (if c = c' then f else cs_hz sdk c h)) \<and>
     (\<forall>khz h. cs_hz sdk Clk_sys (cs_set_sys_khz sdk khz h) = khz * 1000) \<and>
     (\<forall>c h. cs_hz sdk c (cs_stdio_init sdk h) = cs_hz sdk c h) \<and>
     (\<forall>h. cs_uart_clock sdk (cs_stdio_init sdk h) = cs_hz sdk Clk_peri h)"

text \<open>The registers the firmware writes itself: flash timing, core voltage and the dividers of the system PLL.\<close>

record 'h rig =
  rg_timing :: u32
  rg_vreg :: u32
  rg_pll :: "nat \<times> nat \<times> nat \<times> nat"
  rg_sdk :: 'h

definition on_sdk :: "('h \<Rightarrow> 'h) \<Rightarrow> 'h rig \<Rightarrow> 'h rig" where
  "on_sdk f r = r\<lparr>rg_sdk := f (rg_sdk r)\<rparr>"

definition VREG_VOLTAGE_1_10 :: u32 where "VREG_VOLTAGE_1_10 = 11"
definition VREG_VOLTAGE_1_15 :: u32 where "VREG_VOLTAGE_1_15 = 12"
definition VREG_VOLTAGE_1_20 :: u32 where "VREG_VOLTAGE_1_20 = 13"
definition VREG_VOLTAGE_1_25 :: u32 where "VREG_VOLTAGE_1_25 = 14"
definition VREG_VOLTAGE_1_30 :: u32 where "VREG_VOLTAGE_1_30 = 15"

definition GetVoltageBySysClock :: "u32 \<Rightarrow> u32" where
  "GetVoltageBySysClock freq =
     (if freq \<ge> 340000 then VREG_VOLTAGE_1_30 else if freq \<ge> 300000 then VREG_VOLTAGE_1_25
      else if freq \<ge> 250000 then VREG_VOLTAGE_1_20 else if freq \<ge> 200000 then VREG_VOLTAGE_1_15 else VREG_VOLTAGE_1_10)"

definition GetClkDivBySysClock :: "u32 \<Rightarrow> u32" where
  "GetClkDivBySysClock freq =
     (if freq \<ge> 500000 then 6 else if freq \<ge> 400000 then 5 else if freq \<ge> 300000 then 4 else if freq \<ge> 200000 then 3 else 2)"

definition FlashInit :: "u32 \<Rightarrow> 'h rig \<Rightarrow> 'h rig" where
  "FlashInit clkdiv r = r\<lparr>rg_timing := clkdiv OR push_bit 8 2 OR push_bit 30 1\<rparr>"

definition VregSetVoltage :: "u32 \<Rightarrow> 'h rig \<Rightarrow> 'h rig" where
  "VregSetVoltage vreg r = r\<lparr>rg_vreg := vreg AND 0x1f\<rparr>"

definition PllSetup :: "nat \<Rightarrow> nat \<Rightarrow> nat \<Rightarrow> nat \<Rightarrow> 'h rig \<Rightarrow> u32 \<times> 'h rig" where
  "PllSetup refdiv fbdiv div1 div2 r =
     (let (div1, div2) = (if div1 < div2
            then let a = div1 XOR div2; b = div2 XOR a in (a XOR b, b) else (div1, div2));
          ref = 12000000 div of_nat refdiv; vco = of_nat fbdiv * ref
      in (vco div of_nat (div1 * div2), r\<lparr>rg_pll := (refdiv, fbdiv, div1, div2)\<rparr>))"

definition PllSetFreq :: "pll_best \<Rightarrow> u32 \<Rightarrow> 'h rig \<Rightarrow> u32 \<times> 'h rig" where
  "PllSetFreq b0 freq r =
     (case PllCalcDef b0 freq of (_, b) \<Rightarrow>
        if pb_khz b = 0 then (0, r)
        else (case PllSetup 1 (pb_fbdiv b) (pb_pd1 b) (pb_pd2 b) r of (f, r) \<Rightarrow> (f div 1000, r)))"

definition flash_and_voltage :: "u32 \<Rightarrow> 'h rig \<Rightarrow> 'h rig" where
  "flash_and_voltage freq r = VregSetVoltage (GetVoltageBySysClock freq) (FlashInit (GetClkDivBySysClock freq) r)"

definition ClockPllSysFreqVolt :: "'h clock_sdk \<Rightarrow> pll_best \<Rightarrow> u32 \<Rightarrow> 'h rig \<Rightarrow> 'h rig" where
  "ClockPllSysFreqVolt sdk b0 freq r =
     (let old = cs_hz sdk Clk_sys (rg_sdk r) div 1000
      in if freq = old then r
         else let r = on_sdk (cs_configure sdk Clk_sys From_pll_usb 48000000 48000000) r;
                  r = (if freq > old then flash_and_voltage freq r else r);
                  r = snd (PllSetFreq b0 freq r);
                  r = (if freq < old then flash_and_voltage freq r else r);
                  r = on_sdk (cs_configure sdk Clk_sys From_pll_sys (freq * 1000) (freq * 1000)) r;
                  f = cs_hz sdk Clk_sys (rg_sdk r)
              in on_sdk (cs_configure sdk Clk_peri From_clk_sys f (if f < 200 * 1000000 then f else cs_SYS_CLK_HZ sdk)) r)"

section \<open>Starting the display\<close>

definition PLL_KHZ :: u32 where "PLL_KHZ = 150000"

text \<open>The state shared by the two cores for the scan-out.\<close>

datatype dvi_req = REQNO | REQINIT | REQTERM

record dvi =
  dv_req :: dvi_req
  dv_running :: bool
  dv_core1 :: bool
  dv_scan :: scan

text \<open>One turn of the loop of \<open>DispHstxDviCore\<close> on the second core, without the remote functions; \<open>DispHstxDviInit\<close> and \<open>DispHstxDviTerm\<close> set and clear the flag.\<close>

definition dvi_core_pass :: "seen \<Rightarrow> dvi \<Rightarrow> dvi" where
  "dvi_core_pass e d =
     (case dv_req d of
        REQNO \<Rightarrow> d
      | REQINIT \<Rightarrow> d\<lparr>dv_scan := DispHstxDviInit e (dv_scan d), dv_running := True, dv_req := REQNO\<rparr>
      | REQTERM \<Rightarrow> d\<lparr>dv_running := False, dv_req := REQNO\<rparr>)"

text \<open>The first core waits for the request to be taken back; the second runs when \<open>turn\<close> says so.\<close>

partial_function (option) dvi_wait :: "(nat \<Rightarrow> bool) \<Rightarrow> seen \<Rightarrow> nat \<Rightarrow> dvi \<Rightarrow> dvi option" where
  "dvi_wait turn e n d =
     (if dv_req d = REQNO then Some d
      else dvi_wait turn e (Suc n) (if turn n \<and> dv_core1 d then dvi_core_pass e d else d))"

definition DispHstxDviStart :: "(nat \<Rightarrow> bool) \<Rightarrow> seen \<Rightarrow> dvi \<Rightarrow> dvi option" where
  "DispHstxDviStart turn e d =
     (if dv_running d then Some d else dvi_wait turn e 0 (d\<lparr>dv_core1 := True, dv_req := REQINIT\<rparr>))"

definition DispHstxDviStop :: "(nat \<Rightarrow> bool) \<Rightarrow> seen \<Rightarrow> dvi \<Rightarrow> dvi option" where
  "DispHstxDviStop turn e d =
     (if \<not> dv_running d then Some d
      else map_option (dv_core1_update (\<lambda>_. False)) (dvi_wait turn e 0 (d\<lparr>dv_req := REQTERM\<rparr>)))"

definition DispHstxAllTerm :: "'h clock_sdk \<Rightarrow> pll_best \<Rightarrow> (nat \<Rightarrow> bool) \<Rightarrow> seen \<Rightarrow> dvi \<times> 'h rig \<Rightarrow> (dvi \<times> 'h rig) option" where
  "DispHstxAllTerm sdk b0 turn e = (\<lambda>(d, r).
     map_option (\<lambda>d. (d, ClockPllSysFreqVolt sdk b0 PLL_KHZ r)) (DispHstxDviStop turn e d))"

definition DispHstxSelDispMode :: "'h clock_sdk \<Rightarrow> pll_best \<Rightarrow> (nat \<Rightarrow> bool) \<Rightarrow> seen \<Rightarrow> vmode \<Rightarrow> dvi \<times> 'h rig \<Rightarrow> (dvi \<times> 'h rig) option" where
  "DispHstxSelDispMode sdk b0 turn e v s =
     (case DispHstxAllTerm sdk b0 turn e s of
        None \<Rightarrow> None
      | Some (d, r) \<Rightarrow>
          let d = d\<lparr>dv_scan := (dv_scan d)\<lparr>sc_mode := v\<rparr>\<rparr>;
              clkdiv = ucast (vt_clkdiv (vm_vtime v)); khz = vt_sysclk (vm_vtime v);
              r = ClockPllSysFreqVolt sdk b0 khz r;
              r = on_sdk (cs_configure sdk Clk_hstx From_pll_sys (khz * 1000) (khz * 1000 div clkdiv)) r
          in map_option (\<lambda>d. (d, r)) (DispHstxDviStart turn e d))"

section \<open>Start-up of the master\<close>

definition CPU_SPEED :: u32 where "CPU_SPEED = 252"

text \<open>\<open>clocks_bringup\<close>; the code of 1.50 V is the SDK's.\<close>

definition master_clocks_bringup :: "'h clock_sdk \<Rightarrow> u32 \<Rightarrow> 'h rig \<Rightarrow> 'h rig" where
  "master_clocks_bringup sdk vreg_1_50 r =
     (let r = r\<lparr>rg_vreg := vreg_1_50\<rparr>;
          r = r\<lparr>rg_timing := snd (flash_set_clkdiv (CPU_SPEED * 1000000) (rg_timing r))\<rparr>;
          r = on_sdk (cs_set_sys_khz sdk (CPU_SPEED * 1000)) r
      in on_sdk (cs_configure sdk Clk_peri From_pll_usb 48000000 48000000) r)"

text \<open>\<open>main\<close> up to the second \<open>stdio_init_all\<close>.\<close>

definition clocks_and_display :: "'h clock_sdk \<Rightarrow> u32 \<Rightarrow> pll_best \<Rightarrow> (nat \<Rightarrow> bool) \<Rightarrow> seen \<Rightarrow> vmode \<Rightarrow> dvi \<times> 'h rig \<Rightarrow> (dvi \<times> 'h rig) option" where
  "clocks_and_display sdk vreg_1_50 b0 turn e v = (\<lambda>(d, r).
     let r = on_sdk (cs_stdio_init sdk) (master_clocks_bringup sdk vreg_1_50 r)
     in map_option (\<lambda>(d, r). (d, on_sdk (cs_stdio_init sdk) (on_sdk (cs_configure sdk Clk_peri From_pll_usb 48000000 48000000) r)))
          (DispHstxSelDispMode sdk b0 turn e v (d, r)))"

section \<open>The search finds the nearest frequency\<close>

text \<open>A candidate is a feedback divider and two post dividers; \<open>S\<close> has been looked at from \<open>b\<close> to \<open>b'\<close>.\<close>

definition pll_output :: "u32 \<Rightarrow> nat \<times> nat \<times> nat \<Rightarrow> u32" where
  "pll_output input = (\<lambda>(fbdiv, pd1, pd2). of_nat fbdiv * input div of_nat (pd1 * pd2))"

definition pll_result :: "u32 \<Rightarrow> u32 \<Rightarrow> nat \<times> nat \<times> nat \<Rightarrow> pll_best" where
  "pll_result reqkhz input x =
     \<lparr>pb_margin = pll_margin reqkhz (pll_output input x), pb_khz = pll_output input x, pb_vco = of_nat (fst x) * input,
      pb_fbdiv = fst x, pb_pd1 = fst (snd x), pb_pd2 = snd (snd x)\<rparr>"

definition best_of :: "u32 \<Rightarrow> u32 \<Rightarrow> (nat \<times> nat \<times> nat) set \<Rightarrow> pll_best \<Rightarrow> pll_best \<Rightarrow> bool" where
  "best_of reqkhz input S b b' \<longleftrightarrow>
     pb_margin b' \<le> pb_margin b \<and> (\<forall>x \<in> S. pb_margin b' \<le> pll_margin reqkhz (pll_output input x)) \<and>
     (b' = b \<or> (\<exists>x \<in> S. b' = pll_result reqkhz input x))"

lemma best_of_trans:
  assumes "best_of reqkhz input S b b1" "best_of reqkhz input T b1 b2"
  shows "best_of reqkhz input (S \<union> T) b b2"
proof -
  have "pb_margin b2 \<le> pb_margin b1" "pb_margin b1 \<le> pb_margin b" using assms by (simp_all add: best_of_def)
  then have "\<forall>x \<in> S \<union> T. pb_margin b2 \<le> pll_margin reqkhz (pll_output input x)" "pb_margin b2 \<le> pb_margin b"
    using assms by (auto simp: best_of_def intro: order_trans)
  moreover have "b2 = b \<or> (\<exists>x \<in> S \<union> T. b2 = pll_result reqkhz input x)" using assms by (auto simp: best_of_def)
  ultimately show ?thesis by (simp add: best_of_def)
qed

lemma best_of_fold:
  assumes "\<And>x b. x \<in> set xs \<Longrightarrow> best_of reqkhz input (S x) b (f x b)"
  shows "best_of reqkhz input (\<Union>x \<in> set xs. S x) b (fold f xs b)"
  using assms
proof (induction xs arbitrary: b)
  case (Cons x xs)
  have "best_of reqkhz input (S x) b (f x b)" by (rule Cons.prems) simp
  moreover have "best_of reqkhz input (\<Union>x \<in> set xs. S x) (f x b) (fold f xs (f x b))"
    by (rule Cons.IH) (simp add: Cons.prems)
  ultimately show ?case by (simp add: best_of_trans)
qed (simp add: best_of_def)

lemma best_of_consider:
  "best_of reqkhz input {(fbdiv, pd1, pd2)} b (pll_consider reqkhz (of_nat fbdiv * input) fbdiv pd1 pd2 b)"
  by (auto simp: best_of_def pll_consider_def pll_result_def pll_output_def Let_def)

definition pll_candidates :: "u32 \<Rightarrow> u32 \<Rightarrow> u32 \<Rightarrow> (nat \<times> nat \<times> nat) set" where
  "pll_candidates input vcomin vcomax =
     {(fbdiv, pd1, pd2). 16 \<le> fbdiv \<and> fbdiv \<le> 320 \<and> vcomin \<le> of_nat fbdiv * input \<and> of_nat fbdiv * input \<le> vcomax \<and>
        1 \<le> pd2 \<and> pd2 \<le> pd1 \<and> pd1 \<le> 7}"

lemma best_of_search:
  "best_of reqkhz input (pll_candidates input vcomin vcomax) (b0\<lparr>pb_margin := 100000, pb_khz := 0\<rparr>)
     (snd (PllCalc b0 reqkhz input vcomin vcomax lowvco))"
proof -
  let ?ok = "\<lambda>fbdiv. vcomin \<le> of_nat fbdiv * input \<and> of_nat fbdiv * input \<le> vcomax"
  define fbdivs where "fbdivs = (if lowvco then [16..<321] else rev [16..<321])"
  have set: "set fbdivs = {16..<321}" by (cases lowvco) (simp_all only: fbdivs_def if_True if_False set_rev set_upt)
  let ?S = "\<lambda>fbdiv. if ?ok fbdiv then \<Union>pd1 \<in> set (rev [1..<8]). \<Union>pd2 \<in> set (rev [1..<Suc pd1]). {(fbdiv, pd1, pd2)} else {}"
  let ?f = "\<lambda>fbdiv b. let vco = of_nat fbdiv * input
       in if vco \<ge> vcomin \<and> vco \<le> vcomax
          then fold (\<lambda>pd1. fold (\<lambda>pd2. pll_consider reqkhz vco fbdiv pd1 pd2) (rev [1..<Suc pd1])) (rev [1..<8]) b
          else b"
  have "best_of reqkhz input (?S fbdiv) b (?f fbdiv b)" for fbdiv b
    unfolding Let_def by (auto intro!: best_of_fold best_of_consider simp: best_of_def [of _ _ "{}"] simp del: set_rev set_upt)
  from best_of_fold [where f = "\<lambda>fbdiv b. ?f fbdiv b" and xs = fbdivs, OF this, of "b0\<lparr>pb_margin := 100000, pb_khz := 0\<rparr>"]
  have "best_of reqkhz input (\<Union>fbdiv \<in> set fbdivs. ?S fbdiv) (b0\<lparr>pb_margin := 100000, pb_khz := 0\<rparr>)
      (snd (PllCalc b0 reqkhz input vcomin vcomax lowvco))"
    by (simp only: PllCalc_def fbdivs_def Let_def snd_conv)
  moreover have "(\<Union>fbdiv \<in> set fbdivs. ?S fbdiv) = pll_candidates input vcomin vcomax"
  proof (rule set_eqI)
    fix x :: "nat \<times> nat \<times> nat"
    obtain f p1 p2 where x: "x = (f, p1, p2)" by (cases x)
    have "x \<in> (\<Union>fbdiv \<in> set fbdivs. ?S fbdiv) \<longleftrightarrow> f \<in> {16..<321} \<and> x \<in> ?S f"
      unfolding x UN_iff set by (auto split: if_splits)
    also have "x \<in> ?S f \<longleftrightarrow> ?ok f \<and> p1 \<in> {1..<8} \<and> p2 \<in> {1..<Suc p1}"
      unfolding x set_rev set_upt by (simp; blast)
    finally show "x \<in> (\<Union>fbdiv \<in> set fbdivs. ?S fbdiv) \<longleftrightarrow> x \<in> pll_candidates input vcomin vcomax"
      by (simp only: x pll_candidates_def) auto
  qed
  ultimately show ?thesis by simp
qed

lemma margin_is_distance:
  assumes "uint khz < 2 ^ 31" "uint reqkhz < 2 ^ 31"
  shows "pll_margin reqkhz khz = \<bar>uint khz - uint reqkhz\<bar>"
proof -
  have "sint (of_int (uint khz - uint reqkhz) :: u32) = uint khz - uint reqkhz"
  proof -
    have "sint (of_int k :: u32) = k" if "- (2 ^ 31) \<le> k" "k < 2 ^ 31" for k
      using that by (simp add: signed_of_int signed_take_bit_int_eq_self)
    then show ?thesis by this (use assms uint_ge_0 [of khz] uint_ge_0 [of reqkhz] in linarith)+
  qed
  then show ?thesis by (simp add: pll_margin_def Let_def abs_if)
qed

lemma candidate_output:
  assumes "x \<in> pll_candidates input vcomin vcomax" "uint vcomax < 2 ^ 31"
  shows "uint (pll_output input x) < 2 ^ 31"
proof -
  obtain f p1 p2 where x: "x = (f, p1, p2)" by (cases x)
  have "pll_output input x \<le> of_nat f * input"
    by (simp add: x pll_output_def word_le_nat_alt unat_div_distrib div_le_dividend)
  moreover have "of_nat f * input \<le> vcomax" using assms(1) by (simp add: x pll_candidates_def)
  ultimately show ?thesis using assms(2) by (simp add: word_le_def)
qed

text \<open>The search finds the nearest frequency: of all settings of the PLL whose oscillator stays in its range, none
  comes closer to the frequency asked for than the one returned, provided some setting comes within 100 MHz.\<close>

lemma nearest_found:
  assumes "uint reqkhz < 2 ^ 31" "uint vcomax < 2 ^ 31" "x \<in> pll_candidates input vcomin vcomax"
    "\<bar>uint (pll_output input x) - uint reqkhz\<bar> < 100000"
  shows "let b = snd (PllCalc b0 reqkhz input vcomin vcomax lowvco) in
    (\<exists>y \<in> pll_candidates input vcomin vcomax. b = pll_result reqkhz input y) \<and>
    \<bar>uint (pb_khz b) - uint reqkhz\<bar> \<le> \<bar>uint (pll_output input x) - uint reqkhz\<bar>"
proof -
  let ?b = "snd (PllCalc b0 reqkhz input vcomin vcomax lowvco)"
  note best = best_of_search [of reqkhz input vcomin vcomax b0 lowvco, unfolded best_of_def]
  note margin = margin_is_distance [OF candidate_output [OF _ assms(2)] assms(1)]
  have le: "pb_margin ?b \<le> \<bar>uint (pll_output input x) - uint reqkhz\<bar>"
    using best assms(3) margin [OF assms(3)] by auto
  then have "?b \<noteq> b0\<lparr>pb_margin := 100000, pb_khz := 0\<rparr>" using assms(4) by auto
  then obtain y where y: "y \<in> pll_candidates input vcomin vcomax" "?b = pll_result reqkhz input y" using best by blast
  then have "pb_margin ?b = \<bar>uint (pb_khz ?b) - uint reqkhz\<bar>" using margin [OF y(1)] by (simp add: pll_result_def)
  then show ?thesis using le y by (auto simp: Let_def)
qed

text \<open>A frequency that some setting gives exactly is found exactly, for the multiples of 6 MHz that the display asks for.\<close>

lemma exact_quotient:
  fixes v q req :: nat
  assumes "v div q = req" "6000 dvd v" "6000 dvd req" "0 < q" "q < 6000"
  shows "v = req * q"
proof -
  have v: "v = req * q + v mod q" using assms(1) div_mult_mod_eq [of v q] by simp
  then have "6000 dvd v mod q" using assms(2,3) by (metis dvd_add_right_iff dvd_mult2)
  moreover have "v mod q < 6000" using assms(4,5) by (meson mod_less_divisor less_trans)
  ultimately have "v mod q = 0" by (metis dvd_imp_le neq0_conv not_le)
  then show ?thesis using v by simp
qed

lemma xosc_vco: "f \<le> 320 \<Longrightarrow> unat (of_nat f * 12000 :: u32) = 12000 * f"
  by (simp add: unat_word_ariths(2) unat_of_nat_small)

lemma xosc_output:
  assumes "f \<le> 320" "p1 \<le> 7" "p2 \<le> p1"
  shows "unat (pll_output 12000 (f, p1, p2)) = 12000 * f div (p1 * p2)"
proof -
  have "p1 * p2 \<le> 7 * 7" using assms by (intro mult_le_mono) simp_all
  then have "unat (of_nat (p1 * p2) :: u32) = p1 * p2" by (intro unat_of_nat_small) simp
  then show ?thesis unfolding pll_output_def prod.case unat_div_distrib xosc_vco [OF assms(1)] by simp
qed

abbreviation "display_candidates \<equiv> pll_candidates 12000 (PLL_VCO_MIN * 1000) (PLL_VCO_MAX * 1000)"

lemma display_candidate:
  "(f, p1, p2) \<in> display_candidates \<longleftrightarrow> 16 \<le> f \<and> f \<le> 320 \<and> 400000 \<le> 12000 * f \<and> 12000 * f \<le> 1600000 \<and> 1 \<le> p2 \<and> p2 \<le> p1 \<and> p1 \<le> 7"
proof (cases "f \<le> 320")
  case True
  then show ?thesis
    by (simp add: pll_candidates_def word_le_nat_alt xosc_vco PLL_VCO_MIN_def PLL_VCO_MAX_def)
qed (simp add: pll_candidates_def)

lemma pll_exact:
  assumes "6000 dvd unat reqkhz" "unat reqkhz < 2 ^ 31" "(f, p1, p2) \<in> display_candidates" "12000 * f = unat reqkhz * (p1 * p2)"
  obtains g q1 q2 where "(g, q1, q2) \<in> display_candidates" "snd (PllCalcDef b0 reqkhz) = pll_result reqkhz 12000 (g, q1, q2)"
    "pb_khz (snd (PllCalcDef b0 reqkhz)) = reqkhz" "12000 * g = unat reqkhz * (q1 * q2)"
proof -
  note c = assms(3) [unfolded display_candidate]
  have "unat (pll_output 12000 (f, p1, p2)) = unat reqkhz"
    using xosc_output [of f p1 p2] c assms(4) by simp
  then have hit: "pll_output 12000 (f, p1, p2) = reqkhz" by (rule unsigned_word_eqI)
  have "int (unat reqkhz) < int (2 ^ 31)" using assms(2) by (simp only: of_nat_less_iff)
  then have u: "uint reqkhz < 2 ^ 31" by simp
  have hi: "uint (PLL_VCO_MAX * 1000) < 2 ^ 31" by (simp add: PLL_VCO_MAX_def)
  have "\<exists>y \<in> display_candidates. snd (PllCalcDef b0 reqkhz) = pll_result reqkhz 12000 y \<and> pb_khz (snd (PllCalcDef b0 reqkhz)) = reqkhz"
    using nearest_found [OF u hi assms(3), where ?b0.0 = b0 and lowvco = False] unfolding hit PllCalcDef_def [symmetric] Let_def by (auto simp: word_uint_eq_iff)
  then obtain g q1 q2 where y: "(g, q1, q2) \<in> display_candidates" "snd (PllCalcDef b0 reqkhz) = pll_result reqkhz 12000 (g, q1, q2)"
    "pb_khz (snd (PllCalcDef b0 reqkhz)) = reqkhz" by auto
  note q = y(1) [unfolded display_candidate]
  have "12000 * g div (q1 * q2) = unat reqkhz"
    using xosc_output [of g q1 q2] q y(2,3) by (simp add: pll_result_def)
  moreover have "q1 * q2 \<le> 7 * 7" using q by (intro mult_le_mono) simp_all
  ultimately have "12000 * g = unat reqkhz * (q1 * q2)"
    using assms(1) q dvd_triv_left [of 6000 "2 * g"] by (intro exact_quotient) simp_all
  then show ?thesis using that y by blast
qed

section \<open>The second core answers\<close>

text \<open>Once the second core gets a turn, the scan-out has been started once.\<close>

lemma dvi_wait_returns:
  assumes "turn k" "n \<le> k" "dv_core1 d" "dv_req d = REQINIT"
  shows "dvi_wait turn e n d = Some (d\<lparr>dv_scan := DispHstxDviInit e (dv_scan d), dv_running := True, dv_req := REQNO\<rparr>)"
  using assms(2)
proof (induction rule: inc_induct)
  case base
  then show ?case using assms by (simp add: dvi_wait.simps [of turn e k] dvi_wait.simps [of turn e "Suc k"] dvi_core_pass_def)
next
  case (step n)
  then show ?case
    using assms by (cases "turn n") (simp_all add: dvi_wait.simps [of turn e n] dvi_wait.simps [of turn e "Suc n" "_\<lparr>dv_req := REQNO\<rparr>"] dvi_core_pass_def)
qed

lemma start_returns:
  assumes "turn k" "\<not> dv_running d"
  shows "DispHstxDviStart turn e d =
    Some (d\<lparr>dv_core1 := True, dv_req := REQNO, dv_scan := DispHstxDviInit e (dv_scan d), dv_running := True\<rparr>)"
  using assms by (simp add: DispHstxDviStart_def dvi_wait_returns [of turn k])

section \<open>What the start-up leaves behind\<close>

text \<open>The PLL runs at \<open>khz\<close> exactly.\<close>

definition pll_gives :: "nat \<Rightarrow> 'h rig \<Rightarrow> bool" where
  "pll_gives khz r \<longleftrightarrow> (case rg_pll r of (refdiv, fbdiv, d1, d2) \<Rightarrow>
     refdiv = 1 \<and> 400000 \<le> 12000 * fbdiv \<and> 12000 * fbdiv \<le> 1600000 \<and> 12000 * fbdiv = khz * (d1 * d2))"

lemma pll_set_exact:
  assumes "6000 dvd unat reqkhz" "unat reqkhz < 2 ^ 31" "0 < unat reqkhz" "(f, p1, p2) \<in> display_candidates" "12000 * f = unat reqkhz * (p1 * p2)"
  obtains x where "snd (PllSetFreq b0 reqkhz r) = r\<lparr>rg_pll := x\<rparr>" "pll_gives (unat reqkhz) (r\<lparr>rg_pll := x\<rparr>)"
proof -
  obtain g q1 q2 where g: "(g, q1, q2) \<in> display_candidates" "snd (PllCalcDef b0 reqkhz) = pll_result reqkhz 12000 (g, q1, q2)"
    "pb_khz (snd (PllCalcDef b0 reqkhz)) = reqkhz" "12000 * g = unat reqkhz * (q1 * q2)"
    using pll_exact [OF assms(1,2,4,5)] by blast
  then have k: "pb_khz (pll_result reqkhz 12000 (g, q1, q2)) \<noteq> 0" using assms(3) by (metis less_irrefl unat_0)
  have "snd (PllSetFreq b0 reqkhz r) = r\<lparr>rg_pll := (1, g, q1, q2)\<rparr>"
    using g(1,2) k by (auto simp: PllSetFreq_def PllSetup_def display_candidate pll_result_def Let_def split: prod.split)
  moreover have "pll_gives (unat reqkhz) (r\<lparr>rg_pll := (1, g, q1, q2)\<rparr>)"
    using g(1,4) by (simp add: pll_gives_def display_candidate)
  ultimately show ?thesis using that by blast
qed

text \<open>The change of clock with what is left of it: below 200 MHz the peripherals get the system clock.\<close>

lemma change_clock:
  assumes "clock_laws sdk" "cs_hz sdk Clk_sys (rg_sdk r) div 1000 \<noteq> khz"
    "6000 dvd unat khz" "0 < unat khz" "(f, p1, p2) \<in> display_candidates" "12000 * f = unat khz * (p1 * p2)"
    "unat khz < 2 ^ 31"
  shows "cs_hz sdk Clk_sys (rg_sdk (ClockPllSysFreqVolt sdk b0 khz r)) = khz * 1000 \<and>
    rg_timing (ClockPllSysFreqVolt sdk b0 khz r) = rg_timing (FlashInit (GetClkDivBySysClock khz) r) \<and>
    rg_vreg (ClockPllSysFreqVolt sdk b0 khz r) = GetVoltageBySysClock khz \<and>
    pll_gives (unat khz) (ClockPllSysFreqVolt sdk b0 khz r)"
proof -
  let ?old = "cs_hz sdk Clk_sys (rg_sdk r) div 1000"
  let ?r1 = "on_sdk (cs_configure sdk Clk_sys From_pll_usb 48000000 48000000) r"
  let ?r2 = "if khz > ?old then flash_and_voltage khz ?r1 else ?r1"
  obtain x where x: "snd (PllSetFreq b0 khz ?r2) = ?r2\<lparr>rg_pll := x\<rparr>" "pll_gives (unat khz) (?r2\<lparr>rg_pll := x\<rparr>)"
    using pll_set_exact [OF assms(3,7,4,5,6)] by blast
  have hz: "\<And>c c' src sf f h. cs_hz sdk c (cs_configure sdk c' src sf f h) = (if c = c' then f else cs_hz sdk c h)"
    using assms(1) by (simp add: clock_laws_def)
  have v: "GetVoltageBySysClock khz AND 0x1f = GetVoltageBySysClock khz"
    by (simp add: GetVoltageBySysClock_def VREG_VOLTAGE_1_30_def VREG_VOLTAGE_1_25_def VREG_VOLTAGE_1_20_def VREG_VOLTAGE_1_15_def VREG_VOLTAGE_1_10_def)
  show ?thesis
  proof (cases "khz > ?old")
    case True
    then have "\<not> khz < ?old" by simp
    with True show ?thesis
      using assms(2) x v
      by (simp add: ClockPllSysFreqVolt_def Let_def hz on_sdk_def flash_and_voltage_def FlashInit_def VregSetVoltage_def pll_gives_def)
  next
    case False
    then have "khz < ?old" using assms(2) by simp
    with False show ?thesis
      using assms(2) x v
      by (simp add: ClockPllSysFreqVolt_def Let_def hz on_sdk_def flash_and_voltage_def FlashInit_def VregSetVoltage_def pll_gives_def)
  qed
qed

lemma bringup_flash: "rg_timing (master_clocks_bringup sdk vreg r) AND 0xFF = 4"
proof -
  have "flash_divisor (CPU_SPEED * 1000000) = 4" by (simp add: flash_divisor_def CPU_SPEED_def FLASH_MAX_FREQ_MHZ_def Let_def)
  then show ?thesis
    by (simp add: master_clocks_bringup_def Let_def on_sdk_def flash_set_clkdiv_def CPU_SPEED_def word_ao_dist word_bw_assocs)
qed

lemma bringup_clocks:
  assumes "clock_laws sdk"
  shows "cs_hz sdk Clk_peri (rg_sdk (master_clocks_bringup sdk vreg r)) = 48000000"
    "cs_hz sdk Clk_sys (rg_sdk (master_clocks_bringup sdk vreg r)) = 252000000"
    "rg_vreg (master_clocks_bringup sdk vreg r) = vreg"
  using assms by (simp_all add: master_clocks_bringup_def Let_def on_sdk_def clock_laws_def CPU_SPEED_def)

text \<open>The mode of the display from the clocks of \<open>clocks_bringup\<close>: down to 150 MHz and up again.\<close>

lemma mode_selected:
  assumes "clock_laws sdk" "turn k" "\<not> dv_running d" "vm_vtime v = vmodetime_640x480_fast"
    "cs_hz sdk Clk_sys (rg_sdk r) = 252000000" "s = dv_scan d\<lparr>sc_mode := v\<rparr>"
  obtains r' where
    "DispHstxSelDispMode sdk b0 turn e v (d, r) = Some (d\<lparr>dv_core1 := True, dv_req := REQNO,
       dv_scan := DispHstxDviInit e s, dv_running := True\<rparr>, r')"
    "cs_hz sdk Clk_sys (rg_sdk r') = 252000000" "cs_hz sdk Clk_hstx (rg_sdk r') = 126000000"
    "rg_timing r' AND 0xFF = 3" "rg_vreg r' = VREG_VOLTAGE_1_20" "pll_gives 252000 r'"
proof -
  let ?r1 = "ClockPllSysFreqVolt sdk b0 PLL_KHZ r"
  let ?r2 = "ClockPllSysFreqVolt sdk b0 252000 ?r1"
  let ?r3 = "on_sdk (cs_configure sdk Clk_hstx From_pll_sys 252000000 126000000) ?r2"
  have k: "unat (252000 :: u32) = 252000" "unat PLL_KHZ = 150000" by (simp_all add: PLL_KHZ_def)
  have low: "cs_hz sdk Clk_sys (rg_sdk ?r1) = 150000000"
    using change_clock [OF assms(1), where khz = PLL_KHZ and r = r and f = 125 and ?p1.0 = 5 and ?p2.0 = 2 and ?b0.0 = b0] assms(5)
    by (simp add: display_candidate PLL_KHZ_def)
  note high = change_clock [OF assms(1), where khz = 252000 and r = ?r1 and f = 126 and ?p1.0 = 6 and ?p2.0 = 1 and ?b0.0 = b0,
      unfolded low k display_candidate, simplified]
  have hz: "\<And>c c' src sf f h. cs_hz sdk c (cs_configure sdk c' src sf f h) = (if c = c' then f else cs_hz sdk c h)"
    using assms(1) by (simp add: clock_laws_def)
  have "DispHstxSelDispMode sdk b0 turn e v (d, r) = Some (d\<lparr>dv_core1 := True, dv_req := REQNO,
       dv_scan := DispHstxDviInit e s, dv_running := True\<rparr>, ?r3)"
    using assms(3,4,6) start_returns [of turn k, OF assms(2)]
    by (simp add: DispHstxSelDispMode_def DispHstxAllTerm_def DispHstxDviStop_def vmodetime_640x480_fast_def Let_def)
  moreover have "rg_timing ?r3 AND 0xFF = 3" "rg_vreg ?r3 = VREG_VOLTAGE_1_20" "pll_gives 252000 ?r3"
    using high by (simp_all add: on_sdk_def FlashInit_def GetClkDivBySysClock_def GetVoltageBySysClock_def pll_gives_def)
  ultimately show ?thesis using that [of ?r3] high by (simp add: on_sdk_def hz)
qed

text \<open>The start of the master up to the second \<open>stdio_init_all\<close>.\<close>

lemma brought_up:
  assumes "clock_laws sdk" "turn k" "\<not> dv_running d" "vm_vtime v = vmodetime_640x480_fast" "s = dv_scan d\<lparr>sc_mode := v\<rparr>"
  obtains d' r' where "clocks_and_display sdk vreg b0 turn e v (d, r) = Some (d', r')" "dv_running d'" "dv_scan d' = DispHstxDviInit e s"
    "cs_hz sdk Clk_sys (rg_sdk r') = 252000000" "cs_hz sdk Clk_hstx (rg_sdk r') = 126000000"
    "cs_hz sdk Clk_peri (rg_sdk r') = 48000000" "cs_uart_clock sdk (rg_sdk r') = 48000000"
    "rg_timing r' AND 0xFF = 3" "rg_vreg r' = VREG_VOLTAGE_1_20" "pll_gives 252000 r'"
proof -
  let ?r0 = "on_sdk (cs_stdio_init sdk) (master_clocks_bringup sdk vreg r)"
  have "cs_hz sdk Clk_sys (rg_sdk ?r0) = 252000000"
    using assms(1) bringup_clocks(2) [OF assms(1)] by (simp add: clock_laws_def on_sdk_def)
  then obtain r' where r': "DispHstxSelDispMode sdk b0 turn e v (d, ?r0) = Some (d\<lparr>dv_core1 := True, dv_req := REQNO,
       dv_scan := DispHstxDviInit e s, dv_running := True\<rparr>, r')"
    "cs_hz sdk Clk_sys (rg_sdk r') = 252000000" "cs_hz sdk Clk_hstx (rg_sdk r') = 126000000"
    "rg_timing r' AND 0xFF = 3" "rg_vreg r' = VREG_VOLTAGE_1_20" "pll_gives 252000 r'"
    by (rule mode_selected [where turn = turn and k = k, OF assms(1-4) _ assms(5)])
  let ?r'' = "on_sdk (cs_stdio_init sdk) (on_sdk (cs_configure sdk Clk_peri From_pll_usb 48000000 48000000) r')"
  have "cs_hz sdk Clk_sys (rg_sdk ?r'') = 252000000" "cs_hz sdk Clk_hstx (rg_sdk ?r'') = 126000000"
    "cs_hz sdk Clk_peri (rg_sdk ?r'') = 48000000" "cs_uart_clock sdk (rg_sdk ?r'') = 48000000"
    "rg_timing ?r'' AND 0xFF = 3" "rg_vreg ?r'' = VREG_VOLTAGE_1_20" "pll_gives 252000 ?r''"
    using assms(1) r'(2-6) by (simp_all add: clock_laws_def on_sdk_def pll_gives_def)
  with r'(1) show ?thesis
    using that [where d' = "d\<lparr>dv_core1 := True, dv_req := REQNO, dv_scan := DispHstxDviInit e s, dv_running := True\<rparr>" and r' = ?r'']
    by (simp add: clocks_and_display_def Let_def)
qed

text \<open>C18: Start-up ends with the picture on: once the second core gets a turn, \<open>display_init\<close> returns, and the
  scan-out is at its first line with the mode of the display, from which every line follows; the system PLL gives
  252 MHz exactly, the serialiser runs at five times the pixel clock of 800 by 525 pixels at 60 Hz, and the serial
  console has its divider worked out for the 48 MHz its clock has, although the display changes that clock meanwhile.\<close>

theorem start_up_ends_with_the_picture_on:
  assumes "clock_laws sdk" "turn k" "\<not> dv_running d" "snd (display_init malloc bmp di) = di'"
  shows "\<exists>d' r'. clocks_and_display sdk vreg b0 turn (env 0) (di_mode di') (d, r) = Some (d', r') \<and> dv_running d' \<and>
    dv_scan d' = scan_run env (dv_scan d\<lparr>sc_mode := di_mode di'\<rparr>) 0 \<and>
    cs_hz sdk Clk_sys (rg_sdk r') = 252000000 \<and> pll_gives 252000 r' \<and>
    uint (cs_hz sdk Clk_hstx (rg_sdk r')) = 5 * (800 * 525 * 60) \<and>
    cs_hz sdk Clk_peri (rg_sdk r') = 48000000 \<and> cs_uart_clock sdk (rg_sdk r') = cs_hz sdk Clk_peri (rg_sdk r')"
proof -
  have "vm_vtime (di_mode di') = vmodetime_640x480_fast" using assms(4) unfolding display_init_mode by auto
  from brought_up [where turn = turn and k = k, OF assms(1-3) this refl] obtain d' r' where
    "clocks_and_display sdk vreg b0 turn (env 0) (di_mode di') (d, r) = Some (d', r')" "dv_running d'"
    "dv_scan d' = DispHstxDviInit (env 0) (dv_scan d\<lparr>sc_mode := di_mode di'\<rparr>)"
    "cs_hz sdk Clk_sys (rg_sdk r') = 252000000" "cs_hz sdk Clk_hstx (rg_sdk r') = 126000000"
    "cs_hz sdk Clk_peri (rg_sdk r') = 48000000" "cs_uart_clock sdk (rg_sdk r') = 48000000" "pll_gives 252000 r'"
    by metis
  then show ?thesis by simp
qed

text \<open>C37: The display drives the flash too fast: \<open>clocks_bringup\<close> sets the divider of the flash so that it runs within
  \<open>FLASH_MAX_FREQ_MHZ\<close>, at 63 MHz, and a core voltage of its own choice; the scan-out library then goes down to
  150 MHz and up to the same 252 MHz with values from its own tables, so that the flash ends at 84 MHz, above the
  limit of 66 MHz that \<open>CMakeLists.txt\<close> gives, and the core at 1.20 V.\<close>

theorem display_overclocks_flash:
  assumes "clock_laws sdk" "turn k" "\<not> dv_running d" "vm_vtime v = vmodetime_640x480_fast" "r0 = master_clocks_bringup sdk vreg r"
  shows "cs_hz sdk Clk_sys (rg_sdk r0) div (rg_timing r0 AND 0xFF) \<le> FLASH_MAX_FREQ_MHZ * 1000000 \<and> rg_vreg r0 = vreg \<and>
    (\<exists>d' r'. clocks_and_display sdk vreg b0 turn e v (d, r) = Some (d', r') \<and>
       cs_hz sdk Clk_sys (rg_sdk r') = cs_hz sdk Clk_sys (rg_sdk r0) \<and>
       cs_hz sdk Clk_sys (rg_sdk r') div (rg_timing r' AND 0xFF) = 84000000 \<and> 84000000 > FLASH_MAX_FREQ_MHZ * 1000000 \<and>
       rg_vreg r' = VREG_VOLTAGE_1_20)"
proof -
  from brought_up [where turn = turn and k = k, OF assms(1-4) refl] obtain d' r' where
    "clocks_and_display sdk vreg b0 turn e v (d, r) = Some (d', r')" "cs_hz sdk Clk_sys (rg_sdk r') = 252000000"
    "rg_timing r' AND 0xFF = 3" "rg_vreg r' = VREG_VOLTAGE_1_20" by metis
  then show ?thesis
    using bringup_flash [of sdk vreg r] bringup_clocks(2,3) [OF assms(1), of vreg r] by (simp add: assms(5) FLASH_MAX_FREQ_MHZ_def)
qed

text \<open>Clocks as the documentation of the SDK describes them: each clock has a frequency, and the UART keeps the one it was set up for.\<close>

definition plain_clocks :: "((clock \<Rightarrow> u32) \<times> u32) clock_sdk" where
  "plain_clocks = \<lparr>cs_hz = (\<lambda>c h. fst h c), cs_configure = (\<lambda>c _ _ f h. ((fst h)(c := f), snd h)),
     cs_set_sys_khz = (\<lambda>khz h. ((fst h)(Clk_sys := khz * 1000), snd h)), cs_stdio_init = (\<lambda>h. (fst h, fst h Clk_peri)),
     cs_uart_clock = snd, cs_SYS_CLK_HZ = 150000000\<rparr>"

definition cold_rig :: "((clock \<Rightarrow> u32) \<times> u32) rig" where
  "cold_rig = \<lparr>rg_timing = 0x60007204, rg_vreg = VREG_VOLTAGE_1_10, rg_pll = (1, 125, 5, 2), rg_sdk = (\<lambda>_. 150000000, 0)\<rparr>"

definition cold_dvi :: dvi where
  "cold_dvi = \<lparr>dv_req = REQNO, dv_running = False, dv_core1 = False, dv_scan = demo_scan\<rparr>"

definition no_best :: pll_best where
  "no_best = \<lparr>pb_margin = 0, pb_khz = 0, pb_vco = 0, pb_fbdiv = 0, pb_pd1 = 0, pb_pd2 = 0\<rparr>"

lemma plain_clock_laws: "clock_laws plain_clocks"
  by (simp add: clock_laws_def plain_clocks_def)

theorem start_up_ends_with_the_picture_on_witness:
  "\<exists>d' r'. clocks_and_display plain_clocks 17 no_best (\<lambda>n. n = 7) demo_seen (di_mode (snd (display_init (\<lambda>_ _. Null) (\<lambda>_. 0) demo_display)))
     (cold_dvi, cold_rig) = Some (d', r') \<and> dv_running d' \<and> snd (rg_sdk r') = fst (rg_sdk r') Clk_peri"
proof -
  have "\<not> dv_running cold_dvi" by (simp add: cold_dvi_def)
  from start_up_ends_with_the_picture_on [OF plain_clock_laws, where k = 7 and turn = "\<lambda>n. n = 7" and env = "\<lambda>_. demo_seen", OF refl this refl]
  show ?thesis by (fastforce simp: plain_clocks_def)
qed

theorem display_overclocks_flash_witness:
  "\<exists>d' r'. clocks_and_display plain_clocks 17 no_best (\<lambda>n. n = 7) demo_seen (di_mode (snd (display_init (\<lambda>_ _. Null) (\<lambda>_. 0) demo_display)))
     (cold_dvi, cold_rig) = Some (d', r') \<and> fst (rg_sdk r') Clk_sys div (rg_timing r' AND 0xFF) = 84000000"
proof -
  have d: "\<not> dv_running cold_dvi" by (simp add: cold_dvi_def)
  have v: "vm_vtime (di_mode (snd (display_init (\<lambda>_ _. Null) (\<lambda>_. 0) demo_display))) = vmodetime_640x480_fast"
    by (simp add: display_init_mode)
  from display_overclocks_flash [OF plain_clock_laws, where k = 7 and turn = "\<lambda>n. n = 7" and e = demo_seen, OF refl d v refl]
  show ?thesis by (fastforce simp: plain_clocks_def)
qed

end
