(* ===== verification/BlkLink.thy ===== *)
theory BlkLink
  imports CoreUsbProps Server
begin

text \<open>
  \<open>firmware/common/core1_blk.c\<close>: block requests and console traffic of the half that runs Linux.
  The master and the wire between them are an argument, \<open>peer\<close>: given the request frame, the
  payload frame and the number of bytes armed for the reply, what came of the transaction.
\<close>

section \<open>State\<close>

datatype link_outcome =
    NoDoorbell         \<comment> \<open>the doorbell was not answered in time\<close>
  | SendFailed         \<comment> \<open>\<open>link_tx_finish\<close> timed out\<close>
  | RxShort nat        \<comment> \<open>\<open>link_rx_wait\<close> gave up with this many bytes missing\<close>
  | Answer "u8 list"   \<comment> \<open>the reply buffer, complete\<close>

type_synonym 'm peer = "u8 list \<Rightarrow> u8 list \<Rightarrow> nat \<Rightarrow> 'm \<Rightarrow> link_outcome \<times> 'm"

record slave =
  sl_core :: core1
  psram :: "u8 arr"
  blk_link_up :: bool
  blk_link_enabled :: bool
  blk_rx_remaining :: nat
  blk_init_status :: int
  blk_probe_done :: bool
  out_buf :: "u8 arr"
  next_poll_us :: u32
  warmup :: u32
  next_probe_us :: u32

definition on_core :: "(core1 \<Rightarrow> core1) \<Rightarrow> slave \<Rightarrow> slave" where
  "on_core f s = s\<lparr>sl_core := f (sl_core s)\<rparr>"

definition blk_of :: "slave \<Rightarrow> frank_blk" where
  "blk_of s = blk (shared (sl_core s))"

definition on_blk :: "(frank_blk \<Rightarrow> frank_blk) \<Rightarrow> slave \<Rightarrow> slave" where
  "on_blk f = on_core (\<lambda>c. c\<lparr>shared := (shared c)\<lparr>blk := f (blk (shared c))\<rparr>\<rparr>)"

definition frank_link_enable :: "slave \<Rightarrow> slave" where
  "frank_link_enable s = s\<lparr>blk_link_enabled := True\<rparr>"

definition frank_blk_init :: "slave \<Rightarrow> slave" where
  "frank_blk_init s =
     on_blk (\<lambda>b. b\<lparr>blk_seq := 0, blk_done := 0, blk_status := 0, blk_capacity := 0\<rparr>) (s\<lparr>blk_link_up := True\<rparr>)"

section \<open>One transaction\<close>

definition wire_bytes :: "u32 \<Rightarrow> u32 \<Rightarrow> u32" where
  "wire_bytes op count =
     (if op = LINK_BLK_OP_CON then (count + 3) AND NOT 3 else count * LINK_BLK_SECTOR)"

definition armed_bytes :: "u32 \<Rightarrow> u32 \<Rightarrow> u32" where
  "armed_bytes op count =
     (if op = LINK_BLK_OP_READ then 8 + wire_bytes op count
      else if op = LINK_BLK_OP_CON then 8 + of_nat LINK_CON_MAX_KEYS else 8)"

definition request_payload :: "u32 \<Rightarrow> u32 \<Rightarrow> u8 arr \<Rightarrow> u8 list" where
  "request_payload op count buf =
     (if op = LINK_BLK_OP_WRITE \<or> op = LINK_BLK_OP_CON \<and> wire_bytes op count \<noteq> 0
      then mem_get 0 (unat (wire_bytes op count)) buf else [])"

text \<open>The result, \<open>*capacity_out\<close> when it is written, and the buffer and the two sides after it.\<close>

definition blk_transact :: "'m peer \<Rightarrow> u32 \<Rightarrow> u32 \<Rightarrow> u32 \<Rightarrow> u8 arr \<Rightarrow> slave \<times> 'm \<Rightarrow>
    int \<times> u32 option \<times> u8 arr \<times> slave \<times> 'm" where
  "blk_transact peer op lba count buf = (\<lambda>(s, m).
     if \<not> blk_link_up s then (- 19, None, buf, s, m)
     else case peer (req_bytes \<lparr>rq_magic = LINK_BLK_MAGIC, rq_op = op, rq_lba = lba, rq_count = count\<rparr>)
                    (request_payload op count buf) (unat (armed_bytes op count)) m of
       (NoDoorbell, m) \<Rightarrow> (- 110, None, buf, s, m)
     | (SendFailed, m) \<Rightarrow> (- 5, None, buf, s, m)
     | (RxShort n, m) \<Rightarrow> (- 5, None, buf, s\<lparr>blk_rx_remaining := n\<rparr>, m)
     | (Answer reply, m) \<Rightarrow>
         (let s = s\<lparr>blk_rx_remaining := 0\<rparr>;
              rsp = rsp_of_bytes reply; st = sint (rs_status rsp);
              buf = (if st = 0 \<and> op = LINK_BLK_OP_READ
                     then mem_put 0 (take (unat (wire_bytes op count)) (drop 8 reply)) buf else buf);
              s = (if st = 0 \<and> op = LINK_BLK_OP_CON \<and> rs_value rsp \<noteq> 0
                   then on_core (\<lambda>c. frank_console_feed c
                          (take (min LINK_CON_MAX_KEYS (unat (rs_value rsp))) (drop 8 reply))) s
                   else s)
          in (st, Some (rs_value rsp), buf, s, m)))"

section \<open>Reporting a number\<close>

text \<open>
  The digits of \<open>u\<close>, written backwards into the \<open>i\<close> places that are left; the places still
  free afterwards.
\<close>

fun put_digits :: "nat \<Rightarrow> u32 \<Rightarrow> u8 list \<Rightarrow> nat \<times> u8 list" where
  "put_digits 0 u acc = (0, acc)"
| "put_digits (Suc i) u acc =
     (if u \<noteq> 0 then put_digits i (u div 10) ((48 + ucast (u mod 10)) # acc) else (Suc i, acc))"

definition blk_report :: "u8 list \<Rightarrow> u32 \<Rightarrow> slave \<Rightarrow> slave" where
  "blk_report what v s =
     (let neg = sint v < 0;
          u = (if neg then - v else v);
          (i, str) = (if u = 0 then put_digits 13 u [48] else put_digits 14 u []);
          str = (if neg \<and> i > 0 then 45 # str else str)
      in on_core (\<lambda>c. frank_ring_puts (frank_ring_puts (frank_ring_puts c what) str) [13, 10]) s)"

section \<open>Probe, console and service\<close>

definition blk_probe :: "'m peer \<Rightarrow> slave \<times> 'm \<Rightarrow> slave \<times> 'm" where
  "blk_probe peer sm =
     (case blk_transact peer LINK_BLK_OP_INFO 0 0 (\<lambda>_. 0) sm of (st, cap, _, s, m) \<Rightarrow>
        let s = s\<lparr>blk_init_status := st\<rparr>
        in if st \<noteq> 0 then (s, m)
           else let cap = (case cap of Some v \<Rightarrow> v | None \<Rightarrow> 0);
                    s = blk_report (bytes_of ''blk: capacity='') cap s
                in ((on_blk (\<lambda>b. b\<lparr>blk_capacity := cap\<rparr>) s)\<lparr>blk_probe_done := True\<rparr>, m))"

definition frank_link_console_up :: "slave \<Rightarrow> bool" where
  "frank_link_console_up s \<longleftrightarrow> blk_probe_done s \<and> blk_init_status s = 0"

definition console_pump :: "u32 \<Rightarrow> 'm peer \<Rightarrow> slave \<times> 'm \<Rightarrow> slave \<times> 'm" where
  "console_pump now peer = (\<lambda>(s, m).
     case frank_console_take (sl_core s) LINK_CON_MAX_TX of (c, bs) \<Rightarrow>
       let n = of_nat (length bs) :: u32;
           s = s\<lparr>sl_core := c, out_buf := mem_put 0 bs (out_buf s)\<rparr>
       in if n = 0 \<and> sint (now - next_poll_us s) < 0 then (s, m)
          else let pad = unat ((n + 3) AND NOT 3) - unat n;
                   s = s\<lparr>next_poll_us := now + 5000, out_buf := mem_put (unat n) (replicate pad 0) (out_buf s)\<rparr>
               in case blk_transact peer LINK_BLK_OP_CON 0 n (out_buf s) (s, m) of (_, _, buf, s, m) \<Rightarrow>
                    (s\<lparr>out_buf := buf\<rparr>, m))"

definition serve_blk :: "'m peer \<Rightarrow> slave \<times> 'm \<Rightarrow> slave \<times> 'm" where
  "serve_blk peer = (\<lambda>(s, m).
     let b = blk_of s
     in if blk_seq b = blk_done b then (s, m)
        else let base = unat (blk_addr b);
                 (st, _, buf, s, m) =
                   (if blk_count b = 0 \<or> blk_count b > LINK_BLK_MAX_SECTORS
                    then (- 22, None, \<lambda>i. psram s (base + i), s, m)
                    else blk_transact peer (blk_op b) (blk_lba b) (blk_count b) (\<lambda>i. psram s (base + i)) (s, m));
                 s = s\<lparr>psram := (\<lambda>a. if base \<le> a then buf (a - base) else psram s a)\<rparr>
             in (on_blk (\<lambda>b'. b'\<lparr>blk_status := of_int st, blk_done := blk_seq b\<rparr>) s, m))"

definition frank_blk_service :: "u32 \<Rightarrow> 'm peer \<Rightarrow> slave \<times> 'm \<Rightarrow> slave \<times> 'm" where
  "frank_blk_service now peer = (\<lambda>(s, m).
     if \<not> blk_link_enabled s then (s, m)
     else let s = s\<lparr>warmup := warmup s + 1\<rparr>
          in if warmup s < 200000 then (s, m)
             else if \<not> blk_probe_done s then
               (if sint (now - next_probe_us s) < 0 then (s, m)
                else blk_probe peer (s\<lparr>next_probe_us := now + 250000\<rparr>, m))
             else serve_blk peer (console_pump now peer (s, m)))"

end
