(* ===== verification/LinkProps.thy ===== *)
theory LinkProps
  imports BlkLink
begin

text \<open>
  The two halves together.  \<open>block_server\<close> is what core 1 needs from the other end of the link;
  an intact link to the master's main loop with the RAM disk provides it, and the disk of
  Linux, the console and the termination of requests rest on that.
\<close>

section \<open>The interface\<close>

definition split_sectors :: "nat \<Rightarrow> u8 list \<Rightarrow> u8 list list" where
  "split_sectors n bs = map (\<lambda>i. take 512 (drop (i * 512) bs)) [0..<n]"

definition a_request :: "u32 \<Rightarrow> u32 \<Rightarrow> u32 \<Rightarrow> u8 list" where
  "a_request code lba count =
     req_bytes \<lparr>rq_magic = LINK_BLK_MAGIC, rq_op = code, rq_lba = lba, rq_count = count\<rparr>"

definition success :: "u32 \<Rightarrow> u8 list" where
  "success v = rsp_bytes \<lparr>rs_status = 0, rs_value = v\<rparr>"

text \<open>A request for at least one and at most eight sectors inside a device of \<open>n\<close>.\<close>

definition fair :: "u32 \<Rightarrow> u32 \<Rightarrow> nat \<Rightarrow> bool" where
  "fair lba count n \<longleftrightarrow> 0 < unat count \<and> unat count \<le> 8 \<and> unat lba + unat count \<le> n"

locale block_server =
  fixes peer :: "'m peer"
    and sectors :: "'m \<Rightarrow> u8 list list"
    and ok :: "'m \<Rightarrow> bool"
  assumes all_sectors: "ok m \<Longrightarrow> list_all is_sector (sectors m)"
    and read_law: "ok m \<Longrightarrow> fair lba count (length (sectors m)) \<Longrightarrow>
      \<exists>v m'. peer (a_request LINK_BLK_OP_READ lba count) [] (8 + 512 * unat count) m =
          (Answer (success v @ concat (take (unat count) (drop (unat lba) (sectors m)))), m') \<and>
        ok m' \<and> sectors m' = sectors m"
    and write_law: "ok m \<Longrightarrow> fair lba count (length (sectors m)) \<Longrightarrow> length bs = 512 * unat count \<Longrightarrow>
      \<exists>v m'. peer (a_request LINK_BLK_OP_WRITE lba count) bs 8 m = (Answer (success v), m') \<and> ok m' \<and>
        sectors m' = take (unat lba) (sectors m) @ split_sectors (unat count) bs @
          drop (unat lba + unat count) (sectors m)"
    and console_law: "ok m \<Longrightarrow> peer (a_request LINK_BLK_OP_CON lba count) bs n m = (out, m') \<Longrightarrow>
      ok m' \<and> sectors m' = sectors m"

lemma u32_512: "unat count \<le> 8 \<Longrightarrow> unat (count * LINK_BLK_SECTOR) = 512 * unat count"
proof -
  assume c: "unat count \<le> 8"
  have "count * LINK_BLK_SECTOR = of_nat (512 * unat count)" by (simp add: LINK_BLK_SECTOR_def mult.commute)
  moreover have "unat (of_nat (512 * unat count) :: u32) = 512 * unat count"
    using c by (intro unat_of_nat_small) simp
  ultimately show ?thesis by simp
qed

lemma transact_sizes:
  assumes "unat count \<le> 8"
  shows "unat (wire_bytes LINK_BLK_OP_READ count) = 512 * unat count"
    and "unat (wire_bytes LINK_BLK_OP_WRITE count) = 512 * unat count"
    and "unat (armed_bytes LINK_BLK_OP_READ count) = 8 + 512 * unat count"
    and "unat (armed_bytes LINK_BLK_OP_WRITE count) = 8"
proof -
  show 1: "unat (wire_bytes LINK_BLK_OP_READ count) = 512 * unat count"
    "unat (wire_bytes LINK_BLK_OP_WRITE count) = 512 * unat count"
    using u32_512 [OF assms] by (simp_all add: wire_bytes_def LINK_BLK_OP_CON_def LINK_BLK_OP_READ_def LINK_BLK_OP_WRITE_def)
  have "unat (8 + wire_bytes LINK_BLK_OP_READ count) = 8 + unat (wire_bytes LINK_BLK_OP_READ count)"
    using assms 1(1) by (simp add: unat_word_ariths(1))
  then show "unat (armed_bytes LINK_BLK_OP_READ count) = 8 + 512 * unat count"
    using 1 by (simp add: armed_bytes_def)
  show "unat (armed_bytes LINK_BLK_OP_WRITE count) = 8"
    by (simp add: armed_bytes_def link_consts)
qed

lemma concat_chunks: "concat (map (\<lambda>i. take k (drop (i * k) bs)) [0..<n]) = take (n * k) bs"
proof (induction n)
  case (Suc n)
  then show ?case using take_add [of "n * k" k bs] by (simp add: add.commute)
qed simp

lemma concat_split: "length bs = 512 * n \<Longrightarrow> concat (split_sectors n bs) = bs"
  by (simp add: split_sectors_def concat_chunks)

lemma length_split [simp]: "length (split_sectors n bs) = n"
  by (simp add: split_sectors_def)

lemma all_split: "length bs = 512 * n \<Longrightarrow> list_all is_sector (split_sectors n bs)"
proof -
  assume "length bs = 512 * n"
  moreover have "i * 512 + 512 \<le> 512 * n" if "i < n" for i
    using mult_le_mono2 [of "Suc i" n 512] that by simp
  ultimately show ?thesis by (auto simp: split_sectors_def list_all_iff is_sector_def)
qed

lemma rsp_success: "rsp_of_bytes (success v @ bs) = \<lparr>rs_status = 0, rs_value = v\<rparr>" "length (success v) = 8"
  "rsp_of_bytes (success v) = \<lparr>rs_status = 0, rs_value = v\<rparr>"
  using rsp_roundtrip [of _ "[]"] by (simp_all add: success_def rsp_roundtrip)

text \<open>Everything of the slave but the console rings and the bookkeeping of the link.\<close>

definition slave_keeps :: "slave \<Rightarrow> slave \<Rightarrow> bool" where
  "slave_keeps s s' \<longleftrightarrow> blk_of s' = blk_of s \<and> psram s' = psram s \<and> blk_link_up s' = blk_link_up s \<and>
     blk_link_enabled s' = blk_link_enabled s \<and> blk_probe_done s' = blk_probe_done s \<and> warmup s' = warmup s"

text \<open>Linked, probed and warm for at least \<open>k\<close> more passes before the warm-up counter wraps.\<close>

definition service_ready :: "nat \<Rightarrow> slave \<Rightarrow> bool" where
  "service_ready k s \<longleftrightarrow> blk_link_enabled s \<and> blk_link_up s \<and> blk_probe_done s \<and>
     200000 \<le> unat (warmup s) + 1 \<and> unat (warmup s) + k < 2 ^ 32"

lemma warmup_step: "unat (warmup s) + 1 < 2 ^ 32 \<Longrightarrow> unat (warmup s + 1) = unat (warmup s) + 1"
  by (simp add: unat_word_ariths(1))

lemma service_ready_warm: "service_ready 1 s \<Longrightarrow> \<not> warmup s + 1 < 200000"
  by (simp add: service_ready_def word_less_nat_alt warmup_step)

text \<open>The request Linux has published is answered with this status, and nothing else is.\<close>

definition served_request :: "int \<Rightarrow> slave \<Rightarrow> slave \<Rightarrow> bool" where
  "served_request st s s' \<longleftrightarrow>
     blk_of s' = (blk_of s)\<lparr>blk_status := of_int st, blk_done := blk_seq (blk_of s)\<rparr> \<and>
     blk_link_enabled s' = blk_link_enabled s \<and> blk_link_up s' = blk_link_up s \<and>
     blk_probe_done s' = blk_probe_done s \<and> warmup s' = warmup s + 1"

lemma mem_get_shift: "mem_get 0 n (\<lambda>i. m (base + i)) = mem_get base n m"
  by (rule nth_equalityI) (auto simp: mem_get_def)

context block_server begin

lemma transact_write:
  assumes "blk_link_up s" "ok m" "fair lba count (length (sectors m))"
  obtains v m' where "blk_transact peer LINK_BLK_OP_WRITE lba count buf (s, m) =
      (0, Some v, buf, s\<lparr>blk_rx_remaining := 0\<rparr>, m')"
    "ok m'" "sectors m' = take (unat lba) (sectors m) @ split_sectors (unat count) (mem_get 0 (512 * unat count) buf) @
      drop (unat lba + unat count) (sectors m)"
proof -
  have c: "unat count \<le> 8" using assms(3) by (simp add: fair_def)
  note sz = transact_sizes [OF c]
  have pl: "request_payload LINK_BLK_OP_WRITE count buf = mem_get 0 (512 * unat count) buf"
    by (simp add: request_payload_def sz)
  obtain v m' where r: "peer (a_request LINK_BLK_OP_WRITE lba count) (mem_get 0 (512 * unat count) buf) 8 m =
      (Answer (success v), m')" "ok m'"
    "sectors m' = take (unat lba) (sectors m) @ split_sectors (unat count) (mem_get 0 (512 * unat count) buf) @
      drop (unat lba + unat count) (sectors m)"
    using write_law [OF assms(2,3) length_mem_get] by blast
  have "blk_transact peer LINK_BLK_OP_WRITE lba count buf (s, m) = (0, Some v, buf, s\<lparr>blk_rx_remaining := 0\<rparr>, m')"
    using assms(1) r(1) by (simp add: blk_transact_def pl sz a_request_def [symmetric] rsp_success Let_def)
      (simp add: link_consts)
  from that [OF this r(2,3)] show thesis .
qed

lemma transact_read:
  assumes "blk_link_up s" "ok m" "fair lba count (length (sectors m))"
  obtains v m' where "blk_transact peer LINK_BLK_OP_READ lba count buf (s, m) =
      (0, Some v, mem_put 0 (concat (take (unat count) (drop (unat lba) (sectors m)))) buf, s\<lparr>blk_rx_remaining := 0\<rparr>, m')"
    "ok m'" "sectors m' = sectors m"
proof -
  have c: "unat count \<le> 8" "unat lba + unat count \<le> length (sectors m)" using assms(3) by (simp_all add: fair_def)
  note sz = transact_sizes [OF c(1)]
  have pl: "request_payload LINK_BLK_OP_READ count buf = []"
    by (simp add: request_payload_def LINK_BLK_OP_READ_def LINK_BLK_OP_WRITE_def LINK_BLK_OP_CON_def)
  let ?data = "concat (take (unat count) (drop (unat lba) (sectors m)))"
  have "list_all is_sector (take (unat count) (drop (unat lba) (sectors m)))"
    using all_sectors [OF assms(2)] by (auto simp: list_all_iff dest: in_set_takeD in_set_dropD)
  then have len: "length ?data = 512 * unat count"
    using length_concat_sectors c(2) by fastforce
  obtain v m' where r: "peer (a_request LINK_BLK_OP_READ lba count) [] (8 + 512 * unat count) m =
      (Answer (success v @ ?data), m')" "ok m'" "sectors m' = sectors m"
    using read_law [OF assms(2,3)] by blast
  have "blk_transact peer LINK_BLK_OP_READ lba count buf (s, m) =
      (0, Some v, mem_put 0 ?data buf, s\<lparr>blk_rx_remaining := 0\<rparr>, m')"
    using assms(1) r(1) len by (simp add: blk_transact_def pl sz a_request_def [symmetric] rsp_success Let_def)
      (simp add: link_consts)
  from that [OF this r(2,3)] show thesis .
qed

text \<open>What the console transaction leaves alone, and so the whole pass before the disk.\<close>

lemma transact_console_keeps:
  assumes "blk_transact peer LINK_BLK_OP_CON lba count buf (s, m) = (st, cap, buf', s', m')" "ok m"
  shows "ok m' \<and> sectors m' = sectors m \<and> slave_keeps s s'"
proof -
  obtain out m1 where p: "peer (a_request LINK_BLK_OP_CON lba count) (request_payload LINK_BLK_OP_CON count buf)
      (unat (armed_bytes LINK_BLK_OP_CON count)) m = (out, m1)" by fastforce
  note law = console_law [OF assms(2) p]
  show ?thesis
    using assms p law
    by (cases out)
      (auto simp: blk_transact_def a_request_def slave_keeps_def blk_of_def on_core_def frank_console_feed_def Let_def
        split: if_splits)
qed

lemma pump_keeps:
  assumes "console_pump now peer (s, m) = (s', m')" "ok m"
  shows "ok m' \<and> sectors m' = sectors m \<and> slave_keeps s s'"
proof -
  obtain c bs where t: "frank_console_take (sl_core s) LINK_CON_MAX_TX = (c, bs)" by fastforce
  have c: "shared c = shared (sl_core s)"
    using t by (auto simp: frank_console_take_def split: prod.splits)
  let ?n = "of_nat (length bs) :: u32"
  let ?s = "s\<lparr>sl_core := c, out_buf := mem_put 0 bs (out_buf s)\<rparr>"
  show ?thesis
  proof (cases "?n = 0 \<and> sint (now - next_poll_us ?s) < 0")
    case True
    then show ?thesis using assms t c by (auto simp: console_pump_def Let_def slave_keeps_def blk_of_def)
  next
    case False
    let ?pad = "unat ((?n + 3) AND NOT 3) - unat ?n"
    let ?s1 = "?s\<lparr>next_poll_us := now + 5000, out_buf := mem_put (unat ?n) (replicate ?pad 0) (out_buf ?s)\<rparr>"
    obtain st cap buf s2 m2 where
      tr: "blk_transact peer LINK_BLK_OP_CON 0 ?n (out_buf ?s1) (?s1, m) = (st, cap, buf, s2, m2)"
      by (metis prod_cases5)
    have "s' = s2\<lparr>out_buf := buf\<rparr>" "m' = m2"
      using assms(1) t False tr unfolding console_pump_def Let_def by auto
    then show ?thesis
      using transact_console_keeps [OF tr assms(2)] c by (auto simp: slave_keeps_def blk_of_def)
  qed
qed

text \<open>One pass of the service with a request for the disk pending.\<close>

lemma service_pass:
  assumes "service_ready 1 s" "ok m" "blk_seq (blk_of s) \<noteq> blk_done (blk_of s)"
    "fair (blk_lba (blk_of s)) (blk_count (blk_of s)) n"
  obtains s1 m1 where "slave_keeps (s\<lparr>warmup := warmup s + 1\<rparr>) s1" "ok m1" "sectors m1 = sectors m"
    "frank_blk_service now peer (s, m) =
      (let b = blk_of s; base = unat (blk_addr b);
           (st, _, buf, s2, m2) = blk_transact peer (blk_op b) (blk_lba b) (blk_count b) (\<lambda>i. psram s (base + i)) (s1, m1)
       in (on_blk (\<lambda>b'. b'\<lparr>blk_status := of_int st, blk_done := blk_seq b\<rparr>)
             (s2\<lparr>psram := (\<lambda>a. if base \<le> a then buf (a - base) else psram s2 a)\<rparr>), m2))"
proof -
  let ?s = "s\<lparr>warmup := warmup s + 1\<rparr>"
  obtain s1 m1 where p: "console_pump now peer (?s, m) = (s1, m1)" by fastforce
  have k: "slave_keeps ?s s1" "ok m1" "sectors m1 = sectors m"
    using pump_keeps [OF p assms(2)] by auto
  then have b: "blk_of s1 = blk_of s" "psram s1 = psram s" by (simp_all add: slave_keeps_def blk_of_def)
  have "\<not> warmup s + 1 < 200000"
    using service_ready_warm [OF assms(1)] .
  then have "frank_blk_service now peer (s, m) = serve_blk peer (s1, m1)"
    using assms(1) p by (simp add: frank_blk_service_def service_ready_def)
  moreover have "\<not> (blk_count (blk_of s) = 0 \<or> blk_count (blk_of s) > LINK_BLK_MAX_SECTORS)"
    using assms(4) by (auto simp: fair_def LINK_BLK_MAX_SECTORS_def word_less_nat_alt)
  ultimately have "frank_blk_service now peer (s, m) =
      (let b = blk_of s; base = unat (blk_addr b);
           (st, _, buf, s2, m2) = blk_transact peer (blk_op b) (blk_lba b) (blk_count b) (\<lambda>i. psram s (base + i)) (s1, m1)
       in (on_blk (\<lambda>b'. b'\<lparr>blk_status := of_int st, blk_done := blk_seq b\<rparr>)
             (s2\<lparr>psram := (\<lambda>a. if base \<le> a then buf (a - base) else psram s2 a)\<rparr>), m2))"
    using assms(3) by (simp add: serve_blk_def b Let_def del: de_Morgan_disj)
  from that [OF k this] show thesis .
qed

lemma service_write:
  assumes "service_ready 1 s" "ok m" "blk_seq (blk_of s) \<noteq> blk_done (blk_of s)"
    "blk_op (blk_of s) = LINK_BLK_OP_WRITE"
    "fair (blk_lba (blk_of s)) (blk_count (blk_of s)) (length (sectors m))"
    "frank_blk_service now peer (s, m) = (s', m')"
  shows "ok m' \<and> psram s' = psram s \<and> served_request 0 s s' \<and>
    sectors m' = take (unat (blk_lba (blk_of s))) (sectors m) @
      split_sectors (unat (blk_count (blk_of s)))
        (mem_get (unat (blk_addr (blk_of s))) (512 * unat (blk_count (blk_of s))) (psram s)) @
      drop (unat (blk_lba (blk_of s)) + unat (blk_count (blk_of s))) (sectors m)"
proof -
  obtain s1 m1 where k: "slave_keeps (s\<lparr>warmup := warmup s + 1\<rparr>) s1" "ok m1" "sectors m1 = sectors m"
    and e: "frank_blk_service now peer (s, m) =
      (let b = blk_of s; base = unat (blk_addr b);
           (st, _, buf, s2, m2) = blk_transact peer (blk_op b) (blk_lba b) (blk_count b) (\<lambda>i. psram s (base + i)) (s1, m1)
       in (on_blk (\<lambda>b'. b'\<lparr>blk_status := of_int st, blk_done := blk_seq b\<rparr>)
             (s2\<lparr>psram := (\<lambda>a. if base \<le> a then buf (a - base) else psram s2 a)\<rparr>), m2))"
    by (rule service_pass [OF assms(1-3,5)])
  have up: "blk_link_up s1" using k(1) assms(1) by (simp add: slave_keeps_def service_ready_def)
  obtain v m2 where t: "blk_transact peer LINK_BLK_OP_WRITE (blk_lba (blk_of s)) (blk_count (blk_of s))
      (\<lambda>i. psram s (unat (blk_addr (blk_of s)) + i)) (s1, m1) =
      (0, Some v, \<lambda>i. psram s (unat (blk_addr (blk_of s)) + i), s1\<lparr>blk_rx_remaining := 0\<rparr>, m2)"
    "ok m2" "sectors m2 = take (unat (blk_lba (blk_of s))) (sectors m1) @ split_sectors (unat (blk_count (blk_of s)))
      (mem_get 0 (512 * unat (blk_count (blk_of s))) (\<lambda>i. psram s (unat (blk_addr (blk_of s)) + i))) @
      drop (unat (blk_lba (blk_of s)) + unat (blk_count (blk_of s))) (sectors m1)"
    by (rule transact_write [OF up k(2)]) (use assms(5) k(3) in auto)
  have "m' = m2" "s' = on_blk (\<lambda>b'. b'\<lparr>blk_status := 0, blk_done := blk_seq (blk_of s)\<rparr>)
      (s1\<lparr>blk_rx_remaining := 0, psram := (\<lambda>a. if unat (blk_addr (blk_of s)) \<le> a
          then psram s (unat (blk_addr (blk_of s)) + (a - unat (blk_addr (blk_of s))))
          else psram (s1\<lparr>blk_rx_remaining := 0\<rparr>) a)\<rparr>)"
    using assms(6) unfolding e assms(4) Let_def t(1) by auto
  then show ?thesis
    using t(2,3) k by (auto simp: served_request_def slave_keeps_def on_blk_def on_core_def blk_of_def mem_get_shift fun_eq_iff)
qed

lemma service_read:
  assumes "service_ready 1 s" "ok m" "blk_seq (blk_of s) \<noteq> blk_done (blk_of s)"
    "blk_op (blk_of s) = LINK_BLK_OP_READ"
    "fair (blk_lba (blk_of s)) (blk_count (blk_of s)) (length (sectors m))"
    "frank_blk_service now peer (s, m) = (s', m')"
  shows "ok m' \<and> sectors m' = sectors m \<and> served_request 0 s s' \<and>
    psram s' = mem_put (unat (blk_addr (blk_of s)))
      (concat (take (unat (blk_count (blk_of s))) (drop (unat (blk_lba (blk_of s))) (sectors m)))) (psram s)"
proof -
  let ?data = "concat (take (unat (blk_count (blk_of s))) (drop (unat (blk_lba (blk_of s))) (sectors m)))"
  obtain s1 m1 where k: "slave_keeps (s\<lparr>warmup := warmup s + 1\<rparr>) s1" "ok m1" "sectors m1 = sectors m"
    and e: "frank_blk_service now peer (s, m) =
      (let b = blk_of s; base = unat (blk_addr b);
           (st, _, buf, s2, m2) = blk_transact peer (blk_op b) (blk_lba b) (blk_count b) (\<lambda>i. psram s (base + i)) (s1, m1)
       in (on_blk (\<lambda>b'. b'\<lparr>blk_status := of_int st, blk_done := blk_seq b\<rparr>)
             (s2\<lparr>psram := (\<lambda>a. if base \<le> a then buf (a - base) else psram s2 a)\<rparr>), m2))"
    by (rule service_pass [OF assms(1-3,5)])
  have up: "blk_link_up s1" using k(1) assms(1) by (simp add: slave_keeps_def service_ready_def)
  obtain v m2 where t: "blk_transact peer LINK_BLK_OP_READ (blk_lba (blk_of s)) (blk_count (blk_of s))
      (\<lambda>i. psram s (unat (blk_addr (blk_of s)) + i)) (s1, m1) =
      (0, Some v, mem_put 0 ?data (\<lambda>i. psram s (unat (blk_addr (blk_of s)) + i)), s1\<lparr>blk_rx_remaining := 0\<rparr>, m2)"
    "ok m2" "sectors m2 = sectors m1"
    by (rule transact_read [OF up k(2)]) (use assms(5) k(3) in auto)
  have "m' = m2" "s' = on_blk (\<lambda>b'. b'\<lparr>blk_status := 0, blk_done := blk_seq (blk_of s)\<rparr>)
      (s1\<lparr>blk_rx_remaining := 0, psram := (\<lambda>a. if unat (blk_addr (blk_of s)) \<le> a
          then mem_put 0 ?data (\<lambda>i. psram s (unat (blk_addr (blk_of s)) + i)) (a - unat (blk_addr (blk_of s))) else psram (s1\<lparr>blk_rx_remaining := 0\<rparr>) a)\<rparr>)"
    using assms(6) unfolding e assms(4) Let_def t(1) by auto
  then show ?thesis
    using t(2,3) k by (auto simp: served_request_def slave_keeps_def on_blk_def on_core_def blk_of_def mem_put_def fun_eq_iff)
qed

end

end
