(* ===== verification/MasterRun.thy ===== *)
theory MasterRun
  imports Server InputProps
begin

text \<open>
  The master as a whole: its main loop never gets stuck and never leaves its bounds, whatever
  arrives on the link, on USB and on the serial line.
\<close>

section \<open>Steps that keep the bounds\<close>

definition con_step :: "console \<Rightarrow> console \<Rightarrow> bool" where
  "con_step c c' \<longleftrightarrow> term_step (c_term c) (c_term c') \<and> hid_step (c_hid c) (c_hid c')"

lemma con_step_refl [simp]: "con_step c c"
  by (simp add: con_step_def)

lemma con_step_trans: "con_step a b \<Longrightarrow> con_step b c \<Longrightarrow> con_step a c"
  by (auto simp: con_step_def intro: term_step_trans hid_step_trans)

lemma con_step_other [simp]:
  "con_step c (c'\<lparr>c_seq := q\<rparr>) = con_step c c'"
  "con_step c (c'\<lparr>c_deadline := u\<rparr>) = con_step c c'"
  "con_step c (c'\<lparr>c_mods := m\<rparr>) = con_step c c'"
  by (simp_all add: con_step_def)

lemma set_mods_step: "term_step s (s\<lparr>t_mods := m\<rparr>)"
  by (simp add: term_step_def inv_defs)

lemma feed_event_step: "term_step s (terminal_feed_event rom ev s)"
  unfolding terminal_feed_event_def Let_def
  by (auto intro: term_step_trans [OF set_mods_step] process_key_step set_mods_step)

lemma feed_step: "con_step c (feed rom k c)"
  by (simp add: con_step_def feed_def feed_event_step)

lemma feed_byte_step: "con_step c (feed_byte rom k c)"
  by (simp add: feed_byte_def feed_step)

lemma get_key_step: "usbhid_get_key_action s = Some (a, s') \<Longrightarrow> hid_step s s'"
  using do_hid_step [of s undefined GetKey] by simp

lemma input_poll_step: "input_poll n m s = Some (e, m', s') \<Longrightarrow> hid_step s s'"
  by (induction n arbitrary: m s)
    (auto split: option.splits prod.splits intro: hid_step_trans get_key_step)

lemma poll_all_step: "poll_all rom n c = Some c' \<Longrightarrow> con_step c c'"
proof (induction n arbitrary: c)
  case (Suc n)
  obtain r m s where p: "input_poll 32 (c_mods c) (c_hid c) = Some (r, m, s)"
    using Suc.prems by (auto split: option.splits)
  note h = input_poll_step [OF p]
  show ?case
  proof (cases r)
    case None
    then show ?thesis using Suc.prems p h by (auto simp: con_step_def)
  next
    case (Some ev)
    let ?c = "c\<lparr>c_mods := m, c_hid := s, c_term := terminal_feed_event rom ev (c_term c)\<rparr>"
    have "con_step c ?c" using h by (simp add: con_step_def feed_event_step)
    moreover have "con_step ?c c'" using Suc.prems p Some by (auto intro: Suc.IH)
    ultimately show ?thesis by (rule con_step_trans)
  qed
qed simp

lemma seq_timeout_step: "con_step c (seq_timeout rom now c)"
  by (auto simp: seq_timeout_def Let_def intro: con_step_trans feed_step)

lemma serial_byte_step: "con_step c (serial_byte rom now ch c)"
proof -
  have two: "con_step c (feed_byte rom ch ((feed rom 27 c)\<lparr>c_seq := SEQ_NONE\<rparr>))"
    by (rule con_step_trans [OF _ feed_byte_step]) (simp add: feed_step)
  have three: "con_step c (feed_byte rom ch (feed rom 91 (feed rom 27 (c\<lparr>c_seq := SEQ_NONE\<rparr>))))"
    by (rule con_step_trans [OF _ feed_byte_step], rule con_step_trans [OF _ feed_step],
        rule con_step_trans [OF _ feed_step]) simp
  have arrow: "con_step c (feed rom k (c\<lparr>c_seq := SEQ_NONE\<rparr>))" for k
    by (rule con_step_trans [OF _ feed_step]) simp
  show ?thesis
  proof (cases "c_seq c")
    case SEQ_NONE
    then show ?thesis by (simp add: serial_byte_def feed_byte_step)
  next
    case SEQ_ESC
    then show ?thesis using two by (simp add: serial_byte_def)
  next
    case SEQ_CSI
    then show ?thesis using three arrow by (cases "arrow_code ch") (simp_all add: serial_byte_def)
  qed
qed

lemma usb_step: "con_step c (c\<lparr>c_hid := fold (do_hid t) es (c_hid c)\<rparr>)"
  by (simp add: con_step_def hid_run_step)

definition con_ok :: "console \<Rightarrow> bool" where
  "con_ok c \<longleftrightarrow> term_wf (c_term c) \<and> slots_ok (c_hid c) \<and> queues_ok (c_hid c)"

lemma con_step_ok: "con_step c c' \<Longrightarrow> con_ok c \<Longrightarrow> con_ok c'"
  by (simp add: con_step_def con_ok_def term_step_def hid_step_def)

lemma keyboard_tick_returns:
  assumes "con_ok c"
  obtains c' where "keyboard_tick rom t e c = Some c'" "con_step c c'"
proof -
  let ?c = "c\<lparr>c_hid := fold (do_hid t) (te_usb e) (c_hid c)\<rparr>"
  have r: "ring_ok 32 (key_actions (c_hid ?c))"
    using con_step_ok [OF usb_step assms, of t "te_usb e"] by (simp add: con_ok_def)
  obtain c1 where p: "poll_all rom 32 ?c = Some c1"
    using poll_all_events [OF r, of 32] length_ring_list [OF r] by auto
  have "con_step c c1"
    by (rule con_step_trans [OF usb_step poll_all_step [OF p]])
  then have "con_step c (seq_timeout rom (te_now e) c1)"
    by (rule con_step_trans [OF _ seq_timeout_step])
  moreover from this have "con_step c (serial_byte rom u ch (seq_timeout rom (te_now e) c1))" for u ch
    by (rule con_step_trans [OF _ serial_byte_step])
  ultimately show thesis
    using that p by (simp add: keyboard_tick_def Let_def split: if_splits)
qed

section \<open>The screen\<close>

text \<open>The hardware cursor lies on the screen.\<close>

definition cursor_ok :: "screen_state \<Rightarrow> bool" where
  "cursor_ok d \<longleftrightarrow> unat (tm_cur_col (ss_textmode d)) < 80 \<and> unat (tm_cur_row (ss_textmode d)) < 25"

lemma display_tick_step:
  assumes "display_tick now (d, s) = (d', s')"
  shows "term_step s s'" "term_wf s \<Longrightarrow> cursor_ok d \<Longrightarrow> cursor_ok d'"
proof -
  have f: "term_step s (on_fb framebuf_task s)"
    using do_event_step [of s undefined Frame] by simp
  then show "term_step s s'"
    using assms by (auto simp: display_tick_def Let_def split: if_splits prod.splits)
  show "cursor_ok d'" if "term_wf s" "cursor_ok d"
  proof -
    have w: "on_screen (on_fb framebuf_task s)" using f that(1) by (simp add: term_step_def term_wf_def)
    then have "unat (of_int (cursor_col (on_fb framebuf_task s)) :: u8) = nat (cursor_col (on_fb framebuf_task s))"
      "unat (of_int (cursor_row (on_fb framebuf_task s)) :: u8) = nat (cursor_row (on_fb framebuf_task s))"
      by (auto simp: on_screen_def intro!: unat_of_int_u8)
    then show ?thesis
      using assms that(2) w
      by (auto simp: display_tick_def Let_def terminal_get_cursor_def display_set_cursor_def textmode_set_cursor_def
          cursor_ok_def on_screen_def split: if_splits)
  qed
qed

section \<open>One pass\<close>

definition serv_step :: "'d server \<Rightarrow> 'd server \<Rightarrow> bool" where
  "serv_step s s' \<longleftrightarrow> con_step (sv_con s) (sv_con s') \<and> capacity_sectors s' = capacity_sectors s \<and>
     (con_ok (sv_con s) \<and> cursor_ok (sv_screen s) \<longrightarrow> cursor_ok (sv_screen s'))"

definition serv_ok :: "'d server \<Rightarrow> bool" where
  "serv_ok s \<longleftrightarrow> con_ok (sv_con s) \<and> cursor_ok (sv_screen s)"

lemma serv_step_refl [simp]: "serv_step s s"
  by (simp add: serv_step_def)

lemma serv_step_trans: "serv_step a b \<Longrightarrow> serv_step b c \<Longrightarrow> serv_step a c"
  by (auto simp: serv_step_def intro: con_step_trans dest: con_step_ok)

lemma serv_step_ok: "serv_step s s' \<Longrightarrow> serv_ok s \<Longrightarrow> serv_ok s'"
  by (auto simp: serv_step_def serv_ok_def dest: con_step_ok)

lemma serv_step_other [simp]:
  "serv_step s (s'\<lparr>sv_store := st\<rparr>) = serv_step s s'"
  "serv_step s (s'\<lparr>console_rx_bytes := n\<rparr>) = serv_step s s'"
  "serv_step s (s'\<lparr>served := n\<rparr>) = serv_step s s'"
  "serv_step s (s'\<lparr>errors := n\<rparr>) = serv_step s s'"
  "serv_step s (count_error s') = serv_step s s'"
  by (simp_all add: serv_step_def count_error_def)

lemma on_term_step: "term_step (sv_term s) (f (sv_term s)) \<Longrightarrow> serv_step s (on_term f s)"
  by (simp add: serv_step_def on_term_def con_step_def)

lemma receive_step: "term_step s (fold (terminal_receive_char rom) bs s)"
  by (induction bs arbitrary: s) (auto intro: term_step_trans engine.echo_step)

lemma take_keys_step: "term_step s (s\<lparr>t_keyq := snd (term_compat_take_keys n (t_keyq s))\<rparr>)"
  using do_event_step [of s undefined "TakeKeys n"] by simp

lemma serve_console_step: "serve_console rom p n s = (st, s') \<Longrightarrow> serv_step s s'"
  by (auto simp: serve_console_def intro!: on_term_step receive_step split: option.splits)

text \<open>The disk layer returns from every read and write, and at start-up.\<close>

definition disk_returns :: "'d diskio \<Rightarrow> bool" where
  "disk_returns d \<longleftrightarrow>
     (\<forall>lba n c. io_read d lba n c \<noteq> None) \<and> (\<forall>lba n buf c. io_write d lba n buf c \<noteq> None)"

definition disk_starts :: "'d diskio \<Rightarrow> 'd \<Rightarrow> bool" where
  "disk_starts d cd \<longleftrightarrow> io_initialize d cd \<noteq> None \<and> (\<forall>c. io_sector_count d c \<noteq> None)"

lemma serve_write_step:
  assumes "disk_returns d"
  obtains st s' where "serve_write d req p s = Some (st, s')" "serv_step s s'"
proof (cases p)
  case None
  then show thesis using that by (simp add: serve_write_def)
next
  case (Some xfer)
  obtain r st where "storage_write d (rq_lba req) (rq_count req) (\<lambda>i. xfer ! i) (sv_store s) = Some (r, st)"
  proof (cases "have_card (sv_store s)")
    case True
    have "io_write d (rq_lba req) (rq_count req) (\<lambda>i. xfer ! i) (card (sv_store s)) \<noteq> None"
      using assms by (simp only: disk_returns_def) blast
    with that True show thesis by (auto simp: storage_write_def)
  next
    case False
    with that show thesis by (cases "rq_lba req + rq_count req > RAMDISK_SECTORS") (simp_all add: storage_write_def)
  qed
  then show thesis using that Some by (simp add: serve_write_def)
qed

lemma serve_read_step:
  assumes "disk_returns d"
  obtains st bs s' where "serve_read d req s = Some (st, bs, s')" "serv_step s s'"
proof -
  obtain r bs st where "storage_read d (rq_lba req) (rq_count req) (sv_store s) = Some (r, bs, st)"
  proof (cases "have_card (sv_store s)")
    case True
    have "io_read d (rq_lba req) (rq_count req) (card (sv_store s)) \<noteq> None"
      using assms by (simp only: disk_returns_def) blast
    then obtain ok bs cd where "io_read d (rq_lba req) (rq_count req) (card (sv_store s)) = Some (ok, bs, cd)"
      by (auto simp del: split_paired_Ex)
    with that True show thesis by (simp add: storage_read_def)
  next
    case False
    with that show thesis by (cases "rq_lba req + rq_count req > RAMDISK_SECTORS") (simp_all add: storage_read_def)
  qed
  then show thesis using that by (simp add: serve_read_def)
qed

lemma serve_data_step:
  assumes "disk_returns d"
  obtains st data s' where "serve_data rom d req p s = Some (st, data, s')" "serv_step s s'"
proof -
  let ?st = "do_request req (capacity_sectors s)"
  obtain st1 s1 where c: "(if ?st = 0 \<and> rq_op req = LINK_BLK_OP_CON \<and> request_bytes req ?st \<noteq> 0
      then serve_console rom p (request_bytes req ?st) s else (?st, s)) = (st1, s1)" "serv_step s s1"
  proof (cases "?st = 0 \<and> rq_op req = LINK_BLK_OP_CON \<and> request_bytes req ?st \<noteq> 0")
    case True
    obtain a b where "serve_console rom p (request_bytes req ?st) s = (a, b)" by fastforce
    with that [of a b] serve_console_step [OF this] True show thesis by metis
  next
    case False
    with that [of ?st s] show thesis by auto
  qed
  obtain st2 s2 where w: "(if st1 = 0 \<and> rq_op req = LINK_BLK_OP_WRITE then serve_write d req p s1 else Some (st1, s1)) =
      Some (st2, s2)" "serv_step s1 s2"
  proof -
    obtain a b where "serve_write d req p s1 = Some (a, b)" "serv_step s1 b" by (rule serve_write_step [OF assms])
    then show thesis using that by (cases "st1 = 0 \<and> rq_op req = LINK_BLK_OP_WRITE") auto
  qed
  obtain st3 data s3 where r: "(if st2 = 0 \<and> rq_op req = LINK_BLK_OP_READ then serve_read d req s2 else Some (st2, [], s2)) =
      Some (st3, data, s3)" "serv_step s2 s3"
  proof -
    obtain a bs b where "serve_read d req s2 = Some (a, bs, b)" "serv_step s2 b" by (rule serve_read_step [OF assms])
    then show thesis using that by (cases "st2 = 0 \<and> rq_op req = LINK_BLK_OP_READ") auto
  qed
  have "serve_data rom d req p s = Some (st3, data, s3)"
    using c(1) w(1) r(1) by (simp add: serve_data_def Let_def)
  with serv_step_trans [OF c(2) serv_step_trans [OF w(2) r(2)]] that show thesis by blast
qed

lemma serve_reply_step: "serve_reply req st data s = (r, s') \<Longrightarrow> serv_step s s'"
proof (cases "st = 0 \<and> rq_op req = LINK_BLK_OP_READ")
  case False
  obtain ks q where k: "term_compat_take_keys LINK_CON_MAX_KEYS (t_keyq (sv_term s)) = (ks, q)" by fastforce
  have "serv_step s (on_term (\<lambda>t. t\<lparr>t_keyq := q\<rparr>) s)"
    using take_keys_step [of "sv_term s" LINK_CON_MAX_KEYS] k by (intro on_term_step) simp
  then show "serve_reply req st data s = (r, s') \<Longrightarrow> serv_step s s'"
    using k False by (auto simp: serve_reply_def split: if_splits)
qed (auto simp: serve_reply_def)

lemma serve_frame_step:
  assumes "disk_returns d"
  obtains st r s' where "serve_frame rom d hdr p s = Some (st, r, s')" "serv_step s s'"
proof -
  obtain st data s1 where 1: "serve_data rom d (req_of_bytes hdr) p s = Some (st, data, s1)" "serv_step s s1"
    by (rule serve_data_step [OF assms])
  obtain r s2 where 2: "serve_reply (req_of_bytes hdr) st data s1 = (r, s2)" by fastforce
  have "serve_frame rom d hdr p s = Some (st, r, s2)"
    using 1(1) 2 by (simp add: serve_frame_def)
  with serv_step_trans [OF 1(2) serve_reply_step [OF 2]] that show thesis by blast
qed

text \<open>A wait comes to an end when the doorbell falls or the second has passed.\<close>

definition wait_ends :: "db_look list \<Rightarrow> bool" where
  "wait_ends ls \<longleftrightarrow> list_ex (\<lambda>l. \<not> dl_raised l \<or> dl_expired l) ls"

lemma wait_db_clear_returns:
  "wait_ends ls \<Longrightarrow> con_ok c \<Longrightarrow> cursor_ok d \<Longrightarrow>
   \<exists>ok d' c'. wait_db_clear rom t ls (d, c) = Some (ok, d', c') \<and> con_step c c' \<and> cursor_ok d'"
proof (induction ls arbitrary: d c)
  case (Cons l ls)
  show ?case
  proof (cases "\<not> dl_raised l \<or> dl_expired l")
    case True
    then show ?thesis using Cons.prems by auto
  next
    case False
    obtain d1 s1 where d1: "display_tick (dl_now l) (d, c_term c) = (d1, s1)" by fastforce
    have c1: "con_step c (c\<lparr>c_term := s1\<rparr>)" and o1: "cursor_ok d1"
      using display_tick_step [OF d1] Cons.prems by (auto simp: con_step_def con_ok_def)
    obtain c2 where c2: "keyboard_tick rom t (dl_tick l) (c\<lparr>c_term := s1\<rparr>) = Some c2" "con_step (c\<lparr>c_term := s1\<rparr>) c2"
      by (rule keyboard_tick_returns [OF con_step_ok [OF c1 Cons.prems(2)]])
    from c1 c2(2) have step: "con_step c c2" by (rule con_step_trans)
    have "wait_ends ls" using Cons.prems(1) False by (simp add: wait_ends_def)
    from Cons.IH [OF this con_step_ok [OF step Cons.prems(2)] o1] show ?thesis
      using False d1 c2(1) step by (auto intro: con_step_trans)
  qed
qed (simp add: wait_ends_def)

lemma wait_clear_returns:
  assumes "wait_ends ls" "serv_ok s"
  obtains ok s' where "wait_clear rom t ls s = Some (ok, s')" "serv_step s s'"
  using wait_db_clear_returns [OF assms(1), of "sv_con s" "sv_screen s" rom t] assms(2) that
  by (force simp: wait_clear_def serv_ok_def serv_step_def)

lemma idle_pass_returns:
  assumes "serv_ok s"
  obtains s' where "idle_pass rom t i s = Some s'" "serv_step s s'"
proof -
  obtain d1 s1 where d1: "display_tick (li_now i) (sv_screen s, sv_term s) = (d1, s1)" by fastforce
  let ?c = "(sv_con s)\<lparr>c_term := s1\<rparr>"
  have c1: "con_step (sv_con s) ?c" and o1: "cursor_ok d1"
    using display_tick_step [OF d1] assms by (auto simp: con_step_def con_ok_def serv_ok_def)
  have "con_ok ?c" using con_step_ok [OF c1] assms by (simp add: serv_ok_def)
  then obtain c2 where c2: "keyboard_tick rom t (li_tick i) ?c = Some c2" "con_step ?c c2"
    by (rule keyboard_tick_returns)
  show thesis
    using that d1 c2 o1 con_step_trans [OF c1 c2(2)] by (simp add: idle_pass_def serv_step_def)
qed

lemma main_pass_returns:
  assumes "disk_returns d" "serv_ok s" "li_doorbell i \<longrightarrow> wait_ends (li_looks i)"
  obtains r s' where "main_pass rom d t i s = Some (r, s')" "serv_step s s'"
proof (cases "li_doorbell i")
  case False
  then show thesis using idle_pass_returns [OF assms(2)] that by (auto simp: main_pass_def)
next
  case True
  then have w: "wait_ends (li_looks i)" using assms(3) by simp
  show thesis
  proof (cases "li_header i")
    case None
    have "serv_ok (count_error s)" using assms(2) by (simp add: serv_ok_def count_error_def)
    from wait_clear_returns [OF w this] obtain ok s' where
      "wait_clear rom t (li_looks i) (count_error s) = Some (ok, s')" "serv_step (count_error s) s'" by blast
    moreover have "serv_step s s'"
      by (rule serv_step_trans [OF _ calculation(2)]) simp
    ultimately show thesis
      using that True None by (simp add: main_pass_def)
  next
    case (Some hdr)
    obtain st reply s1 where f: "serve_frame rom d hdr (li_payload i) s = Some (st, reply, s1)" "serv_step s s1"
      by (rule serve_frame_step [OF assms(1)])
    let ?s2 = "if \<not> li_tx_finished i then count_error s1 else s1"
    have s2: "serv_step s ?s2" using f(2) by simp
    from wait_clear_returns [OF w serv_step_ok [OF s2 assms(2)]] obtain ok s3 where
      w3: "wait_clear rom t (li_looks i) ?s2 = Some (ok, s3)" "serv_step ?s2 s3" by blast
    from s2 w3(2) have "serv_step s s3" by (rule serv_step_trans)
    then show thesis
      using that True Some f(1) w3(1) by (simp add: main_pass_def Let_def split: if_splits)
  qed
qed

section \<open>From power-on\<close>

text \<open>Any number of passes.\<close>

primrec main_run :: "(nat \<Rightarrow> u8) \<Rightarrow> 'd diskio \<Rightarrow> tuh \<Rightarrow> link_in list \<Rightarrow> 'd server \<Rightarrow> 'd server option" where
  "main_run rom d t [] s = Some s"
| "main_run rom d t (i # is) s =
     (case main_pass rom d t i s of None \<Rightarrow> None | Some (_, s) \<Rightarrow> main_run rom d t is s)"

lemma main_run_returns:
  "disk_returns d \<Longrightarrow> serv_ok s \<Longrightarrow> \<forall>i \<in> set is. li_doorbell i \<longrightarrow> wait_ends (li_looks i) \<Longrightarrow>
   \<exists>s'. main_run rom d t is s = Some s' \<and> serv_step s s'"
proof (induction "is" arbitrary: s)
  case (Cons i "is")
  obtain r s1 where p: "main_pass rom d t i s = Some (r, s1)" "serv_step s s1"
    by (rule main_pass_returns [OF Cons.prems(1,2)]) (use Cons.prems(3) in auto)
  from Cons.IH [OF Cons.prems(1) serv_step_ok [OF p(2) Cons.prems(2)]] Cons.prems(3) obtain s' where
    "main_run rom d t is s1 = Some s'" "serv_step s1 s'" by auto
  then show ?case using p by (auto intro: serv_step_trans)
qed simp

definition power_on :: "terminal \<Rightarrow> hid \<Rightarrow> u8 arr \<Rightarrow> 'd \<Rightarrow> 'd server" where
  "power_on tm h rd cd = \<lparr>
     sv_store = \<lparr>ramdisk = rd, have_card = False, card = cd\<rparr>, capacity_sectors = 0,
     sv_con = \<lparr>c_hid = h, c_mods = \<lparr>shift_down = False, ctrl_down = False, alt_down = False\<rparr>, c_term = tm,
       c_seq = SEQ_NONE, c_deadline = 0\<rparr>,
     sv_screen = \<lparr>ss_next_us = 0, ss_textmode = \<lparr>tm_cur_col = 0, tm_cur_row = 0, tm_cur_visible = False,
       tm_cur_beg = 14, tm_cur_end = 15\<rparr>\<rparr>,
     console_rx_bytes = 0, served = 0, errors = 0\<rparr>"

lemma fold_keeps_at:
  assumes "\<And>x b. f x b a = b a"
  shows "fold f xs b a = b a"
  by (induction xs arbitrary: b) (simp_all add: assms)

lemma clear_beyond:
  assumes "8000 \<le> a"
  shows "cellbuf_clear fg bg b a = b a"
proof -
  have "cellbuf_put c r ch fg bg at b a = b a" for c r ch at b
    using assms by (auto simp: cellbuf_put_def on_grid_def cell_ptr_eq geometry nat_less_iff intro!: store_cell_off(2))
  then show ?thesis
    unfolding cellbuf_clear_def cellbuf_fill_def Let_def by (intro fold_keeps_at) simp
qed

lemma fill_frame: "fb_frame b (framebuf_init (b\<lparr>cellbuf := cellbuf_init (cellbuf b)\<rparr>))"
  by (simp add: fb_frame_def framebuf_init_def cellbuf_init_def clear_beyond memset0_def geometry)

lemma greeting_step: "term_step s (fold (terminal_receive_string rom) css s)"
  by (induction css arbitrary: s)
    (auto simp: terminal_receive_string_def intro: term_step_trans engine.receive_string_step)

lemma storage_init_returns:
  assumes "disk_starts d (card st)"
  obtains cap st' where "storage_init d st = Some (cap, st')"
proof -
  have "io_initialize d (card st) \<noteq> None" using assms by (simp only: disk_starts_def) blast
  then obtain ok cd where 1: "io_initialize d (card st) = Some (ok, cd)"
    by (metis not_None_eq surj_pair)
  have "io_sector_count d cd \<noteq> None" using assms by (simp only: disk_starts_def) blast
  then obtain n cd' where "(if ok then io_sector_count d cd else Some (None, cd)) = Some (n, cd')"
    by (cases ok) auto
  with 1 have "storage_init d st \<noteq> None" by (auto simp: storage_init_def Let_def)
  with that show thesis by (metis not_None_eq surj_pair)
qed

lemma main_start_step:
  assumes "disk_starts d (card (sv_store s))" "terminal_state (sv_term s) = TS_NORMAL" "con_ok (sv_con s)"
  obtains s' where "main_start rom d s = Some s'" "con_step (sv_con s) (sv_con s')" "sv_screen s' = sv_screen s"
    "map_option fst (storage_init d (sv_store s)) = Some (capacity_sectors s')"
proof -
  let ?tm = "on_fb (\<lambda>b. framebuf_init (b\<lparr>cellbuf := cellbuf_init (cellbuf b)\<rparr>)) (sv_term s)"
  obtain cap st where i: "storage_init d (sv_store s) = Some (cap, st)"
    by (rule storage_init_returns [OF assms(1)])
  have "terminal_state ?tm = TS_NORMAL" using assms(2) by (simp add: on_fb_def)
  then have "term_step (sv_term s) (terminal_init ?tm)"
    by (rule term_step_trans [OF term_step_on_fb [OF fill_frame] init_step])
  then have "term_step (sv_term s) (fold (terminal_receive_string rom) css (terminal_init ?tm))" for css
    by (rule term_step_trans [OF _ greeting_step])
  moreover have "hid_step (c_hid (sv_con s)) (usbhid_init (c_hid (sv_con s)))"
    by (auto simp: hid_step_def hid_frame_def usbhid_init_def slots_ok_def ring_ok_def)
  moreover obtain s' where s': "main_start rom d s = Some s'" "capacity_sectors s' = cap" "sv_screen s' = sv_screen s"
    "c_term (sv_con s') = fold (terminal_receive_string rom) (greeting (medium_name st)) (terminal_init ?tm)"
    "c_hid (sv_con s') = usbhid_init (c_hid (sv_con s))"
    using i by (simp add: main_start_def Let_def)
  ultimately show thesis
    using i by (intro that [OF s'(1)]) (simp_all add: con_step_def s')
qed

text \<open>From power-on.\<close>

lemma master_runs:
  assumes "disk_starts d cd" "disk_returns d" "\<forall>i \<in> set is. li_doorbell i \<longrightarrow> wait_ends (li_looks i)"
  shows "let s0 = power_on (boot_term cb ra tb ps kq) (boot_hid ifs sl ka rc) rd cd
    in \<exists>s. Option.bind (main_start rom d s0) (main_run rom d t is) = Some s \<and>
         on_screen (sv_term s) \<and> wf_rest (sv_term s) \<and> term_frame (sv_term s0) (sv_term s) \<and>
         slots_ok (c_hid (sv_con s)) \<and> queues_ok (c_hid (sv_con s)) \<and>
         hid_frame (c_hid (sv_con s0)) (c_hid (sv_con s)) \<and> cursor_ok (sv_screen s) \<and>
         map_option fst (storage_init d (sv_store s0)) = Some (capacity_sectors s)"
proof -
  let ?s0 = "power_on (boot_term cb ra tb ps kq) (boot_hid ifs sl ka rc) rd cd"
  have ok0: "con_ok (sv_con ?s0)" and n: "terminal_state (sv_term ?s0) = TS_NORMAL"
    using boot_term_wf by (auto simp: power_on_def con_ok_def slots_ok_def boot_hid_def ring_ok_def boot_term_def)
  obtain s1 where start: "main_start rom d ?s0 = Some s1" "con_step (sv_con ?s0) (sv_con s1)" "sv_screen s1 = sv_screen ?s0"
    "map_option fst (storage_init d (sv_store ?s0)) = Some (capacity_sectors s1)"
    by (rule main_start_step [OF _ n ok0]) (use assms(1) in \<open>simp add: power_on_def\<close>)
  have s1: "serv_ok s1"
    using con_step_ok [OF start(2) ok0] start(3) by (simp add: serv_ok_def power_on_def cursor_ok_def)
  from main_run_returns [OF assms(2) this assms(3)] obtain s where
    s: "main_run rom d t is s1 = Some s" "serv_step s1 s" by blast
  have c: "con_step (sv_con ?s0) (sv_con s)"
    using start(2) s(2) by (auto simp: serv_step_def intro: con_step_trans)
  have "serv_ok s" using serv_step_ok [OF s(2) s1] .
  then show ?thesis
    using s c ok0 start(1,4)
    by (auto simp: Let_def serv_ok_def con_ok_def con_step_def term_step_def hid_step_def term_wf_def serv_step_def)
qed

text \<open>From power-on the master serves for ever, whatever reaches it: request frames of any content or
  none at all, payloads that do not come, devices plugged, unplugged and typing, bytes on the
  serial line.  As long as the disk layer returns and each wait for the doorbell to fall ends (it
  falls or the second passes), start-up and every pass of the main loop return, the text cursor
  and the hardware cursor stay on the screen, the keyboard queues and the gamepad slots stay
  consistent, no array of the engine or of the input layer is written outside its bounds, and the
  capacity stays the one found at start-up.\<close>

theorem master_serves_for_ever:
  assumes "disk_starts d cd" "disk_returns d" "\<forall>i \<in> set is. li_doorbell i \<longrightarrow> wait_ends (li_looks i)"
  shows "let s0 = power_on (boot_term cb ra tb ps kq) (boot_hid ifs sl ka rc) rd cd
    in \<exists>s. Option.bind (main_start rom d s0) (main_run rom d t is) = Some s \<and>
         on_screen (sv_term s) \<and> wf_rest (sv_term s) \<and> term_frame (sv_term s0) (sv_term s) \<and>
         slots_ok (c_hid (sv_con s)) \<and> queues_ok (c_hid (sv_con s)) \<and>
         hid_frame (c_hid (sv_con s0)) (c_hid (sv_con s)) \<and> cursor_ok (sv_screen s) \<and>
         map_option fst (storage_init d (sv_store s0)) = Some (capacity_sectors s)"
  using assms by (rule master_runs)

theorem master_serves_for_ever_witness:
  "let look = \<lparr>dl_raised = True, dl_expired = True, dl_now = 0, dl_tick = \<lparr>te_usb = [], te_now = 0, te_arm = 0, te_char = 27\<rparr>\<rparr>;
       i = \<lparr>li_doorbell = True, li_now = 0, li_tick = dl_tick look, li_header = Some [1, 2, 3], li_payload = None,
            li_tx_finished = False, li_looks = [look]\<rparr>
   in Option.bind (main_start (\<lambda>_. 0) demo_disk (power_on (boot_term (\<lambda>_. 1) (\<lambda>_. 2) (\<lambda>_. 3) (\<lambda>_. 4) (\<lambda>_. 5)) demo_hid (\<lambda>_. 6) ()))
        (main_run (\<lambda>_. 0) demo_disk demo_tuh (replicate 1000 i)) \<noteq> None"
  unfolding Let_def demo_hid_def
  by (rule exE [OF master_serves_for_ever [unfolded Let_def, rotated 3]])
    (auto simp: wait_ends_def disk_returns_def disk_starts_def demo_disk_def)

end
