(* ===== verification/Machine.thy ===== *)
theory Machine
  imports LinkProps MasterRun
begin

text \<open>
  The whole machine: core 1 of the Linux half joined to the master by an intact link.  The disk
  of Linux keeps what is written, the console carries bytes both ways, every request comes to
  an end whatever the link does, and where the two programs do not fit together.
\<close>

section \<open>An intact link\<close>

text \<open>
  The frames arrive as sent.  A reply shorter than the slave has armed for leaves its receiver
  waiting, as does a master that does not answer; of a longer one it takes what it armed for.
\<close>

definition wire :: "(nat \<Rightarrow> u8) \<Rightarrow> 'd diskio \<Rightarrow> 'd server peer" where
  "wire rom d hdr payload n m =
     (case serve_frame rom d hdr (Some payload) m of
        None \<Rightarrow> (RxShort n, m)
      | Some (_, reply, m) \<Rightarrow>
          (if length reply < n then RxShort (n - length reply) else Answer (take n reply), m))"

section \<open>A master with a working medium\<close>

text \<open>
  A medium is a block device of whole sectors behind the storage functions; a master that
  serves it has found its size.
\<close>

definition master_ok :: "('d storage \<Rightarrow> bool) \<Rightarrow> ('d storage \<Rightarrow> u8 list list) \<Rightarrow> 'd server \<Rightarrow> bool" where
  "master_ok ok sectors m \<longleftrightarrow> ok (sv_store m) \<and> unat (capacity_sectors m) = length (sectors (sv_store m))"

definition master_sectors :: "('d storage \<Rightarrow> u8 list list) \<Rightarrow> 'd server \<Rightarrow> u8 list list" where
  "master_sectors sectors m = sectors (sv_store m)"

lemma fair_request:
  assumes "fair lba count (unat cap)" "code = LINK_BLK_OP_READ \<or> code = LINK_BLK_OP_WRITE"
  shows "do_request \<lparr>rq_magic = LINK_BLK_MAGIC, rq_op = code, rq_lba = lba, rq_count = count\<rparr> cap = 0"
    and "request_bytes \<lparr>rq_magic = LINK_BLK_MAGIC, rq_op = code, rq_lba = lba, rq_count = count\<rparr> 0 = count * LINK_BLK_SECTOR"
    and "unat (count * LINK_BLK_SECTOR) = 512 * unat count"
proof -
  have f: "0 < unat count" "unat count \<le> 8" "unat lba + unat count \<le> unat cap"
    using assms(1) by (simp_all add: fair_def)
  have c: "code \<noteq> LINK_BLK_OP_INFO" "code \<noteq> LINK_BLK_OP_CON"
    using assms(2) by (auto simp: link_consts)
  have "unat lba + unat count < 2 ^ 32" using f(3) unat_u32 [of cap] by simp
  then have "unat (lba + count) = unat lba + unat count" by (simp add: unat_word_ariths(1))
  then have "\<not> lba + count > cap" using f(3) by (simp add: word_less_nat_alt)
  moreover have "\<not> (count = 0 \<or> count > LINK_BLK_MAX_SECTORS)"
    using f by (auto simp: LINK_BLK_MAX_SECTORS_def word_less_nat_alt)
  ultimately show "do_request \<lparr>rq_magic = LINK_BLK_MAGIC, rq_op = code, rq_lba = lba, rq_count = count\<rparr> cap = 0"
    using c by (simp add: do_request_def)
  show "request_bytes \<lparr>rq_magic = LINK_BLK_MAGIC, rq_op = code, rq_lba = lba, rq_count = count\<rparr> 0 = count * LINK_BLK_SECTOR"
    using c by (simp add: request_bytes_def)
  show "unat (count * LINK_BLK_SECTOR) = 512 * unat count" using u32_512 [OF f(2)] .
qed

lemma sectors_of_bytes:
  assumes "map (\<lambda>i. take 512 (drop (i * 512) bs)) [0..<n] = ss" "list_all is_sector ss"
  shows "take (512 * n) bs = concat ss" "512 * n \<le> length bs"
proof -
  show c: "take (512 * n) bs = concat ss"
    using assms(1) concat_chunks [of 512 bs n] by (simp add: mult.commute)
  have "length ss = n" using assms(1) by auto
  then show "512 * n \<le> length bs"
    using arg_cong [OF c, of length] length_concat_sectors [OF assms(2)] by simp
qed

locale medium = block_device "stor_rd d" "stor_wr d" sectors ok is_sector
  for d :: "'d diskio" and sectors :: "'d storage \<Rightarrow> u8 list list" and ok :: "'d storage \<Rightarrow> bool" +
  assumes whole: "ok st \<Longrightarrow> list_all is_sector (sectors st)"
begin

lemma storage_read_whole:
  assumes "ok st" "fair lba count (length (sectors st))" "length (sectors st) < 2 ^ 32"
  obtains bs st' where "storage_read d lba count st = Some (0, bs, st')" "ok st'" "sectors st' = sectors st"
    "take (512 * unat count) bs = concat (take (unat count) (drop (unat lba) (sectors st)))"
    "512 * unat count \<le> length bs"
proof -
  let ?ss = "take (unat count) (drop (unat lba) (sectors st))"
  obtain st' where st': "stor_rd d (unat lba) (unat count) st = Some (?ss, st')" "ok st'" "sectors st' = sectors st"
    using rd_law [OF assms(1), of "unat count" "unat lba"] assms(2) by (auto simp: fair_def)
  then obtain bs where bs: "storage_read d lba count st = Some (0, bs, st')"
    "map (\<lambda>i. take 512 (drop (i * 512) bs)) [0..<unat count] = ?ss"
    by (auto simp: stor_rd_def split: if_splits option.splits)
  have "list_all is_sector ?ss"
    using whole [OF assms(1)] by (auto simp: list_all_iff dest: in_set_takeD in_set_dropD)
  from sectors_of_bytes [OF bs(2) this] bs(1) st'(2,3) that show thesis by blast
qed

lemma storage_write_whole:
  assumes "ok st" "fair lba count (length (sectors st))" "length (sectors st) < 2 ^ 32" "length bs = 512 * unat count"
  obtains st' where "storage_write d lba count (\<lambda>i. bs ! i) st = Some (0, st')" "ok st'"
    "sectors st' = take (unat lba) (sectors st) @ split_sectors (unat count) bs @ drop (unat lba + unat count) (sectors st)"
proof -
  let ?ss = "split_sectors (unat count) bs"
  have "?ss \<noteq> []" using assms(2) by (auto simp: fair_def split_sectors_def)
  from wr_law [OF assms(1) this all_split [OF assms(4)], of "unat lba"] assms(2) obtain st' where
    st': "stor_wr d (unat lba) ?ss st = Some st'" "ok st'"
      "sectors st' = take (unat lba) (sectors st) @ ?ss @ drop (unat lba + unat count) (sectors st)"
    by (auto simp: fair_def)
  then have "storage_write d lba count (\<lambda>i. bs ! i) st = Some (0, st')"
    by (auto simp: stor_wr_def concat_split [OF assms(4)] split: if_splits option.splits)
  with st'(2,3) that show thesis by blast
qed

lemma serve_read_frame:
  assumes "master_ok ok sectors m" "fair lba count (length (master_sectors sectors m))"
  shows "\<exists>m'. serve_frame rom d (a_request LINK_BLK_OP_READ lba count) p m =
      Some (0, success (capacity_sectors m) @ concat (take (unat count) (drop (unat lba) (master_sectors sectors m))), m') \<and>
    master_ok ok sectors m' \<and> master_sectors sectors m' = master_sectors sectors m"
proof -
  let ?req = "\<lparr>rq_magic = LINK_BLK_MAGIC, rq_op = LINK_BLK_OP_READ, rq_lba = lba, rq_count = count\<rparr>"
  have f: "fair lba count (unat (capacity_sectors m))" "fair lba count (length (sectors (sv_store m)))"
    "length (sectors (sv_store m)) < 2 ^ 32"
    using assms unat_u32 [of "capacity_sectors m"] by (simp_all add: master_ok_def master_sectors_def)
  obtain bs st where st: "storage_read d lba count (sv_store m) = Some (0, bs, st)" "ok st"
    "sectors st = sectors (sv_store m)"
    "take (512 * unat count) bs = concat (take (unat count) (drop (unat lba) (sectors (sv_store m))))"
    by (rule storage_read_whole [OF _ f(2,3)]) (use assms(1) in \<open>simp add: master_ok_def\<close>)
  note r = fair_request [OF f(1), of LINK_BLK_OP_READ]
  have "serve_data rom d ?req p m = Some (0, bs, m\<lparr>sv_store := st\<rparr>)"
    using r(1) st(1) by (simp add: serve_data_def serve_read_def Let_def) (simp add: link_consts)
  then show ?thesis
    using assms(1) r(2,3) st
    by (simp add: serve_frame_def a_request_def req_roundtrip serve_reply_def success_def master_ok_def master_sectors_def)
qed

lemma serve_write_frame:
  assumes "master_ok ok sectors m" "fair lba count (length (master_sectors sectors m))" "length bs = 512 * unat count"
  shows "\<exists>m'. serve_frame rom d (a_request LINK_BLK_OP_WRITE lba count) (Some bs) m =
      Some (0, success (capacity_sectors m), m') \<and> master_ok ok sectors m' \<and>
    master_sectors sectors m' = take (unat lba) (master_sectors sectors m) @ split_sectors (unat count) bs @
      drop (unat lba + unat count) (master_sectors sectors m)"
proof -
  let ?req = "\<lparr>rq_magic = LINK_BLK_MAGIC, rq_op = LINK_BLK_OP_WRITE, rq_lba = lba, rq_count = count\<rparr>"
  have f: "fair lba count (unat (capacity_sectors m))" "fair lba count (length (sectors (sv_store m)))"
    "length (sectors (sv_store m)) < 2 ^ 32"
    using assms unat_u32 [of "capacity_sectors m"] by (simp_all add: master_ok_def master_sectors_def)
  obtain st where st: "storage_write d lba count (\<lambda>i. bs ! i) (sv_store m) = Some (0, st)" "ok st"
    "sectors st = take (unat lba) (sectors (sv_store m)) @ split_sectors (unat count) bs @
      drop (unat lba + unat count) (sectors (sv_store m))"
    by (rule storage_write_whole [OF _ f(2,3) assms(3)]) (use assms(1) in \<open>simp add: master_ok_def\<close>)
  have len: "length (sectors st) = length (sectors (sv_store m))"
    using st(3) f(2) by (simp add: fair_def)
  note r = fair_request [OF f(1), of LINK_BLK_OP_WRITE]
  have "serve_data rom d ?req (Some bs) m = Some (0, [], m\<lparr>sv_store := st\<rparr>)"
    using r(1) st(1) by (simp add: serve_data_def serve_write_def Let_def) (simp add: link_consts)
  then show ?thesis
    using assms(1) st len
    by (simp add: serve_frame_def a_request_def req_roundtrip serve_reply_def success_def master_ok_def master_sectors_def)
      (simp add: link_consts)
qed

end

lemma serve_console_keeps:
  assumes "serve_frame rom d (a_request LINK_BLK_OP_CON lba count) p m = Some (st, reply, m')"
  shows "sv_store m' = sv_store m \<and> capacity_sectors m' = capacity_sectors m"
proof -
  let ?req = "\<lparr>rq_magic = LINK_BLK_MAGIC, rq_op = LINK_BLK_OP_CON, rq_lba = lba, rq_count = count\<rparr>"
  have data: "sv_store m2 = sv_store m \<and> capacity_sectors m2 = capacity_sectors m"
    if "serve_data rom d ?req p m = Some (st, data, m2)" for st data m2
    using that by (auto simp: serve_data_def serve_console_def Let_def on_term_def link_consts split: if_splits option.splits)
  have reply: "sv_store m3 = sv_store m2 \<and> capacity_sectors m3 = capacity_sectors m2"
    if "serve_reply ?req st data m2 = (r, m3)" for st data m2 r m3
    using that by (auto simp: serve_reply_def on_term_def split: if_splits prod.splits)
  show ?thesis
    using assms data reply unfolding serve_frame_def a_request_def req_roundtrip Let_def
    by (force simp: bind_eq_Some_conv split: prod.splits)
qed

sublocale medium \<subseteq> served: block_server "wire rom d" "master_sectors sectors" "master_ok ok sectors" for rom
proof
  fix m lba count bs n out m'
  assume m: "master_ok ok sectors m"
  show all: "list_all is_sector (master_sectors sectors m)"
    using m whole by (simp add: master_sectors_def master_ok_def)
  show "\<exists>v m'. wire rom d (a_request LINK_BLK_OP_READ lba count) [] (8 + 512 * unat count) m =
          (Answer (success v @ concat (take (unat count) (drop (unat lba) (master_sectors sectors m)))), m') \<and>
        master_ok ok sectors m' \<and> master_sectors sectors m' = master_sectors sectors m"
    if f: "fair lba count (length (master_sectors sectors m))"
  proof -
    let ?ss = "take (unat count) (drop (unat lba) (master_sectors sectors m))"
    have "list_all is_sector ?ss"
      using all by (auto simp: list_all_iff dest: in_set_takeD in_set_dropD)
    moreover have "length ?ss = unat count" using f by (auto simp: fair_def min_def)
    ultimately have "length (concat ?ss) = 512 * unat count"
      using length_concat_sectors [of ?ss] by (simp only: mult.commute)
    then show ?thesis
      using serve_read_frame [OF m f, of rom "Some []"] by (auto simp: wire_def rsp_success(2))
  qed
  show "\<exists>v m'. wire rom d (a_request LINK_BLK_OP_WRITE lba count) bs 8 m = (Answer (success v), m') \<and>
        master_ok ok sectors m' \<and> master_sectors sectors m' = take (unat lba) (master_sectors sectors m) @
          split_sectors (unat count) bs @ drop (unat lba + unat count) (master_sectors sectors m)"
    if f: "fair lba count (length (master_sectors sectors m))" and l: "length bs = 512 * unat count"
    using serve_write_frame [OF m f l, of rom] by (auto simp: wire_def rsp_success(2))
  show "master_ok ok sectors m' \<and> master_sectors sectors m' = master_sectors sectors m"
    if "wire rom d (a_request LINK_BLK_OP_CON lba count) bs n m = (out, m')"
    using that m serve_console_keeps [of rom d lba count "Some bs" m]
    by (auto simp: wire_def master_ok_def master_sectors_def split: option.splits prod.splits)
qed

interpretation ram_medium: medium d ram_sectors ram_ok
  by unfold_locales (auto simp: ram_sectors_def list_all_iff is_sector_def)

section \<open>The disk of Linux\<close>

text \<open>Linux fills in the descriptor, then increments \<open>seq\<close>.\<close>

definition submit :: "u32 \<Rightarrow> u32 \<Rightarrow> u32 \<Rightarrow> u32 \<Rightarrow> slave \<Rightarrow> slave" where
  "submit code lba count address =
     on_blk (\<lambda>b. b\<lparr>blk_op := code, blk_lba := lba, blk_count := count, blk_addr := address, blk_seq := blk_seq b + 1\<rparr>)"

lemma submit_simps [simp]:
  "blk_of (submit code lba count address s) =
     (blk_of s)\<lparr>blk_op := code, blk_lba := lba, blk_count := count, blk_addr := address, blk_seq := blk_seq (blk_of s) + 1\<rparr>"
  "psram (submit code lba count address s) = psram s"
  "service_ready k (submit code lba count address s) = service_ready k s"
  "warmup (submit code lba count address s) = warmup s"
  by (simp_all add: submit_def on_blk_def on_core_def blk_of_def service_ready_def)

lemma served_ready: "service_ready 2 s \<Longrightarrow> served_request st s s' \<Longrightarrow> service_ready 1 s'"
  by (simp add: service_ready_def served_request_def warmup_step)

lemma word_succ_neq: "(x :: u32) + 1 \<noteq> x"
  by simp

context medium begin

lemma disk_roundtrip:
  assumes "service_ready 2 s" "blk_seq (blk_of s) = blk_done (blk_of s)" "master_ok ok sectors m"
    "0 < unat n" "unat n \<le> 8" "unat lba + unat n \<le> length (sectors (sv_store m))"
    "frank_blk_service t1 (wire rom d) (submit LINK_BLK_OP_WRITE lba n a1 s, m) = (s1, m1)"
    "frank_blk_service t2 (wire rom d) (submit LINK_BLK_OP_READ lba n a2 s1, m1) = (s2, m2)"
  shows "blk_status (blk_of s1) = 0 \<and> blk_done (blk_of s1) = blk_seq (blk_of s) + 1 \<and>
    blk_status (blk_of s2) = 0 \<and> blk_done (blk_of s2) = blk_seq (blk_of s) + 2 \<and>
    psram s2 = mem_put (unat a2) (mem_get (unat a1) (512 * unat n) (psram s)) (psram s) \<and>
    sectors (sv_store m1) = take (unat lba) (sectors (sv_store m)) @
      split_sectors (unat n) (mem_get (unat a1) (512 * unat n) (psram s)) @ drop (unat lba + unat n) (sectors (sv_store m))"
proof -
  let ?ss = "master_sectors sectors m" and ?ss1 = "master_sectors sectors m1"
  let ?new = "split_sectors (unat n) (mem_get (unat a1) (512 * unat n) (psram s))"
  have f: "fair lba n (length ?ss)" and le: "unat lba + unat n \<le> length ?ss"
    using assms(4-6) by (simp_all add: fair_def master_sectors_def)
  have r1: "service_ready 1 s" using assms(1) by (simp add: service_ready_def)
  let ?s = "submit LINK_BLK_OP_WRITE lba n a1 s"
  have w: "master_ok ok sectors m1 \<and> psram s1 = psram s \<and> served_request 0 ?s s1 \<and>
      ?ss1 = take (unat lba) ?ss @ ?new @ drop (unat lba + unat n) ?ss"
    using served.service_write [OF _ assms(3) _ _ _ assms(7)] r1 assms(2) f by simp
  have len: "length ?ss1 = length ?ss" using w le by simp
  let ?s1 = "submit LINK_BLK_OP_READ lba n a2 s1"
  have ok1: "master_ok ok sectors m1" and k1: "psram s1 = psram s" using w by simp_all
  have b1: "blk_status (blk_of s1) = 0" "blk_done (blk_of s1) = blk_seq (blk_of s) + 1" "blk_seq (blk_of s1) = blk_seq (blk_of s) + 1"
    using w by (simp_all add: served_request_def)
  have "service_ready 2 ?s" using assms(1) by simp
  from served_ready [OF this, of 0 s1] have r2: "service_ready 1 ?s1" using w by simp
  have r: "served_request 0 ?s1 s2 \<and> psram s2 = mem_put (unat a2) (concat (take (unat n) (drop (unat lba) ?ss1))) (psram s1)"
    using served.service_read [OF r2 ok1 _ _ _ assms(8)] f len k1 b1 by simp
  have "take (unat n) (drop (unat lba) ?ss1) = ?new"
    using w le by simp
  then have "concat (take (unat n) (drop (unat lba) ?ss1)) = mem_get (unat a1) (512 * unat n) (psram s)"
    by (simp add: concat_split)
  then show ?thesis using w r b1 by (simp add: served_request_def master_sectors_def)
qed

end

text \<open>C2: The disk of Linux is a disk, across both chips: Linux writes one to eight sectors inside the device
  and, when the service has answered, reads them back into another buffer, while console traffic
  of any kind goes on.  Both requests complete with status 0, the buffer read into holds exactly
  what was written, and nothing else of Linux's memory changes.\<close>

theorem linux_disk_roundtrip:
  fixes m :: "'d server"
  assumes "service_ready 2 s" "blk_seq (blk_of s) = blk_done (blk_of s)"
    "\<not> have_card (sv_store m)" "capacity_sectors m = 128"
    "0 < unat n" "unat n \<le> 8" "unat lba + unat n \<le> 128"
    "frank_blk_service t1 (wire rom d) (submit LINK_BLK_OP_WRITE lba n a1 s, m) = (s1, m1)"
    "frank_blk_service t2 (wire rom d) (submit LINK_BLK_OP_READ lba n a2 s1, m1) = (s2, m2)"
  shows "blk_status (blk_of s1) = 0 \<and> blk_done (blk_of s1) = blk_seq (blk_of s) + 1 \<and>
    blk_status (blk_of s2) = 0 \<and> blk_done (blk_of s2) = blk_seq (blk_of s) + 2 \<and>
    psram s2 = mem_put (unat a2) (mem_get (unat a1) (512 * unat n) (psram s)) (psram s)"
  using ram_medium.disk_roundtrip [OF assms(1,2) _ assms(5,6) _ assms(8,9)] assms(3,4,7)
  by (simp add: master_ok_def ram_ok_def ram_sectors_def)

definition demo_slave :: slave where
  "demo_slave = \<lparr>
     sl_core = \<lparr>
       shared = \<lparr>magic = 0, version = 0, core1_alive = 0, reserved = 0,
         tx = \<lparr>rhead = 0, rtail = 0, rdata = (\<lambda>_. 0)\<rparr>, rx = \<lparr>rhead = 0, rtail = 0, rdata = (\<lambda>_. 0)\<rparr>,
         blk = \<lparr>blk_seq = 0, blk_done = 0, blk_op = 0, blk_lba = 0, blk_count = 0, blk_addr = 0, blk_status = 0,
           blk_capacity = 128\<rparr>\<rparr>,
       fan = (\<lambda>i. of_nat i), fan_head = 0, fan_usb_tail = 0, fan_link_tail = 0, dtr_since = 0, reset_itf_num = 0\<rparr>,
     psram = (\<lambda>i. of_nat i), blk_link_up = True, blk_link_enabled = True, blk_rx_remaining = 0, blk_init_status = 0,
     blk_probe_done = True, out_buf = (\<lambda>_. 0), next_poll_us = 0, warmup = 200000, next_probe_us = 0\<rparr>"

definition demo_server :: "unit server" where
  "demo_server = \<lparr>sv_store = demo_store, capacity_sectors = 128, sv_con = demo_console,
     sv_screen = \<lparr>ss_next_us = 0, ss_textmode = \<lparr>tm_cur_col = 0, tm_cur_row = 0, tm_cur_visible = False,
       tm_cur_beg = 14, tm_cur_end = 15\<rparr>\<rparr>, console_rx_bytes = 0, served = 0, errors = 0\<rparr>"

abbreviation demo_wire :: "unit server peer" where
  "demo_wire \<equiv> wire (\<lambda>_. 0) demo_disk"

theorem linux_disk_roundtrip_witness:
  "case frank_blk_service 0 demo_wire (submit LINK_BLK_OP_WRITE 5 1 0x200 demo_slave, demo_server) of (s1, m1) \<Rightarrow>
   case frank_blk_service 1 demo_wire (submit LINK_BLK_OP_READ 5 1 0x1000 s1, m1) of (s2, m2) \<Rightarrow>
     blk_status (blk_of s2) = 0 \<and> psram s2 = mem_put 0x1000 (mem_get 0x200 512 (psram demo_slave)) (psram demo_slave)"
proof -
  obtain s1 m1 where 1: "frank_blk_service 0 demo_wire (submit LINK_BLK_OP_WRITE 5 1 0x200 demo_slave, demo_server) = (s1, m1)"
    by fastforce
  obtain s2 m2 where 2: "frank_blk_service 1 demo_wire (submit LINK_BLK_OP_READ 5 1 0x1000 s1, m1) = (s2, m2)"
    by fastforce
  show ?thesis
    using linux_disk_roundtrip [OF _ _ _ _ _ _ _ 1 2] unfolding 1 prod.case 2
    by (simp add: demo_slave_def demo_server_def demo_store_def service_ready_def blk_of_def)
qed

section \<open>Requests come to an end\<close>

lemma transact_blk:
  "blk_transact peer code lba count buf (s, m) = (st, cap, buf', s', m') \<Longrightarrow> blk_of s' = blk_of s"
  by (auto simp: blk_transact_def blk_of_def on_core_def frank_console_feed_def Let_def
      split: if_splits prod.splits link_outcome.splits)

lemma pump_blk: "console_pump now peer (s, m) = (s', m') \<Longrightarrow> blk_of s' = blk_of s"
proof -
  assume a: "console_pump now peer (s, m) = (s', m')"
  obtain c bs where t: "frank_console_take (sl_core s) LINK_CON_MAX_TX = (c, bs)" by fastforce
  have c: "shared c = shared (sl_core s)"
    using t by (auto simp: frank_console_take_def split: prod.splits)
  show ?thesis
  proof (cases "(of_nat (length bs) :: u32) = 0 \<and> sint (now - next_poll_us s) < 0")
    case True
    then show ?thesis using a t c by (auto simp: console_pump_def Let_def blk_of_def)
  next
    case False
    let ?n = "of_nat (length bs) :: u32"
    let ?s = "s\<lparr>sl_core := c, out_buf := mem_put 0 bs (out_buf s)\<rparr>"
    let ?pad = "unat ((?n + 3) AND NOT 3) - unat ?n"
    let ?s1 = "?s\<lparr>next_poll_us := now + 5000, out_buf := mem_put (unat ?n) (replicate ?pad 0) (out_buf ?s)\<rparr>"
    obtain st cap buf s2 m2 where
      tr: "blk_transact peer LINK_BLK_OP_CON 0 ?n (out_buf ?s1) (?s1, m) = (st, cap, buf, s2, m2)"
      by (metis prod_cases5)
    have "s' = s2\<lparr>out_buf := buf\<rparr>"
      using a t False tr unfolding console_pump_def Let_def by auto
    then show ?thesis using transact_blk [OF tr] c by (simp add: blk_of_def)
  qed
qed

lemma serve_blk_completes:
  assumes "serve_blk peer (s, m) = (s', m')"
  shows "blk_done (blk_of s') = blk_seq (blk_of s) \<and> blk_seq (blk_of s') = blk_seq (blk_of s) \<and>
    (blk_seq (blk_of s) \<noteq> blk_done (blk_of s) \<and> (blk_count (blk_of s) = 0 \<or> blk_count (blk_of s) > LINK_BLK_MAX_SECTORS) \<longrightarrow>
       blk_status (blk_of s') = of_int (- 22) \<and> m' = m \<and> psram s' = psram s)"
proof (cases "blk_seq (blk_of s) = blk_done (blk_of s)")
  case True
  then show ?thesis using assms by (simp add: serve_blk_def)
next
  case False
  let ?base = "unat (blk_addr (blk_of s))"
  let ?buf = "\<lambda>i. psram s (?base + i)"
  show ?thesis
  proof (cases "blk_count (blk_of s) = 0 \<or> blk_count (blk_of s) > LINK_BLK_MAX_SECTORS")
    case bad: True
    have "s' = on_blk (\<lambda>b'. b'\<lparr>blk_status := of_int (- 22), blk_done := blk_seq (blk_of s)\<rparr>)
        (s\<lparr>psram := (\<lambda>a. if ?base \<le> a then ?buf (a - ?base) else psram s a)\<rparr>)" "m' = m"
      using assms False bad by (auto simp: serve_blk_def Let_def)
    then show ?thesis by (simp add: on_blk_def on_core_def blk_of_def fun_eq_iff)
  next
    case good: False
    obtain st cap buf s2 m2 where
      tr: "blk_transact peer (blk_op (blk_of s)) (blk_lba (blk_of s)) (blk_count (blk_of s)) ?buf (s, m) = (st, cap, buf, s2, m2)"
      by (metis prod_cases5)
    have "s' = on_blk (\<lambda>b'. b'\<lparr>blk_status := of_int st, blk_done := blk_seq (blk_of s)\<rparr>)
        (s2\<lparr>psram := (\<lambda>a. if ?base \<le> a then buf (a - ?base) else psram s2 a)\<rparr>)"
      using assms False tr good unfolding serve_blk_def Let_def by auto
    then show ?thesis using transact_blk [OF tr] good by (simp add: on_blk_def on_core_def blk_of_def)
  qed
qed

text \<open>C12: Once the link is enabled, probed and warm, one pass of the service completes the request Linux has
  published, whatever the other end of the link does (silent, failing, answering anything):
  \<open>done\<close> becomes \<open>seq\<close>.  A sector count of zero or above eight is refused with -22, without a
  word on the wire about it and without touching Linux's memory.\<close>

theorem every_request_completes:
  assumes "service_ready 1 s"
  shows "let (s', m') = frank_blk_service now peer (s, m)
    in blk_done (blk_of s') = blk_seq (blk_of s) \<and> blk_seq (blk_of s') = blk_seq (blk_of s) \<and>
       (blk_seq (blk_of s) \<noteq> blk_done (blk_of s) \<and> (blk_count (blk_of s) = 0 \<or> blk_count (blk_of s) > 8) \<longrightarrow>
          blk_status (blk_of s') = - 22 \<and>
          m' = snd (console_pump now peer (s\<lparr>warmup := warmup s + 1\<rparr>, m)) \<and>
          psram s' = psram (fst (console_pump now peer (s\<lparr>warmup := warmup s + 1\<rparr>, m))))"
proof -
  let ?s = "s\<lparr>warmup := warmup s + 1\<rparr>"
  obtain s1 m1 where p: "console_pump now peer (?s, m) = (s1, m1)" by fastforce
  obtain s2 m2 where q: "serve_blk peer (s1, m1) = (s2, m2)" by fastforce
  have b: "blk_of s1 = blk_of s" using pump_blk [OF p] by (simp add: blk_of_def)
  have "frank_blk_service now peer (s, m) = (s2, m2)"
    using assms service_ready_warm [OF assms] p q by (simp add: frank_blk_service_def service_ready_def)
  then show ?thesis
    using serve_blk_completes [OF q] b p by (simp add: LINK_BLK_MAX_SECTORS_def)
qed

theorem every_request_completes_witness:
  "let (s', m') = frank_blk_service 7 (\<lambda>_ _ _ m. (NoDoorbell, m)) (submit LINK_BLK_OP_READ 0 9 0 demo_slave, ())
   in blk_done (blk_of s') = 1 \<and> blk_status (blk_of s') = - 22"
  using every_request_completes [of "submit LINK_BLK_OP_READ 0 9 0 demo_slave" 7 "\<lambda>_ _ _ m. (NoDoorbell, m)" "()"]
  by (simp add: Let_def case_prod_unfold) (simp add: demo_slave_def service_ready_def blk_of_def)

text \<open>C36: The warm-up counter never stops counting: when it wraps, after \<open>2^32\<close> passes, the disk and the
  console of a machine that has been running for hours stop for the next 200000 passes, with a
  request pending or not.\<close>

theorem warmup_wrap_stalls_service:
  assumes "blk_link_enabled s" "warmup s = - 1" "k < 200000"
  shows "(frank_blk_service now peer ^^ Suc k) (s, m) = (s\<lparr>warmup := of_nat k\<rparr>, m)"
  using assms(3)
proof (induction k)
  case 0
  then show ?case using assms(1,2) by (simp add: frank_blk_service_def)
next
  case (Suc k)
  have u: "unat (of_nat (Suc k) :: u32) = Suc k" using Suc.prems by (intro unat_of_nat_small) simp
  have "(1 + of_nat k :: u32) < 200000"
    using Suc.prems u by (simp add: word_less_nat_alt)
  then show ?case
    using Suc assms(1) by (simp add: frank_blk_service_def add.commute)
qed

theorem warmup_wrap_stalls_service_witness:
  "(frank_blk_service 0 (\<lambda>_ _ _ m. (NoDoorbell, m)) ^^ 1000) (submit LINK_BLK_OP_READ 0 1 0 demo_slave\<lparr>warmup := - 1\<rparr>, ()) =
     (submit LINK_BLK_OP_READ 0 1 0 demo_slave\<lparr>warmup := 999\<rparr>, ())"
  using warmup_wrap_stalls_service [of "submit LINK_BLK_OP_READ 0 1 0 demo_slave\<lparr>warmup := - 1\<rparr>" 999 0 "\<lambda>_ _ _ m. (NoDoorbell, m)" "()"]
  by (simp add: submit_def on_blk_def on_core_def demo_slave_def)

end
