(* ===== verification/Sdcard.thy ===== *)
theory Sdcard
  imports Storage
begin

text \<open>
  \<open>firmware/master-ioserver/sdcard/sdcard.c\<close>: the SD card driver over SPI.  The bus, the pins
  and the millisecond clock are an argument: a record of operations on a device state of any
  type.  A function that polls is a value of \<open>option\<close>: \<open>None\<close> says that it never returns.
\<close>

section \<open>The bus and the drive\<close>

record 'd spi =
  spi_xchg :: "u8 \<Rightarrow> 'd \<Rightarrow> u8 \<times> 'd"     \<comment> \<open>\<open>spi_write_read_blocking\<close> of one byte\<close>
  spi_cs :: "bool \<Rightarrow> 'd \<Rightarrow> 'd"           \<comment> \<open>the chip select line; \<open>True\<close> is high\<close>
  spi_ms :: "'d \<Rightarrow> u32"                  \<comment> \<open>\<open>to_ms_since_boot(get_absolute_time())\<close>\<close>
  spi_setup :: "'d \<Rightarrow> 'd"                \<comment> \<open>\<open>init_spi\<close> and the 10 ms that follow it\<close>
  spi_fast :: "bool \<Rightarrow> 'd \<Rightarrow> 'd"         \<comment> \<open>\<open>spi_set_baudrate\<close> to the slow or the fast clock\<close>

datatype DRESULT = RES_OK | RES_ERROR | RES_WRPRT | RES_NOTRDY | RES_PARERR

definition STA_NOINIT :: u8 where "STA_NOINIT = 0x01"
definition STA_NODISK :: u8 where "STA_NODISK = 0x02"
definition STA_PROTECT :: u8 where "STA_PROTECT = 0x04"

record 'd drive =
  dr_stat :: u8
  CardType :: u8
  dr_dev :: 'd

text \<open>Commands; the top bit marks an application command.\<close>

definition CMD0 :: u8 where "CMD0 = 0"
definition CMD1 :: u8 where "CMD1 = 1"
definition ACMD41 :: u8 where "ACMD41 = 0x80 + 41"
definition CMD8 :: u8 where "CMD8 = 8"
definition CMD9 :: u8 where "CMD9 = 9"
definition CMD12 :: u8 where "CMD12 = 12"
definition ACMD13 :: u8 where "ACMD13 = 0x80 + 13"
definition CMD16 :: u8 where "CMD16 = 16"
definition CMD17 :: u8 where "CMD17 = 17"
definition CMD18 :: u8 where "CMD18 = 18"
definition ACMD23 :: u8 where "ACMD23 = 0x80 + 23"
definition CMD24 :: u8 where "CMD24 = 24"
definition CMD25 :: u8 where "CMD25 = 25"
definition CMD55 :: u8 where "CMD55 = 55"
definition CMD58 :: u8 where "CMD58 = 58"

lemmas sd_commands = CMD0_def CMD1_def ACMD41_def CMD8_def CMD9_def CMD12_def ACMD13_def CMD16_def
  CMD17_def CMD18_def ACMD23_def CMD24_def CMD25_def CMD55_def CMD58_def

definition CT_MMC :: u8 where "CT_MMC = 0x01"
definition CT_SD1 :: u8 where "CT_SD1 = 0x02"
definition CT_SD2 :: u8 where "CT_SD2 = 0x04"
definition CT_SDC :: u8 where "CT_SDC = 0x06"
definition CT_BLOCK :: u8 where "CT_BLOCK = 0x08"

lemmas sd_types = CT_MMC_def CT_SD1_def CT_SD2_def CT_SDC_def CT_BLOCK_def
  STA_NOINIT_def STA_NODISK_def STA_PROTECT_def

section \<open>Bytes and polling\<close>

text \<open>Bytes sent one after the other, with the bytes received.\<close>

primrec spi_run :: "'d spi \<Rightarrow> u8 list \<Rightarrow> 'd \<Rightarrow> u8 list \<times> 'd" where
  "spi_run io [] s = ([], s)"
| "spi_run io (b # bs) s =
     (case spi_xchg io b s of (r, s) \<Rightarrow> case spi_run io bs s of (rs, s) \<Rightarrow> (r # rs, s))"

definition spi_send :: "'d spi \<Rightarrow> u8 list \<Rightarrow> 'd \<Rightarrow> 'd" where
  "spi_send io bs s = snd (spi_run io bs s)"

definition rcvr_spi_multi :: "'d spi \<Rightarrow> nat \<Rightarrow> 'd \<Rightarrow> u8 list \<times> 'd" where
  "rcvr_spi_multi io n = spi_run io (replicate n 0xFF)"

text \<open>\<open>do b = xchg_spi(0xFF) while (again(b) && _millis() < deadline)\<close>\<close>

partial_function (option) spi_poll :: "'d spi \<Rightarrow> (u8 \<Rightarrow> bool) \<Rightarrow> u32 \<Rightarrow> 'd \<Rightarrow> (u8 \<times> 'd) option" where
  "spi_poll io again deadline s =
     (case spi_xchg io 0xFF s of (b, s) \<Rightarrow>
        if again b \<and> spi_ms io s < deadline then spi_poll io again deadline s else Some (b, s))"

definition wait_ready :: "'d spi \<Rightarrow> u32 \<Rightarrow> 'd \<Rightarrow> (bool \<times> 'd) option" where
  "wait_ready io wt s = do {
     (b, s) \<leftarrow> spi_poll io (\<lambda>b. b \<noteq> 0xFF) (spi_ms io s + wt) s;
     Some (b = 0xFF, s) }"

definition sd_deselect :: "'d spi \<Rightarrow> 'd \<Rightarrow> 'd" where
  "sd_deselect io s = spi_send io [0xFF] (spi_cs io True s)"

definition sd_select :: "'d spi \<Rightarrow> 'd \<Rightarrow> (bool \<times> 'd) option" where
  "sd_select io s = do {
     (ok, s) \<leftarrow> wait_ready io 500 (spi_send io [0xFF] (spi_cs io False s));
     Some (if ok then (True, s) else (False, sd_deselect io s)) }"

text \<open>The data block, if one came; a failed call leaves the buffer as it was.\<close>

definition rcvr_datablock :: "'d spi \<Rightarrow> nat \<Rightarrow> 'd \<Rightarrow> (u8 list option \<times> 'd) option" where
  "rcvr_datablock io btr s = do {
     (token, s) \<leftarrow> spi_poll io (\<lambda>b. b = 0xFF) (spi_ms io s + 200) s;
     Some (if token \<noteq> 0xFE then (None, s)
           else case rcvr_spi_multi io btr s of (bs, s) \<Rightarrow> (Some bs, spi_send io [0xFF, 0xFF] s)) }"

text \<open>\<open>do res = xchg_spi(0xFF) while ((res & 0x80) && --n)\<close>, started with \<open>Suc n\<close>.\<close>

primrec cmd_response :: "'d spi \<Rightarrow> nat \<Rightarrow> 'd \<Rightarrow> u8 \<times> 'd" where
  "cmd_response io 0 s = spi_xchg io 0xFF s"
| "cmd_response io (Suc n) s =
     (case spi_xchg io 0xFF s of (res, s) \<Rightarrow> if res AND 0x80 \<noteq> 0 then cmd_response io n s else (res, s))"

definition cmd_packet :: "u8 \<Rightarrow> u32 \<Rightarrow> u8 list" where
  "cmd_packet cmd arg =
     [0x40 OR cmd, ucast (drop_bit 24 arg), ucast (drop_bit 16 arg), ucast (drop_bit 8 arg), ucast arg,
      if cmd = CMD8 then 0x87 else if cmd = CMD0 then 0x95 else 0x01]"

text \<open>\<open>send_cmd\<close> of a command below 0x80.\<close>

definition send_plain :: "'d spi \<Rightarrow> u8 \<Rightarrow> u32 \<Rightarrow> 'd \<Rightarrow> (u8 \<times> 'd) option" where
  "send_plain io cmd arg s = do {
     (ok, s) \<leftarrow> (if cmd \<noteq> CMD12 then sd_select io (sd_deselect io s) else Some (True, s));
     Some (if \<not> ok then (0xFF, s)
           else let s = spi_send io (cmd_packet cmd arg) s;
                    s = (if cmd = CMD12 then spi_send io [0xFF] s else s)
                in cmd_response io 9 s) }"

definition send_cmd :: "'d spi \<Rightarrow> u8 \<Rightarrow> u32 \<Rightarrow> 'd \<Rightarrow> (u8 \<times> 'd) option" where
  "send_cmd io cmd arg s =
     (if cmd AND 0x80 \<noteq> 0 then do {
        (res, s) \<leftarrow> send_plain io CMD55 0 s;
        if res > 1 then Some (res, s) else send_plain io (cmd AND 0x7F) arg s }
      else send_plain io cmd arg s)"

section \<open>Start of the drive\<close>

text \<open>\<open>while (_millis() < deadline && send_cmd(cmd, arg));\<close>\<close>

partial_function (option) init_loop :: "'d spi \<Rightarrow> u8 \<Rightarrow> u32 \<Rightarrow> u32 \<Rightarrow> 'd \<Rightarrow> 'd option" where
  "init_loop io cmd arg deadline s =
     (if spi_ms io s < deadline then do {
        (res, s) \<leftarrow> send_cmd io cmd arg s;
        if res \<noteq> 0 then init_loop io cmd arg deadline s else Some s }
      else Some s)"

text \<open>The card type found after CMD0 was answered: SD version 2, and the older cards.\<close>

definition init_sd2 :: "'d spi \<Rightarrow> u32 \<Rightarrow> 'd \<Rightarrow> (u8 \<times> 'd) option" where
  "init_sd2 io t s =
     (case spi_run io [0xFF, 0xFF, 0xFF, 0xFF] s of (ocr, s) \<Rightarrow>
        if ocr ! 2 = 0x01 \<and> ocr ! 3 = 0xAA then do {
          s \<leftarrow> init_loop io ACMD41 (push_bit 30 1) (t + 1000) s;
          if spi_ms io s < t + 1000 then do {
            (res, s) \<leftarrow> send_cmd io CMD58 0 s;
            Some (if res = 0 then
                    (case spi_run io [0xFF, 0xFF, 0xFF, 0xFF] s of (ocr, s) \<Rightarrow>
                       (if ocr ! 0 AND 0x40 \<noteq> 0 then CT_SD2 OR CT_BLOCK else CT_SD2, s))
                  else (0, s)) }
          else Some (0, s) }
        else Some (0, s))"

definition init_old :: "'d spi \<Rightarrow> u32 \<Rightarrow> 'd \<Rightarrow> (u8 \<times> 'd) option" where
  "init_old io t s = do {
     (res, s) \<leftarrow> send_cmd io ACMD41 0 s;
     let (ty, cmd) = (if res \<le> 1 then (CT_SD1, ACMD41) else (CT_MMC, CMD1));
     s \<leftarrow> init_loop io cmd 0 (t + 1000) s;
     if spi_ms io s \<ge> t + 1000 then Some (0, s)
     else do {
       (res, s) \<leftarrow> send_cmd io CMD16 512 s;
       Some (if res \<noteq> 0 then 0 else ty, s) } }"

definition identify :: "'d spi \<Rightarrow> 'd \<Rightarrow> (u8 \<times> 'd) option" where
  "identify io s = do {
     (res, s) \<leftarrow> send_cmd io CMD0 0 s;
     if res = 1 then do {
       let t = spi_ms io s;
       (res, s) \<leftarrow> send_cmd io CMD8 0x1AA s;
       if res = 1 then init_sd2 io t s else init_old io t s }
     else Some (0, s) }"

definition disk_initialize :: "'d spi \<Rightarrow> u8 \<Rightarrow> 'd drive \<Rightarrow> (u8 \<times> 'd drive) option" where
  "disk_initialize io drv v =
     (if drv \<noteq> 0 then Some (STA_NOINIT, v)
      else let s = spi_setup io (dr_dev v)
           in if dr_stat v AND STA_NODISK \<noteq> 0 then Some (dr_stat v, v\<lparr>dr_dev := s\<rparr>)
              else do {
                (ty, s) \<leftarrow> identify io (spi_send io (replicate 10 0xFF) (spi_cs io False (spi_fast io False s)));
                let s = sd_deselect io s;
                let (st, s) = (if ty \<noteq> 0 then (dr_stat v AND NOT STA_NOINIT, spi_fast io True s) else (STA_NOINIT, s));
                Some (st, v\<lparr>CardType := ty, dr_stat := st, dr_dev := s\<rparr>) })"

definition disk_status :: "u8 \<Rightarrow> 'd drive \<Rightarrow> u8" where
  "disk_status drv v = (if drv \<noteq> 0 then STA_NOINIT else dr_stat v)"

section \<open>Reading\<close>

text \<open>\<open>LBA_t\<close> has 64 bits; the argument of a command has 32.\<close>

definition card_address :: "u8 \<Rightarrow> u64 \<Rightarrow> u64" where
  "card_address ty sector = (if ty AND CT_BLOCK = 0 then sector * 512 else sector)"

text \<open>
  \<open>do { if (!rcvr_datablock(buff, 512)) break; buff += 512; } while (--count)\<close> with \<open>Suc n\<close>
  sectors to go: the sectors received, the value \<open>count\<close> is left with.
\<close>

primrec read_blocks :: "'d spi \<Rightarrow> nat \<Rightarrow> 'd \<Rightarrow> (u8 list \<times> nat \<times> 'd) option" where
  "read_blocks io 0 s = Some ([], 0, s)"
| "read_blocks io (Suc n) s = do {
     (r, s) \<leftarrow> rcvr_datablock io 512 s;
     case r of
       None \<Rightarrow> Some ([], Suc n, s)
     | Some bs \<Rightarrow> do { (rest, left, s) \<leftarrow> read_blocks io n s; Some (bs @ rest, left, s) } }"

definition read_single :: "'d spi \<Rightarrow> u32 \<Rightarrow> 'd \<Rightarrow> (u8 list \<times> nat \<times> 'd) option" where
  "read_single io arg s = do {
     (res, s) \<leftarrow> send_cmd io CMD17 arg s;
     if res = 0 then read_blocks io 1 s else Some ([], 1, s) }"

definition read_multi :: "'d spi \<Rightarrow> u32 \<Rightarrow> nat \<Rightarrow> 'd \<Rightarrow> (u8 list \<times> nat \<times> 'd) option" where
  "read_multi io arg count s = do {
     (res, s) \<leftarrow> send_cmd io CMD18 arg s;
     if res = 0 then do {
       (bs, left, s) \<leftarrow> read_blocks io count s;
       (_, s) \<leftarrow> send_cmd io CMD12 0 s;
       Some (bs, left, s) }
     else Some ([], count, s) }"

text \<open>The result, the bytes stored from \<open>buff\<close> on, and the drive.\<close>

definition disk_read :: "'d spi \<Rightarrow> u8 \<Rightarrow> u64 \<Rightarrow> u32 \<Rightarrow> 'd drive \<Rightarrow> (DRESULT \<times> u8 list \<times> 'd drive) option" where
  "disk_read io drv sector count v =
     (if drv \<noteq> 0 \<or> count = 0 then Some (RES_PARERR, [], v)
      else if dr_stat v AND STA_NOINIT \<noteq> 0 then Some (RES_NOTRDY, [], v)
      else let arg = ucast (card_address (CardType v) sector) in do {
        (bs, left, s) \<leftarrow> (if count = 1 then read_single io arg (dr_dev v)
                          else read_multi io arg (unat count) (dr_dev v));
        Some (if left \<noteq> 0 then RES_ERROR else RES_OK, bs, v\<lparr>dr_dev := sd_deselect io s\<rparr>) })"

section \<open>Writing\<close>

text \<open>A data token with its block, or the stop token.\<close>

definition xmit_datablock :: "'d spi \<Rightarrow> u8 list \<Rightarrow> u8 \<Rightarrow> 'd \<Rightarrow> (bool \<times> 'd) option" where
  "xmit_datablock io bs token s = do {
     (ok, s) \<leftarrow> wait_ready io 500 s;
     Some (if \<not> ok then (False, s)
           else let s = spi_send io [token] s
                in if token \<noteq> 0xFD then
                     (case spi_xchg io 0xFF (spi_send io [0xFF, 0xFF] (spi_send io bs s)) of (resp, s) \<Rightarrow>
                        (resp AND 0x1F = 0x05, s))
                   else (True, s)) }"

primrec write_blocks :: "'d spi \<Rightarrow> u8 arr \<Rightarrow> nat \<Rightarrow> nat \<Rightarrow> 'd \<Rightarrow> (nat \<times> 'd) option" where
  "write_blocks io buff off 0 s = Some (0, s)"
| "write_blocks io buff off (Suc n) s = do {
     (ok, s) \<leftarrow> xmit_datablock io (mem_get off 512 buff) 0xFC s;
     if \<not> ok then Some (Suc n, s) else write_blocks io buff (off + 512) n s }"

definition write_single :: "'d spi \<Rightarrow> u32 \<Rightarrow> u8 arr \<Rightarrow> 'd \<Rightarrow> (nat \<times> 'd) option" where
  "write_single io arg buff s = do {
     (res, s) \<leftarrow> send_cmd io CMD24 arg s;
     if res = 0 then do {
       (ok, s) \<leftarrow> xmit_datablock io (mem_get 0 512 buff) 0xFE s;
       Some (if ok then 0 else 1, s) }
     else Some (1, s) }"

definition write_multi :: "'d spi \<Rightarrow> u8 \<Rightarrow> u32 \<Rightarrow> u8 arr \<Rightarrow> u32 \<Rightarrow> 'd \<Rightarrow> (nat \<times> 'd) option" where
  "write_multi io ty arg buff count s = do {
     (_, s) \<leftarrow> (if ty AND CT_SDC \<noteq> 0 then send_cmd io ACMD23 count s else Some (0, s));
     (res, s) \<leftarrow> send_cmd io CMD25 arg s;
     if res = 0 then do {
       (left, s) \<leftarrow> write_blocks io buff 0 (unat count) s;
       (ok, s) \<leftarrow> xmit_datablock io [] 0xFD s;
       Some (if ok then left else 1, s) }
     else Some (unat count, s) }"

definition disk_write :: "'d spi \<Rightarrow> u8 \<Rightarrow> u8 arr \<Rightarrow> u64 \<Rightarrow> u32 \<Rightarrow> 'd drive \<Rightarrow> (DRESULT \<times> 'd drive) option" where
  "disk_write io drv buff sector count v =
     (if drv \<noteq> 0 \<or> count = 0 then Some (RES_PARERR, v)
      else if dr_stat v AND STA_NOINIT \<noteq> 0 then Some (RES_NOTRDY, v)
      else if dr_stat v AND STA_PROTECT \<noteq> 0 then Some (RES_WRPRT, v)
      else let arg = ucast (card_address (CardType v) sector) in do {
        (ok, s) \<leftarrow> sd_select io (dr_dev v);
        if \<not> ok then Some (RES_NOTRDY, v\<lparr>dr_dev := s\<rparr>)
        else do {
          (left, s) \<leftarrow> (if count = 1 then write_single io arg buff s
                        else write_multi io (CardType v) arg buff count s);
          Some (if left \<noteq> 0 then RES_ERROR else RES_OK, v\<lparr>dr_dev := sd_deselect io s\<rparr>) } })"

section \<open>Control\<close>

definition CTRL_SYNC :: u8 where "CTRL_SYNC = 0"
definition GET_SECTOR_COUNT :: u8 where "GET_SECTOR_COUNT = 1"
definition GET_BLOCK_SIZE :: u8 where "GET_BLOCK_SIZE = 3"
definition CTRL_TRIM :: u8 where "CTRL_TRIM = 4"

text \<open>
  The sectors of a card, from its CSD register.  In the source a shift by \<open>n - 9\<close> with
  \<open>n < 9\<close> is undefined; no card has such an \<open>n\<close>, and here the shift is then by zero.
\<close>

definition csd_sectors :: "u8 list \<Rightarrow> u32" where
  "csd_sectors csd =
     (if drop_bit 6 (csd ! 0) = 1 then
        push_bit 10 (ucast (csd ! 9) + push_bit 8 (ucast (csd ! 8)) + push_bit 16 (ucast (csd ! 7 AND 63)) + 1)
      else let n = unat (csd ! 5 AND 15) + unat (drop_bit 7 (csd ! 10 AND 128)) + 2 * unat (csd ! 9 AND 3) + 2
           in push_bit (n - 9) (ucast (drop_bit 6 (csd ! 8)) + push_bit 2 (ucast (csd ! 7)) +
                push_bit 10 (ucast (csd ! 6 AND 3)) + 1))"

text \<open>
  The erase block of an SD card of version 1 and of an MMC.  The first shift is undefined in
  the source when the two bits of byte 13 are zero; here it is then by zero.
\<close>

definition csd_erase_sd1 :: "u8 list \<Rightarrow> u32" where
  "csd_erase_sd1 csd =
     push_bit (unat (drop_bit 6 (csd ! 13)) - 1)
       (push_bit 1 (ucast (csd ! 10 AND 63)) + drop_bit 7 (ucast (csd ! 11 AND 128)) + 1)"

definition csd_erase_mmc :: "u8 list \<Rightarrow> u32" where
  "csd_erase_mmc csd =
     (drop_bit 2 (ucast (csd ! 10 AND 124)) + 1) *
     (push_bit 3 (ucast (csd ! 11 AND 3)) + drop_bit 5 (ucast (csd ! 11 AND 224)) + 1)"

definition read_csd :: "'d spi \<Rightarrow> 'd \<Rightarrow> (u8 list option \<times> 'd) option" where
  "read_csd io s = do {
     (res, s) \<leftarrow> send_cmd io CMD9 0 s;
     if res = 0 then rcvr_datablock io 16 s else Some (None, s) }"

definition block_size_sd2 :: "'d spi \<Rightarrow> 'd \<Rightarrow> (u32 option \<times> 'd) option" where
  "block_size_sd2 io s = do {
     (res, s) \<leftarrow> send_cmd io ACMD13 0 s;
     if res = 0 then do {
       (r, s) \<leftarrow> rcvr_datablock io 16 (spi_send io [0xFF] s);
       Some (case r of
               None \<Rightarrow> (None, s)
             | Some st \<Rightarrow> (Some (push_bit (unat (drop_bit 4 (st ! 10))) 16), spi_send io (replicate 48 0xFF) s)) }
     else Some (None, s) }"

text \<open>
  The result and the word stored through \<open>buff\<close>.  \<open>CTRL_TRIM\<close> asks for the CSD with
  \<open>MMC_GET_CSD\<close>, a command this function does not have: the inner call takes the default
  branch, and the erase that follows is not reached.
\<close>

definition disk_ioctl :: "'d spi \<Rightarrow> u8 \<Rightarrow> u8 \<Rightarrow> 'd drive \<Rightarrow> (DRESULT \<times> u32 option \<times> 'd drive) option" where
  "disk_ioctl io drv cmd v =
     (if drv \<noteq> 0 then Some (RES_PARERR, None, v)
      else if dr_stat v AND STA_NOINIT \<noteq> 0 then Some (RES_NOTRDY, None, v)
      else let s = dr_dev v in do {
        (res, w, s) \<leftarrow>
          (if cmd = CTRL_SYNC then do {
             (ok, s) \<leftarrow> sd_select io s;
             Some (if ok then RES_OK else RES_ERROR, None, s) }
           else if cmd = GET_SECTOR_COUNT then do {
             (r, s) \<leftarrow> read_csd io s;
             Some (case r of None \<Rightarrow> (RES_ERROR, None, s) | Some csd \<Rightarrow> (RES_OK, Some (csd_sectors csd), s)) }
           else if cmd = GET_BLOCK_SIZE then
             (if CardType v AND CT_SD2 \<noteq> 0 then do {
                (w, s) \<leftarrow> block_size_sd2 io s;
                Some (if w = None then RES_ERROR else RES_OK, w, s) }
              else do {
                (r, s) \<leftarrow> read_csd io s;
                Some (case r of
                        None \<Rightarrow> (RES_ERROR, None, s)
                      | Some csd \<Rightarrow>
                          (RES_OK, Some (if CardType v AND CT_SD1 \<noteq> 0 then csd_erase_sd1 csd else csd_erase_mmc csd), s)) })
           else if cmd = CTRL_TRIM then
             Some (RES_ERROR, None, if CardType v AND CT_SDC = 0 then s else sd_deselect io s)
           else Some (RES_PARERR, None, s));
        Some (res, w, v\<lparr>dr_dev := sd_deselect io s\<rparr>) })"

end
