(* ===== verification/SdTime.thy ===== *)
theory SdTime
  imports Sdcard
begin

text \<open>
  The loops of the SD driver come to an end: the bus takes time, and every wait has a deadline.
\<close>

section \<open>A bus that takes time\<close>

text \<open>
  There is a time in units of which \<open>k\<close> make a millisecond; the clock counts milliseconds in
  32 bits, and to exchange a byte takes at least one unit and at most a millisecond.
\<close>

definition ticking :: "'d spi \<Rightarrow> ('d \<Rightarrow> nat) \<Rightarrow> nat \<Rightarrow> bool" where
  "ticking io time k \<longleftrightarrow> 0 < k \<and> (\<forall>s. spi_ms io s = of_nat (time s div k)) \<and>
     (\<forall>b s. time s < time (snd (spi_xchg io b s)) \<and> time (snd (spi_xchg io b s)) \<le> time s + k)"

lemma tick_ms:
  assumes "ticking io time k"
  shows "unat (spi_ms io s) = time s mod (2 ^ 32 * k) div k"
proof -
  have "unat (spi_ms io s) = time s div k mod 2 ^ 32"
    using assms by (simp add: ticking_def unsigned_of_nat take_bit_eq_mod)
  also have "\<dots> = (k * (time s div k mod 2 ^ 32) + time s mod k) div k"
    using assms by (simp add: ticking_def)
  also have "\<dots> = time s mod (k * 2 ^ 32) div k"
    by (simp only: mod_mult2_eq)
  finally show ?thesis by (simp only: mult.commute)
qed

text \<open>A poll whose last look came before its deadline goes on; the clock cannot step over the deadline.\<close>

lemma poll_step:
  assumes "ticking io time k" "spi_ms io s < deadline" "spi_xchg io b s = (r, s')"
  shows "unat deadline * k - time s' mod (2 ^ 32 * k) < unat deadline * k - time s mod (2 ^ 32 * k)"
proof -
  let ?w = "2 ^ 32 * k" and ?d = "unat deadline * k"
  have k: "0 < k" and t: "time s < time s'" "time s' \<le> time s + k"
    using assms(1,3) by (metis snd_conv ticking_def)+
  have "time s mod ?w div k < unat deadline"
    using assms(2) tick_ms [OF assms(1), of s] by (simp add: word_less_nat_alt)
  then have lt: "time s mod ?w < ?d" using k by (simp add: div_less_iff_less_mult)
  have "unat deadline + 1 \<le> 2 ^ 32"
    using unat_u32 [of deadline] by simp
  then have "(unat deadline + 1) * k \<le> ?w" by (rule mult_le_mono1)
  then have top: "?d + k \<le> ?w" by (simp only: add_mult_distrib mult_1)
  obtain j where j: "time s' = time s + j" "0 < j" "j \<le> k" using t by (metis less_imp_add_positive nat_add_left_cancel_le)
  have "time s mod ?w + j < ?w" using lt top j(3) by linarith
  then have "time s' mod ?w = time s mod ?w + j"
    unfolding j(1) by (metis mod_add_left_eq mod_less)
  then show ?thesis using lt j(2) by simp
qed

lemma poll_returns:
  assumes "ticking io time k"
  shows "spi_poll io again deadline s \<noteq> None"
proof -
  have "spi_poll io again deadline s \<noteq> None"
    if "unat deadline * k - time (snd (spi_xchg io 0xFF s)) mod (2 ^ 32 * k) < n" for n
    using that
  proof (induction n arbitrary: s)
    case (Suc n)
    obtain b s1 where x: "spi_xchg io 0xFF s = (b, s1)" by fastforce
    obtain b' s2 where x1: "spi_xchg io 0xFF s1 = (b', s2)" by fastforce
    show ?case
    proof (cases "again b \<and> spi_ms io s1 < deadline")
      case True
      then have "unat deadline * k - time s2 mod (2 ^ 32 * k) < unat deadline * k - time s1 mod (2 ^ 32 * k)"
        using poll_step [OF assms _ x1, of deadline] by blast
      then have "spi_poll io again deadline s1 \<noteq> None"
        using Suc.prems x x1 by (intro Suc.IH) simp
      then show ?thesis
        using True x by (subst spi_poll.simps) simp
    next
      case False
      then show ?thesis using x by (subst spi_poll.simps) auto
    qed
  qed simp
  from this [OF lessI] show ?thesis .
qed

section \<open>The operations return\<close>

lemma bind_returns: "x \<noteq> None \<Longrightarrow> (\<And>v. f v \<noteq> None) \<Longrightarrow> Option.bind x f \<noteq> None"
  by (cases x) auto

lemma if_returns: "(b \<Longrightarrow> x \<noteq> None) \<Longrightarrow> (\<not> b \<Longrightarrow> y \<noteq> None) \<Longrightarrow> (if b then x else y) \<noteq> None"
  by simp

lemma prod_returns: "(\<And>a b. f a b \<noteq> None) \<Longrightarrow> (case p of (a, b) \<Rightarrow> f a b) \<noteq> None"
  by (simp split: prod.split)

lemma option_returns: "x \<noteq> None \<Longrightarrow> (\<And>v. f v \<noteq> None) \<Longrightarrow> (case w of None \<Rightarrow> x | Some v \<Rightarrow> f v) \<noteq> None"
  by (simp split: option.split)

lemmas returns = bind_returns if_returns prod_returns option_returns option.distinct(2)

definition bus_returns :: "'d spi \<Rightarrow> bool" where
  "bus_returns io \<longleftrightarrow> (\<forall>again deadline s. spi_poll io again deadline s \<noteq> None)"

lemma ticking_returns: "ticking io time k \<Longrightarrow> bus_returns io"
  unfolding bus_returns_def by (intro allI poll_returns)

lemma poll_some: "bus_returns io \<Longrightarrow> spi_poll io again deadline s \<noteq> None"
  unfolding bus_returns_def by blast

lemma wait_ready_returns: "bus_returns io \<Longrightarrow> wait_ready io wt s \<noteq> None"
  unfolding wait_ready_def by (intro returns poll_some)

lemma rcvr_datablock_returns: "bus_returns io \<Longrightarrow> rcvr_datablock io n s \<noteq> None"
  unfolding rcvr_datablock_def by (intro returns poll_some)

lemma select_returns: "bus_returns io \<Longrightarrow> sd_select io s \<noteq> None"
  unfolding sd_select_def by (intro returns wait_ready_returns)

lemma send_plain_returns: "bus_returns io \<Longrightarrow> send_plain io cmd arg s \<noteq> None"
  unfolding send_plain_def by (intro returns select_returns)

lemma send_cmd_returns: "bus_returns io \<Longrightarrow> send_cmd io cmd arg s \<noteq> None"
  unfolding send_cmd_def by (intro returns send_plain_returns)

lemma read_blocks_returns: "bus_returns io \<Longrightarrow> read_blocks io n s \<noteq> None"
  by (induction n arbitrary: s) (simp, unfold read_blocks.simps, intro returns rcvr_datablock_returns)

lemma xmit_returns: "bus_returns io \<Longrightarrow> xmit_datablock io bs token s \<noteq> None"
  unfolding xmit_datablock_def by (intro returns wait_ready_returns)

lemma write_blocks_returns: "bus_returns io \<Longrightarrow> write_blocks io buff off n s \<noteq> None"
  by (induction n arbitrary: off s) (simp, unfold write_blocks.simps, intro returns xmit_returns)

lemma disk_read_returns: "bus_returns io \<Longrightarrow> disk_read io drv sector count v \<noteq> None"
  unfolding disk_read_def read_single_def read_multi_def Let_def
  by (intro returns send_cmd_returns read_blocks_returns)

lemma disk_write_returns: "bus_returns io \<Longrightarrow> disk_write io drv buff sector count v \<noteq> None"
  unfolding disk_write_def write_single_def write_multi_def Let_def
  by (intro returns send_cmd_returns write_blocks_returns xmit_returns select_returns)

lemma disk_ioctl_returns: "bus_returns io \<Longrightarrow> disk_ioctl io drv cmd v \<noteq> None"
  unfolding disk_ioctl_def read_csd_def block_size_sd2_def Let_def
  by (intro returns send_cmd_returns rcvr_datablock_returns select_returns)

section \<open>The start of the drive\<close>

text \<open>
  The loop of the start runs a command between two looks at the clock, so it needs to know how
  long a command takes, and that the 32-bit clock does not wrap meanwhile (it does after 49
  days).  \<open>took l c\<close>: at least \<open>l\<close> units and at most \<open>c\<close> milliseconds.
\<close>

definition clocked :: "'d spi \<Rightarrow> ('d \<Rightarrow> nat) \<Rightarrow> nat \<Rightarrow> bool" where
  "clocked io time k \<longleftrightarrow> ticking io time k \<and>
     (\<forall>h s. time s \<le> time (spi_cs io h s) \<and> time (spi_cs io h s) \<le> time s + k)"

definition took :: "('d \<Rightarrow> nat) \<Rightarrow> nat \<Rightarrow> nat \<Rightarrow> nat \<Rightarrow> ('d \<Rightarrow> ('a \<times> 'd) option) \<Rightarrow> bool" where
  "took time k l c f \<longleftrightarrow> (\<forall>s r s'. time s + (c + 1) * k < 2 ^ 32 * k \<and> f s = Some (r, s') \<longrightarrow>
     time s + l \<le> time s' \<and> time s' \<le> time s + c * k)"

lemma tookD:
  "took time k l c f \<Longrightarrow> f s = Some (r, s') \<Longrightarrow> time s + (c + 1) * k < 2 ^ 32 * k \<Longrightarrow>
   time s + l \<le> time s' \<and> time s' \<le> time s + c * k"
  unfolding took_def by blast

lemma took_bind:
  assumes "took time k l1 c1 f" "\<And>r. took time k l2 c2 (g r)" "c = c1 + c2" "l \<le> l1 + l2"
  shows "took time k l c (\<lambda>s. f s \<bind> (\<lambda>(r, s). g r s))"
  unfolding took_def
proof (intro allI impI)
  fix s r s' assume h: "time s + (c + 1) * k < 2 ^ 32 * k \<and> f s \<bind> (\<lambda>(r, s). g r s) = Some (r, s')"
  then obtain r1 s1 where 1: "f s = Some (r1, s1)" and 2: "g r1 s1 = Some (r, s')"
    by (auto simp: bind_eq_Some_conv)
  have e: "(c + 1) * k = c1 * k + (c2 + 1) * k" "c * k = c1 * k + c2 * k"
    by (simp_all add: assms(3) add_mult_distrib)
  have le: "(c1 + 1) * k \<le> (c + 1) * k" using assms(3) by (intro mult_le_mono1) simp
  have t1: "time s + l1 \<le> time s1" "time s1 \<le> time s + c1 * k"
    using tookD [OF assms(1) 1] h le by linarith+
  have "time s1 + l2 \<le> time s'" "time s' \<le> time s1 + c2 * k"
    using tookD [OF assms(2) 2] h t1(2) unfolding e by linarith+
  with t1 assms(4) show "time s + l \<le> time s' \<and> time s' \<le> time s + c * k"
    unfolding e by linarith
qed

lemma took_Some: "took time k 0 0 (\<lambda>s. Some (x, s))"
  by (simp add: took_def)

lemma took_weaken: "took time k l c f \<Longrightarrow> l' \<le> l \<Longrightarrow> c \<le> c' \<Longrightarrow> took time k l' c' f"
proof -
  assume t: "took time k l c f" and le: "l' \<le> l" "c \<le> c'"
  have "(c + 1) * k \<le> (c' + 1) * k" "c * k \<le> c' * k" using le(2) by (auto intro: mult_le_mono1)
  with t le(1) show ?thesis unfolding took_def
    by (meson add_le_mono1 add_left_mono le_trans order_le_less_trans)
qed

lemma took_if: "(b \<Longrightarrow> took time k l c f) \<Longrightarrow> (\<not> b \<Longrightarrow> took time k l c g) \<Longrightarrow> took time k l c (\<lambda>s. if b then f s else g s)"
  by (cases b) simp_all

lemma run_time:
  assumes "ticking io time k"
  shows "spi_run io bs s = (rs, s') \<Longrightarrow> time s + length bs \<le> time s' \<and> time s' \<le> time s + length bs * k"
proof (induction bs arbitrary: s rs)
  case (Cons b bs)
  obtain r s1 where x: "spi_xchg io b s = (r, s1)" by fastforce
  have t: "time s < time s1" "time s1 \<le> time s + k"
    using assms x by (metis snd_conv ticking_def)+
  obtain rs1 where "spi_run io bs s1 = (rs1, s')" using Cons.prems x by (auto split: prod.splits)
  from Cons.IH [OF this] t show ?case by (simp add: add_mult_distrib)
qed simp

text \<open>Steps that do not poll.\<close>

definition steps :: "('d \<Rightarrow> nat) \<Rightarrow> nat \<Rightarrow> nat \<Rightarrow> nat \<Rightarrow> ('d \<Rightarrow> 'd) \<Rightarrow> bool" where
  "steps time k l c f \<longleftrightarrow> (\<forall>s. time s + l \<le> time (f s) \<and> time (f s) \<le> time s + c * k)"

lemma steps_send: "ticking io time k \<Longrightarrow> steps time k (length bs) (length bs) (spi_send io bs)"
  using run_time [of io time k bs] unfolding steps_def spi_send_def by (metis prod.collapse)

lemma steps_cs: "clocked io time k \<Longrightarrow> steps time k 0 1 (spi_cs io h)"
  by (simp add: steps_def clocked_def)

lemma steps_comp:
  assumes "steps time k l1 c1 f" "steps time k l2 c2 g"
  shows "steps time k (l1 + l2) (c1 + c2) (\<lambda>s. g (f s))"
  unfolding steps_def add_mult_distrib
proof
  fix s
  have "time s + l1 \<le> time (f s)" "time (f s) \<le> time s + c1 * k"
    "time (f s) + l2 \<le> time (g (f s))" "time (g (f s)) \<le> time (f s) + c2 * k"
    using assms by (simp_all add: steps_def)
  then show "time s + (l1 + l2) \<le> time (g (f s)) \<and> time (g (f s)) \<le> time s + (c1 * k + c2 * k)"
    by linarith
qed

lemma took_steps: "steps time k l c f \<Longrightarrow> took time k l c (\<lambda>s. Some (x, f s))"
  by (simp add: took_def steps_def)

lemma took_after:
  assumes "steps time k l1 c1 f" "took time k l2 c2 g" "c = c1 + c2" "l \<le> l1 + l2"
  shows "took time k l c (\<lambda>s. g (f s))"
  using took_bind [OF took_steps [OF assms(1), of "()"], of l2 c2 "\<lambda>_. g"] assms(2-4) by simp

lemma took_poll:
  assumes "ticking io time k"
  shows "spi_poll io again deadline s = Some (b, s') \<Longrightarrow> max (time s) (unat deadline * k) + k < 2 ^ 32 * k \<Longrightarrow>
    time s + 1 \<le> time s' \<and> time s' \<le> max (time s) (unat deadline * k) + k"
proof -
  assume r: "spi_poll io again deadline s = Some (b, s')"
  have "max (time s) (unat deadline * k) + k < 2 ^ 32 * k \<longrightarrow>
    time s + 1 \<le> time (snd (b, s')) \<and> time (snd (b, s')) \<le> max (time s) (unat deadline * k) + k"
  proof (rule spi_poll.raw_induct [where P = "\<lambda>io again deadline s r. ticking io time k \<longrightarrow>
      max (time s) (unat deadline * k) + k < 2 ^ 32 * k \<longrightarrow>
      time s + 1 \<le> time (snd r) \<and> time (snd r) \<le> max (time s) (unat deadline * k) + k", OF _ r, THEN mp, OF _ assms])
    fix f :: "'a spi \<Rightarrow> (u8 \<Rightarrow> bool) \<Rightarrow> u32 \<Rightarrow> 'a \<Rightarrow> (u8 \<times> 'a) option" and io again deadline s r
    assume IH: "\<And>io again deadline s r. f io again deadline s = Some r \<Longrightarrow> ticking io time k \<longrightarrow>
        max (time s) (unat deadline * k) + k < 2 ^ 32 * k \<longrightarrow>
        time s + 1 \<le> time (snd r) \<and> time (snd r) \<le> max (time s) (unat deadline * k) + k"
      and eq: "(case spi_xchg io 0xFF s of (b, s) \<Rightarrow>
        if again b \<and> spi_ms io s < deadline then f io again deadline s else Some (b, s)) = Some r"
    show "ticking io time k \<longrightarrow> max (time s) (unat deadline * k) + k < 2 ^ 32 * k \<longrightarrow>
        time s + 1 \<le> time (snd r) \<and> time (snd r) \<le> max (time s) (unat deadline * k) + k"
    proof (intro impI)
      assume tick: "ticking io time k" and b: "max (time s) (unat deadline * k) + k < 2 ^ 32 * k"
      obtain c s1 where x: "spi_xchg io 0xFF s = (c, s1)" by fastforce
      have t: "time s < time s1" "time s1 \<le> time s + k" using tick x by (metis snd_conv ticking_def)+
      show "time s + 1 \<le> time (snd r) \<and> time (snd r) \<le> max (time s) (unat deadline * k) + k"
      proof (cases "again c \<and> spi_ms io s1 < deadline")
        case True
        have "time s1 < 2 ^ 32 * k" using t(2) b by linarith
        then have "unat (spi_ms io s1) = time s1 div k" using tick_ms [OF tick, of s1] by simp
        then have "time s1 div k < unat deadline" using True by (simp add: word_less_nat_alt)
        then have lt: "time s1 < unat deadline * k"
          using tick by (simp add: ticking_def div_less_iff_less_mult)
        have "f io again deadline s1 = Some r" using eq x True by simp
        from IH [OF this] tick b lt have "time s1 + 1 \<le> time (snd r)" "time (snd r) \<le> max (time s1) (unat deadline * k) + k"
          by auto
        with t lt show ?thesis by linarith
      next
        case False
        then show ?thesis using eq x t by auto
      qed
    qed
  qed
  then show "max (time s) (unat deadline * k) + k < 2 ^ 32 * k \<Longrightarrow> ?thesis" by simp
qed

lemma took_wait:
  assumes "ticking io time k" "wt \<le> 1000"
  shows "took time k 1 (wt + 1) (\<lambda>s. spi_poll io again (spi_ms io s + of_nat wt) s)"
  unfolding took_def
proof (intro allI impI)
  fix s r s'
  let ?d = "spi_ms io s + of_nat wt"
  assume h: "time s + (wt + 1 + 1) * k < 2 ^ 32 * k \<and> spi_poll io again ?d s = Some (r, s')"
  have k: "0 < k" using assms(1) by (simp add: ticking_def)
  have "time s < 2 ^ 32 * k" using h by linarith
  then have ms: "unat (spi_ms io s) = time s div k" using tick_ms [OF assms(1), of s] by simp
  have "(time s div k + wt + 1) * k \<le> time s + (wt + 1) * k"
    using div_mult_mod_eq [of "time s" k] by (simp only: add_mult_distrib)
  also have "\<dots> < 2 ^ 32 * k" using h by (simp add: add_mult_distrib)
  finally have lt: "time s div k + wt + 1 < 2 ^ 32" using k by (simp only: mult_less_cancel2)
  have "unat (of_nat wt :: u32) = wt" using assms(2) by (intro unat_of_nat_small) simp
  then have d: "unat ?d = time s div k + wt"
    using lt ms by (simp add: unat_word_ariths(1))
  have "unat ?d * k \<le> time s + wt * k"
    unfolding d using div_mult_mod_eq [of "time s" k] by (simp only: add_mult_distrib)
  then have m: "max (time s) (unat ?d * k) \<le> time s + wt * k" by simp
  have e: "(wt + 1 + 1) * k = wt * k + k + k" "(wt + 1) * k = wt * k + k" by simp_all
  have "max (time s) (unat ?d * k) + k < 2 ^ 32 * k" using m h unfolding e by linarith
  from took_poll [OF assms(1) _ this, of again r s'] h m
  show "time s + 1 \<le> time s' \<and> time s' \<le> time s + (wt + 1) * k" unfolding e by linarith
qed

lemma took_wait_ready: "ticking io time k \<Longrightarrow> took time k 1 501 (wait_ready io 500)"
  unfolding wait_ready_def
  using took_bind [OF took_wait [of io time k 500] took_Some, of 501 1] by simp

lemma steps_deselect: "clocked io time k \<Longrightarrow> steps time k 1 2 (sd_deselect io)"
  using steps_comp [OF steps_cs [of io time k True] steps_send [of io time k "[0xFF]"]]
  by (simp add: clocked_def sd_deselect_def [abs_def] numeral_2_eq_2)

lemma took_select: "clocked io time k \<Longrightarrow> took time k 1 505 (sd_select io)"
proof -
  assume c: "clocked io time k"
  then have t: "ticking io time k" by (simp add: clocked_def)
  have "took time k 1 503 (\<lambda>s. wait_ready io 500 (spi_send io [0xFF] (spi_cs io False s)))"
    by (rule took_after [OF steps_comp [OF steps_cs [OF c] steps_send [OF t]] took_wait_ready [OF t]]) simp_all
  moreover have "took time k 0 2 (\<lambda>s. Some (if ok then (True, s) else (False, sd_deselect io s)))" for ok
    using took_weaken [OF took_steps [OF steps_deselect [OF c], of False], of 0 2]
      took_weaken [OF took_Some [of time k True], of 0 2] by (cases ok) simp_all
  ultimately show ?thesis
    unfolding sd_select_def by (rule took_bind) simp_all
qed

lemma took_response: "ticking io time k \<Longrightarrow> took time k 1 (n + 1) (\<lambda>s. Some (cmd_response io n s))"
proof (induction n)
  case 0
  have "took time k 1 1 (\<lambda>s. Some (spi_xchg io 0xFF s))"
    using 0 by (auto simp: took_def ticking_def Suc_le_eq) (metis snd_conv)+
  then show ?case by (simp add: took_weaken [of _ _ 1 1])
next
  case (Suc n)
  have x: "took time k 1 1 (\<lambda>s. Some (spi_xchg io 0xFF s))"
    using Suc.prems by (auto simp: took_def ticking_def Suc_le_eq) (metis snd_conv)+
  have "took time k 0 (n + 1) (\<lambda>s. Some (if r AND 0x80 \<noteq> 0 then cmd_response io n s else (r, s)))" for r :: u8
    using took_weaken [OF Suc.IH [OF Suc.prems], of 0 "n + 1"] took_weaken [OF took_Some [of time k r], of 0 "n + 1"]
    by (cases "r AND 0x80 \<noteq> 0") simp_all
  from took_bind [OF x this, of "Suc n + 1" 1] show ?case
    by (simp add: case_prod_unfold)
qed

lemma length_cmd_packet: "length (cmd_packet cmd arg) = 6"
  by (simp add: cmd_packet_def)

lemma took_send_plain:
  assumes "clocked io time k" "cmd \<noteq> CMD12"
  shows "took time k 1 600 (send_plain io cmd arg)"
proof -
  have t: "ticking io time k" using assms(1) by (simp add: clocked_def)
  have sel: "took time k 1 507 (\<lambda>s. sd_select io (sd_deselect io s))"
    by (rule took_after [OF steps_deselect [OF assms(1)] took_select [OF assms(1)]]) simp_all
  have packet: "steps time k 6 6 (spi_send io (cmd_packet cmd arg))"
    using steps_send [OF t, of "cmd_packet cmd arg"] by (simp only: length_cmd_packet)
  have "took time k 0 16 (\<lambda>s. Some (cmd_response io 9 (spi_send io (cmd_packet cmd arg) s)))"
    by (rule took_after [OF packet took_response [OF t, of 9]]) simp_all
  then have "took time k 0 16 (\<lambda>s. Some (if \<not> ok then (0xFF, s)
      else cmd_response io 9 (spi_send io (cmd_packet cmd arg) s)))" for ok
    using took_weaken [OF took_Some [of time k "0xFF :: u8"], of 0 16] by (cases ok) simp_all
  from took_bind [OF sel this, of 523 1] have
    "took time k 1 523 (\<lambda>s. sd_select io (sd_deselect io s) \<bind> (\<lambda>(ok, s). Some (if \<not> ok then (0xFF, s)
      else cmd_response io 9 (spi_send io (cmd_packet cmd arg) s))))"
    by simp
  moreover have "send_plain io cmd arg = (\<lambda>s. sd_select io (sd_deselect io s) \<bind>
      (\<lambda>(ok, s). Some (if \<not> ok then (0xFF, s) else cmd_response io 9 (spi_send io (cmd_packet cmd arg) s))))"
    using assms(2) by (simp add: send_plain_def fun_eq_iff Let_def cong: if_cong)
  ultimately show ?thesis by (simp add: took_weaken)
qed

lemma took_send_cmd:
  assumes "clocked io time k" "cmd AND 0x7F \<noteq> CMD12" "cmd \<noteq> CMD12"
  shows "took time k 1 1200 (send_cmd io cmd arg)"
proof -
  have one: "took time k 1 600 (send_plain io CMD55 0)"
    by (rule took_send_plain [OF assms(1)]) (simp add: sd_commands)
  have two: "took time k 0 600 (\<lambda>s. if (res :: u8) > 1 then Some (res, s) else send_plain io (cmd AND 0x7F) arg s)" for res
    using took_weaken [OF took_Some [of time k res], of 0 600]
      took_weaken [OF took_send_plain [OF assms(1,2), of arg], of 0 600] by (cases "res > 1") simp_all
  have "took time k 1 1200 (\<lambda>s. send_plain io CMD55 0 s \<bind>
      (\<lambda>(res, s). if res > 1 then Some (res, s) else send_plain io (cmd AND 0x7F) arg s))"
    by (rule took_bind [OF one two]) simp_all
  with took_weaken [OF took_send_plain [OF assms(1,3), of arg], of 1 1200]
  show ?thesis unfolding send_cmd_def [abs_def] by (intro took_if) simp_all
qed

lemma init_loop_returns:
  assumes c: "clocked io time k" and cmd: "cmd AND 0x7F \<noteq> CMD12" "cmd \<noteq> CMD12"
    and d: "unat deadline * k + 1201 * k < 2 ^ 32 * k"
  shows "time s + 1201 * k < 2 ^ 32 * k \<Longrightarrow> init_loop io cmd arg deadline s \<noteq> None"
proof (induction "unat deadline * k - time s" arbitrary: s rule: less_induct)
  case less
  have t: "ticking io time k" using c by (simp add: clocked_def)
  show ?case
  proof (cases "spi_ms io s < deadline")
    case True
    have "time s < 2 ^ 32 * k" using less.prems by linarith
    then have "unat (spi_ms io s) = time s div k" using tick_ms [OF t, of s] by simp
    then have "time s div k < unat deadline" using True by (simp add: word_less_nat_alt)
    then have lt: "time s < unat deadline * k" using t by (simp add: ticking_def div_less_iff_less_mult)
    obtain res s1 where r: "send_cmd io cmd arg s = Some (res, s1)"
      using send_cmd_returns [OF ticking_returns [OF t], of cmd arg s] by auto
    have t1: "time s + 1 \<le> time s1" "time s1 \<le> time s + 1200 * k"
      using tookD [OF took_send_cmd [OF c cmd] r] less.prems by simp_all
    show ?thesis
    proof (cases "time s1 + 1201 * k < 2 ^ 32 * k")
      case ok: True
      have "init_loop io cmd arg deadline s1 \<noteq> None"
        using less.hyps [OF _ ok] t1(1) lt by linarith
      then show ?thesis using True r by (subst init_loop.simps) simp
    next
      case late: False
      have "time s1 < 2 ^ 32 * k" using t1(2) lt d by linarith
      then have "unat (spi_ms io s1) = time s1 div k" using tick_ms [OF t, of s1] by simp
      moreover have "unat deadline * k \<le> time s1" using late d by linarith
      then have "unat deadline \<le> time s1 div k" using t by (simp add: ticking_def less_eq_div_iff_mult_less_eq)
      ultimately have "\<not> spi_ms io s1 < deadline" by (simp add: word_less_nat_alt)
      then have "init_loop io cmd arg deadline s1 = Some s1" by (subst init_loop.simps) simp
      then show ?thesis using True r by (subst init_loop.simps) simp
    qed
  next
    case False
    then show ?thesis by (subst init_loop.simps) simp
  qed
qed

text \<open>Up for at least ten seconds less than the 49 days after which the clock wraps.\<close>

definition clock_ahead :: "('d \<Rightarrow> nat) \<Rightarrow> nat \<Rightarrow> 'd \<Rightarrow> bool" where
  "clock_ahead time k s \<longleftrightarrow> time s + 10000 * k < 2 ^ 32 * k"

lemma deadline_bound:
  assumes "ticking io time k" "time s + 2000 * k < 2 ^ 32 * k"
  shows "unat (spi_ms io s + 1000) * k \<le> time s + 1000 * k"
proof -
  have k: "0 < k" using assms(1) by (simp add: ticking_def)
  have "time s < 2 ^ 32 * k" using assms(2) by linarith
  then have ms: "unat (spi_ms io s) = time s div k" using tick_ms [OF assms(1), of s] by simp
  have le: "(time s div k) * k \<le> time s" by (simp add: div_times_less_eq_dividend)
  have e: "(time s div k + 1000) * k = time s div k * k + 1000 * k" by (rule add_mult_distrib)
  have "(time s div k + 1000) * k < 2 ^ 32 * k" unfolding e using le assms(2) by linarith
  then have "time s div k + 1000 < 2 ^ 32" using k by (simp only: mult_less_cancel2)
  then have "unat (spi_ms io s + 1000) = time s div k + 1000" using ms by (simp add: unat_word_ariths(1))
  then show ?thesis using le by (simp add: add_mult_distrib)
qed

lemma identify_returns:
  assumes c: "clocked io time k" and a: "clock_ahead time k s"
  shows "identify io s \<noteq> None"
proof -
  have t: "ticking io time k" and r: "bus_returns io"
    using c ticking_returns by (auto simp: clocked_def)
  have neq: "CMD0 AND 0x7F \<noteq> CMD12" "CMD0 \<noteq> CMD12" "CMD8 AND 0x7F \<noteq> CMD12" "CMD8 \<noteq> CMD12"
    "ACMD41 AND 0x7F \<noteq> CMD12" "ACMD41 \<noteq> CMD12" "CMD1 AND 0x7F \<noteq> CMD12" "CMD1 \<noteq> CMD12"
    by (simp_all add: sd_commands)
  obtain r1 s1 where 1: "send_cmd io CMD0 0 s = Some (r1, s1)" using send_cmd_returns [OF r, of CMD0 0 s] by auto
  have t1: "time s1 \<le> time s + 1200 * k"
    using tookD [OF took_send_cmd [OF c neq(1,2)] 1] a by (simp add: clock_ahead_def)
  obtain r2 s2 where 2: "send_cmd io CMD8 0x1AA s1 = Some (r2, s2)" using send_cmd_returns [OF r, of CMD8 "0x1AA" s1] by auto
  have t2: "time s2 \<le> time s1 + 1200 * k"
    using tookD [OF took_send_cmd [OF c neq(3,4)] 2] t1 a by (simp add: clock_ahead_def)
  let ?t = "spi_ms io s1"
  have d: "unat (?t + 1000) * k + 1201 * k < 2 ^ 32 * k"
    using deadline_bound [OF t, of s1] t1 a unfolding clock_ahead_def by linarith
  have loop: "init_loop io cmd arg (?t + 1000) s' \<noteq> None"
    if "time s' \<le> time s2 + 1300 * k" "cmd = ACMD41 \<or> cmd = CMD1" for cmd arg s'
    using that neq t1 t2 a by (intro init_loop_returns [OF c _ _ d]) (auto simp: clock_ahead_def)
  obtain ocr s3 where 3: "spi_run io [0xFF, 0xFF, 0xFF, 0xFF] s2 = (ocr, s3)" by fastforce
  have "time s3 \<le> time s2 + 1300 * k" using run_time [OF t 3] by simp
  from loop [OF this] have sd2: "init_sd2 io ?t s2 \<noteq> None"
    unfolding init_sd2_def 3 prod.case by (intro returns send_cmd_returns [OF r]) simp_all
  obtain r4 s4 where 4: "send_cmd io ACMD41 0 s2 = Some (r4, s4)" using send_cmd_returns [OF r, of ACMD41 0 s2] by auto
  have "time s4 \<le> time s2 + 1300 * k"
    using tookD [OF took_send_cmd [OF c neq(5,6)] 4] t1 t2 a by (simp add: clock_ahead_def)
  from loop [OF this] have old: "init_old io ?t s2 \<noteq> None"
    unfolding init_old_def 4 bind.bind_lunit prod.case Let_def
    by (cases "r4 \<le> 1"; simp only: if_True if_False prod.case; intro returns send_cmd_returns [OF r]; simp)
  show ?thesis using 1 2 sd2 old by (simp add: identify_def Let_def)
qed

lemma disk_initialize_returns:
  assumes "clocked io time k"
    "clock_ahead time k (spi_send io (replicate 10 0xFF) (spi_cs io False (spi_fast io False (spi_setup io (dr_dev v)))))"
  shows "disk_initialize io drv v \<noteq> None"
  unfolding disk_initialize_def Let_def
  by (intro returns identify_returns [OF assms(1)] assms(2))

text \<open>C11: The SD driver returns from every call, whatever the card does or does not do (dead, stuck busy,
  never there), provided exchanging a byte takes some time and at most a millisecond: each of
  its polling loops meets its deadline, also when the 32-bit millisecond clock wraps in between.
  For the start of the drive this is shown while the clock does not wrap.\<close>

theorem sd_driver_returns:
  assumes "clocked io time k"
  shows "disk_read io drv sector count v \<noteq> None \<and> disk_write io drv buff sector count v \<noteq> None \<and>
    disk_ioctl io drv cmd v \<noteq> None \<and>
    (clock_ahead time k (spi_send io (replicate 10 0xFF) (spi_cs io False (spi_fast io False (spi_setup io (dr_dev v))))) \<longrightarrow>
       disk_initialize io drv v \<noteq> None)"
proof -
  have "bus_returns io" using assms ticking_returns by (auto simp: clocked_def)
  then show ?thesis
    using disk_read_returns disk_write_returns disk_ioctl_returns disk_initialize_returns [OF assms] by blast
qed

text \<open>A bus on which every byte takes 80 microseconds and is answered by zero: a card that is busy for ever.\<close>

definition stuck_spi :: "nat spi" where
  "stuck_spi = \<lparr>spi_xchg = (\<lambda>_ s. (0, s + 80)), spi_cs = (\<lambda>_ s. s), spi_ms = (\<lambda>s. of_nat (s div 1000)),
     spi_setup = (\<lambda>s. s + 10000), spi_fast = (\<lambda>_ s. s)\<rparr>"

theorem sd_driver_returns_witness:
  "disk_initialize stuck_spi 0 \<lparr>dr_stat = 1, CardType = 0, dr_dev = 0\<rparr> \<noteq> None \<and>
   disk_read stuck_spi 0 7 8 \<lparr>dr_stat = 0, CardType = 12, dr_dev = 2 ^ 32 * 1000 - 500\<rparr> \<noteq> None"
proof -
  have c: "clocked stuck_spi id 1000"
    by (simp add: clocked_def ticking_def stuck_spi_def)
  have x: "spi_send stuck_spi bs s = s + 80 * length bs" for bs s
    by (induction bs arbitrary: s) (simp_all add: spi_send_def stuck_spi_def case_prod_unfold)
  have "clock_ahead id 1000 (spi_send stuck_spi (replicate 10 0xFF)
      (spi_cs stuck_spi False (spi_fast stuck_spi False (spi_setup stuck_spi 0))))"
    unfolding x by (simp add: clock_ahead_def stuck_spi_def)
  then have "disk_initialize stuck_spi 0 \<lparr>dr_stat = 1, CardType = 0, dr_dev = 0\<rparr> \<noteq> None"
    using sd_driver_returns [OF c, where v = "\<lparr>dr_stat = 1, CardType = 0, dr_dev = 0\<rparr>" and drv = 0]
    by (simp only: drive.simps simp_thms)
  moreover have "disk_read stuck_spi 0 7 8 \<lparr>dr_stat = 0, CardType = 12, dr_dev = 2 ^ 32 * 1000 - 500\<rparr> \<noteq> None"
    using sd_driver_returns [OF c] by blast
  ultimately show ?thesis by blast
qed

end
