(* ===== verification/SdProtocol.thy ===== *)
theory SdProtocol
  imports Sdcard
begin

text \<open>
  What the SD driver relies on: the part of the SD protocol over SPI that a card follows, and
  that on such a card the driver reads and writes the sectors it is asked for.
\<close>

section \<open>Phrases of the protocol\<close>

text \<open>Clocked with idle bytes, the device gives these bytes.\<close>

definition gives :: "'d spi \<Rightarrow> u8 list \<Rightarrow> 'd \<Rightarrow> 'd \<Rightarrow> bool" where
  "gives io rs s s' \<longleftrightarrow> spi_run io (replicate (length rs) 0xFF) s = (rs, s')"

text \<open>Clocking \<open>n\<close> idle bytes ends before \<open>wt\<close> milliseconds have passed on the 32-bit clock.\<close>

definition in_time :: "'d spi \<Rightarrow> u32 \<Rightarrow> nat \<Rightarrow> 'd \<Rightarrow> bool" where
  "in_time io wt n s \<longleftrightarrow> (\<forall>i \<le> n. spi_ms io (spi_send io (replicate i 0xFF) s) < spi_ms io s + wt)"

text \<open>A busy card becomes ready within half a second.\<close>

definition settles :: "'d spi \<Rightarrow> 'd \<Rightarrow> 'd \<Rightarrow> bool" where
  "settles io s s' \<longleftrightarrow> (\<exists>busy. 0xFF \<notin> set busy \<and> in_time io 500 (length busy) s \<and> gives io (busy @ [0xFF]) s s')"

text \<open>The response to a command comes after at most nine idle bytes.\<close>

definition responds :: "'d spi \<Rightarrow> u8 \<Rightarrow> 'd \<Rightarrow> 'd \<Rightarrow> bool" where
  "responds io r s s' \<longleftrightarrow> r AND 0x80 = 0 \<and>
     (\<exists>idle. length idle < 10 \<and> (\<forall>b \<in> set idle. b AND 0x80 \<noteq> 0) \<and> gives io (idle @ [r]) s s')"

text \<open>A data block: the start token within 200 ms, the data, two bytes of CRC.\<close>

definition sends_block :: "'d spi \<Rightarrow> u8 list \<Rightarrow> 'd \<Rightarrow> 'd \<Rightarrow> bool" where
  "sends_block io data s s' \<longleftrightarrow>
     (\<exists>wait crc. set wait \<subseteq> {0xFF} \<and> in_time io 200 (length wait) s \<and> length crc = 2 \<and>
        gives io (wait @ 0xFE # data @ crc) s s')"

text \<open>The card takes a block behind a token and accepts it.\<close>

definition takes_block :: "'d spi \<Rightarrow> u8 \<Rightarrow> u8 list \<Rightarrow> 'd \<Rightarrow> 'd \<Rightarrow> bool" where
  "takes_block io token data s s' \<longleftrightarrow>
     (\<exists>s1 resp. settles io s s1 \<and> resp AND 0x1F = 0x05 \<and>
        gives io [resp] (spi_send io ([token] @ data @ [0xFF, 0xFF]) s1) s')"

section \<open>A card\<close>

datatype phase = Rest | Selected | Reading nat | Write_one nat | Write_many nat | Other

text \<open>
  Cards of more than 2 GB are addressed by sectors, older ones by bytes.
\<close>

definition sd_arg :: "bool \<Rightarrow> nat \<Rightarrow> u32" where
  "sd_arg blk a = (if blk then of_nat a else of_nat (512 * a))"

definition at_rest :: "('d \<Rightarrow> phase) \<Rightarrow> 'd \<Rightarrow> bool" where
  "at_rest ph s \<longleftrightarrow> ph s = Rest \<or> ph s = Selected"

text \<open>
  The documented behaviour of an initialised card.  Between commands it may still be busy with
  the last write; it settles when it is selected, and takes an application command.
\<close>

definition card_idles :: "'d spi \<Rightarrow> ('d \<Rightarrow> phase) \<Rightarrow> ('d \<Rightarrow> u8 list list) \<Rightarrow> bool" where
  "card_idles io ph content \<longleftrightarrow>
     (\<forall>s. at_rest ph s \<longrightarrow> at_rest ph (sd_deselect io s) \<and> content (sd_deselect io s) = content s) \<and>
     (\<forall>s. at_rest ph s \<longrightarrow> (\<exists>s'. settles io (spi_send io [0xFF] (spi_cs io False s)) s' \<and>
        ph s' = Selected \<and> content s' = content s)) \<and>
     (\<forall>s cmd arg. ph s = Selected \<longrightarrow> cmd = CMD55 \<or> cmd = ACMD23 AND 0x7F \<longrightarrow>
        (\<exists>s'. responds io 0 (spi_send io (cmd_packet cmd arg) s) s' \<and> ph s' = Selected \<and> content s' = content s))"

text \<open>It starts a command on a sector it has, with the response 0.\<close>

definition card_starts :: "'d spi \<Rightarrow> bool \<Rightarrow> ('d \<Rightarrow> phase) \<Rightarrow> ('d \<Rightarrow> u8 list list) \<Rightarrow> u8 \<Rightarrow> (nat \<Rightarrow> 'd \<Rightarrow> bool) \<Rightarrow> bool" where
  "card_starts io blk ph content cmd P \<longleftrightarrow>
     (\<forall>s a. ph s = Selected \<longrightarrow> a < length (content s) \<longrightarrow>
        (\<exists>s'. responds io 0 (spi_send io (cmd_packet cmd (sd_arg blk a)) s) s' \<and> P a s' \<and> content s' = content s))"

text \<open>It sends one block, or block after block until it is stopped.\<close>

definition card_reads :: "'d spi \<Rightarrow> bool \<Rightarrow> ('d \<Rightarrow> phase) \<Rightarrow> ('d \<Rightarrow> u8 list list) \<Rightarrow> bool" where
  "card_reads io blk ph content \<longleftrightarrow>
     card_starts io blk ph content CMD17 (\<lambda>a s. \<exists>s'. sends_block io (content s ! a) s s' \<and> at_rest ph s' \<and> content s' = content s) \<and>
     card_starts io blk ph content CMD18 (\<lambda>a s. ph s = Reading a) \<and>
     (\<forall>s a. ph s = Reading a \<longrightarrow> a < length (content s) \<longrightarrow>
        (\<exists>s'. sends_block io (content s ! a) s s' \<and> ph s' = Reading (a + 1) \<and> content s' = content s)) \<and>
     (\<forall>s a. ph s = Reading a \<longrightarrow>
        (\<exists>r s'. responds io r (spi_send io [0xFF] (spi_send io (cmd_packet CMD12 0) s)) s' \<and> at_rest ph s' \<and> content s' = content s))"

text \<open>It stores one block, or block after block until the stop token.\<close>

definition card_writes :: "'d spi \<Rightarrow> bool \<Rightarrow> ('d \<Rightarrow> phase) \<Rightarrow> ('d \<Rightarrow> u8 list list) \<Rightarrow> bool" where
  "card_writes io blk ph content \<longleftrightarrow>
     card_starts io blk ph content CMD24 (\<lambda>a s. ph s = Write_one a) \<and>
     (\<forall>s a bs. ph s = Write_one a \<longrightarrow> a < length (content s) \<longrightarrow> length bs = 512 \<longrightarrow>
        (\<exists>s'. takes_block io 0xFE bs s s' \<and> at_rest ph s' \<and> content s' = (content s)[a := bs])) \<and>
     card_starts io blk ph content CMD25 (\<lambda>a s. ph s = Write_many a) \<and>
     (\<forall>s a bs. ph s = Write_many a \<longrightarrow> a < length (content s) \<longrightarrow> length bs = 512 \<longrightarrow>
        (\<exists>s'. takes_block io 0xFC bs s s' \<and> ph s' = Write_many (a + 1) \<and> content s' = (content s)[a := bs])) \<and>
     (\<forall>s a. ph s = Write_many a \<longrightarrow>
        (\<exists>s'. settles io s s' \<and> at_rest ph (spi_send io [0xFD] s') \<and> content (spi_send io [0xFD] s') = content s))"

definition sd_card :: "'d spi \<Rightarrow> bool \<Rightarrow> ('d \<Rightarrow> phase) \<Rightarrow> ('d \<Rightarrow> u8 list list) \<Rightarrow> bool" where
  "sd_card io blk ph content \<longleftrightarrow>
     card_idles io ph content \<and> card_reads io blk ph content \<and> card_writes io blk ph content"

section \<open>The driver's phrases\<close>

lemma run_append: "spi_run io (xs @ ys) s = (case spi_run io xs s of (rs, s1) \<Rightarrow>
    case spi_run io ys s1 of (rs', s2) \<Rightarrow> (rs @ rs', s2))"
  by (induction xs arbitrary: s) (auto split: prod.splits)

lemma run_length: "spi_run io xs s = (rs, s') \<Longrightarrow> length rs = length xs"
  by (induction xs arbitrary: s rs) (auto split: prod.splits)

lemma send_append: "spi_send io (xs @ ys) s = spi_send io ys (spi_send io xs s)"
  by (simp add: spi_send_def run_append split: prod.split)

lemma send_Cons: "spi_send io (x # xs) s = spi_send io xs (snd (spi_xchg io x s))"
  by (simp add: spi_send_def split: prod.split)

lemma send_Nil [simp]: "spi_send io [] s = s"
  by (simp add: spi_send_def)

lemma gives_Cons: "gives io (r # rs) s s' \<longleftrightarrow> (\<exists>s1. spi_xchg io 0xFF s = (r, s1) \<and> gives io rs s1 s')"
  by (auto simp: gives_def split: prod.splits)

lemma gives_Nil [simp]: "gives io [] s s' \<longleftrightarrow> s' = s"
  by (auto simp: gives_def)

lemma gives_append: "gives io (xs @ ys) s s' \<longleftrightarrow> (\<exists>s1. gives io xs s s1 \<and> gives io ys s1 s')"
  by (induction xs arbitrary: s) (auto simp: gives_Cons)

lemma gives_send: "gives io rs s s' \<Longrightarrow> spi_send io (replicate (length rs) 0xFF) s = s'"
  by (simp add: gives_def spi_send_def)

lemma poll_gives:
  assumes "\<forall>b \<in> set bs. again b" "\<not> again r" "gives io (bs @ [r]) s s'"
    "\<And>i. i \<le> length bs \<Longrightarrow> spi_ms io (spi_send io (replicate i 0xFF) s) < deadline"
  shows "spi_poll io again deadline s = Some (r, s')"
  using assms
proof (induction bs arbitrary: s)
  case Nil
  then show ?case by (subst spi_poll.simps) (simp add: gives_Cons)
next
  case (Cons b bs)
  then obtain s1 where x: "spi_xchg io 0xFF s = (b, s1)" "gives io (bs @ [r]) s1 s'"
    by (auto simp: gives_Cons)
  have "spi_ms io (spi_send io (replicate i 0xFF) s1) < deadline" if "i \<le> length bs" for i
    using Cons.prems(4) [of "Suc i"] that x(1) by (simp add: send_Cons)
  from Cons.IH [OF _ Cons.prems(2) x(2) this] Cons.prems(1)
  have "spi_poll io again deadline s1 = Some (r, s')" by simp
  moreover have "spi_ms io s1 < deadline" using Cons.prems(4) [of 1] x(1) by (simp add: send_Cons)
  ultimately show ?case using Cons.prems(1) x(1) by (subst spi_poll.simps) simp
qed

lemma settles_wait: "settles io s s' \<Longrightarrow> wait_ready io 500 s = Some (True, s')"
  unfolding settles_def in_time_def wait_ready_def
  by (elim exE conjE, subst poll_gives [where r = "0xFF"]) auto

lemma response_gives:
  "length idle \<le> n \<Longrightarrow> \<forall>b \<in> set idle. b AND 0x80 \<noteq> 0 \<Longrightarrow> r AND 0x80 = 0 \<Longrightarrow> gives io (idle @ [r]) s s' \<Longrightarrow>
   cmd_response io n s = (r, s')"
proof (induction idle arbitrary: n s)
  case Nil
  then show ?case by (cases n) (auto simp: gives_Cons)
next
  case (Cons b idle)
  then show ?case by (cases n) (auto simp: gives_Cons)
qed

lemma responds_response: "responds io r s s' \<Longrightarrow> cmd_response io 9 s = (r, s')"
  unfolding responds_def by (elim exE conjE, rule response_gives) auto

lemma block_received: "sends_block io data s s' \<Longrightarrow> rcvr_datablock io (length data) s = Some (Some data, s')"
proof -
  assume "sends_block io data s s'"
  then obtain wait crc where w: "set wait \<subseteq> {0xFF}" "in_time io 200 (length wait) s" "length crc = 2"
    "gives io (wait @ 0xFE # data @ crc) s s'"
    by (auto simp: sends_block_def)
  obtain s1 s2 where g: "gives io (wait @ [0xFE]) s s1" "gives io data s1 s2" "gives io crc s2 s'"
    using w(4) gives_append [of io "wait @ [0xFE]" "data @ crc"] by (auto simp: gives_append)
  have "spi_poll io (\<lambda>b. b = 0xFF) (spi_ms io s + 200) s = Some (0xFE, s1)"
    by (rule poll_gives [OF _ _ g(1)]) (use w(1,2) in \<open>auto simp: in_time_def\<close>)
  moreover have "rcvr_spi_multi io (length data) s1 = (data, s2)"
    using g(2) by (simp add: gives_def rcvr_spi_multi_def)
  moreover have "spi_send io [0xFF, 0xFF] s2 = s'"
    using gives_send [OF g(3)] w(3) by (simp add: numeral_2_eq_2)
  ultimately show ?thesis by (simp add: rcvr_datablock_def)
qed

lemma block_sent:
  assumes "takes_block io token data s s'" "token \<noteq> 0xFD"
  shows "xmit_datablock io data token s = Some (True, s')"
proof -
  obtain s1 resp where t: "settles io s s1" "resp AND 0x1F = 0x05"
    "gives io [resp] (spi_send io ([token] @ data @ [0xFF, 0xFF]) s1) s'"
    using assms(1) by (auto simp: takes_block_def)
  then show ?thesis
    using assms(2) settles_wait [OF t(1)] by (simp add: xmit_datablock_def Let_def gives_Cons send_append del: append_Cons)
qed

section \<open>Commands on a card\<close>

lemma card_deselect: "sd_card io blk ph content \<Longrightarrow> at_rest ph s \<Longrightarrow>
    at_rest ph (sd_deselect io s) \<and> content (sd_deselect io s) = content s"
  by (simp add: sd_card_def card_idles_def)

lemma card_select:
  assumes "sd_card io blk ph content" "at_rest ph s"
  obtains s' where "sd_select io s = Some (True, s')" "ph s' = Selected" "content s' = content s"
proof -
  have "card_idles io ph content" using assms(1) by (simp add: sd_card_def)
  then obtain s' where "settles io (spi_send io [0xFF] (spi_cs io False s)) s'" "ph s' = Selected" "content s' = content s"
    using assms(2) unfolding card_idles_def by blast
  with that settles_wait show thesis by (fastforce simp: sd_select_def)
qed

text \<open>A plain command with its response, from any card at rest.\<close>

lemma card_plain:
  assumes "sd_card io blk ph content" "at_rest ph s" "cmd \<noteq> CMD12"
    "\<And>s1. ph s1 = Selected \<Longrightarrow> content s1 = content s \<Longrightarrow>
      \<exists>s'. responds io r (spi_send io (cmd_packet cmd arg) s1) s' \<and> Q s'"
  obtains s' where "send_plain io cmd arg s = Some (r, s')" "Q s'"
proof -
  obtain s1 where s1: "sd_select io (sd_deselect io s) = Some (True, s1)" "ph s1 = Selected" "content s1 = content s"
    using card_select [OF assms(1)] card_deselect [OF assms(1,2)] by metis
  from assms(4) [OF s1(2,3)] obtain s' where "responds io r (spi_send io (cmd_packet cmd arg) s1) s'" "Q s'" by blast
  with that s1 assms(3) responds_response [of io r _ s'] show thesis
    by (simp add: send_plain_def Let_def)
qed

lemma card_cmd:
  assumes "sd_card io blk ph content" "at_rest ph s" "cmd \<noteq> CMD12" "cmd AND 0x80 = 0"
    "\<And>s1. ph s1 = Selected \<Longrightarrow> content s1 = content s \<Longrightarrow>
      \<exists>s'. responds io r (spi_send io (cmd_packet cmd arg) s1) s' \<and> Q s'"
  obtains s' where "send_cmd io cmd arg s = Some (r, s')" "Q s'"
  by (rule card_plain [OF assms(1-3,5)]) (use that assms(4) in \<open>simp_all add: send_cmd_def\<close>)

lemma card_start:
  assumes "sd_card io blk ph content" "card_starts io blk ph content cmd P" "at_rest ph s" "a < length (content s)"
    "cmd \<noteq> CMD12" "cmd AND 0x80 = 0"
  obtains s' where "send_cmd io cmd (sd_arg blk a) s = Some (0, s')" "P a s'" "content s' = content s"
proof -
  have "\<exists>s'. responds io 0 (spi_send io (cmd_packet cmd (sd_arg blk a)) s1) s' \<and> P a s' \<and> content s' = content s"
    if "ph s1 = Selected" "content s1 = content s" for s1
    using assms(2,4) that unfolding card_starts_def by metis
  from card_cmd [OF assms(1,3,5,6) this] that show thesis by blast
qed

lemma card_preset:
  assumes "sd_card io blk ph content" "at_rest ph s"
  obtains r s' where "send_cmd io ACMD23 arg s = Some (r, s')" "at_rest ph s'" "content s' = content s"
proof -
  have idles: "card_idles io ph content" using assms(1) by (simp add: sd_card_def)
  have law: "\<exists>s'. responds io 0 (spi_send io (cmd_packet cmd a) s1) s' \<and> at_rest ph s' \<and> content s' = content s"
    if "ph s1 = Selected" "content s1 = content s" "cmd = CMD55 \<or> cmd = ACMD23 AND 0x7F" for s1 cmd a
    using idles that unfolding card_idles_def at_rest_def by metis
  obtain s1 where s1: "send_plain io CMD55 0 s = Some (0, s1)" "at_rest ph s1 \<and> content s1 = content s"
    by (rule card_plain [OF assms, of CMD55 0 0 "\<lambda>s'. at_rest ph s' \<and> content s' = content s"])
      (use law in \<open>auto simp: sd_commands\<close>)
  obtain s2 where s2: "send_plain io (ACMD23 AND 0x7F) arg s1 = Some (0, s2)" "at_rest ph s2 \<and> content s2 = content s"
    by (rule card_plain [OF assms(1), of s1 "ACMD23 AND 0x7F" 0 arg "\<lambda>s'. at_rest ph s' \<and> content s' = content s"])
      (use law s1(2) in \<open>auto simp: sd_commands\<close>)
  show thesis
    by (rule that [of 0 s2]) (use s1 s2 in \<open>simp_all add: send_cmd_def\<close>, simp add: sd_commands)
qed

section \<open>Reading\<close>

definition whole_sectors :: "u8 list list \<Rightarrow> bool" where
  "whole_sectors ss \<longleftrightarrow> list_all is_sector ss"

lemma card_read_run:
  assumes "sd_card io blk ph content" "whole_sectors (content s)"
  shows "ph s = Reading a \<Longrightarrow> a + n \<le> length (content s) \<Longrightarrow>
    \<exists>s'. read_blocks io n s = Some (concat (take n (drop a (content s))), 0, s') \<and> ph s' = Reading (a + n) \<and>
      content s' = content s"
  using assms(2)
proof (induction n arbitrary: a s)
  case (Suc n)
  have "card_reads io blk ph content" using assms(1) by (simp add: sd_card_def)
  moreover have "a < length (content s)" using Suc.prems(2) by simp
  ultimately obtain s1 where s1: "sends_block io (content s ! a) s s1" "ph s1 = Reading (a + 1)" "content s1 = content s"
    using Suc.prems(1) unfolding card_reads_def by blast
  have "length (content s ! a) = 512"
    using Suc.prems by (simp add: whole_sectors_def list_all_length is_sector_def)
  then have r: "rcvr_datablock io 512 s = Some (Some (content s ! a), s1)"
    using block_received [OF s1(1)] by simp
  obtain s' where "read_blocks io n s1 = Some (concat (take n (drop (a + 1) (content s1))), 0, s')"
    "ph s' = Reading (a + 1 + n)" "content s' = content s1"
    using Suc.IH [OF s1(2)] Suc.prems(2,3) s1(3) by auto
  with r s1(3) Suc.prems(2) show ?case
    by (simp add: take_Suc_conv_app_nth Cons_nth_drop_Suc [symmetric, of a])
qed simp

lemma card_read_one:
  assumes "sd_card io blk ph content" "at_rest ph s" "whole_sectors (content s)" "a < length (content s)"
  shows "\<exists>s'. read_single io (sd_arg blk a) s = Some (content s ! a, 0, s') \<and> at_rest ph s' \<and> content s' = content s"
proof -
  let ?P = "\<lambda>a s1. \<exists>s2. sends_block io (content s1 ! a) s1 s2 \<and> at_rest ph s2 \<and> content s2 = content s1"
  have "card_starts io blk ph content CMD17 ?P" using assms(1) by (simp add: sd_card_def card_reads_def)
  from card_start [OF assms(1) this assms(2,4)] obtain s1 where
    s1: "send_cmd io CMD17 (sd_arg blk a) s = Some (0, s1)" "?P a s1" "content s1 = content s"
    by (auto simp: sd_commands)
  then obtain s2 where s2: "sends_block io (content s ! a) s1 s2" "at_rest ph s2" "content s2 = content s" by auto
  have "length (content s ! a) = 512"
    using assms(3,4) by (simp add: whole_sectors_def list_all_length is_sector_def)
  then have "rcvr_datablock io 512 s1 = Some (Some (content s ! a), s2)"
    using block_received [OF s2(1)] by simp
  then show ?thesis using s1(1) s2 by (simp add: read_single_def)
qed

lemma card_read_many:
  assumes "sd_card io blk ph content" "at_rest ph s" "whole_sectors (content s)" "a + n \<le> length (content s)" "0 < n"
  shows "\<exists>s'. read_multi io (sd_arg blk a) n s = Some (concat (take n (drop a (content s))), 0, s') \<and>
    at_rest ph s' \<and> content s' = content s"
proof -
  have reads: "card_reads io blk ph content" using assms(1) by (simp add: sd_card_def)
  then have "card_starts io blk ph content CMD18 (\<lambda>a s. ph s = Reading a)" by (simp add: card_reads_def)
  from card_start [OF assms(1) this assms(2), of a] obtain s1 where
    s1: "send_cmd io CMD18 (sd_arg blk a) s = Some (0, s1)" "ph s1 = Reading a \<and> content s1 = content s"
    using assms(4,5) by (auto simp: sd_commands)
  obtain s2 where s2: "read_blocks io n s1 = Some (concat (take n (drop a (content s))), 0, s2)"
    "ph s2 = Reading (a + n)" "content s2 = content s"
    using card_read_run [OF assms(1), of s1 a n] s1(2) assms(3,4) by auto
  obtain r s3 where s3: "responds io r (spi_send io [0xFF] (spi_send io (cmd_packet CMD12 0) s2)) s3"
    "at_rest ph s3" "content s3 = content s2"
    using reads s2(2) unfolding card_reads_def by metis
  have "send_cmd io CMD12 0 s2 = Some (r, s3)"
    using responds_response [OF s3(1)] by (simp add: send_cmd_def send_plain_def Let_def) (simp add: sd_commands)
  then show ?thesis using s1(1) s2 s3 by (simp add: read_multi_def)
qed

section \<open>Writing\<close>

text \<open>Sectors in memory.\<close>

definition sectors_at :: "u8 arr \<Rightarrow> nat \<Rightarrow> nat \<Rightarrow> u8 list list" where
  "sectors_at buff off n = map (\<lambda>i. mem_get (off + 512 * i) 512 buff) [0..<n]"

lemma sectors_at_Suc: "sectors_at buff off (Suc n) = mem_get off 512 buff # sectors_at buff (off + 512) n"
proof -
  have "[0..<Suc n] = 0 # map Suc [0..<n]" by (simp only: upt_conv_Cons map_Suc_upt zero_less_Suc)
  then show ?thesis by (simp add: sectors_at_def comp_def algebra_simps)
qed

lemma length_sectors_at [simp]: "length (sectors_at buff off n) = n"
  by (simp add: sectors_at_def)

lemma whole_update: "whole_sectors ss \<Longrightarrow> length b = 512 \<Longrightarrow> whole_sectors (ss[a := b])"
  by (auto simp: whole_sectors_def list_all_iff is_sector_def dest!: set_update_subset_insert [THEN subsetD])

lemma update_then_replace:
  "a < length xs \<Longrightarrow> take (Suc a) (xs[a := b]) @ ys @ drop (Suc a + n) (xs[a := b]) = take a xs @ (b # ys) @ drop (a + Suc n) xs"
  by (simp add: take_Suc_conv_app_nth)

lemma card_write_run:
  assumes "sd_card io blk ph content"
  shows "ph s = Write_many a \<Longrightarrow> a + n \<le> length (content s) \<Longrightarrow>
    \<exists>s'. write_blocks io buff off n s = Some (0, s') \<and> ph s' = Write_many (a + n) \<and>
      content s' = take a (content s) @ sectors_at buff off n @ drop (a + n) (content s)"
proof (induction n arbitrary: a s off)
  case 0
  then show ?case by (simp add: sectors_at_def)
next
  case (Suc n)
  have "card_writes io blk ph content" using assms by (simp add: sd_card_def)
  moreover have a: "a < length (content s)" using Suc.prems(2) by simp
  ultimately obtain s1 where s1: "takes_block io 0xFC (mem_get off 512 buff) s s1" "ph s1 = Write_many (a + 1)"
    "content s1 = (content s)[a := mem_get off 512 buff]"
    using Suc.prems(1) unfolding card_writes_def by (metis length_mem_get)
  have w: "xmit_datablock io (mem_get off 512 buff) 0xFC s = Some (True, s1)"
    by (rule block_sent [OF s1(1)]) simp
  obtain s' where "write_blocks io buff (off + 512) n s1 = Some (0, s')" "ph s' = Write_many (a + 1 + n)"
    "content s' = take (a + 1) (content s1) @ sectors_at buff (off + 512) n @ drop (a + 1 + n) (content s1)"
    using Suc.IH [OF s1(2)] Suc.prems(2) s1(3) by fastforce
  then show ?case
    using w update_then_replace [OF a, of "mem_get off 512 buff" "sectors_at buff (off + 512) n" n] s1(3)
    by (simp add: sectors_at_Suc)
qed

lemma card_write_one:
  assumes "sd_card io blk ph content" "at_rest ph s" "a < length (content s)"
  shows "\<exists>s'. write_single io (sd_arg blk a) buff s = Some (0, s') \<and> at_rest ph s' \<and>
    content s' = take a (content s) @ sectors_at buff 0 1 @ drop (a + 1) (content s)"
proof -
  have writes: "card_writes io blk ph content" using assms(1) by (simp add: sd_card_def)
  then have "card_starts io blk ph content CMD24 (\<lambda>a s. ph s = Write_one a)" by (simp add: card_writes_def)
  from card_start [OF assms(1) this assms(2,3)] obtain s1 where
    s1: "send_cmd io CMD24 (sd_arg blk a) s = Some (0, s1)" "ph s1 = Write_one a" "content s1 = content s"
    by (auto simp: sd_commands)
  have "\<exists>s2. takes_block io 0xFE (mem_get 0 512 buff) s1 s2 \<and> at_rest ph s2 \<and>
      content s2 = (content s1)[a := mem_get 0 512 buff]"
    using writes s1(2,3) assms(3) unfolding card_writes_def by (metis length_mem_get)
  then obtain s2 where s2: "takes_block io 0xFE (mem_get 0 512 buff) s1 s2" "at_rest ph s2"
    "content s2 = (content s)[a := mem_get 0 512 buff]"
    using s1(3) by auto
  have "xmit_datablock io (mem_get 0 512 buff) 0xFE s1 = Some (True, s2)"
    by (rule block_sent [OF s2(1)]) simp
  then show ?thesis
    using s1(1) s2(2,3) assms(3) by (simp add: write_single_def sectors_at_def upd_conv_take_nth_drop)
qed

lemma card_write_many:
  assumes "sd_card io blk ph content" "at_rest ph s" "a + unat n \<le> length (content s)" "0 < unat n"
  shows "\<exists>s'. write_multi io ty (sd_arg blk a) buff n s = Some (0, s') \<and> at_rest ph s' \<and>
    content s' = take a (content s) @ sectors_at buff 0 (unat n) @ drop (a + unat n) (content s)"
proof -
  have writes: "card_writes io blk ph content" using assms(1) by (simp add: sd_card_def)
  obtain r1 s' where p: "send_cmd io ACMD23 n s = Some (r1, s')" "at_rest ph s'" "content s' = content s"
    by (rule card_preset [OF assms(1,2)])
  obtain r s1 where s1: "(if ty AND CT_SDC \<noteq> 0 then send_cmd io ACMD23 n s else Some (0, s)) = Some (r, s1)"
    "at_rest ph s1" "content s1 = content s"
    using p assms(2) by (cases "ty AND CT_SDC \<noteq> 0") auto
  have "card_starts io blk ph content CMD25 (\<lambda>a s. ph s = Write_many a)"
    using writes by (simp add: card_writes_def)
  from card_start [OF assms(1) this s1(2), of a] obtain s2 where
    s2: "send_cmd io CMD25 (sd_arg blk a) s1 = Some (0, s2)" "ph s2 = Write_many a" "content s2 = content s"
    using assms(3,4) s1(3) by (auto simp: sd_commands)
  obtain s3 where s3: "write_blocks io buff 0 (unat n) s2 = Some (0, s3)" "ph s3 = Write_many (a + unat n)"
    "content s3 = take a (content s) @ sectors_at buff 0 (unat n) @ drop (a + unat n) (content s)"
    using card_write_run [OF assms(1) s2(2), of "unat n" buff 0] assms(3) s2(3) by auto
  obtain s4 where s4: "settles io s3 s4" "at_rest ph (spi_send io [0xFD] s4)" "content (spi_send io [0xFD] s4) = content s3"
    using writes s3(2) unfolding card_writes_def by metis
  have "xmit_datablock io [] 0xFD s3 = Some (True, spi_send io [0xFD] s4)"
    using settles_wait [OF s4(1)] by (simp add: xmit_datablock_def)
  then show ?thesis
    using s1(1) s2(1) s3(1,3) s4(2,3) by (simp add: write_multi_def)
qed

section \<open>The drive\<close>

text \<open>A drive with an initialised card in it: addressed the way the driver found out, and not too big for that.\<close>

definition drive_ok :: "bool \<Rightarrow> ('d \<Rightarrow> phase) \<Rightarrow> ('d \<Rightarrow> u8 list list) \<Rightarrow> 'd drive \<Rightarrow> bool" where
  "drive_ok blk ph content v \<longleftrightarrow> dr_stat v = 0 \<and> (CardType v AND CT_BLOCK \<noteq> 0) = blk \<and>
     at_rest ph (dr_dev v) \<and> whole_sectors (content (dr_dev v)) \<and>
     length (content (dr_dev v)) < 2 ^ 32 \<and> (\<not> blk \<longrightarrow> length (content (dr_dev v)) \<le> 2 ^ 23)"

lemma drive_arg:
  assumes "drive_ok blk ph content v" "a < length (content (dr_dev v))"
  shows "ucast (card_address (CardType v) (of_nat a)) = sd_arg blk a"
proof -
  have lt: "a < 2 ^ 32" "\<not> blk \<Longrightarrow> a < 2 ^ 23" using assms by (auto simp: drive_ok_def)
  have n: "ucast (of_nat m :: u64) = (of_nat m :: u32)" if "m < 2 ^ 64" for m
    using that by (simp add: unsigned_of_nat take_bit_nat_eq_self)
  show ?thesis
  proof (cases blk)
    case True
    then show ?thesis
      using assms(1) lt n [of a] by (simp add: drive_ok_def card_address_def sd_arg_def)
  next
    case False
    then show ?thesis
      using assms(1) lt n [of "512 * a"] by (simp add: drive_ok_def card_address_def sd_arg_def mult.commute [of _ 512])
  qed
qed

text \<open>A read of sectors the card has gives them.\<close>

lemma drive_read:
  assumes "sd_card io blk ph content" "drive_ok blk ph content v" "0 < unat n" "a + unat n \<le> length (content (dr_dev v))"
  obtains v' where "disk_read io 0 (of_nat a) n v = Some (RES_OK, concat (take (unat n) (drop a (content (dr_dev v)))), v')"
    "drive_ok blk ph content v'" "content (dr_dev v') = content (dr_dev v)"
proof -
  let ?s = "dr_dev v"
  have v: "dr_stat v = 0" "at_rest ph ?s" "whole_sectors (content ?s)" using assms(2) by (simp_all add: drive_ok_def)
  have a: "a < length (content ?s)" using assms(3,4) by linarith
  note arg = drive_arg [OF assms(2) a]
  have "\<exists>s1. (if n = 1 then read_single io (sd_arg blk a) ?s else read_multi io (sd_arg blk a) (unat n) ?s) =
      Some (concat (take (unat n) (drop a (content ?s))), 0, s1) \<and> at_rest ph s1 \<and> content s1 = content ?s"
  proof (cases "n = 1")
    case True
    then show ?thesis
      using card_read_one [OF assms(1) v(2,3) a] a by (simp add: take_Suc_conv_app_nth hd_drop_conv_nth take_Suc)
  next
    case False
    then show ?thesis using card_read_many [OF assms(1) v(2,3) assms(4,3)] by simp
  qed
  then obtain s1 where s1: "(if n = 1 then read_single io (sd_arg blk a) ?s else read_multi io (sd_arg blk a) (unat n) ?s) =
      Some (concat (take (unat n) (drop a (content ?s))), 0, s1)" "at_rest ph s1" "content s1 = content ?s" by blast
  have "n \<noteq> 0" using assms(3) by auto
  then have "disk_read io 0 (of_nat a) n v =
      Some (RES_OK, concat (take (unat n) (drop a (content ?s))), v\<lparr>dr_dev := sd_deselect io s1\<rparr>)"
    using v(1) s1(1) by (simp add: disk_read_def Let_def arg)
  moreover have "drive_ok blk ph content (v\<lparr>dr_dev := sd_deselect io s1\<rparr>)"
    "content (dr_dev (v\<lparr>dr_dev := sd_deselect io s1\<rparr>)) = content ?s"
    using card_deselect [OF assms(1) s1(2)] s1(3) assms(2) by (simp_all add: drive_ok_def)
  ultimately show thesis by (rule that)
qed

text \<open>A write to sectors the card has replaces them, and nothing else.\<close>

lemma whole_replace:
  "whole_sectors ss \<Longrightarrow> whole_sectors (take a ss @ sectors_at buff off n @ drop b ss)"
  by (auto simp: whole_sectors_def list_all_iff is_sector_def sectors_at_def dest: in_set_takeD in_set_dropD)

lemma drive_write:
  assumes "sd_card io blk ph content" "drive_ok blk ph content v" "0 < unat n" "a + unat n \<le> length (content (dr_dev v))"
  obtains v' where "disk_write io 0 buff (of_nat a) n v = Some (RES_OK, v')" "drive_ok blk ph content v'"
    "content (dr_dev v') = take a (content (dr_dev v)) @ sectors_at buff 0 (unat n) @ drop (a + unat n) (content (dr_dev v))"
proof -
  have v: "dr_stat v = 0" "at_rest ph (dr_dev v)" using assms(2) by (simp_all add: drive_ok_def)
  have a: "a < length (content (dr_dev v))" using assms(3,4) by linarith
  note arg = drive_arg [OF assms(2) a]
  obtain s where s: "sd_select io (dr_dev v) = Some (True, s)" "ph s = Selected" "content s = content (dr_dev v)"
    by (rule card_select [OF assms(1) v(2)])
  have r: "at_rest ph s" using s(2) by (simp add: at_rest_def)
  have "\<exists>s1. (if n = 1 then write_single io (sd_arg blk a) buff s else write_multi io (CardType v) (sd_arg blk a) buff n s) =
      Some (0, s1) \<and> at_rest ph s1 \<and>
      content s1 = take a (content s) @ sectors_at buff 0 (unat n) @ drop (a + unat n) (content s)"
  proof (cases "n = 1")
    case True
    then show ?thesis using card_write_one [OF assms(1) r, of a buff] a s(3) by simp
  next
    case False
    then show ?thesis using card_write_many [OF assms(1) r, of a n] assms(3,4) s(3) by simp
  qed
  then obtain s1 where s1: "(if n = 1 then write_single io (sd_arg blk a) buff s
      else write_multi io (CardType v) (sd_arg blk a) buff n s) = Some (0, s1)" "at_rest ph s1"
    "content s1 = take a (content s) @ sectors_at buff 0 (unat n) @ drop (a + unat n) (content s)" by blast
  let ?v = "v\<lparr>dr_dev := sd_deselect io s1\<rparr>"
  have "n \<noteq> 0" using assms(3) by auto
  then have "disk_write io 0 buff (of_nat a) n v = Some (RES_OK, ?v)"
    using v(1) s(1) s1(1) by (simp add: disk_write_def Let_def arg)
  moreover have c: "content (dr_dev ?v) = take a (content (dr_dev v)) @ sectors_at buff 0 (unat n) @ drop (a + unat n) (content (dr_dev v))"
    using card_deselect [OF assms(1) s1(2)] s1(3) s(3) by simp
  moreover have "drive_ok blk ph content ?v"
    using card_deselect [OF assms(1) s1(2)] assms(2,4) whole_replace [of "content (dr_dev v)" a buff 0 "unat n" "a + unat n"]
    unfolding drive_ok_def c by simp
  ultimately show thesis using that by blast
qed

end
