(* ===== verification/SdStore.thy ===== *)
theory SdStore
  imports Machine SdProtocol SdTime
begin

text \<open>
  The SD driver under the storage: the disk layer of \<open>storage.c\<close> is the driver of
  \<open>sdcard.c\<close>.  A card makes it a medium, so that the disk of Linux works on a card as it
  does on the RAM disk; without one the RAM disk stands in.
\<close>

definition sd_diskio :: "'d spi \<Rightarrow> 'd drive diskio" where
  "sd_diskio io = \<lparr>
     io_initialize = (\<lambda>v. map_option (\<lambda>(st, v). (st = 0, v)) (disk_initialize io 0 v)),
     io_sector_count = (\<lambda>v. map_option (\<lambda>(r, w, v). (if r = RES_OK then w else None, v)) (disk_ioctl io 0 GET_SECTOR_COUNT v)),
     io_read = (\<lambda>lba n v. map_option (\<lambda>(r, bs, v). (r = RES_OK, bs, v)) (disk_read io 0 (ucast lba) n v)),
     io_write = (\<lambda>lba n buf v. map_option (\<lambda>(r, v). (r = RES_OK, v)) (disk_write io 0 buf (ucast lba) n v))\<rparr>"

section \<open>A card is a medium\<close>

definition card_sectors :: "('d \<Rightarrow> u8 list list) \<Rightarrow> 'd drive storage \<Rightarrow> u8 list list" where
  "card_sectors content st = content (dr_dev (card st))"

definition card_ok :: "bool \<Rightarrow> ('d \<Rightarrow> phase) \<Rightarrow> ('d \<Rightarrow> u8 list list) \<Rightarrow> 'd drive storage \<Rightarrow> bool" where
  "card_ok hc ph content st \<longleftrightarrow> have_card st \<and> drive_ok hc ph content (card st)"

lemma u64_of_u32: "a < 2 ^ 32 \<Longrightarrow> (ucast (of_nat a :: u32) :: u64) = of_nat a"
  by (simp add: unsigned_of_nat take_bit_nat_eq_self)

lemma split_concat: "list_all is_sector ss \<Longrightarrow> map (\<lambda>i. take 512 (drop (i * 512) (concat ss))) [0..<length ss] = ss"
  by (rule nth_equalityI) (simp_all add: concat_sector)

lemma sectors_at_concat: "list_all is_sector bs \<Longrightarrow> sectors_at (\<lambda>i. concat bs ! i) 0 (length bs) = bs"
proof (rule nth_equalityI)
  fix i assume bs: "list_all is_sector bs" and "i < length (sectors_at (\<lambda>i. concat bs ! i) 0 (length bs))"
  then have i: "i < length bs" by simp
  have "i * 512 + 512 \<le> length (concat bs)"
    using i length_concat_sectors [OF bs] mult_le_mono1 [of "Suc i" "length bs" 512] by simp
  then have "mem_get (512 * i) 512 (\<lambda>i. concat bs ! i) = take 512 (drop (i * 512) (concat bs))"
    by (intro nth_equalityI) (auto simp: mem_get_def mult.commute)
  then show "sectors_at (\<lambda>i. concat bs ! i) 0 (length bs) ! i = bs ! i"
    using i concat_sector [OF bs i] by (simp add: sectors_at_def)
qed simp

lemma sd_medium:
  assumes "sd_card io hc ph content"
  shows "medium (sd_diskio io) (card_sectors content) (card_ok hc ph content)"
proof
  fix st :: "'a drive storage" and lba n :: nat and bs :: "u8 list list"
  assume ok: "card_ok hc ph content st"
  let ?ss = "card_sectors content st"
  have v: "drive_ok hc ph content (card st)" and hcd: "have_card st" using ok by (simp_all add: card_ok_def)
  have lt: "length ?ss < 2 ^ 32" and whole: "list_all is_sector ?ss"
    using v by (simp_all add: drive_ok_def card_sectors_def whole_sectors_def)
  show "list_all is_sector ?ss" by (rule whole)
  show "\<exists>s'. stor_rd (sd_diskio io) lba n st = Some (take n (drop lba ?ss), s') \<and> card_ok hc ph content s' \<and>
      card_sectors content s' = ?ss" if "0 < n" "lba + n \<le> length ?ss"
  proof -
    note range = that
    have n: "unat (of_nat n :: u32) = n" using that lt by (intro unat_of_nat_small) simp
    obtain v' where v': "disk_read io 0 (of_nat lba) (of_nat n) (card st) =
        Some (RES_OK, concat (take n (drop lba (content (dr_dev (card st))))), v')"
      "drive_ok hc ph content v'" "content (dr_dev v') = content (dr_dev (card st))"
      by (rule drive_read [OF assms v, of "of_nat n" lba]) (use range n in \<open>simp_all add: card_sectors_def\<close>)
    let ?part = "take n (drop lba ?ss)"
    have part: "list_all is_sector ?part" "length ?part = n"
      using whole that(2) by (auto simp: list_all_iff dest: in_set_takeD in_set_dropD)
    have "stor_rd (sd_diskio io) lba n st = Some (?part, st\<lparr>card := v'\<rparr>)"
      using that lt hcd v'(1) u64_of_u32 [of lba] split_concat [OF part(1)] part(2)
      by (simp add: stor_rd_def storage_read_def sd_diskio_def card_sectors_def)
    then show ?thesis using v'(2,3) hcd by (simp add: card_ok_def card_sectors_def)
  qed
  show "\<exists>s'. stor_wr (sd_diskio io) lba bs st = Some s' \<and> card_ok hc ph content s' \<and>
      card_sectors content s' = take lba ?ss @ bs @ drop (lba + length bs) ?ss"
    if bs: "bs \<noteq> []" "list_all is_sector bs" "lba + length bs \<le> length ?ss"
  proof -
    have n: "unat (of_nat (length bs) :: u32) = length bs" using bs(3) lt by (intro unat_of_nat_small) simp
    obtain v' where v': "disk_write io 0 (\<lambda>i. concat bs ! i) (of_nat lba) (of_nat (length bs)) (card st) = Some (RES_OK, v')"
      "drive_ok hc ph content v'" "content (dr_dev v') = take lba (content (dr_dev (card st))) @
        sectors_at (\<lambda>i. concat bs ! i) 0 (length bs) @ drop (lba + length bs) (content (dr_dev (card st)))"
      by (rule drive_write [OF assms v, of "of_nat (length bs)" lba]) (use bs n in \<open>simp_all add: card_sectors_def\<close>)
    have "stor_wr (sd_diskio io) lba bs st = Some (st\<lparr>card := v'\<rparr>)"
      using bs lt hcd v'(1) u64_of_u32 [of lba]
      by (simp add: stor_wr_def storage_write_def sd_diskio_def)
    then show ?thesis
      using v'(2,3) hcd sectors_at_concat [OF bs(2)] by (simp add: card_ok_def card_sectors_def)
  qed
qed

section \<open>Without a card\<close>

text \<open>The data line is pulled up: every byte reads 0xFF.\<close>

definition silent :: "'d spi \<Rightarrow> bool" where
  "silent io \<longleftrightarrow> (\<forall>b s. fst (spi_xchg io b s) = 0xFF)"

lemma silent_xchg: "silent io \<Longrightarrow> spi_xchg io b s = (r, s') \<Longrightarrow> r = 0xFF"
  by (metis silent_def fst_conv)

lemma silent_wait: "silent io \<Longrightarrow> \<exists>s'. wait_ready io wt s = Some (True, s')"
  unfolding wait_ready_def by (subst spi_poll.simps) (auto split: prod.split dest: silent_xchg)

lemma silent_select: "silent io \<Longrightarrow> \<exists>s'. sd_select io s = Some (True, s')"
  using silent_wait [of io 500 "spi_send io [0xFF] (spi_cs io False s)"] by (auto simp: sd_select_def)

lemma silent_response: "silent io \<Longrightarrow> \<exists>s'. cmd_response io n s = (0xFF, s')"
proof (induction n arbitrary: s)
  case 0
  then show ?case by (metis cmd_response.simps(1) silent_def prod.collapse)
next
  case (Suc n)
  then show ?case by (auto split: prod.split dest: silent_xchg)
qed

lemma silent_cmd0:
  assumes "silent io"
  shows "\<exists>s'. send_cmd io CMD0 0 s = Some (0xFF, s')"
proof -
  obtain s1 where s1: "sd_select io (sd_deselect io s) = Some (True, s1)"
    using silent_select [OF assms] by blast
  obtain s2 where "cmd_response io 9 (spi_send io (cmd_packet CMD0 0) s1) = (0xFF, s2)"
    using silent_response [OF assms] by blast
  moreover have "CMD0 AND 0x80 = 0" "CMD0 \<noteq> CMD12" by (simp_all add: sd_commands)
  ultimately show ?thesis using s1 by (simp add: send_cmd_def send_plain_def Let_def)
qed

text \<open>C27: With no card in the slot the drive is not ready after its start, a read of it is refused without a
  byte on the bus, and the storage is the RAM disk of 128 sectors.\<close>

theorem no_card_means_ramdisk:
  assumes "silent io" "dr_stat (card st) AND STA_NODISK = 0"
  shows "\<exists>v' st'. disk_initialize io 0 (card st) = Some (STA_NOINIT, v') \<and>
    disk_read io 0 sector count v' = Some (if count = 0 then RES_PARERR else RES_NOTRDY, [], v') \<and>
    storage_init (sd_diskio io) st = Some (128, st') \<and> \<not> have_card st' \<and>
    ram_sectors st' = map ramdisk_sector [0..<128]"
proof -
  let ?s = "spi_send io (replicate 10 0xFF) (spi_cs io False (spi_fast io False (spi_setup io (dr_dev (card st)))))"
  obtain s1 where "send_cmd io CMD0 0 ?s = Some (0xFF, s1)" using silent_cmd0 [OF assms(1)] by blast
  then have "identify io ?s = Some (0, s1)" by (simp add: identify_def)
  then have i: "disk_initialize io 0 (card st) =
      Some (STA_NOINIT, (card st)\<lparr>CardType := 0, dr_stat := STA_NOINIT, dr_dev := sd_deselect io s1\<rparr>)"
    (is "_ = Some (_, ?v)")
    using assms(2) by (simp add: disk_initialize_def Let_def)
  let ?st = "(ramdisk_fill (st\<lparr>card := ?v\<rparr>))\<lparr>have_card := False\<rparr>"
  have "storage_init (sd_diskio io) st = Some (128, ?st)"
    using i by (simp add: storage_init_def sd_diskio_def RAMDISK_SECTORS_def STA_NOINIT_def)
  moreover have "ram_sectors ?st = map ramdisk_sector [0..<128]"
    by (simp add: ram_sectors_def ramdisk_fill_def mem_get_fill RAMDISK_SECTORS_def)
  moreover have "disk_read io 0 sector count ?v = Some (if count = 0 then RES_PARERR else RES_NOTRDY, [], ?v)"
    by (simp add: disk_read_def STA_NOINIT_def)
  ultimately show ?thesis using i by auto
qed

theorem no_card_means_ramdisk_witness:
  "\<exists>st'. storage_init (sd_diskio \<lparr>spi_xchg = (\<lambda>_ s. (0xFF, s + 1)), spi_cs = (\<lambda>_ s. s), spi_ms = of_nat,
       spi_setup = (\<lambda>s. s), spi_fast = (\<lambda>_ s. s)\<rparr>)
     \<lparr>ramdisk = (\<lambda>_. 0), have_card = False, card = \<lparr>dr_stat = 1, CardType = 0, dr_dev = (0 :: nat)\<rparr>\<rparr> = Some (128, st')"
  using no_card_means_ramdisk [of "\<lparr>spi_xchg = (\<lambda>_ s. (0xFF, s + 1)), spi_cs = (\<lambda>_ s. s), spi_ms = of_nat,
       spi_setup = (\<lambda>s. s), spi_fast = (\<lambda>_ s. s)\<rparr>"
     "\<lparr>ramdisk = (\<lambda>_. 0), have_card = False, card = \<lparr>dr_stat = 1, CardType = 0, dr_dev = (0 :: nat)\<rparr>\<rparr>"]
  by (auto simp: silent_def STA_NODISK_def)

end
