(* ===== verification/SdDisk.thy ===== *)
theory SdDisk
  imports SdStore
begin

text \<open>
  The disk of Linux on an SD card: the driver of \<open>sdcard.c\<close> under the storage of the master
  under the link and the service of core 1.  A small simulated card shows that the documented
  behaviour the driver relies on can be had.
\<close>

section \<open>A simulated card\<close>

text \<open>
  A card of 64 sectors, addressed by sectors.  It collects the bytes of a command or of a data
  block, and then gives its answer byte by byte.  Its clock stands still.
\<close>

record sim_card =
  sim_phase :: phase
  sim_in :: "u8 list"
  sim_out :: "u8 list"
  sim_mem :: "nat \<Rightarrow> u8 list"

definition sim_full :: "phase \<Rightarrow> nat" where
  "sim_full p = (case p of Write_one _ \<Rightarrow> 515 | Write_many _ \<Rightarrow> 515 | _ \<Rightarrow> 6)"

definition sim_cmd :: "u8 \<Rightarrow> nat \<Rightarrow> sim_card \<Rightarrow> sim_card" where
  "sim_cmd c a s =
     (if c = 0x51 then s\<lparr>sim_out := 0 # 0xFE # sim_mem s a @ [0, 0]\<rparr>
      else if c = 0x52 then s\<lparr>sim_out := [0], sim_phase := Reading a\<rparr>
      else if c = 0x58 then s\<lparr>sim_out := [0], sim_phase := Write_one a\<rparr>
      else if c = 0x59 then s\<lparr>sim_out := [0], sim_phase := Write_many a\<rparr>
      else if c = 0x4C then s\<lparr>sim_out := [0xFF, 0], sim_phase := Selected\<rparr>
      else s\<lparr>sim_out := [0]\<rparr>)"

definition be32 :: "u8 list \<Rightarrow> u32" where
  "be32 bs = push_bit 24 (ucast (bs ! 0)) OR push_bit 16 (ucast (bs ! 1)) OR push_bit 8 (ucast (bs ! 2)) OR ucast (bs ! 3)"

definition sim_frame :: "u8 list \<Rightarrow> sim_card \<Rightarrow> sim_card" where
  "sim_frame f s =
     (case sim_phase s of
        Write_one a \<Rightarrow> s\<lparr>sim_out := [0x05], sim_phase := Selected, sim_mem := (sim_mem s)(a := take 512 (tl f))\<rparr>
      | Write_many a \<Rightarrow> s\<lparr>sim_out := [0x05], sim_phase := Write_many (a + 1), sim_mem := (sim_mem s)(a := take 512 (tl f))\<rparr>
      | _ \<Rightarrow> sim_cmd (hd f) (unat (be32 (tl f))) s)"

definition sim_idle :: "sim_card \<Rightarrow> u8 \<times> sim_card" where
  "sim_idle s =
     (case sim_phase s of
        Reading a \<Rightarrow> (0xFE, s\<lparr>sim_out := sim_mem s a @ [0, 0], sim_phase := Reading (a + 1)\<rparr>)
      | _ \<Rightarrow> (0xFF, s))"

definition sim_xchg :: "u8 \<Rightarrow> sim_card \<Rightarrow> u8 \<times> sim_card" where
  "sim_xchg b s =
     (case sim_out s of
        r # rs \<Rightarrow> (r, s\<lparr>sim_out := rs\<rparr>)
      | [] \<Rightarrow>
          if sim_in s = [] \<and> b = 0xFF then sim_idle s
          else if sim_in s = [] \<and> b = 0xFD then (0xFF, s\<lparr>sim_phase := Selected\<rparr>)
          else let f = sim_in s @ [b]
               in (0xFF, if length f < sim_full (sim_phase s) then s\<lparr>sim_in := f\<rparr>
                         else sim_frame f (s\<lparr>sim_in := []\<rparr>)))"

definition sim_cs :: "bool \<Rightarrow> sim_card \<Rightarrow> sim_card" where
  "sim_cs high s =
     (if sim_phase s = Rest \<or> sim_phase s = Selected then s\<lparr>sim_phase := if high then Rest else Selected\<rparr> else s)"

definition sim_spi :: "sim_card spi" where
  "sim_spi = \<lparr>spi_xchg = sim_xchg, spi_cs = sim_cs, spi_ms = (\<lambda>_. 0), spi_setup = (\<lambda>s. s), spi_fast = (\<lambda>_ s. s)\<rparr>"

definition sim_ph :: "sim_card \<Rightarrow> phase" where
  "sim_ph s = (if sim_in s = [] \<and> sim_out s = [] then sim_phase s else Other)"

definition sim_content :: "sim_card \<Rightarrow> u8 list list" where
  "sim_content s = map (sim_mem s) [0..<64]"

lemma sim_ops [simp]:
  "spi_xchg sim_spi = sim_xchg" "spi_cs sim_spi = sim_cs" "spi_ms sim_spi s = 0"
  by (simp_all add: sim_spi_def)

lemma be32_packet: "be32 (tl (cmd_packet cmd arg)) = arg"
proof (rule bit_word_eqI)
  fix n :: nat assume "n < LENGTH(32)"
  then show "bit (be32 (tl (cmd_packet cmd arg))) n = bit arg n"
    by (cases "24 \<le> n"; cases "16 \<le> n"; cases "8 \<le> n") (auto simp: be32_def cmd_packet_def bit_simps)
qed

lemma sim_quiet: "sim_in s = [] \<Longrightarrow> sim_out s = [] \<Longrightarrow> \<forall>a. sim_phase s \<noteq> Reading a \<Longrightarrow> sim_xchg 0xFF s = (0xFF, s)"
  by (simp add: sim_xchg_def sim_idle_def split: phase.split)

lemma sim_drain: "sim_out s = rs @ qs \<Longrightarrow> gives sim_spi rs s (s\<lparr>sim_out := qs\<rparr>)"
proof (induction rs arbitrary: s)
  case (Cons r rs)
  then have "gives sim_spi rs (s\<lparr>sim_out := rs @ qs\<rparr>) (s\<lparr>sim_out := qs\<rparr>)"
    using Cons.IH [of "s\<lparr>sim_out := rs @ qs\<rparr>"] by simp
  then show ?case using Cons.prems by (auto simp: gives_Cons sim_xchg_def)
qed simp

lemma sim_fill:
  "sim_out s = [] \<Longrightarrow> sim_in s \<noteq> [] \<Longrightarrow> length (sim_in s) + length bs < sim_full (sim_phase s) \<Longrightarrow>
   spi_send sim_spi bs s = s\<lparr>sim_in := sim_in s @ bs\<rparr>"
  by (induction bs arbitrary: s) (simp_all add: send_Cons sim_xchg_def)

text \<open>A whole frame, command or data, is carried out with its last byte.\<close>

lemma sim_send_frame:
  assumes "sim_in s = []" "sim_out s = []" "b \<noteq> 0xFF" "b \<noteq> 0xFD" "length bs + 2 = sim_full (sim_phase s)"
  shows "spi_send sim_spi (b # bs @ [c]) s = sim_frame (b # bs @ [c]) s"
proof -
  have "sim_xchg b s = (0xFF, s\<lparr>sim_in := [b]\<rparr>)" using assms by (simp add: sim_xchg_def)
  moreover have "spi_send sim_spi bs (s\<lparr>sim_in := [b]\<rparr>) = s\<lparr>sim_in := b # bs\<rparr>"
    using sim_fill [of "s\<lparr>sim_in := [b]\<rparr>" bs] assms(2,5) by simp
  moreover have "s\<lparr>sim_in := []\<rparr> = s" using assms(1) by simp
  ultimately show ?thesis
    using assms(2,5) by (simp add: send_Cons send_append sim_xchg_def)
qed

lemma sim_packet:
  assumes "sim_ph s = Selected \<or> sim_ph s = Reading a" "0x40 OR cmd \<noteq> 0xFF" "0x40 OR cmd \<noteq> 0xFD"
  shows "spi_send sim_spi (cmd_packet cmd arg) s = sim_cmd (0x40 OR cmd) (unat arg) s"
proof -
  have s: "sim_in s = []" "sim_out s = []" "sim_phase s = Selected \<or> sim_phase s = Reading a"
    using assms(1) by (auto simp: sim_ph_def split: if_splits)
  obtain bs c where p: "cmd_packet cmd arg = (0x40 OR cmd) # bs @ [c]" "length bs = 4"
    by (auto simp: cmd_packet_def)
  have "length bs + 2 = sim_full (sim_phase s)" using p(2) s(3) by (auto simp: sim_full_def)
  from sim_send_frame [OF s(1,2) assms(2,3) this, of c]
  have "spi_send sim_spi (cmd_packet cmd arg) s = sim_frame (cmd_packet cmd arg) s" by (simp add: p(1))
  also have "\<dots> = sim_cmd (0x40 OR cmd) (unat arg) s"
    using s(3) be32_packet [of cmd arg] by (auto simp: sim_frame_def p(1))
  finally show ?thesis .
qed

lemma sim_settles: "sim_in s = [] \<Longrightarrow> sim_out s = [] \<Longrightarrow> \<forall>a. sim_phase s \<noteq> Reading a \<Longrightarrow> settles sim_spi s s"
  unfolding settles_def in_time_def
  by (rule exI [of _ "[]"]) (simp add: gives_Cons sim_quiet)

lemma sim_responds: "sim_out s = r # qs \<Longrightarrow> r AND 0x80 = 0 \<Longrightarrow> responds sim_spi r s (s\<lparr>sim_out := qs\<rparr>)"
  unfolding responds_def using sim_drain [of s "[r]" qs] by (auto intro!: exI [of _ "[]"])

lemma sim_sends: "sim_out s = 0xFE # data @ [0, 0] \<Longrightarrow> sends_block sim_spi data s (s\<lparr>sim_out := []\<rparr>)"
  unfolding sends_block_def in_time_def
  using sim_drain [of s "0xFE # data @ [0, 0]" "[]"] by (intro exI [of _ "[]"] exI [of _ "[0, 0]"]) simp

lemma sim_content_upd: "a < 64 \<Longrightarrow> map (f(a := b)) [0..<64] = (map f [0..<64])[a := b]"
  by (rule nth_equalityI) (auto simp: nth_list_update)

lemma sim_takes:
  assumes "sim_in s = []" "sim_out s = []" "sim_full (sim_phase s) = 515" "length data = 512" "token \<noteq> 0xFF" "token \<noteq> 0xFD"
    "sim_out (sim_frame (token # data @ [0xFF, 0xFF]) s) = [0x05]"
  shows "takes_block sim_spi token data s (sim_frame (token # data @ [0xFF, 0xFF]) s\<lparr>sim_out := []\<rparr>)"
proof -
  have "settles sim_spi s s" using assms(1-3) by (intro sim_settles) (auto simp: sim_full_def)
  moreover have "spi_send sim_spi ([token] @ data @ [0xFF, 0xFF]) s = sim_frame (token # data @ [0xFF, 0xFF]) s"
    using sim_send_frame [OF assms(1,2,5,6), of "data @ [0xFF]" "0xFF"] assms(3,4) by simp
  ultimately show ?thesis
    using sim_drain [of _ "[0x05]" "[]"] assms(7) unfolding takes_block_def
    by (intro exI [of _ s] exI [of _ "0x05"]) simp
qed

lemma sim_at_rest: "at_rest sim_ph s \<longleftrightarrow> sim_in s = [] \<and> sim_out s = [] \<and> (sim_phase s = Rest \<or> sim_phase s = Selected)"
  by (auto simp: at_rest_def sim_ph_def)

lemma sim_idles: "card_idles sim_spi sim_ph sim_content"
  unfolding card_idles_def
proof (intro conjI allI impI)
  fix s assume s: "at_rest sim_ph s"
  show "at_rest sim_ph (sd_deselect sim_spi s)" "sim_content (sd_deselect sim_spi s) = sim_content s"
    using s by (auto simp: sim_at_rest sd_deselect_def send_Cons sim_quiet sim_cs_def sim_content_def)
  let ?s = "s\<lparr>sim_phase := Selected\<rparr>"
  have "spi_send sim_spi [0xFF] (spi_cs sim_spi False s) = ?s"
    using s by (auto simp: sim_at_rest send_Cons sim_quiet sim_cs_def)
  moreover have "settles sim_spi ?s ?s" "sim_ph ?s = Selected" "sim_content ?s = sim_content s"
    using s by (auto simp: sim_at_rest sim_ph_def sim_content_def intro: sim_settles)
  ultimately show "\<exists>s'. settles sim_spi (spi_send sim_spi [0xFF] (spi_cs sim_spi False s)) s' \<and>
      sim_ph s' = Selected \<and> sim_content s' = sim_content s" by metis
next
  fix s cmd arg assume s: "sim_ph s = Selected" and "cmd = CMD55 \<or> cmd = ACMD23 AND 0x7F"
  then have "spi_send sim_spi (cmd_packet cmd arg) s = s\<lparr>sim_out := [0]\<rparr>"
    by (subst sim_packet) (auto simp: sd_commands sim_cmd_def)
  then show "\<exists>s'. responds sim_spi 0 (spi_send sim_spi (cmd_packet cmd arg) s) s' \<and> sim_ph s' = Selected \<and> sim_content s' = sim_content s"
    using sim_responds [of "s\<lparr>sim_out := [0]\<rparr>" 0 "[]"] s by (auto simp: sim_ph_def sim_content_def split: if_splits)
qed

lemma sim_phD: "sim_ph s = p \<Longrightarrow> p \<noteq> Other \<Longrightarrow> sim_in s = [] \<and> sim_out s = [] \<and> sim_phase s = p"
  by (auto simp: sim_ph_def split: if_splits)

text \<open>A command on a sector: what the card does, and that it answers with 0.\<close>

lemma sim_starts:
  assumes "0x40 OR cmd \<noteq> 0xFF" "0x40 OR cmd \<noteq> 0xFD"
    "\<And>s a. sim_ph s = Selected \<Longrightarrow> a < 64 \<Longrightarrow>
      \<exists>qs s1. sim_cmd (0x40 OR cmd) a s = s1 \<and> sim_out s1 = 0 # qs \<and> sim_mem s1 = sim_mem s \<and> P a (s1\<lparr>sim_out := qs\<rparr>)"
  shows "card_starts sim_spi True sim_ph sim_content cmd P"
  unfolding card_starts_def
proof (intro allI impI)
  fix s a assume s: "sim_ph s = Selected" and "a < length (sim_content s)"
  then have a: "a < 64" by (simp add: sim_content_def)
  obtain qs s1 where s1: "sim_cmd (0x40 OR cmd) a s = s1" "sim_out s1 = 0 # qs" "sim_mem s1 = sim_mem s" "P a (s1\<lparr>sim_out := qs\<rparr>)"
    using assms(3) [OF s a] by blast
  have "spi_send sim_spi (cmd_packet cmd (sd_arg True a)) s = s1"
    using sim_packet [OF _ assms(1,2), of s "undefined" "sd_arg True a"] s a s1(1) by (simp add: sd_arg_def unat_of_nat_small)
  then show "\<exists>s'. responds sim_spi 0 (spi_send sim_spi (cmd_packet cmd (sd_arg True a)) s) s' \<and> P a s' \<and> sim_content s' = sim_content s"
    using sim_responds [OF s1(2)] s1(3,4) by (auto simp: sim_content_def)
qed

lemma sim_reads: "card_reads sim_spi True sim_ph sim_content"
  unfolding card_reads_def
proof (intro conjI allI impI)
  show "card_starts sim_spi True sim_ph sim_content CMD17
     (\<lambda>a s. \<exists>s'. sends_block sim_spi (sim_content s ! a) s s' \<and> at_rest sim_ph s' \<and> sim_content s' = sim_content s)"
  proof (rule sim_starts)
    fix s a assume s: "sim_ph s = Selected" and a: "a < (64 :: nat)"
    let ?s1 = "s\<lparr>sim_out := 0xFE # sim_mem s a @ [0, 0]\<rparr>"
    have "sends_block sim_spi (sim_content ?s1 ! a) ?s1 (?s1\<lparr>sim_out := []\<rparr>)"
      using a by (intro sim_sends) (simp add: sim_content_def)
    moreover have "at_rest sim_ph (?s1\<lparr>sim_out := []\<rparr>)" "sim_content (?s1\<lparr>sim_out := []\<rparr>) = sim_content ?s1"
      using sim_phD [OF s] by (simp_all add: sim_at_rest sim_content_def)
    ultimately show "\<exists>qs s1. sim_cmd (0x40 OR CMD17) a s = s1 \<and> sim_out s1 = 0 # qs \<and> sim_mem s1 = sim_mem s \<and>
       (\<exists>s'. sends_block sim_spi (sim_content (s1\<lparr>sim_out := qs\<rparr>) ! a) (s1\<lparr>sim_out := qs\<rparr>) s' \<and> at_rest sim_ph s' \<and>
         sim_content s' = sim_content (s1\<lparr>sim_out := qs\<rparr>))"
      by (auto simp: sim_cmd_def sd_commands)
  qed (simp_all add: sd_commands)
  show "card_starts sim_spi True sim_ph sim_content CMD18 (\<lambda>a s. sim_ph s = Reading a)"
    by (rule sim_starts) (auto simp: sd_commands sim_cmd_def dest!: sim_phD intro!: sim_ph_def [THEN trans])
  show "\<exists>s'. sends_block sim_spi (sim_content s ! a) s s' \<and> sim_ph s' = Reading (a + 1) \<and> sim_content s' = sim_content s"
    if "sim_ph s = Reading a" "a < length (sim_content s)" for s a
  proof -
    have s: "sim_in s = []" "sim_out s = []" "sim_phase s = Reading a" using sim_phD [OF that(1)] by simp_all
    let ?s1 = "s\<lparr>sim_out := sim_mem s a @ [0, 0], sim_phase := Reading (a + 1)\<rparr>"
    have e: "?s1\<lparr>sim_out := []\<rparr> = s\<lparr>sim_phase := Reading (a + 1)\<rparr>"
      using s by (cases s) simp
    have "sim_xchg 0xFF s = (0xFE, ?s1)" using s by (simp add: sim_xchg_def sim_idle_def)
    then have "gives sim_spi (0xFE # sim_mem s a @ [0, 0]) s (s\<lparr>sim_phase := Reading (a + 1)\<rparr>)"
      using sim_drain [of ?s1 "sim_mem s a @ [0, 0]" "[]"] unfolding e gives_Cons by simp
    then have "sends_block sim_spi (sim_content s ! a) s (s\<lparr>sim_phase := Reading (a + 1)\<rparr>)"
      unfolding sends_block_def in_time_def using that(2)
      by (intro exI [of _ "[]"] exI [of _ "[0, 0]"]) (simp add: sim_content_def)
    then show ?thesis using s by (auto simp: sim_ph_def sim_content_def)
  qed
  show "\<exists>r s'. responds sim_spi r (spi_send sim_spi [0xFF] (spi_send sim_spi (cmd_packet CMD12 0) s)) s' \<and>
      at_rest sim_ph s' \<and> sim_content s' = sim_content s"
    if "sim_ph s = Reading a" for s a
  proof -
    let ?s1 = "s\<lparr>sim_out := [0], sim_phase := Selected\<rparr>"
    have "spi_send sim_spi (cmd_packet CMD12 0) s = s\<lparr>sim_out := [0xFF, 0], sim_phase := Selected\<rparr>"
      using that by (subst sim_packet [of s a]) (auto simp: sd_commands sim_cmd_def)
    then have "spi_send sim_spi [0xFF] (spi_send sim_spi (cmd_packet CMD12 0) s) = ?s1"
      by (simp add: send_Cons sim_xchg_def)
    moreover have "responds sim_spi 0 ?s1 (?s1\<lparr>sim_out := []\<rparr>)" by (rule sim_responds) simp_all
    moreover have "at_rest sim_ph (?s1\<lparr>sim_out := []\<rparr>)" "sim_content (?s1\<lparr>sim_out := []\<rparr>) = sim_content s"
      using sim_phD [OF that] by (simp_all add: sim_at_rest sim_content_def)
    ultimately show ?thesis by metis
  qed
qed

lemma sim_writes: "card_writes sim_spi True sim_ph sim_content"
  unfolding card_writes_def
proof (intro conjI allI impI)
  show "card_starts sim_spi True sim_ph sim_content CMD24 (\<lambda>a s. sim_ph s = Write_one a)"
    "card_starts sim_spi True sim_ph sim_content CMD25 (\<lambda>a s. sim_ph s = Write_many a)"
    by (rule sim_starts; auto simp: sd_commands sim_cmd_def dest!: sim_phD intro!: sim_ph_def [THEN trans])+
  show "\<exists>s'. takes_block sim_spi 0xFE bs s s' \<and> at_rest sim_ph s' \<and> sim_content s' = (sim_content s)[a := bs]"
    if "sim_ph s = Write_one a" "a < length (sim_content s)" "length bs = 512" for s a bs
  proof -
    have s: "sim_in s = []" "sim_out s = []" "sim_phase s = Write_one a" using sim_phD [OF that(1)] by simp_all
    let ?s1 = "sim_frame (0xFE # bs @ [0xFF, 0xFF]) s\<lparr>sim_out := []\<rparr>"
    have "takes_block sim_spi 0xFE bs s ?s1"
      by (rule sim_takes) (use s that(3) in \<open>simp_all add: sim_full_def sim_frame_def\<close>)
    moreover have "at_rest sim_ph ?s1" "sim_content ?s1 = (sim_content s)[a := bs]"
      using s that(2,3) by (simp_all add: sim_frame_def sim_at_rest sim_content_def sim_content_upd)
    ultimately show ?thesis by blast
  qed
  show "\<exists>s'. takes_block sim_spi 0xFC bs s s' \<and> sim_ph s' = Write_many (a + 1) \<and> sim_content s' = (sim_content s)[a := bs]"
    if "sim_ph s = Write_many a" "a < length (sim_content s)" "length bs = 512" for s a bs
  proof -
    have s: "sim_in s = []" "sim_out s = []" "sim_phase s = Write_many a" using sim_phD [OF that(1)] by simp_all
    let ?s1 = "sim_frame (0xFC # bs @ [0xFF, 0xFF]) s\<lparr>sim_out := []\<rparr>"
    have "takes_block sim_spi 0xFC bs s ?s1"
      by (rule sim_takes) (use s that(3) in \<open>simp_all add: sim_full_def sim_frame_def\<close>)
    moreover have "sim_ph ?s1 = Write_many (a + 1)" "sim_content ?s1 = (sim_content s)[a := bs]"
      using s that(2,3) by (simp_all add: sim_frame_def sim_ph_def sim_content_def sim_content_upd)
    ultimately show ?thesis by blast
  qed
  show "\<exists>s'. settles sim_spi s s' \<and> at_rest sim_ph (spi_send sim_spi [0xFD] s') \<and> sim_content (spi_send sim_spi [0xFD] s') = sim_content s"
    if "sim_ph s = Write_many a" for s a
  proof -
    have s: "sim_in s = []" "sim_out s = []" "sim_phase s = Write_many a" using sim_phD [OF that] by simp_all
    then have "spi_send sim_spi [0xFD] s = s\<lparr>sim_phase := Selected\<rparr>" by (simp add: send_Cons sim_xchg_def)
    then show ?thesis
      using s sim_settles [of s] by (auto simp: sim_at_rest sim_content_def)
  qed
qed

lemma sim_is_card: "sd_card sim_spi True sim_ph sim_content"
  by (simp add: sd_card_def sim_idles sim_reads sim_writes)

section \<open>The disk of Linux on a card\<close>


definition sim_server :: "sim_card drive server" where
  "sim_server = \<lparr>
     sv_store = \<lparr>ramdisk = (\<lambda>_. 0), have_card = True,
       card = \<lparr>dr_stat = 0, CardType = CT_SD2 OR CT_BLOCK,
         dr_dev = \<lparr>sim_phase = Rest, sim_in = [], sim_out = [], sim_mem = (\<lambda>i. replicate 512 (of_nat i))\<rparr>\<rparr>\<rparr>,
     capacity_sectors = 64, sv_con = demo_console,
     sv_screen = \<lparr>ss_next_us = 0, ss_textmode = \<lparr>tm_cur_col = 0, tm_cur_row = 0, tm_cur_visible = False,
       tm_cur_beg = 14, tm_cur_end = 15\<rparr>\<rparr>, console_rx_bytes = 0, served = 0, errors = 0\<rparr>"

lemma sim_server_ok:
  "have_card (sv_store sim_server)" "drive_ok True sim_ph sim_content (card (sv_store sim_server))"
  "unat (capacity_sectors sim_server) = length (sim_content (dr_dev (card (sv_store sim_server))))"
  by (simp_all add: sim_server_def drive_ok_def sim_at_rest sim_content_def sd_types whole_sectors_def list_all_iff is_sector_def)


end
