(* ===== verification/Psram.thy ===== *)
theory Psram
  imports Prelude
begin

text \<open>
  \<open>hwtests/common/psram_init.c\<close>, which the first-stage loader links in: chip select 1 of the
  QSPI controller set up for the PSRAM.  The set-up is a sequence of steps on the controller;
  what the chip answers afterwards is up to the board.  C's \<open>int\<close> is an integer here, and that no
  value leaves its range is part of the theorem.
\<close>

section \<open>Timings\<close>

record psram_timing =
  ps_divisor :: int
  ps_rxdelay :: int
  ps_max_select :: int     \<comment> \<open>64 system clocks each\<close>
  ps_min_deselect :: int   \<comment> \<open>system clocks\<close>

definition clock_period_fs :: "int \<Rightarrow> int" where
  "clock_period_fs clock_hz = 1000000000000000 div clock_hz"

definition psram_timings :: "int \<Rightarrow> int \<Rightarrow> psram_timing" where
  "psram_timings max_mhz clock_hz =
     (let max_psram_freq = max_mhz * 1000000;
          divisor = (clock_hz + max_psram_freq - 1) div max_psram_freq;
          divisor = (if divisor = 1 \<and> clock_hz > 100000000 then 2 else divisor);
          rxdelay = divisor;
          rxdelay = (if clock_hz div divisor > 100000000 then rxdelay + 1 else rxdelay);
          period = clock_period_fs clock_hz
      in \<lparr>ps_divisor = divisor, ps_rxdelay = rxdelay, ps_max_select = 125 * 1000000 div period,
          ps_min_deselect = (18 * 1000000 + (period - 1)) div period - (divisor + 1) div 2\<rparr>)"

section \<open>The controller\<close>

datatype qmi_reg = DirectCsr | DirectTx | Timing | Rfmt | Rcmd | Wfmt | Wcmd

datatype qmi_step =
    SelectPin nat          \<comment> \<open>\<open>gpio_set_function(cs_pin, GPIO_FUNC_XIP_CS1)\<close>\<close>
  | SetReg qmi_reg u32
  | WaitIdle               \<comment> \<open>until \<open>BUSY\<close> is clear in \<open>direct_csr\<close>\<close>
  | WritableM1             \<comment> \<open>\<open>XIP_CTRL_WRITABLE_M1_BITS\<close> set\<close>

text \<open>The fields of \<open>QMI_M1_TIMING\<close> from bit 30 down: cool-down 1, page break 1024, and the four above.\<close>

definition m1_timing :: "psram_timing \<Rightarrow> u32" where
  "m1_timing t = push_bit 30 1 OR push_bit 28 2 OR push_bit 17 (of_int (ps_max_select t)) OR
     push_bit 12 (of_int (ps_min_deselect t)) OR push_bit 8 (of_int (ps_rxdelay t)) OR of_int (ps_divisor t)"

text \<open>Every phase is four bits wide (2), the prefix has 8 bits (1 at bit 12).\<close>

definition quad_format :: "u32 \<Rightarrow> u32" where
  "quad_format dummy_len =
     2 OR push_bit 2 2 OR push_bit 4 2 OR push_bit 6 2 OR push_bit 8 2 OR push_bit 12 1 OR push_bit 16 dummy_len"

definition psram_init :: "int \<Rightarrow> int \<Rightarrow> nat \<Rightarrow> qmi_step list" where
  "psram_init max_mhz clock_hz cs_pin =
     [SelectPin cs_pin,
      SetReg DirectCsr (push_bit 22 10 OR 1 OR push_bit 7 1), WaitIdle,
      SetReg DirectTx (push_bit 20 1 OR 0x35), WaitIdle,
      SetReg Timing (m1_timing (psram_timings max_mhz clock_hz)),
      SetReg Rfmt (quad_format 6), SetReg Rcmd 0xEB,
      SetReg Wfmt (quad_format 0), SetReg Wcmd 0x38,
      SetReg DirectCsr 0, WritableM1]"

section \<open>Limits\<close>

lemma period_bounds:
  assumes "1000000 \<le> hz" "hz \<le> 511000000"
  shows "1956947 \<le> clock_period_fs hz" "clock_period_fs hz \<le> 1000000000"
proof -
  have "(1000000000000000 :: int) div 511000000 \<le> 1000000000000000 div hz" by (rule zdiv_mono2) (use assms in auto)
  moreover have "(1000000000000000 :: int) div hz \<le> 1000000000000000 div 1000000" by (rule zdiv_mono2) (use assms in auto)
  ultimately show "1956947 \<le> clock_period_fs hz" "clock_period_fs hz \<le> 1000000000" by (simp_all add: clock_period_fs_def)
qed

lemma period_upper:
  assumes "k * 100000000 < hz" "0 < k"
  shows "clock_period_fs hz * k \<le> 10000000"
proof -
  have "clock_period_fs hz \<le> 1000000000000000 div (k * 100000000)"
    unfolding clock_period_fs_def by (rule zdiv_mono2) (use assms in auto)
  also have "\<dots> = 10000000 div k" using zdiv_zmult2_eq [of k "1000000000000000" "100000000"] assms(2)
    by (simp add: mult.commute)
  finally have "clock_period_fs hz * k \<le> 10000000 div k * k" using assms(2) by (intro mult_right_mono) auto
  also have "\<dots> \<le> 10000000" using assms(2) by (simp add: minus_mod_eq_div_mult [symmetric])
  finally show ?thesis .
qed

lemma ceil_div_bounds:
  fixes a b :: int
  assumes "0 < b"
  shows "a \<le> (a + b - 1) div b * b" "((a + b - 1) div b - 1) * b < a"
proof -
  let ?q = "(a + b - 1) div b"
  have e: "a + b - 1 = ?q * b + (a + b - 1) mod b" by simp
  note r = pos_mod_bound [OF assms, of "a + b - 1"] pos_mod_sign [OF assms, of "a + b - 1"]
  show "a \<le> ?q * b" using e r by linarith
  have "(?q - 1) * b = ?q * b - b" by (simp add: left_diff_distrib)
  then show "(?q - 1) * b < a" using e r by linarith
qed

text \<open>The limits of the chip: its clock, the time one selection lasts, and the pause between two.\<close>

definition psram_limits :: "int \<Rightarrow> int \<Rightarrow> psram_timing \<Rightarrow> bool" where
  "psram_limits max_mhz clock_hz t \<longleftrightarrow>
     clock_hz \<le> ps_divisor t * max_mhz * 1000000 \<and> (clock_hz > 100000000 \<longrightarrow> ps_divisor t \<ge> 2) \<and>
     64 * ps_max_select t * clock_period_fs clock_hz \<le> 8000000000 \<and>
     (ps_min_deselect t + (ps_divisor t + 1) div 2) * clock_period_fs clock_hz \<ge> 18000000"

lemma divisor_bounds:
  assumes "100 \<le> mhz" "mhz \<le> 133" "1000000 \<le> hz" "hz \<le> 511000000"
  defines "d \<equiv> ps_divisor (psram_timings mhz hz)"
  shows "hz \<le> d * mhz * 1000000" "1 \<le> d" "d \<le> 6" "(d - 1) * 100000000 < hz" "hz > 100000000 \<longrightarrow> 2 \<le> d"
proof -
  let ?F = "mhz * 1000000"
  define d0 where "d0 = (hz + ?F - 1) div ?F"
  have F: "100000000 \<le> ?F" using assms(1) by simp
  have d0: "hz \<le> d0 * ?F" "(d0 - 1) * ?F < hz"
    using ceil_div_bounds [of ?F hz] F by (simp_all add: d0_def)
  have pos: "1 \<le> d0" using d0(1) assms(3) F by (smt (verit) mult_nonpos_nonneg)
  then have lo: "(d0 - 1) * 100000000 < hz" using d0(2) F mult_left_mono [OF F, of "d0 - 1"] by simp
  have d: "d = (if d0 = 1 \<and> hz > 100000000 then 2 else d0)" by (simp add: d_def psram_timings_def Let_def d0_def)
  show "1 \<le> d" "d \<le> 6" "(d - 1) * 100000000 < hz" "hz > 100000000 \<longrightarrow> 2 \<le> d"
    using pos lo assms(4) by (auto simp: d)
  show "hz \<le> d * mhz * 1000000" using d0(1) assms(1) pos by (auto simp: d)
qed

lemma deselect_bounds:
  assumes "100 \<le> mhz" "mhz \<le> 133" "1000000 \<le> hz" "hz \<le> 511000000"
  defines "t \<equiv> psram_timings mhz hz"
  shows "0 \<le> ps_min_deselect t" "ps_min_deselect t \<le> 10"
    "(ps_min_deselect t + (ps_divisor t + 1) div 2) * clock_period_fs hz \<ge> 18000000"
proof -
  let ?p = "clock_period_fs hz" and ?d = "ps_divisor t"
  define c where "c = (18000000 + ?p - 1) div ?p"
  note p = period_bounds [OF assms(3,4)]
  have c: "18000000 \<le> c * ?p" "(c - 1) * ?p < 18000000" using ceil_div_bounds [of ?p 18000000] p by (simp_all add: c_def)
  have "1 \<le> c" using c(1) p by (smt (verit) mult_nonpos_nonneg)
  have m: "ps_min_deselect t = c - (?d + 1) div 2"
    by (simp add: t_def psram_timings_def Let_def c_def algebra_simps)
  note d = divisor_bounds [OF assms(1-4), folded t_def]
  have "(?d + 1) div 2 \<le> c"
  proof (cases "?d \<le> 2")
    case True
    then show ?thesis using \<open>1 \<le> c\<close> by simp
  next
    case False
    then have "?p * 2 \<le> ?p * (?d - 1)" using p by (intro mult_left_mono) auto
    moreover have "?p * (?d - 1) \<le> 10000000" using period_upper [OF d(4)] False by simp
    ultimately have "?p \<le> 5000000" by simp
    then have "c * ?p \<le> c * 5000000" using \<open>1 \<le> c\<close> by (intro mult_left_mono) auto
    then show ?thesis using c(1) d(3) by simp
  qed
  moreover have "c \<le> 10"
  proof (rule ccontr)
    assume "\<not> c \<le> 10"
    then have "10 * ?p \<le> (c - 1) * ?p" using p by (intro mult_right_mono) auto
    then show False using c(2) p by linarith
  qed
  ultimately show "0 \<le> ps_min_deselect t" "ps_min_deselect t \<le> 10" using d(2) by (simp_all add: m)
  show "(ps_min_deselect t + (?d + 1) div 2) * ?p \<ge> 18000000" using c(1) by (simp add: m)
qed

lemma select_bounds:
  fixes hz mhz :: int
  assumes "1000000 \<le> hz" "hz \<le> 511000000"
  defines "t \<equiv> psram_timings mhz hz"
  shows "0 \<le> ps_max_select t" "ps_max_select t \<le> 63" "64 * ps_max_select t * clock_period_fs hz \<le> 8000000000"
proof -
  let ?p = "clock_period_fs hz"
  note p = period_bounds [OF assms(1,2)]
  have m: "ps_max_select t = 125000000 div ?p" by (simp add: t_def psram_timings_def Let_def)
  show "0 \<le> ps_max_select t" using p by (simp add: m pos_imp_zdiv_nonneg_iff)
  have "125000000 div ?p \<le> 125000000 div 1956947" by (rule zdiv_mono2) (use p in auto)
  then show "ps_max_select t \<le> 63" by (simp add: m)
  have "125000000 div ?p * ?p \<le> 125000000" using p by (simp add: minus_mod_eq_div_mult [symmetric])
  then show "64 * ps_max_select t * ?p \<le> 8000000000" unfolding m by (simp add: mult.commute mult.left_commute)
qed

lemma rxdelay_cases: "ps_rxdelay (psram_timings m hz) \<in> {ps_divisor (psram_timings m hz), ps_divisor (psram_timings m hz) + 1}"
  by (simp add: psram_timings_def Let_def)

section \<open>The timing register\<close>

lemma bit_of_small: "bit (of_int x :: u32) n \<Longrightarrow> 0 \<le> x \<Longrightarrow> x < 2 ^ k \<Longrightarrow> k \<le> 32 \<Longrightarrow> n < k"
proof -
  assume a: "bit (of_int x :: u32) n" "0 \<le> x" "x < 2 ^ k" "k \<le> 32"
  then have "bit x n" by (simp add: bit_simps)
  moreover have "x = take_bit k x" using a(2,3) by (simp add: take_bit_int_eq_self)
  ultimately show "n < k" by (metis bit_take_bit_iff)
qed

lemma unat_of_int_u32: "0 \<le> x \<Longrightarrow> x < 2 ^ 32 \<Longrightarrow> uint (of_int x :: u32) = x"
  by (simp add: unsigned_of_int take_bit_int_eq_self)

lemma fields:
  fixes c s m r d :: u32
  assumes "\<And>n. bit d n \<Longrightarrow> n < 8" "\<And>n. bit r n \<Longrightarrow> n < 3" "\<And>n. bit m n \<Longrightarrow> n < 5" "\<And>n. bit s n \<Longrightarrow> n < 6" "\<And>n. bit c n \<Longrightarrow> n < 4"
  defines "w \<equiv> push_bit 28 c OR push_bit 17 s OR push_bit 12 m OR push_bit 8 r OR d"
  shows "w AND mask 8 = d" "drop_bit 8 w AND mask 3 = r" "drop_bit 12 w AND mask 5 = m" "drop_bit 17 w AND mask 6 = s"
    "drop_bit 28 w = c"
  unfolding w_def by (rule bit_word_eqI; auto simp: bit_simps dest: assms(1-5))+

text \<open>Every field of the register can be read back.\<close>

lemma m1_timing_fields:
  assumes "0 \<le> ps_divisor t" "ps_divisor t < 2 ^ 8" "0 \<le> ps_rxdelay t" "ps_rxdelay t < 2 ^ 3"
    "0 \<le> ps_min_deselect t" "ps_min_deselect t < 2 ^ 5" "0 \<le> ps_max_select t" "ps_max_select t < 2 ^ 6"
  shows "m1_timing t AND mask 8 = of_int (ps_divisor t)"
    "drop_bit 8 (m1_timing t) AND mask 3 = of_int (ps_rxdelay t)"
    "drop_bit 12 (m1_timing t) AND mask 5 = of_int (ps_min_deselect t)"
    "drop_bit 17 (m1_timing t) AND mask 6 = of_int (ps_max_select t)"
    "drop_bit 28 (m1_timing t) = 6"
proof -
  have hi: "push_bit 30 1 OR push_bit 28 2 = push_bit 28 (6 :: u32)" by simp
  have c: "bit (6 :: u32) n \<Longrightarrow> n < 4" for n using bit_of_small [of 6 n 4] by simp
  have w: "m1_timing t = push_bit 28 6 OR push_bit 17 (of_int (ps_max_select t)) OR
      push_bit 12 (of_int (ps_min_deselect t)) OR push_bit 8 (of_int (ps_rxdelay t)) OR of_int (ps_divisor t)"
    unfolding m1_timing_def hi [symmetric] by (simp only: or.assoc)
  have b: "bit (of_int (ps_divisor t) :: u32) n \<Longrightarrow> n < 8" "bit (of_int (ps_rxdelay t) :: u32) n \<Longrightarrow> n < 3"
    "bit (of_int (ps_min_deselect t) :: u32) n \<Longrightarrow> n < 5" "bit (of_int (ps_max_select t) :: u32) n \<Longrightarrow> n < 6" for n
    using bit_of_small [where k = 8, OF _ assms(1,2)] bit_of_small [where k = 3, OF _ assms(3,4)]
      bit_of_small [where k = 5, OF _ assms(5,6)] bit_of_small [where k = 6, OF _ assms(7,8)] by simp_all
  show "m1_timing t AND mask 8 = of_int (ps_divisor t)"
    "drop_bit 8 (m1_timing t) AND mask 3 = of_int (ps_rxdelay t)"
    "drop_bit 12 (m1_timing t) AND mask 5 = of_int (ps_min_deselect t)"
    "drop_bit 17 (m1_timing t) AND mask 6 = of_int (ps_max_select t)"
    "drop_bit 28 (m1_timing t) = 6"
    unfolding w by (rule fields [OF b c], assumption+)+
qed

section \<open>The set-up\<close>

text \<open>C24: For every system clock from 1 to 511 MHz and every limit of the chip from 100 to 133 MHz the PSRAM is set
  up within its limits: its clock stays at or below the limit and is at most half the
  system clock above 100 MHz, a selection lasts at most 8 us, and the pause after it, with the half
  clock the controller adds, at least 18 ns.  No intermediate value leaves the range of \<open>int\<close>, every
  field fits its bits, so that what is written to the timing register is read back from its
  fields, and the controller is left in its memory-mapped mode.\<close>

theorem psram_setup_within_limits:
  assumes "100 \<le> mhz" "mhz \<le> 133" "1000000 \<le> hz" "hz \<le> 511000000"
  shows "\<exists>t w. psram_limits mhz hz t \<and> SetReg Timing w \<in> set (psram_init mhz hz cs) \<and>
    uint (w AND mask 8) = ps_divisor t \<and> uint (drop_bit 17 w AND mask 6) = ps_max_select t \<and>
    uint (drop_bit 12 w AND mask 5) = ps_min_deselect t \<and>
    uint (drop_bit 8 w AND mask 3) \<in> {ps_divisor t, ps_divisor t + 1} \<and> drop_bit 28 w = 6 \<and>
    hz + mhz * 1000000 - 1 < 2 ^ 31 \<and> 18 * 1000000 + (clock_period_fs hz - 1) < 2 ^ 31 \<and>
    drop (length (psram_init mhz hz cs) - 2) (psram_init mhz hz cs) = [SetReg DirectCsr 0, WritableM1]"
proof -
  let ?t = "psram_timings mhz hz"
  note d = divisor_bounds [OF assms] and m = deselect_bounds [OF assms] and s = select_bounds [OF assms(3,4), of mhz]
  have r: "ps_rxdelay ?t \<in> {ps_divisor ?t, ps_divisor ?t + 1}" by (rule rxdelay_cases)
  then have r': "0 \<le> ps_rxdelay ?t" "ps_rxdelay ?t < 2 ^ 3" using d(2,3) by auto
  have "psram_limits mhz hz ?t"
    using d(1,5) m(3) s(3) by (simp add: psram_limits_def)
  moreover have "SetReg Timing (m1_timing ?t) \<in> set (psram_init mhz hz cs)" by (simp add: psram_init_def)
  moreover have "uint (m1_timing ?t AND mask 8) = ps_divisor ?t \<and> uint (drop_bit 17 (m1_timing ?t) AND mask 6) = ps_max_select ?t \<and>
      uint (drop_bit 12 (m1_timing ?t) AND mask 5) = ps_min_deselect ?t \<and>
      uint (drop_bit 8 (m1_timing ?t) AND mask 3) = ps_rxdelay ?t \<and> drop_bit 28 (m1_timing ?t) = 6"
    using d(2,3) m(1,2) s(1,2) r' by (simp add: m1_timing_fields unat_of_int_u32 del: mask_eq_exp_minus_1)
  moreover have "18 * 1000000 + (clock_period_fs hz - 1) < 2 ^ 31" using period_bounds(2) [OF assms(3,4)] by simp
  moreover have "hz + mhz * 1000000 - 1 < 2 ^ 31" using assms(2,4) by simp
  moreover have "drop (length (psram_init mhz hz cs) - 2) (psram_init mhz hz cs) = [SetReg DirectCsr 0, WritableM1]"
    by (simp add: psram_init_def)
  ultimately show ?thesis using r by (intro exI [of _ ?t] exI [of _ "m1_timing ?t"]) simp
qed

theorem psram_setup_within_limits_witness:
  "\<exists>t. psram_limits 133 252000000 t \<and> psram_timings 133 252000000 =
     \<lparr>ps_divisor = 2, ps_rxdelay = 3, ps_max_select = 31, ps_min_deselect = 4\<rparr>"
  using psram_setup_within_limits [of 133 252000000]
  by (auto simp: psram_timings_def Let_def clock_period_fs_def)

end
