(* ===== verification/Loader.thy ===== *)
theory Loader
  imports BlkLink Psram
begin

text \<open>
  \<open>firmware/afboot-rp2350/src/main.c\<close>: the first-stage loader of the half that runs Linux.
  The memory bus, how the PSRAM answers its set-up and what core 1 does meanwhile are arguments; the loader's
  state is the memory, the shared block with core 1, the flash timing register and the
  interrupt controller.
\<close>

section \<open>The board\<close>

text \<open>Byte accesses on the memory bus; reads have no effect.\<close>

record 'm bus =
  bus_get :: "u32 \<Rightarrow> 'm \<Rightarrow> u8"
  bus_set :: "u32 \<Rightarrow> u8 \<Rightarrow> 'm \<Rightarrow> 'm"

record nvic =
  nvic_enabled :: "u32 arr"
  nvic_pending :: "u32 arr"
  nvic_priority :: "u8 arr"

record 'm boot =
  bt_mem :: 'm
  bt_core :: core1
  bt_link :: bool       \<comment> \<open>\<open>blk_link_enabled\<close> of \<open>core1_blk.c\<close>\<close>
  bt_timing :: u32      \<comment> \<open>\<open>qmi_hw->m[0].timing\<close>\<close>
  bt_nvic :: nvic
  bt_turn :: nat        \<comment> \<open>how often core 1 has had a turn\<close>

text \<open>
  What the loader is built for and runs on: the clocks, what the memory is after the steps of
  \<open>psram_init\<close>, and what core 1 does with the shared state in each of its turns.
\<close>

record 'm board =
  bd_bus :: "'m bus"
  bd_cpu_speed :: u32   \<comment> \<open>\<open>CPU_SPEED\<close>\<close>
  bd_flash_mhz :: u32   \<comment> \<open>\<open>FLASH_MAX_FREQ_MHZ\<close>\<close>
  bd_clk_sys :: u32     \<comment> \<open>\<open>clock_get_hz(clk_sys)\<close> after the change of clock\<close>
  bd_psram_mhz :: int   \<comment> \<open>\<open>PSRAM_MAX_FREQ_MHZ\<close>\<close>
  bd_psram_pin :: nat   \<comment> \<open>\<open>FRANK_PSRAM_CS_PIN\<close>\<close>
  bd_setup :: "qmi_step list \<Rightarrow> 'm \<Rightarrow> 'm"
  bd_core1 :: "nat \<Rightarrow> core1 \<Rightarrow> core1"

definition rd32 :: "'m bus \<Rightarrow> u32 \<Rightarrow> 'm \<Rightarrow> u32" where
  "rd32 bus a m = un_le32 (map (\<lambda>i. bus_get bus (a + of_nat i) m) [0..<4])"

definition wr32 :: "'m bus \<Rightarrow> u32 \<Rightarrow> u32 \<Rightarrow> 'm \<Rightarrow> 'm" where
  "wr32 bus a v m = fold (\<lambda>i m. bus_set bus (a + of_nat i) (le32 v ! i) m) [0..<4] m"

definition memcpy :: "'m bus \<Rightarrow> u32 \<Rightarrow> u32 \<Rightarrow> nat \<Rightarrow> 'm \<Rightarrow> 'm" where
  "memcpy bus dst src n m =
     fold (\<lambda>i m. bus_set bus (dst + of_nat i) (bus_get bus (src + of_nat i) m) m) [0..<n] m"

definition FLASH_BASE :: u32 where "FLASH_BASE = 0x10000000"
definition FLASH_DTB_ADDR :: u32 where "FLASH_DTB_ADDR = FLASH_BASE + 0x000F0000"
definition FLASH_KERNEL_ADDR :: u32 where "FLASH_KERNEL_ADDR = FLASH_BASE + 0x00100000"
definition PSRAM_BASE :: u32 where "PSRAM_BASE = 0x11000000"
definition PSRAM_NOCACHE_BASE :: u32 where "PSRAM_NOCACHE_BASE = 0x15000000"
definition RAM_DTB_ADDR :: u32 where "RAM_DTB_ADDR = PSRAM_BASE + 0x00000000"
definition RAM_KERNEL_ADDR :: u32 where "RAM_KERNEL_ADDR = PSRAM_BASE + 0x00008000"
definition FDT_MAGIC :: u32 where "FDT_MAGIC = 0xD00DFEED"
definition PAYLOAD_MAGIC :: u32 where "PAYLOAD_MAGIC = 0x4c505246"
definition BOOTSEL_REQUEST_ADDR :: u32 where "BOOTSEL_REQUEST_ADDR = 0x2007dffc"
definition BOOTSEL_REQUEST_MAGIC :: u32 where "BOOTSEL_REQUEST_MAGIC = 0xb0075e1f"

lemmas boot_addrs = FLASH_BASE_def FLASH_DTB_ADDR_def FLASH_KERNEL_ADDR_def PSRAM_BASE_def
  PSRAM_NOCACHE_BASE_def RAM_DTB_ADDR_def RAM_KERNEL_ADDR_def

section \<open>Clocks and PSRAM\<close>

text \<open>
  The divisor that is returned, and the new value of the timing register: \<open>CLKDIV\<close> is bits 0
  to 7 and \<open>RXDELAY\<close> bits 8 to 10 of \<open>QMI_M0_TIMING\<close>.
\<close>

definition flash_set_clkdiv_boot :: "u32 \<Rightarrow> u32 \<Rightarrow> u32 \<Rightarrow> u32 \<times> u32" where
  "flash_set_clkdiv_boot flash_mhz clock_hz timing =
     (let max_hz = flash_mhz * 1000000;
          divisor = (clock_hz + max_hz - 1) div max_hz;
          divisor = (if divisor < 1 then 1 else divisor);
          divisor = (if divisor > 255 then 255 else divisor);
          rxdelay = divisor;
          rxdelay = (if clock_hz div divisor > 100000000 then rxdelay + 1 else rxdelay);
          timing = timing AND NOT (0xFF OR 0x700);
          timing = timing OR (divisor OR push_bit 8 rxdelay)
      in (divisor, timing))"

definition clocks_bringup :: "'m board \<Rightarrow> 'm boot \<Rightarrow> 'm boot" where
  "clocks_bringup bd s =
     s\<lparr>bt_timing := snd (flash_set_clkdiv_boot (bd_flash_mhz bd) (bd_cpu_speed bd * 1000000) (bt_timing s))\<rparr>"

definition psram_up :: "'m board \<Rightarrow> 'm \<Rightarrow> 'm" where
  "psram_up bd = bd_setup bd (psram_init (bd_psram_mhz bd) (uint (bd_clk_sys bd)) (bd_psram_pin bd))"

text \<open>The loop over the sizes of the probe, 1 kB to 16 MB, each twice the one before.\<close>

primrec psram_probe_sizes :: "'m bus \<Rightarrow> u32 list \<Rightarrow> 'm \<Rightarrow> u32 \<times> 'm" where
  "psram_probe_sizes bus [] m = (16 * 1024 * 1024, m)"
| "psram_probe_sizes bus (sz # szs) m =
     (let marker = 0x5AA51234; probe = PSRAM_NOCACHE_BASE + sz;
          saved = rd32 bus probe m;
          m = wr32 bus probe (NOT marker) m;
          aliased = (rd32 bus PSRAM_NOCACHE_BASE m \<noteq> marker);
          m = wr32 bus probe saved m;
          m = wr32 bus PSRAM_NOCACHE_BASE marker m
      in if aliased then (sz, m) else psram_probe_sizes bus szs m)"

definition psram_probe_bytes :: "'m bus \<Rightarrow> 'm \<Rightarrow> u32 \<times> 'm" where
  "psram_probe_bytes bus m =
     (let marker = 0x5AA51234;
          m = wr32 bus PSRAM_NOCACHE_BASE marker m
      in if rd32 bus PSRAM_NOCACHE_BASE m \<noteq> marker then (0, m)
         else psram_probe_sizes bus (map (\<lambda>i. push_bit i 1024) [0..<15]) m)"

section \<open>The console\<close>

definition core1_turn :: "'m board \<Rightarrow> 'm boot \<Rightarrow> 'm boot" where
  "core1_turn bd s = s\<lparr>bt_core := bd_core1 bd (bt_turn s) (bt_core s), bt_turn := bt_turn s + 1\<rparr>"

text \<open>Core 1 runs all along: it has a turn before each string the loader puts.\<close>

definition ring_puts :: "'m board \<Rightarrow> u8 list \<Rightarrow> 'm boot \<Rightarrow> 'm boot" where
  "ring_puts bd str s =
     (let s = core1_turn bd s; c = bt_core s
      in s\<lparr>bt_core := c\<lparr>shared := (shared c)\<lparr>tx :=
            fst (frank_ring_put (tx (shared c)) (\<lambda>i. str ! i) (of_nat (length str)))\<rparr>\<rparr>\<rparr>)"

definition dec_digits :: "u32 \<Rightarrow> u8 list" where
  "dec_digits v = (if v = 0 then [48] else snd (put_digits 10 v []))"

definition ring_putdec :: "'m board \<Rightarrow> u32 \<Rightarrow> 'm boot \<Rightarrow> 'm boot" where
  "ring_putdec bd v = ring_puts bd (dec_digits v)"

definition hex_digits :: "u32 \<Rightarrow> u8 list" where
  "hex_digits v =
     bytes_of ''0x'' @ map (\<lambda>i. bytes_of ''0123456789abcdef'' ! unat (drop_bit ((7 - i) * 4) v AND 0xf)) [0..<8]"

definition ring_puthex32 :: "'m board \<Rightarrow> u32 \<Rightarrow> 'm boot \<Rightarrow> 'm boot" where
  "ring_puthex32 bd v = ring_puts bd (hex_digits v)"

text \<open>A literal of the source; \<open>crlf\<close> ends a line.\<close>

abbreviation put_text :: "'m board \<Rightarrow> string \<Rightarrow> 'm boot \<Rightarrow> 'm boot" where
  "put_text bd str \<equiv> ring_puts bd (bytes_of str)"

definition crlf :: string where "crlf = [CHR 0x0D, CHR 0x0A]"

section \<open>Payloads\<close>

definition refuse_magic :: "'m board \<Rightarrow> u32 \<Rightarrow> string \<Rightarrow> u32 \<Rightarrow> 'm boot \<Rightarrow> 'm boot" where
  "refuse_magic bd flash_addr what hmagic s =
     put_text bd ('')'' @ crlf) (ring_puthex32 bd hmagic (put_text bd '' (magic '' (ring_puthex32 bd flash_addr
       (put_text bd '' at '' (put_text bd what (put_text bd ''afboot: no '' s))))))"

definition refuse_length :: "'m board \<Rightarrow> string \<Rightarrow> u32 \<Rightarrow> 'm boot \<Rightarrow> 'm boot" where
  "refuse_length bd what len s =
     put_text bd ('' is implausible'' @ crlf) (ring_putdec bd len (put_text bd '' length ''
       (put_text bd what (put_text bd ''afboot: '' s))))"

definition report_copy :: "'m board \<Rightarrow> string \<Rightarrow> u32 \<Rightarrow> u32 \<Rightarrow> 'm boot \<Rightarrow> 'm boot" where
  "report_copy bd what len ram_addr s =
     put_text bd crlf (ring_puthex32 bd ram_addr (put_text bd '' bytes -> '' (ring_putdec bd len
       (put_text bd '' '' (put_text bd what (put_text bd ''afboot: '' s))))))"

definition copy_payload :: "'m board \<Rightarrow> u32 \<Rightarrow> u32 \<Rightarrow> string \<Rightarrow> 'm boot \<Rightarrow> u32 \<times> 'm boot" where
  "copy_payload bd flash_addr ram_addr what s =
     (let hmagic = rd32 (bd_bus bd) flash_addr (bt_mem s);
          len = rd32 (bd_bus bd) (flash_addr + 4) (bt_mem s)
      in if hmagic \<noteq> PAYLOAD_MAGIC then (0, refuse_magic bd flash_addr what hmagic s)
         else if len = 0 \<or> len > 8 * 1024 * 1024 then (0, refuse_length bd what len s)
         else (len, report_copy bd what len ram_addr
                      (s\<lparr>bt_mem := memcpy (bd_bus bd) ram_addr (flash_addr + 8) (unat len) (bt_mem s)\<rparr>)))"

section \<open>Handover\<close>

text \<open>A bit written as one to the clear registers takes the interrupt's bit away.\<close>

definition nvic_handover_reset :: "nvic \<Rightarrow> nvic" where
  "nvic_handover_reset n = n\<lparr>
     nvic_enabled := fold (\<lambda>i f. f(i := f i AND NOT 0xFFFFFFFF)) [0..<8] (nvic_enabled n),
     nvic_pending := fold (\<lambda>i f. f(i := f i AND NOT 0xFFFFFFFF)) [0..<8] (nvic_pending n),
     nvic_priority := fold (\<lambda>i f. f(i := 0)) [0..<256] (nvic_priority n)\<rparr>"

text \<open>The registers the kernel is entered with.\<close>

record cpu_regs =
  cpu_r0 :: u32
  cpu_r1 :: u32
  cpu_r2 :: u32
  cpu_pc :: u32
  cpu_primask :: bool

definition enter_kernel :: "u32 \<Rightarrow> u32 \<Rightarrow> cpu_regs" where
  "enter_kernel entry dtb = \<lparr>cpu_r0 = 0, cpu_r1 = NOT 0, cpu_r2 = dtb, cpu_pc = entry OR 1, cpu_primask = False\<rparr>"

text \<open>Whether the request was there, in which case the ROM's USB bootloader is entered.\<close>

definition check_bootsel_request :: "'m bus \<Rightarrow> 'm boot \<Rightarrow> bool \<times> 'm boot" where
  "check_bootsel_request bus s =
     (if rd32 bus BOOTSEL_REQUEST_ADDR (bt_mem s) \<noteq> BOOTSEL_REQUEST_MAGIC then (False, s)
      else (True, s\<lparr>bt_mem := wr32 bus BOOTSEL_REQUEST_ADDR 0 (bt_mem s)\<rparr>))"

text \<open>\<open>for (i = 0; i < n && waiting; i++) sleep_ms(...)\<close>\<close>

primrec wait_turns :: "'m board \<Rightarrow> (core1 \<Rightarrow> bool) \<Rightarrow> nat \<Rightarrow> 'm boot \<Rightarrow> 'm boot" where
  "wait_turns bd waiting 0 s = s"
| "wait_turns bd waiting (Suc n) s =
     (if waiting (bt_core s) then wait_turns bd waiting n (core1_turn bd s) else s)"

definition frank_core1_usb_start :: "'m boot \<Rightarrow> 'm boot" where
  "frank_core1_usb_start s =
     s\<lparr>bt_core := (bt_core s)\<lparr>shared := frank_ring_init (shared (bt_core s))\<rparr>\<rparr>"

definition report_board :: "'m board \<Rightarrow> u32 \<Rightarrow> 'm boot \<Rightarrow> 'm boot" where
  "report_board bd ps_bytes s =
     (let s = put_text bd (crlf @ ''=== afboot-rp2350 ==='' @ crlf) s;
          d = bt_timing s AND 0xFF;
          s = ring_putdec bd (bd_clk_sys bd div 1000000) (put_text bd ''afboot: sys_clk '' s);
          s = put_text bd '' MHz, flash '' s;
          s = ring_putdec bd (if d \<noteq> 0 then bd_clk_sys bd div d div 1000000 else 0) s;
          s = put_text bd ('' MHz'' @ crlf) s;
          s = ring_putdec bd (ps_bytes div (1024 * 1024)) (put_text bd ''afboot: PSRAM '' s);
          s = ring_puthex32 bd PSRAM_BASE (put_text bd '' MB at '' s)
      in put_text bd crlf s)"

definition bswap32 :: "u32 \<Rightarrow> u32" where
  "bswap32 v = un_le32 (rev (le32 v))"

definition check_dtb :: "'m board \<Rightarrow> 'm boot \<Rightarrow> 'm boot" where
  "check_dtb bd s =
     (let m = bswap32 (rd32 (bd_bus bd) RAM_DTB_ADDR (bt_mem s))
      in if m \<noteq> FDT_MAGIC then
           put_text bd crlf (ring_puthex32 bd FDT_MAGIC (put_text bd '' not '' (ring_puthex32 bd m
             (put_text bd ''afboot: warning, DTB magic is '' s))))
         else s)"

definition hand_over :: "'m board \<Rightarrow> 'm boot \<Rightarrow> 'm boot" where
  "hand_over bd s =
     (let s = ring_puthex32 bd RAM_KERNEL_ADDR (put_text bd ''afboot: entry '' s);
          s = ring_puthex32 bd RAM_DTB_ADDR (put_text bd '', dtb '' s);
          s = put_text bd ('' -- starting Linux'' @ crlf) s;
          s = s\<lparr>bt_link := True\<rparr>;
          s = wait_turns bd (\<lambda>c. blk_capacity (blk (shared c)) = 0) 200 s;
          s = put_text bd ''afboot: link capacity '' s;
          s = ring_putdec bd (blk_capacity (blk (shared (bt_core s)))) s;
          s = put_text bd ('' sectors'' @ crlf) s;
          s = core1_turn bd s
      in s\<lparr>bt_nvic := nvic_handover_reset (bt_nvic s)\<rparr>)"

text \<open>How the loader ends: in the ROM, halted for want of memory or of a kernel, or in the kernel.\<close>

datatype boot_end = Bootrom | NoPsram | NoKernel | Kernel cpu_regs

definition start_kernel :: "'m board \<Rightarrow> 'm boot \<Rightarrow> boot_end \<times> 'm boot" where
  "start_kernel bd s =
     (case copy_payload bd FLASH_DTB_ADDR RAM_DTB_ADDR ''dtb'' s of (dtb_len, s) \<Rightarrow>
      case copy_payload bd FLASH_KERNEL_ADDR RAM_KERNEL_ADDR ''kernel'' s of (kern_len, s) \<Rightarrow>
        let s = (if dtb_len \<noteq> 0 then check_dtb bd s else s)
        in if kern_len = 0 then (NoKernel, put_text bd (''afboot: no kernel to start; halting'' @ crlf) s)
           else (Kernel (enter_kernel RAM_KERNEL_ADDR RAM_DTB_ADDR), hand_over bd s))"

definition loader_main :: "'m board \<Rightarrow> 'm boot \<Rightarrow> boot_end \<times> 'm boot" where
  "loader_main bd s =
     (case check_bootsel_request (bd_bus bd) s of (boot, s) \<Rightarrow>
        if boot then (Bootrom, s)
        else let s = clocks_bringup bd s;
                 s = s\<lparr>bt_mem := psram_up bd (bt_mem s)\<rparr>
             in case psram_probe_bytes (bd_bus bd) (bt_mem s) of (ps_bytes, m) \<Rightarrow>
               let s = frank_core1_usb_start (s\<lparr>bt_mem := m\<rparr>);
                   s = wait_turns bd (\<lambda>c. \<not> frank_console_ready c) 1000 s;
                   s = report_board bd ps_bytes s
               in if ps_bytes = 0 then (NoPsram, put_text bd (''afboot: no PSRAM, cannot continue'' @ crlf) s)
                  else start_kernel bd s)"

end
