(* ===== verification/LoaderProps.thy ===== *)
theory LoaderProps
  imports Loader
begin

text \<open>
  What the loader does: it finds the size of the PSRAM, copies the two payloads and hands the
  machine to the kernel as the kernel expects it, whatever core 1 does meanwhile.
\<close>

section \<open>What the console leaves alone\<close>

lemma turn_frame [simp]:
  "bt_mem (core1_turn bd s) = bt_mem s" "bt_link (core1_turn bd s) = bt_link s"
  "bt_timing (core1_turn bd s) = bt_timing s" "bt_nvic (core1_turn bd s) = bt_nvic s"
  by (simp_all add: core1_turn_def)

lemma puts_frame [simp]:
  "bt_mem (ring_puts bd str s) = bt_mem s" "bt_link (ring_puts bd str s) = bt_link s"
  "bt_timing (ring_puts bd str s) = bt_timing s" "bt_nvic (ring_puts bd str s) = bt_nvic s"
  by (simp_all add: ring_puts_def Let_def)

lemmas put_defs = ring_putdec_def ring_puthex32_def

lemma wait_frame [simp]:
  "bt_mem (wait_turns bd w n s) = bt_mem s" "bt_link (wait_turns bd w n s) = bt_link s"
  "bt_timing (wait_turns bd w n s) = bt_timing s" "bt_nvic (wait_turns bd w n s) = bt_nvic s"
  by (induction n arbitrary: s) simp_all

lemma report_frame [simp]:
  "bt_mem (report_board bd v s) = bt_mem s" "bt_mem (check_dtb bd s) = bt_mem s"
  "bt_mem (hand_over bd s) = bt_mem s" "bt_link (hand_over bd s)" "bt_link (check_dtb bd s) = bt_link s"
  "bt_mem (refuse_magic bd a what x s) = bt_mem s" "bt_mem (refuse_length bd what v s) = bt_mem s"
  "bt_mem (report_copy bd what v a s) = bt_mem s"
  "bt_nvic (report_board bd v s) = bt_nvic s" "bt_nvic (check_dtb bd s) = bt_nvic s"
  "bt_nvic (hand_over bd s) = nvic_handover_reset (bt_nvic s)"
  "bt_nvic (report_copy bd what v a s) = bt_nvic s" "bt_nvic (refuse_magic bd a what x s) = bt_nvic s"
  "bt_nvic (refuse_length bd what v s) = bt_nvic s"
  by (simp_all add: report_board_def check_dtb_def hand_over_def refuse_magic_def refuse_length_def
      report_copy_def put_defs Let_def)

section \<open>A PSRAM chip\<close>

text \<open>
  A chip of \<open>n\<close> bytes answers in both of its 16 MB windows, where it repeats itself; it shares
  no bytes with the flash.
\<close>

definition psram_window :: "u32 \<Rightarrow> bool" where
  "psram_window w \<longleftrightarrow> w = PSRAM_BASE \<or> w = PSRAM_NOCACHE_BASE"

definition ram_chip :: "'m bus \<Rightarrow> nat \<Rightarrow> ('m \<Rightarrow> u8 arr) \<Rightarrow> bool" where
  "ram_chip bus n view \<longleftrightarrow>
     (\<forall>w a m. psram_window w \<longrightarrow> a < 2 ^ 24 \<longrightarrow> bus_get bus (w + of_nat a) m = view m (a mod n)) \<and>
     (\<forall>w a v m. psram_window w \<longrightarrow> a < 2 ^ 24 \<longrightarrow> view (bus_set bus (w + of_nat a) v m) = (view m)(a mod n := v)) \<and>
     (\<forall>w a b v m. psram_window w \<longrightarrow> a < 2 ^ 24 \<longrightarrow> b < 2 ^ 24 \<longrightarrow>
        bus_get bus (FLASH_BASE + of_nat b) (bus_set bus (w + of_nat a) v m) = bus_get bus (FLASH_BASE + of_nat b) m)"

lemma chip_get: "ram_chip bus n view \<Longrightarrow> psram_window w \<Longrightarrow> a < 2 ^ 24 \<Longrightarrow> bus_get bus (w + of_nat a) m = view m (a mod n)"
  by (simp add: ram_chip_def)

lemma chip_set: "ram_chip bus n view \<Longrightarrow> psram_window w \<Longrightarrow> a < 2 ^ 24 \<Longrightarrow>
    view (bus_set bus (w + of_nat a) v m) = (view m)(a mod n := v)"
  by (simp add: ram_chip_def)

definition flash_of :: "'m bus \<Rightarrow> 'm \<Rightarrow> u8 arr" where
  "flash_of bus m b = bus_get bus (FLASH_BASE + of_nat (b mod 2 ^ 24)) m"

lemma chip_flash: "ram_chip bus n view \<Longrightarrow> psram_window w \<Longrightarrow> a < 2 ^ 24 \<Longrightarrow>
    flash_of bus (bus_set bus (w + of_nat a) v m) = flash_of bus m"
  by (simp add: ram_chip_def flash_of_def fun_eq_iff)

lemma word_in_chip: "4 dvd a \<Longrightarrow> 4 dvd (n :: nat) \<Longrightarrow> 0 < n \<Longrightarrow> i < 4 \<Longrightarrow> (a + i) mod n = a mod n + i"
proof -
  assume a: "4 dvd a" "4 dvd n" "0 < n" "i < 4"
  have "4 dvd a mod n" using a(1,2) by (simp add: dvd_mod)
  moreover have "a mod n < n" using a(3) by simp
  ultimately have "a mod n + 4 \<le> n" using a(2) by (auto elim!: dvdE)
  then have "(a mod n + i) mod n = a mod n + i" using a(4) by simp
  then show ?thesis by (simp add: mod_add_left_eq)
qed

lemma chip_rd32:
  assumes "ram_chip bus n view" "psram_window w" "a + 4 \<le> 2 ^ 24" "4 dvd a" "4 dvd n" "0 < n"
  shows "rd32 bus (w + of_nat a) m = un_le32 (mem_get (a mod n) 4 (view m))"
proof -
  have "map (\<lambda>i. bus_get bus (w + of_nat a + of_nat i) m) [0..<4] = mem_get (a mod n) 4 (view m)"
    using assms chip_get [OF assms(1,2), of "a + i" m for i] word_in_chip [OF assms(4-6)]
    by (intro nth_equalityI) (auto simp: mem_get_def algebra_simps)
  then show ?thesis by (simp add: rd32_def)
qed

lemma chip_wr32:
  assumes "ram_chip bus n view" "psram_window w" "a + 4 \<le> 2 ^ 24" "4 dvd a" "4 dvd n" "0 < n"
  shows "view (wr32 bus (w + of_nat a) v m) = mem_put (a mod n) (le32 v) (view m)"
    and "flash_of bus (wr32 bus (w + of_nat a) v m) = flash_of bus m"
proof -
  have "view (fold (\<lambda>i m. bus_set bus (w + of_nat a + of_nat i) (le32 v ! i) m) [0..<k] m) =
      mem_put (a mod n) (take k (le32 v)) (view m) \<and>
      flash_of bus (fold (\<lambda>i m. bus_set bus (w + of_nat a + of_nat i) (le32 v ! i) m) [0..<k] m) = flash_of bus m"
    if "k \<le> 4" for k
    using that
  proof (induction k)
    case 0
    then show ?case by (auto simp: mem_put_def fun_eq_iff)
  next
    case (Suc k)
    let ?m = "fold (\<lambda>i m. bus_set bus (w + of_nat a + of_nat i) (le32 v ! i) m) [0..<k] m"
    have at: "w + of_nat a + of_nat k = w + of_nat (a + k)" by simp
    have lt: "a + k < 2 ^ 24" using Suc.prems assms(3) by simp
    have "view (bus_set bus (w + of_nat (a + k)) (le32 v ! k) ?m) = (view ?m)(a mod n + k := le32 v ! k)"
      using chip_set [OF assms(1,2) lt] word_in_chip [OF assms(4-6), of k] Suc.prems by simp
    moreover have "(mem_put (a mod n) (take k (le32 v)) (view m))(a mod n + k := le32 v ! k) =
        mem_put (a mod n) (take (Suc k) (le32 v)) (view m)"
      using Suc.prems by (auto simp: mem_put_def fun_eq_iff nth_append take_Suc_conv_app_nth less_Suc_eq)
    ultimately show ?case
      using Suc chip_flash [OF assms(1,2) lt, of "le32 v ! k" ?m] by (simp add: at del: of_nat_add)
  qed
  from this [of 4] show "view (wr32 bus (w + of_nat a) v m) = mem_put (a mod n) (le32 v) (view m)"
    "flash_of bus (wr32 bus (w + of_nat a) v m) = flash_of bus m"
    by (simp_all add: wr32_def)
qed

lemma le32_un_le32: "length bs = 4 \<Longrightarrow> le32 (un_le32 bs) = bs"
proof -
  assume "length bs = 4"
  then obtain a b c d where bs: "bs = [a, b, c, d]" by (auto simp: numeral_eq_Suc length_Suc_conv)
  have "ucast (un_le32 bs) = a" "ucast (drop_bit 8 (un_le32 bs)) = b"
    "ucast (drop_bit 16 (un_le32 bs)) = c" "ucast (drop_bit 24 (un_le32 bs)) = d"
    by (rule bit_word_eqI, auto simp: bs un_le32_def bit_simps dest: bit_imp_le_length)+
  then show ?thesis by (simp add: le32_def bs)
qed

lemma mem_put_get [simp]: "mem_put p (mem_get p n f) f = f"
  by (auto simp: mem_put_def mem_get_def fun_eq_iff)

lemma mem_put_put [simp]: "length bs = length cs \<Longrightarrow> mem_put p bs (mem_put p cs f) = mem_put p bs f"
  by (auto simp: mem_put_def fun_eq_iff)


section \<open>The probe\<close>

abbreviation marker :: u32 where "marker \<equiv> 0x5AA51234"

lemma nocache_window: "psram_window PSRAM_NOCACHE_BASE" and base_window: "psram_window PSRAM_BASE"
  by (simp_all add: psram_window_def)

lemma probe_step:
  assumes chip: "ram_chip bus n view" and n: "4 dvd n" "4 \<le> n"
    and sz: "sz = of_nat a" "a + 4 \<le> 2 ^ 24" "4 dvd a" "a mod n = 0 \<or> 4 \<le> a mod n"
    and m: "mem_get 0 4 (view m) = le32 marker"
  obtains m' where "view m' = view m" "flash_of bus m' = flash_of bus m"
    "psram_probe_sizes bus (sz # szs) m = (if a mod n = 0 then (sz, m') else psram_probe_sizes bus szs m')"
proof -
  let ?B = PSRAM_NOCACHE_BASE
  have n0: "0 < n" using n(2) by simp
  note rd = chip_rd32 [OF chip nocache_window _ _ n(1) n0] and wr = chip_wr32 [OF chip nocache_window _ _ n(1) n0]
  have rd0: "rd32 bus ?B m1 = un_le32 (mem_get 0 4 (view m1))"
    and wr0: "view (wr32 bus ?B v m1) = mem_put 0 (le32 v) (view m1)" "flash_of bus (wr32 bus ?B v m1) = flash_of bus m1"
    for m1 v
    using rd [of 0 m1] wr [of 0 v m1] by simp_all
  let ?saved = "rd32 bus (?B + of_nat a) m"
  let ?m1 = "wr32 bus (?B + of_nat a) (NOT marker) m"
  let ?m3 = "wr32 bus ?B marker (wr32 bus (?B + of_nat a) ?saved ?m1)"
  have saved: "le32 ?saved = mem_get (a mod n) 4 (view m)"
    using rd [OF sz(2,3)] by (simp add: le32_un_le32)
  have v1: "view ?m1 = mem_put (a mod n) (le32 (NOT marker)) (view m)" using wr(1) [OF sz(2,3)] .
  have v3: "view ?m3 = view m"
    using wr0 wr(1) [OF sz(2,3)] v1 saved m by (metis length_le32 mem_put_get mem_put_put)
  have f3: "flash_of bus ?m3 = flash_of bus m"
    using wr0 wr(2) [OF sz(2,3)] by simp
  have "rd32 bus ?B ?m1 \<noteq> marker \<longleftrightarrow> a mod n = 0"
  proof (cases "a mod n = 0")
    case True
    then have "rd32 bus ?B ?m1 = NOT marker" unfolding rd0 v1 by (simp add: mem_get_put_same)
    then show ?thesis using True by simp
  next
    case False
    then have "mem_get 0 4 (view ?m1) = mem_get 0 4 (view m)"
      unfolding v1 using sz(4) by (auto simp: mem_get_def mem_put_def)
    then show ?thesis using False m rd0 [of ?m1] by simp
  qed
  then show thesis
    using that [OF v3 f3] by (simp add: sz(1) Let_def)
qed

lemma probe_loop:
  assumes chip: "ram_chip bus (2 ^ k) view" and k: "10 \<le> k" "k < 24" and "mem_get 0 4 (view m) = le32 marker" "j \<le> k - 10"
  shows "\<exists>m'. psram_probe_sizes bus (map (\<lambda>i. push_bit i 1024) [j..<15]) m = (of_nat (2 ^ k), m') \<and>
    view m' = view m \<and> flash_of bus m' = flash_of bus m"
  using assms(4,5)
proof (induction "k - 10 - j" arbitrary: j m)
  case 0
  then have j: "j + 10 = k" using k(1) by simp
  have "[j..<15] = j # [Suc j..<15]" using j k by (simp add: upt_conv_Cons)
  moreover have "(push_bit j 1024 :: u32) = of_nat (2 ^ k)" by (simp add: push_bit_eq_mult j [symmetric] power_add)
  moreover have "(4::nat) dvd 2 ^ k" using k by (intro le_imp_power_dvd [of 2 k 2, simplified]) simp
  moreover have "(2::nat) ^ k \<le> 2 ^ 23" using k by (intro power_increasing) simp_all
  moreover have "(2::nat) ^ 10 \<le> 2 ^ k" using k by (intro power_increasing) simp_all
  ultimately show ?case
    using probe_step [OF chip _ _ _ _ _ _ 0(2), of "of_nat (2 ^ k)" "2 ^ k" "map (\<lambda>i. push_bit i 1024) [Suc j..<15]"]
    by (auto simp del: of_nat_power)
next
  case (Suc d)
  then have j: "j + 10 < k" using k(1) by simp
  have l: "[j..<15] = j # [Suc j..<15]" using j k by (simp add: upt_conv_Cons)
  have p: "(push_bit j 1024 :: u32) = of_nat (2 ^ (j + 10))" by (simp add: push_bit_eq_mult power_add)
  have lt: "(2::nat) ^ (j + 10) < 2 ^ k" using j by simp
  have b: "(2::nat) ^ (j + 10) \<le> 2 ^ 23" "(2::nat) ^ 10 \<le> 2 ^ (j + 10)" "(2::nat) ^ 10 \<le> 2 ^ k"
    using j k power_increasing [of "j + 10" 23 "2 :: nat"] power_increasing [of 10 "j + 10" "2 :: nat"]
      power_increasing [of 10 k "2 :: nat"] by simp_all
  have d: "(4::nat) dvd 2 ^ k" "(4::nat) dvd 2 ^ (j + 10)"
    using k by (auto intro!: le_imp_power_dvd [of 2 _ 2, simplified])
  obtain m' where m': "view m' = view m" "flash_of bus m' = flash_of bus m"
    "psram_probe_sizes bus (push_bit j 1024 # map (\<lambda>i. push_bit i 1024) [Suc j..<15]) m =
       psram_probe_sizes bus (map (\<lambda>i. push_bit i 1024) [Suc j..<15]) m'"
    by (rule probe_step [OF chip d(1) _ p _ d(2) _ Suc.prems(1), of "map (\<lambda>i. push_bit i 1024) [Suc j..<15]"])
      (use b lt in \<open>auto simp: mod_less [OF lt] intro: order_trans [OF _ b(3)]\<close>)
  have "d = k - 10 - Suc j" using Suc.hyps(2) by simp
  from Suc.hyps(1) [OF this, of m'] show ?case
    using m' Suc.prems j by (auto simp: l)
qed

lemma probe_finds_size:
  assumes "ram_chip bus (2 ^ k) view" "10 \<le> k" "k < 24"
  shows "\<exists>m'. psram_probe_bytes bus m = (of_nat (2 ^ k), m') \<and>
    view m' = mem_put 0 (le32 0x5AA51234) (view m) \<and> flash_of bus m' = flash_of bus m"
proof -
  have d: "(4::nat) dvd 2 ^ k" using assms(2) by (intro le_imp_power_dvd [of 2 _ 2, simplified]) simp
  let ?m = "wr32 bus PSRAM_NOCACHE_BASE marker m"
  have w: "view ?m = mem_put 0 (le32 marker) (view m)" "flash_of bus ?m = flash_of bus m"
    using chip_wr32 [OF assms(1) nocache_window, of 0 marker m] d by simp_all
  have "rd32 bus PSRAM_NOCACHE_BASE ?m = un_le32 (mem_get 0 4 (view ?m))"
    using chip_rd32 [OF assms(1) nocache_window, of 0 ?m] d by simp
  then have r: "rd32 bus PSRAM_NOCACHE_BASE ?m = marker" by (simp add: w mem_get_put_same)
  have "mem_get 0 4 (view ?m) = le32 marker" by (simp add: w mem_get_put_same)
  from probe_loop [OF assms this, of 0] show ?thesis
    using r w by (simp add: psram_probe_bytes_def Let_def)
qed

section \<open>Payloads\<close>

text \<open>A header word and its data in flash, below 16 MB.\<close>

definition payload_at :: "u8 arr \<Rightarrow> nat \<Rightarrow> u8 list \<Rightarrow> bool" where
  "payload_at f off bs \<longleftrightarrow>
     mem_get off 4 f = le32 PAYLOAD_MAGIC \<and> mem_get (off + 4) 4 f = le32 (of_nat (length bs)) \<and>
     mem_get (off + 8) (length bs) f = bs \<and> 0 < length bs \<and> length bs \<le> 8 * 1024 * 1024 \<and> off + 8 + length bs \<le> 2 ^ 24"

lemma flash_at: "off + k < 2 ^ 24 \<Longrightarrow> bus_get bus (FLASH_BASE + of_nat off + of_nat k) m = flash_of bus m (off + k)"
  by (simp add: flash_of_def add.assoc)

lemma flash_rd32: "off + 4 \<le> 2 ^ 24 \<Longrightarrow> rd32 bus (FLASH_BASE + of_nat off) m = un_le32 (mem_get off 4 (flash_of bus m))"
proof -
  assume o: "off + 4 \<le> 2 ^ 24"
  have "map (\<lambda>i. bus_get bus (FLASH_BASE + of_nat off + of_nat i) m) [0..<4] = mem_get off 4 (flash_of bus m)"
    using o by (intro nth_equalityI) (auto simp: mem_get_def flash_of_def algebra_simps)
  then show ?thesis by (simp add: rd32_def)
qed

lemma chip_memcpy:
  assumes chip: "ram_chip bus n view" and le: "d + len \<le> n" "n \<le> 2 ^ 24" "off + len \<le> 2 ^ 24"
  shows "view (memcpy bus (PSRAM_BASE + of_nat d) (FLASH_BASE + of_nat off) len m) =
      mem_put d (mem_get off len (flash_of bus m)) (view m)"
    and "flash_of bus (memcpy bus (PSRAM_BASE + of_nat d) (FLASH_BASE + of_nat off) len m) = flash_of bus m"
proof -
  let ?f = "\<lambda>i m. bus_set bus (PSRAM_BASE + of_nat d + of_nat i) (bus_get bus (FLASH_BASE + of_nat off + of_nat i) m) m"
  have "view (fold ?f [0..<k] m) = mem_put d (mem_get off k (flash_of bus m)) (view m) \<and>
      flash_of bus (fold ?f [0..<k] m) = flash_of bus m" if "k \<le> len" for k
    using that
  proof (induction k)
    case 0
    then show ?case by (auto simp: mem_put_def mem_get_def fun_eq_iff)
  next
    case (Suc k)
    let ?m = "fold ?f [0..<k] m"
    have lt: "d + k < 2 ^ 24" "d + k < n" "off + k < 2 ^ 24" using Suc.prems le by simp_all
    have "flash_of bus ?m = flash_of bus m" using Suc by simp
    then have b: "bus_get bus (FLASH_BASE + of_nat off + of_nat k) ?m = flash_of bus m (off + k)"
      using flash_at [OF lt(3), of bus ?m] by simp
    have at: "PSRAM_BASE + of_nat d + of_nat k = PSRAM_BASE + of_nat (d + k)" by simp
    have "view (?f k ?m) = (view ?m)(d + k := flash_of bus m (off + k))"
      using chip_set [OF chip base_window lt(1)] lt(2) unfolding at b by simp
    moreover have "(mem_put d (mem_get off k (flash_of bus m)) (view m))(d + k := flash_of bus m (off + k)) =
        mem_put d (mem_get off (Suc k) (flash_of bus m)) (view m)"
      by (auto simp: mem_put_def mem_get_def fun_eq_iff nth_append less_Suc_eq)
    moreover have "flash_of bus (?f k ?m) = flash_of bus ?m"
      using chip_flash [OF chip base_window lt(1)] unfolding at by simp
    ultimately show ?case using Suc by simp
  qed
  from this [of len] show "view (memcpy bus (PSRAM_BASE + of_nat d) (FLASH_BASE + of_nat off) len m) =
      mem_put d (mem_get off len (flash_of bus m)) (view m)"
    "flash_of bus (memcpy bus (PSRAM_BASE + of_nat d) (FLASH_BASE + of_nat off) len m) = flash_of bus m"
    by (simp_all add: memcpy_def)
qed

lemma un_le32_get: "mem_get p 4 f = le32 v \<Longrightarrow> un_le32 (mem_get p 4 f) = v"
  using un_le32_le32 [of v "[]"] by simp

lemma payload_copied:
  assumes chip: "ram_chip (bd_bus bd) n view" and p: "payload_at (flash_of (bd_bus bd) (bt_mem s)) off bs"
    and le: "d + length bs \<le> n" "n \<le> 2 ^ 24"
  obtains s' where "copy_payload bd (FLASH_BASE + of_nat off) (PSRAM_BASE + of_nat d) what s = (of_nat (length bs), s')"
    "view (bt_mem s') = mem_put d bs (view (bt_mem s))" "flash_of (bd_bus bd) (bt_mem s') = flash_of (bd_bus bd) (bt_mem s)"
    "bt_nvic s' = bt_nvic s"
proof -
  let ?bus = "bd_bus bd" and ?m = "bt_mem s"
  have p': "mem_get off 4 (flash_of ?bus ?m) = le32 PAYLOAD_MAGIC"
    "mem_get (off + 4) 4 (flash_of ?bus ?m) = le32 (of_nat (length bs))"
    "mem_get (off + 8) (length bs) (flash_of ?bus ?m) = bs" "0 < length bs" "length bs \<le> 8 * 1024 * 1024"
    "off + 8 + length bs \<le> 2 ^ 24"
    using p by (simp_all add: payload_at_def)
  have u: "unat (of_nat (length bs) :: u32) = length bs" using p'(5) by (intro unat_of_nat_small) simp
  then have nz: "(of_nat (length bs) :: u32) \<noteq> 0" using p'(4) by auto
  have small: "\<not> (of_nat (length bs) :: u32) > 8 * 1024 * 1024"
    using p'(5) u by (simp add: word_less_nat_alt)
  have at: "FLASH_BASE + of_nat off + 4 = FLASH_BASE + of_nat (off + 4)"
    "FLASH_BASE + of_nat off + 8 = FLASH_BASE + of_nat (off + 8)" by (simp_all add: add.assoc)
  have r: "rd32 ?bus (FLASH_BASE + of_nat off) ?m = PAYLOAD_MAGIC"
    "rd32 ?bus (FLASH_BASE + of_nat off + 4) ?m = of_nat (length bs)"
    unfolding at using flash_rd32 [of off ?bus ?m] flash_rd32 [of "off + 4" ?bus ?m] p'(6)
      un_le32_get [OF p'(1)] un_le32_get [OF p'(2)] by simp_all
  let ?m' = "memcpy ?bus (PSRAM_BASE + of_nat d) (FLASH_BASE + of_nat (off + 8)) (length bs) ?m"
  have "copy_payload bd (FLASH_BASE + of_nat off) (PSRAM_BASE + of_nat d) what s =
      (of_nat (length bs), report_copy bd what (of_nat (length bs)) (PSRAM_BASE + of_nat d) (s\<lparr>bt_mem := ?m'\<rparr>))"
    using nz small unfolding copy_payload_def Let_def r u at(2) by simp
  moreover have "view ?m' = mem_put d bs (view ?m)" "flash_of ?bus ?m' = flash_of ?bus ?m"
    using chip_memcpy [OF chip le, of "off + 8" ?m] p'(3,6) by simp_all
  ultimately show thesis using that by simp
qed

section \<open>The handover\<close>

lemma memcpy_flash:
  assumes "ram_chip bus n view" "d + len \<le> 2 ^ 24"
  shows "flash_of bus (memcpy bus (PSRAM_BASE + of_nat d) src len m) = flash_of bus m"
proof -
  have "flash_of bus (fold (\<lambda>i m. bus_set bus (PSRAM_BASE + of_nat d + of_nat i) (bus_get bus (src + of_nat i) m) m) [0..<k] m) =
      flash_of bus m" if "k \<le> len" for k
    using that
  proof (induction k)
    case (Suc k)
    have "d + k < 2 ^ 24" using Suc.prems assms(2) by simp
    from chip_flash [OF assms(1) base_window this] show ?case using Suc by (simp add: add.assoc)
  qed simp
  then show ?thesis by (simp add: memcpy_def)
qed

lemma copy_keeps_flash:
  assumes "ram_chip (bd_bus bd) n view" "d \<le> 0x8000"
  shows "flash_of (bd_bus bd) (bt_mem (snd (copy_payload bd a (PSRAM_BASE + of_nat d) what s))) = flash_of (bd_bus bd) (bt_mem s)"
proof -
  have "d + unat len \<le> 2 ^ 24" if "\<not> len > (8 * 1024 * 1024 :: u32)" for len
    using that assms(2) by (simp add: word_less_nat_alt)
  then show ?thesis
    using memcpy_flash [OF assms(1)] by (simp add: copy_payload_def Let_def)
qed

lemma copy_frame [simp]:
  "bt_nvic (snd (copy_payload bd a b what s)) = bt_nvic s" "bt_link (snd (copy_payload bd a b what s)) = bt_link s"
  by (simp_all add: copy_payload_def Let_def refuse_magic_def refuse_length_def report_copy_def put_defs)

text \<open>A board with a working PSRAM of 1 kB to 8 MB, whose set-up does not change the flash.\<close>

definition board_ok :: "'m board \<Rightarrow> nat \<Rightarrow> ('m \<Rightarrow> u8 arr) \<Rightarrow> bool" where
  "board_ok bd k view \<longleftrightarrow> ram_chip (bd_bus bd) (2 ^ k) view \<and> 10 \<le> k \<and> k < 24 \<and>
     (\<forall>m. flash_of (bd_bus bd) (psram_up bd m) = flash_of (bd_bus bd) m)"

lemma boot_prefix:
  assumes "board_ok bd k view" "rd32 (bd_bus bd) BOOTSEL_REQUEST_ADDR (bt_mem s) \<noteq> BOOTSEL_REQUEST_MAGIC"
  obtains s1 where "loader_main bd s = start_kernel bd s1" "bt_nvic s1 = bt_nvic s" "bt_link s1 = bt_link s"
    "flash_of (bd_bus bd) (bt_mem s1) = flash_of (bd_bus bd) (bt_mem s)"
proof -
  have b: "ram_chip (bd_bus bd) (2 ^ k) view" "10 \<le> k" "k < 24"
    "flash_of (bd_bus bd) (psram_up bd m) = flash_of (bd_bus bd) m" for m
    using assms(1) by (simp_all add: board_ok_def)
  obtain m' where m': "psram_probe_bytes (bd_bus bd) (psram_up bd (bt_mem s)) = (of_nat (2 ^ k), m')"
    "flash_of (bd_bus bd) m' = flash_of (bd_bus bd) (bt_mem s)"
    using probe_finds_size [OF b(1-3), of "psram_up bd (bt_mem s)"] b(4) by auto
  have "(2::nat) ^ k < 2 ^ 32" using b(3) by (intro power_strict_increasing) simp_all
  then have "unat (of_nat (2 ^ k) :: u32) = 2 ^ k" by (intro unat_of_nat_small) simp
  then have "(of_nat (2 ^ k) :: u32) \<noteq> 0" by (metis power_not_zero unat_0 zero_neq_numeral)
  then show thesis
    using assms(2) m' that
    by (simp add: loader_main_def check_bootsel_request_def clocks_bringup_def frank_core1_usb_start_def Let_def
        report_board_def put_defs del: of_nat_power)
qed

text \<open>Interrupts: none enabled, none pending, every priority 0.\<close>

definition nvic_clean :: "nvic \<Rightarrow> bool" where
  "nvic_clean n \<longleftrightarrow> (\<forall>i<8. nvic_enabled n i = 0 \<and> nvic_pending n i = 0) \<and> (\<forall>i<256. nvic_priority n i = 0)"

lemma all_clear: "(- 4294967296 :: u32) = 0"
proof -
  have "(2 :: u32) ^ LENGTH(32) = 0" by (rule word_exp_length_eq_0)
  then have "(4294967296 :: u32) = 0" by simp
  then show ?thesis by (metis neg_0_equal_iff_equal)
qed

lemma fold_clear: "fold (\<lambda>i f. f(i := f i AND - 4294967296)) [0..<k] f i = (if i < k then 0 else (f i :: u32))"
  by (induction k) (auto simp: less_Suc_eq all_clear)

lemma nvic_reset_clean: "nvic_clean (nvic_handover_reset n)"
proof -
  have "fold (\<lambda>i f. f(i := 0)) [0..<k] f i = (if i < k then 0 else f i)" for k i :: nat and f :: "u8 arr"
    by (induction k) (auto simp: less_Suc_eq)
  then show ?thesis using fold_clear by (simp add: nvic_clean_def nvic_handover_reset_def del: upt_Suc)
qed

text \<open>The loader's two copies, of payloads of any sizes that fit.\<close>

lemma loader_boots:
  assumes "board_ok bd k view" "rd32 (bd_bus bd) BOOTSEL_REQUEST_ADDR (bt_mem s) \<noteq> BOOTSEL_REQUEST_MAGIC"
    "payload_at (flash_of (bd_bus bd) (bt_mem s)) 0xF0000 dtb" "payload_at (flash_of (bd_bus bd) (bt_mem s)) 0x100000 kern"
    "length dtb \<le> 2 ^ k" "0x8000 + length kern \<le> 2 ^ k"
  obtains s' f where "loader_main bd s = (Kernel (enter_kernel RAM_KERNEL_ADDR RAM_DTB_ADDR), s')"
    "view (bt_mem s') = mem_put 0x8000 kern (mem_put 0 dtb f)" "bt_link s'" "nvic_clean (bt_nvic s')"
proof -
  let ?bus = "bd_bus bd"
  obtain s1 where s1: "loader_main bd s = start_kernel bd s1" "bt_nvic s1 = bt_nvic s" "bt_link s1 = bt_link s"
    "flash_of ?bus (bt_mem s1) = flash_of ?bus (bt_mem s)"
    by (rule boot_prefix [OF assms(1,2)])
  have chip: "ram_chip ?bus (2 ^ k) view" and "k < 24" using assms(1) by (simp_all add: board_ok_def)
  then have k: "(2::nat) ^ k \<le> 2 ^ 24" by (intro power_increasing) simp_all
  have at: "FLASH_DTB_ADDR = FLASH_BASE + of_nat 0xF0000" "RAM_DTB_ADDR = PSRAM_BASE + of_nat 0"
    "FLASH_KERNEL_ADDR = FLASH_BASE + of_nat 0x100000" "RAM_KERNEL_ADDR = PSRAM_BASE + of_nat 0x8000"
    by (simp_all add: boot_addrs)
  have p1: "payload_at (flash_of ?bus (bt_mem s1)) 0xF0000 dtb" using assms(3) by (simp only: s1(4))
  obtain s2 where s2: "copy_payload bd FLASH_DTB_ADDR RAM_DTB_ADDR ''dtb'' s1 = (of_nat (length dtb), s2)"
    "view (bt_mem s2) = mem_put 0 dtb (view (bt_mem s1))" "flash_of ?bus (bt_mem s2) = flash_of ?bus (bt_mem s1)"
    unfolding at by (rule payload_copied [OF chip p1, of 0, OF _ k]) (use assms(5) in simp_all)
  have p2: "payload_at (flash_of ?bus (bt_mem s2)) 0x100000 kern" using assms(4) by (simp only: s1(4) s2(3))
  obtain s3 where s3: "copy_payload bd FLASH_KERNEL_ADDR RAM_KERNEL_ADDR ''kernel'' s2 = (of_nat (length kern), s3)"
    "view (bt_mem s3) = mem_put 0x8000 kern (view (bt_mem s2))"
    unfolding at by (rule payload_copied [OF chip p2 assms(6) k]) simp
  have "0 < length kern" "unat (of_nat (length kern) :: u32) = length kern"
    using assms(4) by (auto simp: payload_at_def intro!: unat_of_nat_small)
  then have "(of_nat (length kern) :: u32) \<noteq> 0" by auto
  let ?s = "hand_over bd (if of_nat (length dtb) \<noteq> (0 :: u32) then check_dtb bd s3 else s3)"
  have "loader_main bd s = (Kernel (enter_kernel RAM_KERNEL_ADDR RAM_DTB_ADDR), ?s)"
    using \<open>(of_nat (length kern) :: u32) \<noteq> 0\<close> s1(1) s2(1) s3(1) by (simp add: start_kernel_def Let_def)
  moreover have "view (bt_mem ?s) = mem_put 0x8000 kern (mem_put 0 dtb (view (bt_mem s1)))"
    using s2(2) s3(2) by simp
  ultimately show thesis by (rule that) (simp_all add: nvic_reset_clean)
qed

section \<open>A simulated board\<close>

text \<open>Flash and a PSRAM chip of 64 kB; all other addresses read zero.\<close>

definition in_psram :: "nat \<Rightarrow> bool" where
  "in_psram n \<longleftrightarrow> 0x11000000 \<le> n \<and> n < 0x12000000 \<or> 0x15000000 \<le> n \<and> n < 0x16000000"

definition demo_bus :: "(u8 arr \<times> u8 arr) bus" where
  "demo_bus = \<lparr>
     bus_get = (\<lambda>a (f, r). let n = unat a
       in if in_psram n then r (n mod 2 ^ 24 mod 2 ^ 16)
          else if 0x10000000 \<le> n \<and> n < 0x11000000 then f (n mod 2 ^ 24) else 0),
     bus_set = (\<lambda>a v (f, r). let n = unat a
       in if in_psram n then (f, r(n mod 2 ^ 24 mod 2 ^ 16 := v)) else (f, r))\<rparr>"

lemma window_mod:
  assumes "(a :: nat) < 2 ^ 24"
  shows "(0x10000000 + a) mod 2 ^ 24 = a" "(0x11000000 + a) mod 2 ^ 24 = a" "(0x15000000 + a) mod 2 ^ 24 = a"
  using assms mod_mult_self1 [of a 16 "2 ^ 24"] mod_mult_self1 [of a 17 "2 ^ 24"] mod_mult_self1 [of a 21 "2 ^ 24"]
  by (simp_all add: add.commute)

lemma window_unat:
  assumes "a < 2 ^ 24"
  shows "psram_window w \<Longrightarrow> in_psram (unat (w + of_nat a)) \<and> unat (w + of_nat a) mod 2 ^ 24 = a"
    and "unat (FLASH_BASE + of_nat a) = 0x10000000 + a"
proof -
  have u: "unat (of_nat a :: u32) = a" using assms by (intro unat_of_nat_small) simp
  show "unat (FLASH_BASE + of_nat a) = 0x10000000 + a" using assms u by (simp add: boot_addrs unat_word_ariths(1))
  assume "psram_window w"
  then show "in_psram (unat (w + of_nat a)) \<and> unat (w + of_nat a) mod 2 ^ 24 = a"
    using assms u window_mod [OF assms] by (auto simp: psram_window_def boot_addrs unat_word_ariths(1) in_psram_def)
qed

lemma demo_chip: "ram_chip demo_bus (2 ^ 16) snd"
  using window_unat by (auto simp: ram_chip_def demo_bus_def Let_def in_psram_def)

definition demo_flash :: "u8 list \<Rightarrow> u8 list \<Rightarrow> u8 arr" where
  "demo_flash dtb kern =
     mem_put 0xF0000 (le32 PAYLOAD_MAGIC @ le32 (of_nat (length dtb)) @ dtb)
       (mem_put 0x100000 (le32 PAYLOAD_MAGIC @ le32 (of_nat (length kern)) @ kern) (\<lambda>_. 0xFF))"

definition demo_core :: core1 where
  "demo_core = \<lparr>
     shared = \<lparr>magic = 0, version = 0, core1_alive = 0, reserved = 0,
       tx = \<lparr>rhead = 0, rtail = 0, rdata = (\<lambda>_. 0)\<rparr>, rx = \<lparr>rhead = 0, rtail = 0, rdata = (\<lambda>_. 0)\<rparr>,
       blk = \<lparr>blk_seq = 0, blk_done = 0, blk_op = 0, blk_lba = 0, blk_count = 0, blk_addr = 0, blk_status = 0, blk_capacity = 0\<rparr>\<rparr>,
     fan = (\<lambda>_. 0), fan_head = 0, fan_usb_tail = 0, fan_link_tail = 0, dtr_since = 0, reset_itf_num = 0\<rparr>"

definition demo_board :: "(u8 arr \<times> u8 arr) board" where
  "demo_board = \<lparr>bd_bus = demo_bus, bd_cpu_speed = 252, bd_flash_mhz = 66, bd_clk_sys = 252000000,
     bd_psram_mhz = 133, bd_psram_pin = 0, bd_setup = (\<lambda>_ m. m), bd_core1 = (\<lambda>_ c. c)\<rparr>"

definition demo_boot :: "u8 arr \<Rightarrow> (u8 arr \<times> u8 arr) boot" where
  "demo_boot f = \<lparr>bt_mem = (f, \<lambda>_. 0), bt_core = demo_core, bt_link = False, bt_timing = 0,
     bt_nvic = \<lparr>nvic_enabled = (\<lambda>_. 1), nvic_pending = (\<lambda>_. 2), nvic_priority = (\<lambda>_. 0x80)\<rparr>, bt_turn = 0\<rparr>"

lemma demo_board_ok: "board_ok demo_board 16 snd"
  using demo_chip by (simp add: board_ok_def demo_board_def psram_up_def)

lemma demo_no_bootsel: "rd32 (bd_bus demo_board) BOOTSEL_REQUEST_ADDR (bt_mem (demo_boot f)) \<noteq> BOOTSEL_REQUEST_MAGIC"
  by (simp add: demo_board_def demo_boot_def demo_bus_def rd32_def BOOTSEL_REQUEST_ADDR_def BOOTSEL_REQUEST_MAGIC_def
      in_psram_def un_le32_def upt_conv_Cons Let_def)

lemma demo_flash_of: "flash_of (bd_bus demo_board) (bt_mem (demo_boot f)) b = f (b mod 2 ^ 24)"
proof -
  have "b mod 2 ^ 24 < 2 ^ 24" by simp
  then show ?thesis
    using window_unat(2) [of "b mod 2 ^ 24"] window_mod(1) [of "b mod 2 ^ 24"] mod_less_divisor [of "2 ^ 24" b]
    by (auto simp: flash_of_def demo_board_def demo_boot_def demo_bus_def in_psram_def Let_def)
qed

lemma payload_intro:
  assumes "\<And>i. i < 8 + length bs \<Longrightarrow> f (off + i) = (le32 PAYLOAD_MAGIC @ le32 (of_nat (length bs)) @ bs) ! i"
    "0 < length bs" "length bs \<le> 8 * 1024 * 1024" "off + 8 + length bs \<le> 2 ^ 24"
  shows "payload_at f off bs"
proof -
  define h where "h = le32 PAYLOAD_MAGIC @ le32 (of_nat (length bs)) @ bs"
  have len: "length h = 8 + length bs" by (simp add: h_def)
  note at = assms(1) [folded h_def]
  have "mem_get (off + k) n f = take n (drop k h)" if "k + n \<le> 8 + length bs" for k n
    using that at [of "k + i" for i] len by (intro nth_equalityI) (auto simp: mem_get_def add.assoc)
  from this [of 0 4] this [of 4 4] this [of 8 "length bs"] show ?thesis
    using assms(2-4) by (simp add: payload_at_def h_def)
qed

lemma demo_payloads:
  assumes "0 < length dtb" "length dtb \<le> 0xFFF8" "0 < length kern" "length kern \<le> 8 * 1024 * 1024"
  shows "payload_at (flash_of (bd_bus demo_board) (bt_mem (demo_boot (demo_flash dtb kern)))) 0xF0000 dtb"
    and "payload_at (flash_of (bd_bus demo_board) (bt_mem (demo_boot (demo_flash dtb kern)))) 0x100000 kern"
proof -
  have f: "flash_of (bd_bus demo_board) (bt_mem (demo_boot (demo_flash dtb kern))) b = demo_flash dtb kern b" if "b < 2 ^ 24" for b
    using that by (simp add: demo_flash_of)
  show "payload_at (flash_of (bd_bus demo_board) (bt_mem (demo_boot (demo_flash dtb kern)))) 0xF0000 dtb"
    by (rule payload_intro) (use assms in \<open>simp_all add: f\<close>, simp add: demo_flash_def mem_put_def)
  show "payload_at (flash_of (bd_bus demo_board) (bt_mem (demo_boot (demo_flash dtb kern)))) 0x100000 kern"
    by (rule payload_intro) (use assms in \<open>simp_all add: f\<close>, simp add: demo_flash_def mem_put_def)
qed

section \<open>The flash clock\<close>

lemma small_bit: "unat (x :: u32) < 2 ^ k \<Longrightarrow> bit x n \<Longrightarrow> n < k"
proof (rule ccontr)
  assume x: "unat x < 2 ^ k" "bit x n" "\<not> n < k"
  then have "(2::nat) ^ k \<le> 2 ^ n" by (intro power_increasing) simp_all
  then have "unat x < 2 ^ n" using x(1) by linarith
  then have "unat x div 2 ^ n = 0" by (rule div_less)
  moreover have "bit (unat x) n" using x(2) by (simp add: bit_unsigned_iff bit_imp_le_length)
  ultimately show False by (simp add: bit_iff_odd)
qed

lemma timing_fields:
  assumes "unat d < 2 ^ 8" "t = (timing AND NOT (0xFF OR 0x700)) OR (d OR push_bit 8 dly)"
  shows "t AND 0xFF = (d :: u32)"
    and "unat dly < 2 ^ 3 \<Longrightarrow> drop_bit 11 t = drop_bit 11 timing \<and> drop_bit 8 t AND 7 = dly"
proof -
  have m: "(0xFF :: u32) = mask 8" "(7 :: u32) = mask 3" "(0xFF OR 0x700 :: u32) = mask 11" by (simp_all add: mask_eq_exp_minus_1)
  note t = assms(2) [unfolded m(3)] and d = small_bit [OF assms(1)]
  show "t AND 0xFF = d"
    unfolding m t by (rule bit_word_eqI) (auto simp: bit_simps dest: d)
  assume "unat dly < 2 ^ 3"
  note r = small_bit [OF this]
  have "drop_bit 11 t = drop_bit 11 timing"
    unfolding t by (rule bit_word_eqI) (auto simp: bit_simps dest: d r bit_imp_le_length)
  moreover have "drop_bit 8 t AND 7 = dly"
    unfolding m t by (rule bit_word_eqI) (auto simp: bit_simps dest: d r)
  ultimately show "drop_bit 11 t = drop_bit 11 timing \<and> drop_bit 8 t AND 7 = dly" by simp
qed

lemma ceil_div:
  fixes c f M :: nat
  assumes "0 < f" "0 < c" "0 < M" "D = ((c + f) * M - 1) div (f * M)"
  shows "c \<le> D * f" "(D - 1) * f < c" "0 < D"
proof -
  have pos: "0 < f * M" "0 < (c + f) * M" using assms by simp_all
  have "(c + f) * M - 1 < (D + 1) * f * M"
    using dividend_less_div_times [OF pos(1), of "(c + f) * M - 1"] by (simp add: assms(4) algebra_simps)
  then have "(c + f) * M \<le> (D + 1) * f * M" by linarith
  then have le: "c + f \<le> (D + 1) * f" using assms(3) by simp
  then show c: "c \<le> D * f" by simp
  then show D: "0 < D" using assms(2) by (cases D) simp_all
  have "D * f * M \<le> (c + f) * M - 1" using div_times_less_eq_dividend [of "(c + f) * M - 1" "f * M"] by (simp add: assms(4) mult.assoc)
  then have "D * f * M < (c + f) * M" using pos(2) by linarith
  then have "D * f < c + f" using assms(3) by simp
  then show "(D - 1) * f < c" using D by (cases D) simp_all
qed

lemma clkdiv_value:
  assumes "0 < f" "0 < c" "c + f < 4000" "c \<le> 255 * f" "flash_set_clkdiv_boot (of_nat f) (of_nat c * 1000000) timing = (d, t)"
  obtains dly where "c \<le> unat d * f" "(unat d - 1) * f < c" "0 < unat d" "unat d \<le> 255" "dly = d \<or> dly = d + 1"
    "t = (timing AND NOT (0xFF OR 0x700)) OR (d OR push_bit 8 dly)"
proof -
  let ?M = "1000000 :: nat"
  let ?max = "of_nat f * 1000000 :: u32" and ?clk = "of_nat c * 1000000 :: u32"
  have w: "?max = of_nat (f * ?M)" "?clk + ?max - 1 = of_nat ((c + f) * ?M - 1)"
    using assms(1) by (simp_all add: of_nat_diff algebra_simps)
  have u1: "unat (of_nat (f * ?M) :: u32) = f * ?M" by (rule unat_of_nat_small) (use assms(3) in simp)
  have u2: "unat (of_nat ((c + f) * ?M - 1) :: u32) = (c + f) * ?M - 1"
    by (rule unat_of_nat_small) (use assms(3) in simp)
  have u: "unat ?max = f * ?M" "unat (?clk + ?max - 1) = (c + f) * ?M - 1"
    using u1 u2 by (simp_all only: w(1), simp_all only: w(2) [unfolded w(1)])
  let ?d = "(?clk + ?max - 1) div ?max"
  have D: "unat ?d = ((c + f) * ?M - 1) div (f * ?M)" by (simp only: unat_div u)
  have M: "0 < ?M" by simp
  note c = ceil_div [OF assms(1,2) M D]
  have "(unat ?d - 1) * f < 255 * f" using c(2) assms(4) by linarith
  then have "unat ?d - 1 < 255" by (rule mult_less_cancel2 [THEN iffD1, THEN conjunct2])
  then have le: "unat ?d \<le> 255" by linarith
  have "\<not> ?d < 1" "\<not> ?d > 255" using c(3) le by (simp_all add: word_less_nat_alt)
  then have "d = ?d" "\<exists>dly. (dly = d \<or> dly = d + 1) \<and> t = (timing AND NOT (0xFF OR 0x700)) OR (d OR push_bit 8 dly)"
    using assms(5) unfolding flash_set_clkdiv_boot_def Let_def by (auto split: if_splits)
  then show thesis using that c le by blast
qed

section \<open>Numbers\<close>

definition dec_value :: "u8 list \<Rightarrow> nat" where
  "dec_value = foldl (\<lambda>n c. 10 * n + (unat c - 48)) 0"

lemma put_digits_value:
  "unat u < 10 ^ n \<Longrightarrow> \<exists>i ds. put_digits n u acc = (i, ds @ acc) \<and> dec_value ds = unat u \<and>
     length ds \<le> n \<and> (\<forall>c \<in> set ds. 48 \<le> c \<and> c \<le> 57)"
proof (induction n arbitrary: u acc)
  case 0
  then show ?case by (auto simp: dec_value_def)
next
  case (Suc n)
  show ?case
  proof (cases "u = 0")
    case True
    then show ?thesis by (auto simp: dec_value_def)
  next
    case False
    let ?c = "48 + ucast (u mod 10) :: u8"
    have "unat (u div 10) < 10 ^ n" using Suc.prems by (simp add: unat_div less_mult_imp_div_less mult.commute)
    from Suc.IH [OF this, of "?c # acc"] obtain i ds where
      ds: "put_digits n (u div 10) (?c # acc) = (i, ds @ ?c # acc)" "dec_value ds = unat (u div 10)" "length ds \<le> n"
        "\<forall>c \<in> set ds. 48 \<le> c \<and> c \<le> 57" by blast
    have m: "unat (ucast (u mod 10) :: u8) = unat u mod 10"
      by (simp add: unsigned_ucast_eq unat_mod take_bit_nat_eq_self)
    then have c: "unat ?c = 48 + unat u mod 10" by (simp add: unat_word_ariths(1))
    then have "48 \<le> ?c \<and> ?c \<le> 57" by (simp add: word_le_nat_alt)
    moreover have "dec_value (ds @ [?c]) = unat u"
      using ds(2) c by (simp add: dec_value_def unat_div)
    moreover have "put_digits (Suc n) u acc = (i, (ds @ [?c]) @ acc)" using False ds(1) by simp
    ultimately show ?thesis using ds(3,4) by (intro exI [of _ i] exI [of _ "ds @ [?c]"]) auto
  qed
qed

section \<open>Properties\<close>

text \<open>C23: The probe finds the size of the chip: of one with \<open>2^k\<close> bytes, 1 kB to 8 MB, which repeats itself in its
  window, the answer is \<open>2^k\<close>.  It leaves the memory as it was but for the marker in the first
  word: a probed word is put back even where it is an alias of the marker.\<close>

theorem psram_probe_finds_size:
  assumes "ram_chip bus (2 ^ k) view" "10 \<le> k" "k < 24"
  shows "\<exists>m'. psram_probe_bytes bus m = (of_nat (2 ^ k), m') \<and>
    view m' = mem_put 0 (le32 0x5AA51234) (view m) \<and> flash_of bus m' = flash_of bus m"
  by (rule probe_finds_size [OF assms])

theorem psram_probe_finds_size_witness:
  "fst (psram_probe_bytes demo_bus (demo_flash [1] [2], \<lambda>_. 0)) = 65536"
  using psram_probe_finds_size [OF demo_chip, of "(demo_flash [1] [2], \<lambda>_. 0)"] by auto

text \<open>C7: From reset to Linux: with a working PSRAM of \<open>2^k\<close> bytes, a device tree of at most 32 kB and a kernel that
  fits behind it, the loader enters the kernel as the boot protocol wants it (r1 is all ones,
  r2 points to the device tree, interrupts unmasked), both payloads lie byte for byte where the
  kernel looks for them, no interrupt is enabled or pending, every priority is 0, and the link is
  open.  Whatever core 1 does to the shared state meanwhile cannot change that.\<close>

theorem loader_hands_over:
  assumes "board_ok bd k view" "rd32 (bd_bus bd) BOOTSEL_REQUEST_ADDR (bt_mem s) \<noteq> BOOTSEL_REQUEST_MAGIC"
    "payload_at (flash_of (bd_bus bd) (bt_mem s)) 0xF0000 dtb" "payload_at (flash_of (bd_bus bd) (bt_mem s)) 0x100000 kern"
    "length dtb \<le> 0x8000" "0x8000 + length kern \<le> 2 ^ k"
  shows "\<exists>s'. loader_main bd s =
      (Kernel \<lparr>cpu_r0 = 0, cpu_r1 = - 1, cpu_r2 = 0x11000000, cpu_pc = 0x11008001, cpu_primask = False\<rparr>, s') \<and>
    mem_get 0 (length dtb) (view (bt_mem s')) = dtb \<and> mem_get 0x8000 (length kern) (view (bt_mem s')) = kern \<and>
    nvic_clean (bt_nvic s') \<and> bt_link s'"
proof -
  have "length dtb \<le> 2 ^ k" using assms(5,6) by linarith
  from loader_boots [OF assms(1-4) this assms(6)] obtain s' f where
    s': "loader_main bd s = (Kernel (enter_kernel RAM_KERNEL_ADDR RAM_DTB_ADDR), s')"
    "view (bt_mem s') = mem_put 0x8000 kern (mem_put 0 dtb f)" "bt_link s'" "nvic_clean (bt_nvic s')" .
  have "mem_get 0 (length dtb) (view (bt_mem s')) = dtb"
    unfolding s'(2) using assms(5) by (intro nth_equalityI) (auto simp: mem_get_def mem_put_def)
  then show ?thesis using s' by (simp add: enter_kernel_def boot_addrs mem_get_put_same)
qed

theorem loader_hands_over_witness:
  "let s = demo_boot (demo_flash (replicate 4 0xD0) (replicate 30000 7))
   in \<exists>regs s'. loader_main demo_board s = (Kernel regs, s') \<and> cpu_r2 regs = 0x11000000 \<and>
     mem_get 0 4 (snd (bt_mem s')) = replicate 4 0xD0 \<and> nvic_clean (bt_nvic s')"
  using loader_hands_over [OF demo_board_ok demo_no_bootsel demo_payloads, of "replicate 4 0xD0" "replicate 30000 7"]
  by (auto simp: Let_def)

text \<open>A device tree of more than 32 kB passes every check of the loader and is then overwritten from
  byte 32768 on by the kernel, which is entered all the same with a pointer to it.\<close>

theorem long_dtb_is_overwritten:
  assumes "board_ok bd k view" "rd32 (bd_bus bd) BOOTSEL_REQUEST_ADDR (bt_mem s) \<noteq> BOOTSEL_REQUEST_MAGIC"
    "payload_at (flash_of (bd_bus bd) (bt_mem s)) 0xF0000 dtb" "payload_at (flash_of (bd_bus bd) (bt_mem s)) 0x100000 kern"
    "0x8000 + length kern \<le> 2 ^ k" "0x8000 < length dtb" "length dtb \<le> 0x8000 + length kern"
  shows "\<exists>regs s'. loader_main bd s = (Kernel regs, s') \<and> cpu_r2 regs = RAM_DTB_ADDR \<and>
    mem_get 0 (length dtb) (view (bt_mem s')) = take 0x8000 dtb @ take (length dtb - 0x8000) kern"
proof -
  have "length dtb \<le> 2 ^ k" using assms(5,7) by linarith
  from loader_boots [OF assms(1-4) this assms(5)] obtain s' f where
    s': "loader_main bd s = (Kernel (enter_kernel RAM_KERNEL_ADDR RAM_DTB_ADDR), s')"
    "view (bt_mem s') = mem_put 0x8000 kern (mem_put 0 dtb f)" .
  have "mem_get 0 (length dtb) (view (bt_mem s')) = take 0x8000 dtb @ take (length dtb - 0x8000) kern"
    unfolding s'(2) using assms(6,7) by (intro nth_equalityI) (auto simp: mem_get_def mem_put_def nth_append)
  then show ?thesis using s'(1) by (simp add: enter_kernel_def)
qed

theorem long_dtb_is_overwritten_witness:
  "\<exists>regs s'. loader_main demo_board (demo_boot (demo_flash (replicate 32769 1) [9, 9])) = (Kernel regs, s') \<and>
     mem_get 0 32769 (snd (bt_mem s')) = replicate 32768 1 @ [9]"
  using long_dtb_is_overwritten [OF demo_board_ok demo_no_bootsel demo_payloads, of "replicate 32769 1" "[9, 9]"]
  by auto

text \<open>C30: Erased or damaged flash is not started: when the kernel's header has not the magic, or a length of
  zero or above 8 MB, the loader halts with the link closed and the interrupt controller untouched, whatever
  the device tree's header says.\<close>

theorem bad_kernel_is_not_started:
  assumes "board_ok bd k view" "rd32 (bd_bus bd) BOOTSEL_REQUEST_ADDR (bt_mem s) \<noteq> BOOTSEL_REQUEST_MAGIC"
    "un_le32 (mem_get 0x100000 4 (flash_of (bd_bus bd) (bt_mem s))) \<noteq> PAYLOAD_MAGIC \<or>
     un_le32 (mem_get 0x100004 4 (flash_of (bd_bus bd) (bt_mem s))) \<notin> {1 .. 8 * 1024 * 1024}"
  shows "\<exists>s'. loader_main bd s = (NoKernel, s') \<and> bt_link s' = bt_link s \<and> bt_nvic s' = bt_nvic s"
proof -
  let ?bus = "bd_bus bd"
  obtain s1 where s1: "loader_main bd s = start_kernel bd s1" "bt_nvic s1 = bt_nvic s" "bt_link s1 = bt_link s"
    "flash_of ?bus (bt_mem s1) = flash_of ?bus (bt_mem s)"
    by (rule boot_prefix [OF assms(1,2)])
  obtain v s2 where s2: "copy_payload bd FLASH_DTB_ADDR RAM_DTB_ADDR ''dtb'' s1 = (v, s2)" by fastforce
  have chip: "ram_chip ?bus (2 ^ k) view" using assms(1) by (simp add: board_ok_def)
  have d: "RAM_DTB_ADDR = PSRAM_BASE + of_nat 0" by (simp add: RAM_DTB_ADDR_def)
  have f2: "flash_of ?bus (bt_mem s2) = flash_of ?bus (bt_mem s)" "bt_nvic s2 = bt_nvic s" "bt_link s2 = bt_link s"
    using copy_keeps_flash [OF chip, where d = 0 and a = FLASH_DTB_ADDR and what = "''dtb''" and s = s1, folded d] s1 s2
      copy_frame [where bd = bd and a = FLASH_DTB_ADDR and b = RAM_DTB_ADDR and what = "''dtb''" and s = s1] by simp_all
  have r: "rd32 ?bus FLASH_KERNEL_ADDR (bt_mem s2) = un_le32 (mem_get 0x100000 4 (flash_of ?bus (bt_mem s)))"
    "rd32 ?bus (FLASH_KERNEL_ADDR + 4) (bt_mem s2) = un_le32 (mem_get 0x100004 4 (flash_of ?bus (bt_mem s)))"
    using flash_rd32 [where off = "0x100000" and bus = ?bus and m = "bt_mem s2"]
      flash_rd32 [where off = "0x100004" and bus = ?bus and m = "bt_mem s2"]
    by (simp_all add: f2 boot_addrs)
  have out: "l = 0 \<or> l > 8 * 1024 * 1024" if "l \<notin> {1 .. 8 * 1024 * 1024}" for l :: u32
    using that by (auto simp: word_le_nat_alt word_less_nat_alt not_le unat_eq_0)
  obtain s3 where s3: "copy_payload bd FLASH_KERNEL_ADDR RAM_KERNEL_ADDR ''kernel'' s2 = (0, s3)"
    using assms(3) out unfolding copy_payload_def Let_def r by (metis (no_types, lifting))
  have "bt_nvic s3 = bt_nvic s" "bt_link s3 = bt_link s"
    using copy_frame [where bd = bd and a = FLASH_KERNEL_ADDR and b = RAM_KERNEL_ADDR and what = "''kernel''" and s = s2]
    by (simp_all add: s3 f2)
  then show ?thesis using s1(1) s2 s3 by (simp add: start_kernel_def Let_def)
qed

theorem bad_kernel_is_not_started_witness:
  "\<exists>s'. loader_main demo_board (demo_boot (\<lambda>_. 0xFF)) = (NoKernel, s') \<and> \<not> bt_link s'"
  using bad_kernel_is_not_started [OF demo_board_ok demo_no_bootsel, of "\<lambda>_. 0xFF"]
  by (simp add: demo_flash_of mem_get_def un_le32_def PAYLOAD_MAGIC_def upt_conv_Cons) (auto simp: demo_boot_def)

text \<open>The flash is never clocked above its limit: for a system clock of \<open>c\<close> MHz and a flash limit of \<open>f\<close> MHz the
  divisor is the smallest that keeps the flash at or below \<open>f\<close> MHz, it stands in its field, and as
  long as it is at most 6 the read delay fits its three bits and the other fields keep their values.\<close>

theorem flash_clock_within_limit:
  assumes "0 < f" "0 < c" "c + f < 4000" "c \<le> 255 * f" "flash_set_clkdiv_boot (of_nat f) (of_nat c * 1000000) timing = (d, t)"
  shows "c \<le> unat d * f \<and> (unat d - 1) * f < c \<and> t AND 0xFF = d \<and>
    (unat d \<le> 6 \<longrightarrow> drop_bit 11 t = drop_bit 11 timing \<and> unat (drop_bit 8 t AND 7) \<in> {unat d, unat d + 1})"
proof -
  from clkdiv_value [OF assms] obtain dly where v: "c \<le> unat d * f" "(unat d - 1) * f < c" "0 < unat d" "unat d \<le> 255"
    "dly = d \<or> dly = d + 1" "t = (timing AND NOT (0xFF OR 0x700)) OR (d OR push_bit 8 dly)" .
  have d: "unat d < 2 ^ 8" using v(4) by simp
  have "drop_bit 11 t = drop_bit 11 timing \<and> unat (drop_bit 8 t AND 7) \<in> {unat d, unat d + 1}" if "unat d \<le> 6"
  proof -
    have "unat (d + 1) = unat d + 1" using that by (simp add: unat_word_ariths(1))
    then have "unat dly < 2 ^ 3" "unat dly \<in> {unat d, unat d + 1}" using v(5) that by auto
    then show ?thesis using timing_fields(2) [OF d v(6)] by simp
  qed
  then show ?thesis using v(1,2) timing_fields(1) [OF d v(6)] by simp
qed

theorem flash_clock_within_limit_witness:
  "\<exists>d t. flash_set_clkdiv_boot 66 252000000 0x60007204 = (d, t) \<and> t AND 0xFF = d \<and> 252 \<le> unat d * 66"
proof -
  obtain d t where "flash_set_clkdiv_boot (of_nat 66) (of_nat 252 * 1000000) 0x60007204 = (d, t)" by fastforce
  from flash_clock_within_limit [OF _ _ _ _ this] this show ?thesis by simp
qed

text \<open>A number the loader prints reads back as the number, in at most ten digits, for every 32-bit value.\<close>

theorem printed_number_reads_back:
  "dec_value (dec_digits v) = unat v \<and> dec_digits v \<noteq> [] \<and> length (dec_digits v) \<le> 10 \<and>
   set (dec_digits v) \<subseteq> {48..57}"
proof (cases "v = 0")
  case True
  then show ?thesis by (simp add: dec_digits_def dec_value_def)
next
  case False
  have "unat v < 10 ^ 10" using unat_u32 [of v] by simp
  from put_digits_value [OF this, of "[]"] obtain i ds where
    ds: "put_digits 10 v [] = (i, ds)" "dec_value ds = unat v" "length ds \<le> 10" "\<forall>c \<in> set ds. 48 \<le> c \<and> c \<le> 57" by auto
  moreover have "ds \<noteq> []" using ds(2) False by (auto simp: dec_value_def unat_eq_0)
  ultimately show ?thesis using False by (auto simp: dec_digits_def)
qed

end
