(* ===== verification/LinkBus.thy ===== *)
theory LinkBus
  imports Machine Complex_Main
begin

text \<open>
  \<open>firmware/common/link_bus.c\<close>: the transport under the block link.  The DMA channels, the
  FIFOs and the pins are an argument, a record of operations on a device state of any type; a
  function that waits is a value of \<open>option\<close>, \<open>None\<close> when it never returns.  The dividers
  are rational numbers: the driver only compares and copies them.  What it computes from them in
  floating point (the byte rate and the drain time) is left out or part of the argument.
\<close>

section \<open>The device\<close>

text \<open>A look at a flag takes time, so it gives a new device state.\<close>

record 'h link_hw =
  hw_tx_busy :: "'h \<Rightarrow> bool \<times> 'h"          \<comment> \<open>\<open>dma_channel_is_busy(l->dma_tx)\<close>\<close>
  hw_tx_empty :: "'h \<Rightarrow> bool \<times> 'h"         \<comment> \<open>\<open>pio_sm_is_tx_fifo_empty\<close>\<close>
  hw_rx_busy :: "'h \<Rightarrow> bool \<times> 'h"          \<comment> \<open>\<open>dma_channel_is_busy(l->dma_rx)\<close>\<close>
  hw_rx_count :: "'h \<Rightarrow> nat"               \<comment> \<open>the receive channel's \<open>transfer_count\<close>\<close>
  hw_db_in :: "'h \<Rightarrow> bool \<times> 'h"
  hw_now :: "'h \<Rightarrow> u64"                    \<comment> \<open>microseconds since boot\<close>
  hw_drain :: "'h \<Rightarrow> 'h"                   \<comment> \<open>\<open>busy_wait_us(tx_drain_us(l))\<close>\<close>
  hw_tx_words :: "u8 list \<Rightarrow> 'h \<Rightarrow> 'h"    \<comment> \<open>the transmit channel started on these bytes\<close>
  hw_rx_words :: "nat \<Rightarrow> 'h \<Rightarrow> 'h"        \<comment> \<open>the receive channel armed for so many words\<close>
  hw_tx_abort :: "'h \<Rightarrow> 'h"
  hw_rx_abort :: "'h \<Rightarrow> 'h"
  hw_tx_ring :: "u8 list \<Rightarrow> nat \<Rightarrow> 'h \<Rightarrow> 'h" \<comment> \<open>so many words, the bytes over and over\<close>
  hw_rx_ring :: "nat \<Rightarrow> nat \<Rightarrow> 'h \<Rightarrow> 'h"   \<comment> \<open>armed for so many words into a ring of \<open>2^k\<close> bytes\<close>
  hw_set_clkdiv :: "rat \<Rightarrow> 'h \<Rightarrow> 'h"       \<comment> \<open>the divider of the sending state machine\<close>
  hw_setup :: "nat \<Rightarrow> 'h \<Rightarrow> 'h"            \<comment> \<open>state machines, programs and channels claimed, with this GPIOBASE\<close>
  hw_rx_data :: "'h \<Rightarrow> u8 list"           \<comment> \<open>the buffer armed last\<close>
  hw_fs_in :: "'h \<Rightarrow> bool"
  hw_rx_valid :: "'h \<Rightarrow> bool"

text \<open>The GPIO numbers of a link.\<close>

record link_pins =
  tx_data_base :: nat
  tx_clk :: nat
  tx_valid_pin :: nat
  rx_data_base :: nat
  rx_clk :: nat
  rx_valid_pin :: nat
  db_out_pin :: nat
  db_in_pin :: nat
  fs_pin :: nat

record 'h link =
  lk_dev :: 'h
  tx_valid :: bool
  db_out :: bool
  fs :: bool
  fs_is_output :: bool
  rx_enabled :: bool      \<comment> \<open>the receive state machine\<close>
  bulk_clkdiv :: rat
  applied_clkdiv :: rat
  pins :: link_pins

definition LINK_CTRL_CLKDIV :: rat where "LINK_CTRL_CLKDIV = 2"

text \<open>A PIO sees 32 consecutive GPIOs, from 0 or from 16.\<close>

definition gpio_base :: "nat \<Rightarrow> nat \<Rightarrow> nat" where
  "gpio_base tx_base rx_base = (if max tx_base rx_base + 8 > 31 then 16 else 0)"

definition link_init :: "'h link_hw \<Rightarrow> nat \<Rightarrow> nat \<Rightarrow> nat \<Rightarrow> nat \<Rightarrow> nat \<Rightarrow> bool \<Rightarrow> 'h \<Rightarrow> 'h link" where
  "link_init hw tx_base rx_base dbo dbi fsp fs_out h =
     \<lparr>lk_dev = hw_set_clkdiv hw LINK_CTRL_CLKDIV (hw_setup hw (gpio_base tx_base rx_base) h),
      tx_valid = False, db_out = False, fs = False, fs_is_output = fs_out, rx_enabled = False,
      bulk_clkdiv = 1, applied_clkdiv = LINK_CTRL_CLKDIV,
      pins = \<lparr>tx_data_base = tx_base, tx_clk = tx_base + 8, tx_valid_pin = tx_base + 9,
        rx_data_base = rx_base, rx_clk = rx_base + 8, rx_valid_pin = rx_base + 9,
        db_out_pin = dbo, db_in_pin = dbi, fs_pin = fsp\<rparr>\<rparr>"

text \<open>On both boards data and clock lie in the window that was chosen.\<close>

lemma pins_in_window:
  "(a, b) \<in> {(20, 30), (11, 1)} \<Longrightarrow> p \<in> {a..a + 8} \<union> {b..b + 8} \<Longrightarrow> p \<in> {gpio_base a b ..< gpio_base a b + 32}"
  by (auto simp: gpio_base_def)

section \<open>Dividers\<close>

definition link_set_bulk_clkdiv :: "rat \<Rightarrow> 'h link \<Rightarrow> 'h link" where
  "link_set_bulk_clkdiv clkdiv l = l\<lparr>bulk_clkdiv := (if clkdiv < 1 then 1 else clkdiv)\<rparr>"

definition apply_clkdiv :: "'h link_hw \<Rightarrow> rat \<Rightarrow> 'h link \<Rightarrow> 'h link" where
  "apply_clkdiv hw clkdiv l =
     (if clkdiv = applied_clkdiv l then l
      else l\<lparr>applied_clkdiv := clkdiv, lk_dev := hw_set_clkdiv hw clkdiv (lk_dev l)\<rparr>)"

definition link_use_ctrl_rate :: "'h link_hw \<Rightarrow> 'h link \<Rightarrow> 'h link" where
  "link_use_ctrl_rate hw = apply_clkdiv hw LINK_CTRL_CLKDIV"

definition link_use_bulk_rate :: "'h link_hw \<Rightarrow> 'h link \<Rightarrow> 'h link" where
  "link_use_bulk_rate hw l = apply_clkdiv hw (bulk_clkdiv l) l"

text \<open>A frame after \<open>link_use_ctrl_rate\<close> goes out at the control rate, whatever the sweep has set.\<close>

lemma ctrl_rate_applied [simp]:
  "applied_clkdiv (link_use_ctrl_rate hw l) = LINK_CTRL_CLKDIV"
  "link_use_ctrl_rate hw (link_use_ctrl_rate hw l) = link_use_ctrl_rate hw l"
  by (simp_all add: link_use_ctrl_rate_def apply_clkdiv_def)

definition passed :: "u64 \<Rightarrow> u64 \<Rightarrow> bool" where
  "passed deadline now \<longleftrightarrow> sint (deadline - now) < 0"

text \<open>\<open>while (!done()) if (now is past the deadline) return false; return true\<close>\<close>

partial_function (option) wait_until ::
    "('h \<Rightarrow> bool \<times> 'h) \<Rightarrow> ('h \<Rightarrow> u64) \<Rightarrow> u64 \<Rightarrow> 'h \<Rightarrow> (bool \<times> 'h) option" where
  "wait_until look now deadline h =
     (case look h of (done, h) \<Rightarrow>
        if done then Some (True, h)
        else if passed deadline (now h) then Some (False, h)
        else wait_until look now deadline h)"

section \<open>Sending\<close>

text \<open>The assertion that a frame is a whole number of words fails where the value is \<open>None\<close>.\<close>

definition link_tx_start :: "'h link_hw \<Rightarrow> u8 list \<Rightarrow> 'h link \<Rightarrow> 'h link option" where
  "link_tx_start hw bs l =
     (if length bs mod 4 \<noteq> 0 then None
      else Some (l\<lparr>tx_valid := True, lk_dev := hw_tx_words hw (take (4 * (length bs div 4)) bs) (lk_dev l)\<rparr>))"

definition link_tx_start_ring :: "'h link_hw \<Rightarrow> u8 list \<Rightarrow> nat \<Rightarrow> 'h link \<Rightarrow> 'h link" where
  "link_tx_start_ring hw bs total_bytes l = l\<lparr>tx_valid := True, lk_dev := hw_tx_ring hw bs (total_bytes div 4) (lk_dev l)\<rparr>"

definition link_tx_busy :: "'h link_hw \<Rightarrow> 'h link \<Rightarrow> bool \<times> 'h link" where
  "link_tx_busy hw l = (case hw_tx_busy hw (lk_dev l) of (busy, h) \<Rightarrow> (busy, l\<lparr>lk_dev := h\<rparr>))"

definition not_busy :: "('h \<Rightarrow> bool \<times> 'h) \<Rightarrow> 'h \<Rightarrow> bool \<times> 'h" where
  "not_busy look h = (case look h of (busy, h) \<Rightarrow> (\<not> busy, h))"

definition link_tx_finish :: "'h link_hw \<Rightarrow> u64 \<Rightarrow> 'h link \<Rightarrow> (bool \<times> 'h link) option" where
  "link_tx_finish hw timeout_us l =
     (let deadline = hw_now hw (lk_dev l) + timeout_us in do {
        (fed, h) \<leftarrow> wait_until (not_busy (hw_tx_busy hw)) (hw_now hw) deadline (lk_dev l);
        if \<not> fed then Some (False, l\<lparr>lk_dev := hw_tx_abort hw h, tx_valid := False\<rparr>)
        else do {
          (empty, h) \<leftarrow> wait_until (hw_tx_empty hw) (hw_now hw) deadline h;
          Some (if \<not> empty then (False, l\<lparr>lk_dev := h, tx_valid := False\<rparr>)
                else (True, l\<lparr>lk_dev := hw_drain hw h, tx_valid := False\<rparr>)) } })"

section \<open>Receiving\<close>

text \<open>Aborts what is running and restarts the state machine, aligned to words.\<close>

definition link_rx_arm :: "'h link_hw \<Rightarrow> nat \<Rightarrow> 'h link \<Rightarrow> 'h link" where
  "link_rx_arm hw bytes l =
     l\<lparr>lk_dev := hw_rx_words hw (bytes div 4) (hw_rx_abort hw (lk_dev l)), rx_enabled := True\<rparr>"

definition link_rx_arm_ring :: "'h link_hw \<Rightarrow> nat \<Rightarrow> nat \<Rightarrow> 'h link \<Rightarrow> 'h link" where
  "link_rx_arm_ring hw ring_bits total_bytes l =
     l\<lparr>lk_dev := hw_rx_ring hw ring_bits (total_bytes div 4) (hw_rx_abort hw (lk_dev l)), rx_enabled := True\<rparr>"

definition link_rx_remaining :: "'h link_hw \<Rightarrow> 'h link \<Rightarrow> nat" where
  "link_rx_remaining hw l = hw_rx_count hw (lk_dev l) * 4"

definition link_rx_abort :: "'h link_hw \<Rightarrow> 'h link \<Rightarrow> 'h link" where
  "link_rx_abort hw l = l\<lparr>lk_dev := hw_rx_abort hw (lk_dev l), rx_enabled := False\<rparr>"

text \<open>The bytes still missing; 0 says that the frame is complete.\<close>

definition link_rx_wait :: "'h link_hw \<Rightarrow> u64 \<Rightarrow> 'h link \<Rightarrow> (nat \<times> 'h link) option" where
  "link_rx_wait hw timeout_us l = do {
     (got, h) \<leftarrow> wait_until (not_busy (hw_rx_busy hw)) (hw_now hw) (hw_now hw (lk_dev l) + timeout_us) (lk_dev l);
     if got then Some (0, l\<lparr>lk_dev := h\<rparr>)
     else case hw_rx_busy hw h of (busy, h) \<Rightarrow>
       let l = l\<lparr>lk_dev := h\<rparr>
       in if \<not> busy then Some (0, l)
          else let left = link_rx_remaining hw l
               in Some (if left \<noteq> 0 then left else 4, link_rx_abort hw l) }"

section \<open>Control signals\<close>

definition link_db_set :: "bool \<Rightarrow> 'h link \<Rightarrow> 'h link" where
  "link_db_set level l = l\<lparr>db_out := level\<rparr>"

definition link_db_wait :: "'h link_hw \<Rightarrow> bool \<Rightarrow> u64 \<Rightarrow> 'h link \<Rightarrow> (bool \<times> 'h link) option" where
  "link_db_wait hw level timeout_us l = do {
     (ok, h) \<leftarrow> wait_until (\<lambda>h. case hw_db_in hw h of (up, h) \<Rightarrow> (up = level, h)) (hw_now hw)
                 (hw_now hw (lk_dev l) + timeout_us) (lk_dev l);
     Some (ok, l\<lparr>lk_dev := h\<rparr>) }"

definition link_db_get :: "'h link_hw \<Rightarrow> 'h link \<Rightarrow> bool \<times> 'h link" where
  "link_db_get hw l = (case hw_db_in hw (lk_dev l) of (up, h) \<Rightarrow> (up, l\<lparr>lk_dev := h\<rparr>))"

definition link_fs_get :: "'h link_hw \<Rightarrow> 'h link \<Rightarrow> bool" where
  "link_fs_get hw l = hw_fs_in hw (lk_dev l)"

definition link_rx_valid_asserted :: "'h link_hw \<Rightarrow> 'h link \<Rightarrow> bool" where
  "link_rx_valid_asserted hw l = hw_rx_valid hw (lk_dev l)"

definition link_fs_set :: "bool \<Rightarrow> 'h link \<Rightarrow> 'h link" where
  "link_fs_set level l = (if fs_is_output l then l\<lparr>fs := level\<rparr> else l)"

section \<open>Waiting ends\<close>

text \<open>A look at a flag takes at least a microsecond and at most \<open>d\<close>, and never turns the clock back.\<close>

definition look_ticks :: "nat \<Rightarrow> ('h \<Rightarrow> nat) \<Rightarrow> ('h \<Rightarrow> bool \<times> 'h) \<Rightarrow> bool" where
  "look_ticks d time look \<longleftrightarrow> (\<forall>h. time h < time (snd (look h)) \<and> time (snd (look h)) \<le> time h + d)"

definition us_clock :: "nat \<Rightarrow> 'h link_hw \<Rightarrow> ('h \<Rightarrow> nat) \<Rightarrow> bool" where
  "us_clock d hw time \<longleftrightarrow> d \<le> 1000000 \<and> (\<forall>h. hw_now hw h = of_nat (time h)) \<and>
     look_ticks d time (hw_tx_busy hw) \<and> look_ticks d time (hw_tx_empty hw) \<and>
     look_ticks d time (hw_rx_busy hw) \<and> look_ticks d time (hw_db_in hw)"

lemma passed_iff:
  assumes "a < 2 ^ 62" "b < 2 ^ 62"
  shows "passed (of_nat a) (of_nat b) \<longleftrightarrow> a < b"
proof -
  have "(of_nat a :: u64) - of_nat b = of_int (int a - int b)" by simp
  then have "sint ((of_nat a :: u64) - of_nat b) = sint (of_int (int a - int b) :: u64)" by (simp only:)
  also have "\<dots> = signed_take_bit 63 (int a - int b)" by (subst signed_of_int) simp
  also have "\<dots> = int a - int b" using assms by (simp add: signed_take_bit_int_eq_self)
  finally show ?thesis by (simp add: passed_def)
qed

lemma wait_until_returns:
  assumes "look_ticks d time look" "\<And>h. now h = of_nat (time h)" "D + S < 2 ^ 61" "d \<le> 1000000"
  shows "time h \<le> D + S \<Longrightarrow> \<exists>ok h'. wait_until look now (of_nat D) h = Some (ok, h') \<and>
    time h \<le> time h' \<and> time h' \<le> D + S + d \<and> (ok \<longrightarrow> (\<exists>g. look g = (True, h')))"
proof (induction "D + S + d - time h" arbitrary: h rule: less_induct)
  case less
  obtain ok h1 where l: "look h = (ok, h1)" by fastforce
  have t: "time h < time h1" "time h1 \<le> time h + d"
    using assms(1) l by (auto simp: look_ticks_def dest: spec [of _ h])
  show ?case
  proof (cases "ok \<or> passed (of_nat D) (now h1)")
    case True
    then show ?thesis using l t less.prems by (subst wait_until.simps) (cases ok; auto)
  next
    case False
    have "time h1 < 2 ^ 62" using t less.prems assms(3,4) by simp
    then have "time h1 \<le> D"
      using False passed_iff [of D "time h1"] assms(2,3) by simp
    then have "D + S + d - time h1 < D + S + d - time h" "time h1 \<le> D + S" using t by simp_all
    from less.hyps [OF this] obtain ok' h' where
      "wait_until look now (of_nat D) h1 = Some (ok', h')" "time h1 \<le> time h'" "time h' \<le> D + S + d"
      "ok' \<longrightarrow> (\<exists>g. look g = (True, h'))" by blast
    then show ?thesis using l t False by (subst wait_until.simps) auto
  qed
qed

lemma not_busy_ticks: "look_ticks d time look \<Longrightarrow> look_ticks d time (not_busy look)"
  by (auto simp: look_ticks_def not_busy_def split: prod.splits) (metis snd_conv)+

lemma not_busy_done: "not_busy look g = (True, h) \<longleftrightarrow> look g = (False, h)"
  by (auto simp: not_busy_def split: prod.splits)

text \<open>Every wait of the transport ends, whatever the flags do, since each look at one takes time.
  A wait for the doorbell that succeeds has seen the level.  A wait for a frame reports 0
  missing bytes only when the receive channel said that it was done, and otherwise leaves the
  receiver off.  Sending lowers VALID in the end, also when it failed, and succeeds only with the FIFO empty.\<close>

theorem link_waits_end:
  assumes "us_clock d hw time" "time (lk_dev l) + unat timeout < 2 ^ 60"
  shows "(\<exists>ok l'. link_db_wait hw level timeout l = Some (ok, l') \<and> (ok \<longrightarrow> (\<exists>g. hw_db_in hw g = (level, lk_dev l')))) \<and>
    (\<exists>n l'. link_rx_wait hw timeout l = Some (n, l') \<and>
       (if n = 0 then \<exists>g. hw_rx_busy hw g = (False, lk_dev l') else \<not> rx_enabled l')) \<and>
    (\<exists>ok l'. link_tx_finish hw timeout l = Some (ok, l') \<and> \<not> tx_valid l' \<and>
       (ok \<longrightarrow> (\<exists>g h. hw_tx_empty hw g = (True, h) \<and> lk_dev l' = hw_drain hw h)))"
proof -
  let ?h = "lk_dev l" and ?D = "time (lk_dev l) + unat timeout"
  have d: "d \<le> 1000000" using assms(1) by (simp add: us_clock_def)
  have now: "hw_now hw h = of_nat (time h)" for h using assms(1) by (simp add: us_clock_def)
  have D: "hw_now hw ?h + timeout = of_nat ?D" by (simp add: now)
  have lt: "?D + S < 2 ^ 61" if "S \<le> d" for S using that assms(2) d by simp
  have wait: "\<exists>ok h'. wait_until look (hw_now hw) (of_nat ?D) h = Some (ok, h') \<and>
      time h' \<le> ?D + S + d \<and> (ok \<longrightarrow> (\<exists>g. look g = (True, h')))"
    if "look_ticks d time look" "time h \<le> ?D + S" "S \<le> d" for look h S
    using wait_until_returns [OF that(1) now lt [OF that(3)] d that(2)] by blast
  have start: "time ?h \<le> ?D + 0" by simp
  have ticks: "look_ticks d time (hw_tx_busy hw)" "look_ticks d time (hw_tx_empty hw)"
    "look_ticks d time (hw_rx_busy hw)" "look_ticks d time (hw_db_in hw)"
    using assms(1) by (simp_all add: us_clock_def)
  have db: "look_ticks d time (\<lambda>h. case hw_db_in hw h of (up, h) \<Rightarrow> (up = level, h))"
    using ticks(4) by (simp add: look_ticks_def split: prod.split) (metis snd_conv)
  have A: "\<exists>ok l'. link_db_wait hw level timeout l = Some (ok, l') \<and> (ok \<longrightarrow> (\<exists>g. hw_db_in hw g = (level, lk_dev l')))"
  proof -
    obtain ok h1 where w: "wait_until (\<lambda>h. case hw_db_in hw h of (up, h) \<Rightarrow> (up = level, h)) (hw_now hw) (of_nat ?D) ?h = Some (ok, h1)"
      "ok \<longrightarrow> (\<exists>g. (case hw_db_in hw g of (up, h) \<Rightarrow> (up = level, h)) = (True, h1))"
      using wait [OF db start] by blast
    have "link_db_wait hw level timeout l = Some (ok, l\<lparr>lk_dev := h1\<rparr>)" using w(1) unfolding link_db_wait_def D by simp
    moreover have "(case hw_db_in hw g of (up, h) \<Rightarrow> (up = level, h)) = (True, h1) \<longleftrightarrow> hw_db_in hw g = (level, h1)" for g
      by (cases "hw_db_in hw g") auto
    ultimately show ?thesis using w(2) by auto
  qed
  have B: "\<exists>n l'. link_rx_wait hw timeout l = Some (n, l') \<and>
       (if n = 0 then \<exists>g. hw_rx_busy hw g = (False, lk_dev l') else \<not> rx_enabled l')"
  proof -
    obtain got h1 where w: "wait_until (not_busy (hw_rx_busy hw)) (hw_now hw) (of_nat ?D) ?h = Some (got, h1)"
      "got \<longrightarrow> (\<exists>g. hw_rx_busy hw g = (False, h1))"
      using wait [OF not_busy_ticks [OF ticks(3)] start] unfolding not_busy_done by blast
    obtain busy h2 where b: "hw_rx_busy hw h1 = (busy, h2)" by fastforce
    show ?thesis
      using w b unfolding link_rx_wait_def D by (cases got; cases busy) (auto simp: Let_def link_rx_abort_def)
  qed
  have C: "\<exists>ok l'. link_tx_finish hw timeout l = Some (ok, l') \<and> \<not> tx_valid l' \<and>
       (ok \<longrightarrow> (\<exists>g h. hw_tx_empty hw g = (True, h) \<and> lk_dev l' = hw_drain hw h))"
  proof -
    obtain fed h1 where w: "wait_until (not_busy (hw_tx_busy hw)) (hw_now hw) (of_nat ?D) ?h = Some (fed, h1)"
      "time h1 \<le> ?D + d"
      using wait [OF not_busy_ticks [OF ticks(1)] start] by auto
    obtain ok h2 where v: "wait_until (hw_tx_empty hw) (hw_now hw) (of_nat ?D) h1 = Some (ok, h2)"
      "ok \<longrightarrow> (\<exists>g. hw_tx_empty hw g = (True, h2))"
      using wait [OF ticks(2) w(2)] by auto
    show ?thesis
      using w(1) v unfolding link_tx_finish_def D Let_def by (cases fed; cases ok) auto
  qed
  from A B C show ?thesis by blast
qed

definition dead_hw :: "nat link_hw" where
  "dead_hw = \<lparr>hw_tx_busy = (\<lambda>t. (True, t + 3)), hw_tx_empty = (\<lambda>t. (False, t + 3)), hw_rx_busy = (\<lambda>t. (True, t + 3)),
     hw_rx_count = (\<lambda>_. 0), hw_db_in = (\<lambda>t. (False, t + 3)), hw_now = of_nat, hw_drain = (\<lambda>t. t + 2),
     hw_tx_words = (\<lambda>_ t. t), hw_rx_words = (\<lambda>_ t. t), hw_tx_abort = (\<lambda>t. t), hw_rx_abort = (\<lambda>t. t),
     hw_tx_ring = (\<lambda>_ _ t. t), hw_rx_ring = (\<lambda>_ _ t. t), hw_set_clkdiv = (\<lambda>_ t. t), hw_setup = (\<lambda>_ t. t),
     hw_rx_data = (\<lambda>_. []), hw_fs_in = (\<lambda>_. False), hw_rx_valid = (\<lambda>_. False)\<rparr>"

definition dead_link :: "nat link" where
  "dead_link = link_init dead_hw 11 1 23 22 21 False 7"

lemma dead_hw_clock: "us_clock 3 dead_hw id"
  by (simp add: us_clock_def look_ticks_def dead_hw_def)

section \<open>Frames are whole words\<close>

text \<open>A disk that succeeds has filled the buffer.\<close>

definition fills :: "'d diskio \<Rightarrow> bool" where
  "fills d \<longleftrightarrow> (\<forall>lba n c bs c'. io_read d lba n c = Some (True, bs, c') \<longrightarrow> length bs = 512 * unat n)"

lemma pad_word: "unat ((x + 3) AND NOT 3 :: u32) mod 4 = 0"
proof -
  have "(3 :: u32) = mask 2" by (simp add: mask_eq_exp_minus_1)
  then have "((x + 3) AND NOT 3) AND mask 2 = 0" by (metis and.assoc and.commute bit.conj_cancel_left bit.conj_zero_right)
  then show ?thesis using unat_and_mask [of "(x + 3) AND NOT 3" 2] by simp
qed

lemma sector_words: "unat (x * LINK_BLK_SECTOR) mod 4 = 0"
proof -
  have "unat (x * LINK_BLK_SECTOR) = unat x * 512 mod 2 ^ 32"
    by (simp add: LINK_BLK_SECTOR_def unat_word_ariths(2))
  moreover have "unat x * 512 mod 2 ^ 32 mod 4 = unat x * 512 mod 4" by (rule mod_mod_cancel) simp
  ultimately show ?thesis by simp
qed

lemma wire_words: "unat (wire_bytes op count) mod 4 = 0"
  unfolding wire_bytes_def by (split if_split) (intro conjI impI pad_word sector_words)

lemma read_fills:
  assumes "fills d" "storage_read d lba count st = Some (0, bs, st')"
  shows "length bs = 512 * unat count \<or> length bs = unat (count * LINK_BLK_SECTOR)"
proof (cases "have_card st")
  case True
  then obtain c' where "io_read d lba count (card st) = Some (True, bs, c')"
    using assms(2) by (auto simp: storage_read_def bind_eq_Some_conv split: if_splits)
  then show ?thesis using assms(1) unfolding fills_def by blast
next
  case False
  then show ?thesis
    using assms(2) by (auto simp: storage_read_def STORAGE_SECTOR_def LINK_BLK_SECTOR_def split: if_splits)
qed

lemma take_keys_length: "term_compat_take_keys n q = (cs, q') \<Longrightarrow> length cs \<le> n"
  by (induction n arbitrary: q cs q') (auto simp: Let_def split: if_splits prod.splits)

lemma min_words: "a mod 4 = 0 \<Longrightarrow> b mod 4 = 0 \<Longrightarrow> min a b mod 4 = (0 :: nat)"
  by (simp add: min_def)

lemma frames_fit:
  assumes "fills d" "serve_frame rom d (req_bytes r) p s = Some (st, reply, s')"
  shows "length (request_payload (rq_op r) (rq_count r) buf) mod 4 = 0 \<and> length reply mod 4 = 0 \<and>
    (st = 0 \<longrightarrow> length reply = unat (armed_bytes (rq_op r) (rq_count r))) \<and>
    (st \<noteq> 0 \<and> rq_op r = LINK_BLK_OP_READ \<longrightarrow> length reply = 8)"
proof -
  obtain data s1 where d: "serve_data rom d r p s = Some (st, data, s1)" "serve_reply r st data s1 = (reply, s')"
    using assms(2) by (auto simp: serve_frame_def req_roundtrip Let_def bind_eq_Some_conv split: prod.splits)
  have pay: "length (request_payload (rq_op r) (rq_count r) buf) mod 4 = 0"
    by (simp add: request_payload_def wire_words)
  consider (read) "st = 0" "rq_op r = LINK_BLK_OP_READ" | (con) "rq_op r = LINK_BLK_OP_CON"
    | (other) "\<not> (st = 0 \<and> rq_op r = LINK_BLK_OP_READ)" "rq_op r \<noteq> LINK_BLK_OP_CON" by blast
  then show ?thesis
  proof cases
    case read
    then obtain sto where "do_request r (capacity_sectors s) = 0" and
      sto: "storage_read d (rq_lba r) (rq_count r) (sv_store s) = Some (0, data, sto)"
      using d(1) by (auto simp: serve_data_def serve_read_def Let_def bind_eq_Some_conv link_consts split: if_splits)
    then have "unat (rq_count r) \<le> 8"
      using read(2) by (auto simp: do_request_def link_consts word_less_nat_alt not_less split: if_splits)
    note sec = u32_512 [OF this]
    have "length data = 512 * unat (rq_count r)" using read_fills [OF assms(1) sto] sec by auto
    then have "length reply = 8 + 512 * unat (rq_count r)"
      using d(2) read sec by (simp add: serve_reply_def request_bytes_def) (auto simp: link_consts)
    moreover have "unat (armed_bytes (rq_op r) (rq_count r)) = 8 + 512 * unat (rq_count r)"
      using read(2) sec \<open>unat (rq_count r) \<le> 8\<close>
      by (simp add: armed_bytes_def wire_bytes_def unat_word_ariths(1)) (simp add: link_consts)
    ultimately show ?thesis using pay read(1) by simp
  next
    case con
    obtain keys q where k: "term_compat_take_keys LINK_CON_MAX_KEYS (t_keyq (sv_term s1)) = (keys, q)" by fastforce
    have "length reply = 40"
      using d(2) con take_keys_length [OF k] k by (auto simp: serve_reply_def link_consts)
    then show ?thesis using pay con by (simp add: armed_bytes_def) (simp add: link_consts)
  next
    case other
    then have "length reply = 8" using d(2) by (auto simp: serve_reply_def)
    moreover have "unat (armed_bytes (rq_op r) (rq_count r)) = 8 \<or> rq_op r = LINK_BLK_OP_READ"
      using other(2) by (simp add: armed_bytes_def)
    ultimately show ?thesis using pay other(1) by auto
  qed
qed

text \<open>C22: The transport sends every frame as it is: the request, its payload and every reply of the master are whole
  words, so no assertion fails and no byte is dropped, also with console traffic of any length.
  The reply to a request that succeeded has exactly the length the other half has armed for.
  A READ that is refused is answered with 8 bytes only, fewer than armed.\<close>

theorem frames_fit_the_link:
  assumes "fills d" "serve_frame rom d (req_bytes r) p s = Some (st, reply, s')"
  shows "length (request_payload (rq_op r) (rq_count r) buf) mod 4 = 0 \<and> length reply mod 4 = 0 \<and>
    (st = 0 \<longrightarrow> length reply = unat (armed_bytes (rq_op r) (rq_count r))) \<and>
    (st \<noteq> 0 \<and> rq_op r = LINK_BLK_OP_READ \<longrightarrow> length reply = 8)"
  using assms by (rule frames_fit)

theorem frames_fit_the_link_witness:
  "\<exists>reply s'. serve_frame (\<lambda>_. 0) demo_disk (req_bytes \<lparr>rq_magic = LINK_BLK_MAGIC, rq_op = LINK_BLK_OP_READ, rq_lba = 3, rq_count = 2\<rparr>) None
      demo_server = Some (0, reply, s') \<and> length reply = 1032"
proof -
  let ?r = "\<lparr>rq_magic = LINK_BLK_MAGIC, rq_op = LINK_BLK_OP_READ, rq_lba = 3, rq_count = 2\<rparr>"
  have "master_ok ram_ok ram_sectors demo_server" "fair 3 2 (length (master_sectors ram_sectors demo_server))"
    by (simp_all add: demo_server_def demo_store_def master_ok_def ram_ok_def ram_sectors_def master_sectors_def fair_def)
  from ram_medium.serve_read_frame [OF this, of "\<lambda>_. 0" demo_disk None] obtain reply s' where
    f: "serve_frame (\<lambda>_. 0) demo_disk (req_bytes ?r) None demo_server = Some (0, reply, s')"
    by (auto simp: a_request_def)
  have "fills demo_disk" by (simp add: fills_def demo_disk_def)
  from frames_fit_the_link [OF this f] have "length reply = unat (armed_bytes LINK_BLK_OP_READ 2)" by simp
  then show ?thesis using f by (simp add: armed_bytes_def wire_bytes_def link_consts)
qed

end
