(* ===== verification/Console.thy ===== *)
theory Console
  imports LinkBus
begin

text \<open>
  The console from end to end: the loop of core 1, \<open>core1_usb_main\<close> of
  \<open>firmware/common/core1_usb.c\<close>, with Linux writing into the ring between its passes and the
  master on the other end of the link.  Every byte reaches the terminal of the master, in order,
  and every byte reaches the USB host, whatever the disk does meanwhile.
\<close>

section \<open>The loop of core 1\<close>

definition core1_pass :: "'m peer \<Rightarrow> usb_env \<Rightarrow> u32 \<Rightarrow> slave \<times> 'm \<Rightarrow> (slave \<times> 'm) \<times> u8 list" where
  "core1_pass peer e now = (\<lambda>(s, m).
     case service_once (frank_link_console_up s) e (sl_core s) of (c, out, _) \<Rightarrow>
       (frank_blk_service now peer (s\<lparr>sl_core := c\<rparr>, m), out))"

text \<open>Between the passes the kernel writes to its console or submits a request for the disk.\<close>

datatype core1_event =
    Pass usb_env u32
  | KernelWrites "u8 list"
  | KernelSubmits u32 u32 u32 u32

text \<open>What went out to the USB host, and what the ring took from the kernel.\<close>

primrec core1_usb_main :: "'m peer \<Rightarrow> core1_event list \<Rightarrow> slave \<times> 'm \<Rightarrow> (slave \<times> 'm) \<times> u8 list \<times> u8 list" where
  "core1_usb_main peer [] sm = (sm, [], [])"
| "core1_usb_main peer (ev # evs) sm =
     (case ev of
        Pass e now \<Rightarrow>
          (let (sm, out) = core1_pass peer e now sm; (sm, outs, ins) = core1_usb_main peer evs sm
           in (sm, out @ outs, ins))
      | KernelWrites xs \<Rightarrow>
          (let (r, n) = ring_write (tx (shared (sl_core (fst sm)))) xs;
               (sm, outs, ins) = core1_usb_main peer evs
                 (on_core (\<lambda>c. c\<lparr>shared := (shared c)\<lparr>tx := r\<rparr>\<rparr>) (fst sm), snd sm)
           in (sm, outs, take n xs @ ins))
      | KernelSubmits code lba count address \<Rightarrow>
          core1_usb_main peer evs (submit code lba count address (fst sm), snd sm))"

section \<open>What is still on its way\<close>

definition to_terminal :: "slave \<Rightarrow> u8 list" where
  "to_terminal s = pend (sl_core s) (fan_link_tail (sl_core s)) @ ring_bytes (tx (shared (sl_core s)))"

definition to_usb :: "slave \<Rightarrow> u8 list" where
  "to_usb s = pend (sl_core s) (fan_usb_tail (sl_core s)) @ ring_bytes (tx (shared (sl_core s)))"

text \<open>What the master does with one console request: it draws the bytes and takes the keys.\<close>

definition console_chunk :: "(nat \<Rightarrow> u8) \<Rightarrow> u8 list \<Rightarrow> terminal \<Rightarrow> terminal" where
  "console_chunk rom bs t =
     (let t = fold (terminal_receive_char rom) bs t
      in t\<lparr>t_keyq := snd (term_compat_take_keys LINK_CON_MAX_KEYS (t_keyq t))\<rparr>)"

section \<open>A console request\<close>

lemma and_not_diff: "x AND NOT y = x - (x AND y)" for x y :: u32
proof -
  have "x - (x AND y) = x AND NOT (x AND y)" by (rule disjunctive_diff) (simp add: bit_and_iff)
  also have "\<dots> = x AND NOT y" by (rule bit_eqI) (auto simp: bit_and_iff bit_or_iff bit_not_iff)
  finally show ?thesis by (rule sym)
qed

lemma padded_le: "unat n \<le> 512 \<Longrightarrow> unat n \<le> unat ((n + 3) AND NOT 3 :: u32)"
proof -
  assume n: "unat n \<le> 512"
  have 3: "unat (n + 3) = unat n + 3" using n by (simp add: unat_word_ariths(1))
  have "(n + 3) AND NOT 3 = (n + 3) - ((n + 3) AND 3)" by (rule and_not_diff)
  moreover have "unat ((n + 3) AND 3) \<le> 3"
    using word_and_le1 [of "n + 3" "3"] by (simp add: word_le_nat_alt)
  moreover have "(n + 3) AND 3 \<le> n + 3" by (simp add: word_and_le2)
  ultimately show ?thesis using 3 by (simp add: unat_sub)
qed

lemma console_served:
  fixes m :: "'d server"
  assumes "unat n \<le> 512" "take (unat n) payload = bs" "n \<noteq> 0 \<longrightarrow> unat n \<le> length payload" "n = 0 \<longrightarrow> bs = []"
  obtains keys m' where "wire rom d (a_request LINK_BLK_OP_CON 0 n) payload 40 m =
      (Answer (rsp_bytes \<lparr>rs_status = 0, rs_value = of_nat (length keys)\<rparr> @ keys @ replicate (32 - length keys) 0), m')"
    "length keys \<le> 32" "sv_term m' = console_chunk rom bs (sv_term m)"
    "keys = fst (term_compat_take_keys LINK_CON_MAX_KEYS (t_keyq (fold (terminal_receive_char rom) bs (sv_term m))))"
proof -
  let ?r = "\<lparr>rq_magic = LINK_BLK_MAGIC, rq_op = LINK_BLK_OP_CON, rq_lba = 0, rq_count = n\<rparr>"
  have le: "\<not> LINK_CON_MAX_TX < n" using assms(1) by (simp add: LINK_CON_MAX_TX_def word_less_nat_alt)
  have ok: "do_request ?r (capacity_sectors m) = 0"
    using le by (simp add: do_request_def link_consts)
  have bytes: "request_bytes ?r 0 = n" by (simp add: request_bytes_def)
  obtain m1 where m1: "serve_data rom d ?r (Some payload) m = Some (0, [], m1)"
    "sv_term m1 = fold (terminal_receive_char rom) bs (sv_term m)"
  proof (cases "n = 0")
    case True
    then show thesis using that [of m] ok bytes assms(4) by (simp add: serve_data_def Let_def link_consts)
  next
    case False
    then show thesis
      using that [of "(on_term (fold (terminal_receive_char rom) bs) m)\<lparr>console_rx_bytes := console_rx_bytes m + n\<rparr>"] ok assms(2)
      by (simp add: serve_data_def serve_console_def bytes Let_def on_term_def) (simp add: link_consts)
  qed
  obtain keys q where k: "term_compat_take_keys LINK_CON_MAX_KEYS (t_keyq (sv_term m1)) = (keys, q)" by fastforce
  have len: "length keys \<le> 32" using take_keys_length [OF k] by (simp add: LINK_CON_MAX_KEYS_def)
  let ?reply = "rsp_bytes \<lparr>rs_status = 0, rs_value = of_nat (length keys)\<rparr> @ keys @ replicate (32 - length keys) 0"
  let ?m2 = "on_term (\<lambda>t. t\<lparr>t_keyq := q\<rparr>) m1"
  have "serve_reply ?r 0 [] m1 = (?reply, ?m2)" using k by (simp add: serve_reply_def) (simp add: link_consts)
  then have "serve_frame rom d (a_request LINK_BLK_OP_CON 0 n) (Some payload) m = Some (0, ?reply, ?m2)"
    using m1(1) by (simp add: serve_frame_def a_request_def req_roundtrip)
  moreover have "length ?reply = 40" using len by (simp add: link_consts)
  ultimately have "wire rom d (a_request LINK_BLK_OP_CON 0 n) payload 40 m = (Answer ?reply, ?m2)"
    by (simp add: wire_def)
  moreover have "sv_term ?m2 = console_chunk rom bs (sv_term m)"
    using m1(2) k by (simp add: console_chunk_def on_term_def)
  moreover have "keys = fst (term_compat_take_keys LINK_CON_MAX_KEYS (t_keyq (fold (terminal_receive_char rom) bs (sv_term m))))"
    using m1(2) k by simp
  ultimately show thesis using that len by blast
qed

section \<open>The pump\<close>

text \<open>What the two consumers of the console depend on.\<close>

definition same_console :: "core1 \<Rightarrow> core1 \<Rightarrow> bool" where
  "same_console c c' \<longleftrightarrow> fan c' = fan c \<and> fan_head c' = fan_head c \<and> fan_usb_tail c' = fan_usb_tail c \<and>
     fan_link_tail c' = fan_link_tail c \<and> tx (shared c') = tx (shared c) \<and> (core1_ok c \<longrightarrow> core1_ok c')"

lemma same_console_refl [simp]: "same_console c c"
  by (simp add: same_console_def)

lemma same_console_trans: "same_console c c1 \<Longrightarrow> same_console c1 c2 \<Longrightarrow> same_console c c2"
  by (simp add: same_console_def)

lemma same_console_to:
  "same_console (sl_core s) (sl_core s') \<Longrightarrow> to_terminal s' = to_terminal s \<and> to_usb s' = to_usb s"
  by (simp add: same_console_def to_terminal_def to_usb_def pend_def fan_used_def)

lemma feed_same_console: "length bs < 2 ^ 32 \<Longrightarrow> same_console c (frank_console_feed c bs)"
proof -
  obtain r n where p: "frank_ring_put (rx (shared c)) (\<lambda>i. bs ! i) (of_nat (length bs)) = (r, n)" by fastforce
  have "FrankRing.ring_ok (rx (shared c)) \<Longrightarrow> FrankRing.ring_ok r" using frank_ring_put_spec [OF _ p] by blast
  then show ?thesis by (auto simp: same_console_def frank_console_feed_def p core1_ok_def)
qed

text \<open>The parts of core 1 that decide whether it serves.\<close>

definition same_link :: "slave \<Rightarrow> slave \<Rightarrow> bool" where
  "same_link s s' \<longleftrightarrow> blk_link_enabled s' = blk_link_enabled s \<and> blk_link_up s' = blk_link_up s \<and>
     blk_probe_done s' = blk_probe_done s \<and> blk_init_status s' = blk_init_status s \<and> warmup s' = warmup s"

lemma same_link_refl [simp]: "same_link s s"
  by (simp add: same_link_def)

lemma same_link_trans: "same_link s s1 \<Longrightarrow> same_link s1 s2 \<Longrightarrow> same_link s s2"
  by (simp add: same_link_def)

lemma console_payload:
  assumes "unat n \<le> 512" "n = 0 \<longrightarrow> bs = []" "mem_get 0 (unat n) buf = bs"
  shows "take (unat n) (request_payload LINK_BLK_OP_CON n buf) = bs"
    "n \<noteq> 0 \<longrightarrow> unat n \<le> length (request_payload LINK_BLK_OP_CON n buf)"
proof -
  let ?pay = "request_payload LINK_BLK_OP_CON n buf"
  have le: "unat n \<le> unat (wire_bytes LINK_BLK_OP_CON n)" using padded_le [OF assms(1)] by (simp add: wire_bytes_def)
  have pay: "?pay = mem_get 0 (unat (wire_bytes LINK_BLK_OP_CON n)) buf" if "n \<noteq> 0"
  proof -
    have "wire_bytes LINK_BLK_OP_CON n \<noteq> 0" using le that by (auto simp: unat_eq_0)
    then show ?thesis by (simp add: request_payload_def)
  qed
  show "take (unat n) ?pay = bs"
  proof (cases "n = 0")
    case False
    then show ?thesis using pay le assms(3) by (auto simp: mem_get_def take_map)
  qed (use assms(2) in simp)
  show "n \<noteq> 0 \<longrightarrow> unat n \<le> length ?pay" using pay le by simp
qed

lemma console_transact:
  fixes m :: "'d server"
  assumes "blk_link_up s" "unat n \<le> 512" "n = 0 \<longrightarrow> bs = []" "mem_get 0 (unat n) buf = bs"
    and tr: "blk_transact (wire rom d) LINK_BLK_OP_CON 0 n buf (s, m) = (st, cap, buf', s', m')"
  shows "sv_term m' = console_chunk rom bs (sv_term m)" "same_console (sl_core s) (sl_core s')" "same_link s s'"
    "blk_of s' = blk_of s"
proof -
  let ?pay = "request_payload LINK_BLK_OP_CON n buf"
  have armed: "unat (armed_bytes LINK_BLK_OP_CON n) = 40" by (simp add: armed_bytes_def link_consts)
  note pl = console_payload [OF assms(2,3,4)]
  obtain reply m1 where c: "wire rom d (a_request LINK_BLK_OP_CON 0 n) ?pay 40 m = (Answer reply, m1)"
    "sv_term m1 = console_chunk rom bs (sv_term m)"
    by (rule console_served [OF assms(2) pl assms(3)])
  have con: "LINK_BLK_OP_CON \<noteq> LINK_BLK_OP_READ" by (simp add: link_consts)
  let ?keys = "take (min 32 (unat (rs_value (rsp_of_bytes reply)))) (drop 8 reply)"
  have m': "m' = m1" and s': "s' = s\<lparr>blk_rx_remaining := 0\<rparr> \<or>
      s' = on_core (\<lambda>c. frank_console_feed c ?keys) (s\<lparr>blk_rx_remaining := 0\<rparr>)"
    using tr assms(1) c(1) armed con
    by (auto simp: blk_transact_def a_request_def [symmetric] Let_def LINK_CON_MAX_KEYS_def split: if_splits)
  have feed: "same_console (sl_core s) (frank_console_feed (sl_core s) ?keys)" by (rule feed_same_console) simp
  show "sv_term m' = console_chunk rom bs (sv_term m)" using m' c(2) by simp
  show "same_console (sl_core s) (sl_core s')" "same_link s s'" "blk_of s' = blk_of s"
    using s' feed
    by (auto simp: on_core_def same_link_def blk_of_def frank_console_feed_def)
qed

lemma pump_console:
  fixes m :: "'d server"
  assumes up: "blk_link_up s" and ok: "core1_ok (sl_core s)" and p: "console_pump now (wire rom d) (s, m) = (s', m')"
  defines "w \<equiv> pend (sl_core s) (fan_link_tail (sl_core s))"
  shows "\<exists>cs. to_terminal s = concat cs @ to_terminal s' \<and> sv_term m' = fold (console_chunk rom) cs (sv_term m) \<and>
      (w \<noteq> [] \<longrightarrow> cs = [take 512 w])"
    "to_usb s' = to_usb s" "core1_ok (sl_core s')" "same_link s s'" "blk_of s' = blk_of s"
proof -
  let ?c0 = "sl_core s"
  obtain c bs where t: "frank_console_take ?c0 LINK_CON_MAX_TX = (c, bs)" by fastforce
  obtain tl where ft: "fan_take ?c0 (fan_link_tail ?c0) LINK_CON_MAX_TX = (tl, bs)" and
    c: "c = ?c0\<lparr>fan_link_tail := tl\<rparr>"
    using t by (auto simp: frank_console_take_def split: prod.splits)
  have h: "unat (fan_head ?c0) < 4096" "unat (fan_link_tail ?c0) < 4096" using ok by (simp_all add: core1_ok_def)
  note fs = fan_take_spec [OF h ft]
  have len: "length bs \<le> 512" using fs(1) by (simp add: LINK_CON_MAX_TX_def)
  let ?n = "of_nat (length bs) :: u32"
  have n: "unat ?n = length bs" using len by (simp add: unat_of_nat_small)
  let ?s = "s\<lparr>sl_core := c, out_buf := mem_put 0 bs (out_buf s)\<rparr>"
  have okc: "core1_ok c" using ok fs(3) by (simp add: c core1_ok_def)
  have tm: "to_terminal s = bs @ to_terminal ?s" and usb: "to_usb ?s = to_usb s"
    using fs(1,2) pend_cong [of c ?c0] by (simp_all add: to_terminal_def to_usb_def c)
  have bs: "bs = take 512 w" using fs(1) by (simp add: w_def LINK_CON_MAX_TX_def)
  have "(\<exists>cs. to_terminal s = concat cs @ to_terminal s' \<and> sv_term m' = fold (console_chunk rom) cs (sv_term m) \<and>
      (w \<noteq> [] \<longrightarrow> cs = [take 512 w])) \<and>
    to_usb s' = to_usb s \<and> core1_ok (sl_core s') \<and> same_link s s' \<and> blk_of s' = blk_of s"
  proof (cases "?n = 0 \<and> sint (now - next_poll_us ?s) < 0")
    case True
    then have "s' = ?s" "m' = m" "bs = []" using p t n by (auto simp: console_pump_def Let_def)
    then show ?thesis
      using tm usb okc by (intro conjI exI [of _ "[]"]) (use bs in \<open>simp_all add: same_link_def blk_of_def c\<close>)
  next
    case False
    let ?pad = "unat ((?n + 3) AND NOT 3) - unat ?n"
    let ?s1 = "?s\<lparr>next_poll_us := now + 5000, out_buf := mem_put (unat ?n) (replicate ?pad 0) (out_buf ?s)\<rparr>"
    obtain st cap buf s2 m2 where
      tr: "blk_transact (wire rom d) LINK_BLK_OP_CON 0 ?n (out_buf ?s1) (?s1, m) = (st, cap, buf, s2, m2)"
      by (metis prod_cases5)
    have res: "s' = s2\<lparr>out_buf := buf\<rparr>" "m' = m2"
      using p t False tr unfolding console_pump_def Let_def by auto
    have mg: "mem_get 0 (unat ?n) (out_buf ?s1) = bs"
      by (rule nth_equalityI) (simp_all add: n mem_get_def mem_put_def)
    have up1: "blk_link_up ?s1" and le: "unat ?n \<le> 512" and z: "?n = 0 \<longrightarrow> bs = []"
      using up n len by auto
    note k0 = console_transact [OF up1 le z mg tr]
    have k: "sv_term m2 = console_chunk rom bs (sv_term m)" "same_console c (sl_core s2)" "same_link ?s1 s2" "blk_of s2 = blk_of ?s1"
      using k0(1) k0(2) k0(3) k0(4) by simp_all
    have "to_terminal s' = to_terminal ?s" "to_usb s' = to_usb ?s"
      using same_console_to [of ?s s'] k(2) res(1) by simp_all
    then show ?thesis
      using tm usb okc k res
      by (intro conjI exI [of _ "[bs]"]) (use bs in \<open>simp_all add: same_console_def same_link_def blk_of_def c\<close>)
  qed
  then show "\<exists>cs. to_terminal s = concat cs @ to_terminal s' \<and> sv_term m' = fold (console_chunk rom) cs (sv_term m) \<and>
      (w \<noteq> [] \<longrightarrow> cs = [take 512 w])"
    "to_usb s' = to_usb s" "core1_ok (sl_core s')" "same_link s s'" "blk_of s' = blk_of s" by blast+
qed

section \<open>The disk does not disturb the console\<close>

lemma wire_quiet:
  assumes "rq_op r \<noteq> LINK_BLK_OP_CON" "wire rom d (req_bytes r) p n m = (out, m')"
  shows "sv_con m' = sv_con m"
proof -
  have data: "sv_con m2 = sv_con m" if "serve_data rom d r q m = Some (st, bs, m2)" for st bs m2 q
    using that assms(1)
    by (auto simp: serve_data_def serve_write_def serve_read_def Let_def bind_eq_Some_conv split: if_splits option.splits)
  have reply: "m3 = m2" if "serve_reply r st bs m2 = (x, m3)" for st bs m2 x m3
    using that assms(1) by (auto simp: serve_reply_def split: if_splits)
  have "sv_con m2 = sv_con m" if "serve_frame rom d (req_bytes r) q m = Some (st, x, m2)" for st x m2 q
    using that data reply unfolding serve_frame_def req_roundtrip Let_def
    by (force simp: bind_eq_Some_conv split: prod.splits)
  then show ?thesis using assms(2) by (auto simp: wire_def split: option.splits if_splits)
qed

lemma transact_quiet:
  fixes m :: "'d server"
  assumes code: "code \<noteq> LINK_BLK_OP_CON" and tr: "blk_transact (wire rom d) code lba count buf (s, m) = (st, cap, buf', s', m')"
  shows "sl_core s' = sl_core s" "same_link s s'" "sv_con m' = sv_con m"
proof -
  let ?r = "\<lparr>rq_magic = LINK_BLK_MAGIC, rq_op = code, rq_lba = lba, rq_count = count\<rparr>"
  obtain out m1 where w: "wire rom d (req_bytes ?r) (request_payload code count buf) (unat (armed_bytes code count)) m = (out, m1)"
    by fastforce
  have "sv_con m1 = sv_con m" using wire_quiet [OF _ w] code by simp
  moreover have "sl_core s' = sl_core s \<and> same_link s s' \<and> (m' = m \<or> m' = m1)"
    using tr w code
    by (cases out) (auto simp: blk_transact_def Let_def same_link_def split: if_splits)
  ultimately show "sl_core s' = sl_core s" "same_link s s'" "sv_con m' = sv_con m" by auto
qed

text \<open>No console request is smuggled in through the block device.\<close>

definition disk_only :: "slave \<Rightarrow> bool" where
  "disk_only s \<longleftrightarrow> blk_seq (blk_of s) = blk_done (blk_of s) \<or> blk_op (blk_of s) \<noteq> LINK_BLK_OP_CON"

lemma on_blk_quiet [simp]: "same_console (sl_core s) (sl_core (on_blk f s))" "same_link s (on_blk f s)"
  by (simp_all add: on_blk_def on_core_def same_console_def same_link_def core1_ok_def)

lemma serve_quiet:
  fixes m :: "'d server"
  assumes b: "disk_only s" and v: "serve_blk (wire rom d) (s, m) = (s', m')"
  shows "same_console (sl_core s) (sl_core s')" "same_link s s'" "sv_con m' = sv_con m" "disk_only s'"
proof -
  have "same_console (sl_core s) (sl_core s') \<and> same_link s s' \<and> sv_con m' = sv_con m"
  proof (cases "blk_seq (blk_of s) = blk_done (blk_of s)")
    case True
    then show ?thesis using v by (simp add: serve_blk_def)
  next
    case False
    let ?b = "blk_of s"
    let ?buf = "\<lambda>i. psram s (unat (blk_addr ?b) + i)"
    obtain st cap buf s1 m1 where
      tr: "blk_transact (wire rom d) (blk_op ?b) (blk_lba ?b) (blk_count ?b) ?buf (s, m) = (st, cap, buf, s1, m1)"
      by (metis prod_cases5)
    have code: "blk_op ?b \<noteq> LINK_BLK_OP_CON" using b False by (simp add: disk_only_def)
    note q = transact_quiet [OF code tr]
    obtain s2 f g where s2: "s' = on_blk f (s2\<lparr>psram := g\<rparr>)" "s2 = s \<and> m' = m \<or> s2 = s1 \<and> m' = m1"
      using v False tr unfolding serve_blk_def Let_def by (auto split: if_splits)
    then have "same_console (sl_core s) (sl_core (s2\<lparr>psram := g\<rparr>)) \<and> same_link s (s2\<lparr>psram := g\<rparr>) \<and> sv_con m' = sv_con m"
      using q by (auto simp: same_link_def)
    then show ?thesis
      using on_blk_quiet [of "s2\<lparr>psram := g\<rparr>" f] same_console_trans same_link_trans unfolding s2(1) by blast
  qed
  moreover have "disk_only s'"
    using serve_blk_completes [OF v] by (simp add: disk_only_def)
  ultimately show "same_console (sl_core s) (sl_core s')" "same_link s s'" "sv_con m' = sv_con m" "disk_only s'" by blast+
qed

section \<open>One pass\<close>

lemma service_once_parts:
  assumes ok: "core1_ok c" and s: "service_once True e c = (c', out, n)"
  shows "pend c' (fan_link_tail c') @ ring_bytes (tx (shared c')) = pend c (fan_link_tail c) @ ring_bytes (tx (shared c))"
    "pend c' (fan_link_tail c') = pend c (fan_link_tail c) @ take (fan_room c (tud_ready e) True) (ring_bytes (tx (shared c)))"
    "blk (shared c') = blk (shared c)"
proof -
  let ?c1 = "fan_fill c (tud_ready e) True"
  obtain c2 c3 where t: "service_tx e ?c1 = (c2, out)" and r: "service_rx e c2 = (c3, n)"
    and c': "c' = service_dtr e (c3\<lparr>shared := (shared c3)\<lparr>core1_alive := core1_alive (shared c3) + 1\<rparr>\<rparr>)"
    using s by (auto simp: service_once_def Let_def split: prod.splits)
  note ff = fan_fill_spec [OF ok, of "tud_ready e" True]
  have ok1: "core1_ok ?c1" using ff(1) by simp
  note st = service_tx_spec [OF ok1 t]
  note sr = service_rx_spec [OF st(1) r]
  have same: "pend ?c1 (fan_link_tail ?c1) = pend c' (fan_link_tail c')"
    using sr(6,8) st(5) pend_cong [of c2 ?c1] st(6,7) by (simp add: c' service_tail_simps)
  have rest: "ring_bytes (tx (shared c)) =
      take (fan_room c (tud_ready e) True) (ring_bytes (tx (shared c))) @ ring_bytes (tx (shared c'))"
    using ff(4) st(3) sr(4) by (simp add: c' service_tail_simps)
  show moved: "pend c' (fan_link_tail c') = pend c (fan_link_tail c) @ take (fan_room c (tud_ready e) True) (ring_bytes (tx (shared c)))"
    using same ff(3) by simp
  then show "pend c' (fan_link_tail c') @ ring_bytes (tx (shared c')) = pend c (fan_link_tail c) @ ring_bytes (tx (shared c))"
    using rest by (metis append.assoc)
  have "blk (shared ?c1) = blk (shared c)"
    by (auto simp: fan_fill_def Let_def split: prod.splits)
  moreover have "blk (shared c3) = blk (shared c2)"
    using r by (auto simp: service_rx_def Let_def split: if_splits)
  ultimately show "blk (shared c') = blk (shared c)"
    using st(3) by (simp add: c' service_dtr_def Let_def)
qed

text \<open>Serving for \<open>k\<close> more passes, the link's console up.\<close>

definition serving :: "nat \<Rightarrow> slave \<Rightarrow> bool" where
  "serving k s \<longleftrightarrow> service_ready k s \<and> frank_link_console_up s \<and> core1_ok (sl_core s) \<and> disk_only s"

lemma pass_console:
  fixes m :: "'d server"
  assumes sv: "serving (Suc k) s" and p: "core1_pass (wire rom d) e now (s, m) = ((s', m'), out)"
  defines "w \<equiv> pend (sl_core s) (fan_link_tail (sl_core s)) @
      take (fan_room (sl_core s) (tud_ready e) True) (ring_bytes (tx (shared (sl_core s))))"
  shows "\<exists>cs. to_terminal s = concat cs @ to_terminal s' \<and> sv_term m' = fold (console_chunk rom) cs (sv_term m) \<and>
      (w \<noteq> [] \<longrightarrow> cs = [take 512 w])"
    "tud_ready e \<Longrightarrow> to_usb s = out @ to_usb s'" "serving k s'"
proof -
  have up: "frank_link_console_up s" and ok: "core1_ok (sl_core s)" and b: "disk_only s" and
    rdy: "service_ready (Suc k) s"
    using sv by (simp_all add: serving_def)
  obtain c n where o: "service_once True e (sl_core s) = (c, out, n)"
    and fb: "frank_blk_service now (wire rom d) (s\<lparr>sl_core := c\<rparr>, m) = (s', m')"
    using p up by (auto simp: core1_pass_def split: prod.splits)
  note parts = service_once_parts [OF ok o]
  have okc: "core1_ok c" using service_once_ok [OF ok o] .
  let ?s = "s\<lparr>sl_core := c\<rparr>"
  let ?s0 = "?s\<lparr>warmup := warmup s + 1\<rparr>"
  have r1: "service_ready 1 (s\<lparr>sl_core := c\<rparr>)" using rdy by (simp add: service_ready_def)
  obtain s1 m1 where pu: "console_pump now (wire rom d) (?s0, m) = (s1, m1)" by fastforce
  have sb: "serve_blk (wire rom d) (s1, m1) = (s', m')"
    using fb pu service_ready_warm [OF r1] r1 by (simp add: frank_blk_service_def service_ready_def)
  have up0: "blk_link_up ?s0" and ok0: "core1_ok (sl_core ?s0)" using rdy okc by (simp_all add: service_ready_def)
  note q = pump_console [OF up0 ok0 pu]
  have b1: "disk_only s1" using b q(5) parts(3) by (simp add: disk_only_def blk_of_def)
  note v = serve_quiet [OF b1 sb]
  have to: "to_terminal s' = to_terminal s1" "to_usb s' = to_usb s1" using same_console_to [OF v(1)] by simp_all
  have "to_terminal ?s0 = to_terminal s" using parts(1) by (simp add: to_terminal_def)
  moreover have "pend (sl_core ?s0) (fan_link_tail (sl_core ?s0)) = w" using parts(2) by (simp add: w_def)
  ultimately show "\<exists>cs. to_terminal s = concat cs @ to_terminal s' \<and> sv_term m' = fold (console_chunk rom) cs (sv_term m) \<and>
      (w \<noteq> [] \<longrightarrow> cs = [take 512 w])"
    using q(1) v(3) to by simp
  show "to_usb s = out @ to_usb s'" if "tud_ready e"
    using service_once_usb [OF ok that o] q(2) to by (simp add: to_usb_def)
  have "core1_ok (sl_core s')" using v(1) q(3) by (simp add: same_console_def)
  moreover have l: "same_link ?s0 s'" using q(4) v(2) by (rule same_link_trans)
  moreover have "unat (warmup s + 1) = unat (warmup s) + 1"
    using rdy by (intro warmup_step) (simp add: service_ready_def)
  ultimately show "serving k s'"
    using rdy up v(4) by (simp add: serving_def service_ready_def same_link_def frank_link_console_up_def)
qed

section \<open>Any number of passes\<close>

definition event_ok :: "core1_event \<Rightarrow> bool" where
  "event_ok ev = (case ev of
     Pass _ _ \<Rightarrow> True
   | KernelWrites xs \<Rightarrow> length xs < 2 ^ 32
   | KernelSubmits code _ _ _ \<Rightarrow> code \<noteq> LINK_BLK_OP_CON)"

definition usb_present :: "core1_event \<Rightarrow> bool" where
  "usb_present ev = (case ev of Pass e _ \<Rightarrow> tud_ready e | _ \<Rightarrow> True)"

lemma serving_less: "serving (Suc k) s \<Longrightarrow> serving k s"
  by (simp add: serving_def service_ready_def)

lemma serving_submit: "serving k s \<Longrightarrow> code \<noteq> LINK_BLK_OP_CON \<Longrightarrow> serving k (submit code lba count address s)"
  by (simp add: serving_def disk_only_def)
    (simp add: submit_def on_blk_def on_core_def core1_ok_def frank_link_console_up_def)

lemma submit_console [simp]:
  "to_terminal (submit code lba count address s) = to_terminal s"
  "to_usb (submit code lba count address s) = to_usb s"
  by (simp_all add: submit_def on_blk_def on_core_def to_terminal_def to_usb_def pend_def fan_used_def)

lemma kernel_write:
  assumes "serving k s" "length xs < 2 ^ 32" "ring_write (tx (shared (sl_core s))) xs = (r, n)"
  shows "serving k (on_core (\<lambda>c. c\<lparr>shared := (shared c)\<lparr>tx := r\<rparr>\<rparr>) s)"
    "to_terminal (on_core (\<lambda>c. c\<lparr>shared := (shared c)\<lparr>tx := r\<rparr>\<rparr>) s) = to_terminal s @ take n xs"
    "to_usb (on_core (\<lambda>c. c\<lparr>shared := (shared c)\<lparr>tx := r\<rparr>\<rparr>) s) = to_usb s @ take n xs"
proof -
  have "FrankRing.ring_ok (tx (shared (sl_core s)))" "length xs \<le> 2 ^ 32 - 1"
    using assms(1,2) by (auto simp: serving_def core1_ok_def)
  note pl = frank_pipe.put_law [OF this assms(3)]
  show "serving k (on_core (\<lambda>c. c\<lparr>shared := (shared c)\<lparr>tx := r\<rparr>\<rparr>) s)"
    using assms(1) pl
    by (auto simp: serving_def service_ready_def frank_link_console_up_def disk_only_def blk_of_def on_core_def core1_ok_def)
  show "to_terminal (on_core (\<lambda>c. c\<lparr>shared := (shared c)\<lparr>tx := r\<rparr>\<rparr>) s) = to_terminal s @ take n xs"
    "to_usb (on_core (\<lambda>c. c\<lparr>shared := (shared c)\<lparr>tx := r\<rparr>\<rparr>) s) = to_usb s @ take n xs"
    using pl by (simp_all add: to_terminal_def to_usb_def on_core_def pend_def fan_used_def)
qed

lemma main_console:
  fixes m :: "'d server"
  shows "serving (length evs) s \<Longrightarrow> list_all event_ok evs \<Longrightarrow>
    core1_usb_main (wire rom d) evs (s, m) = ((s', m'), outs, ins) \<Longrightarrow>
    (\<exists>cs. concat cs @ to_terminal s' = to_terminal s @ ins \<and> sv_term m' = fold (console_chunk rom) cs (sv_term m)) \<and>
    (list_all usb_present evs \<longrightarrow> outs @ to_usb s' = to_usb s @ ins)"
proof (induction evs arbitrary: s m outs ins)
  case Nil
  then show ?case by (auto intro: exI [of _ "[]"])
next
  case (Cons ev evs)
  have sv: "serving (Suc (length evs)) s" and evs: "list_all event_ok evs" using Cons.prems(1,2) by simp_all
  show ?case
  proof (cases ev)
    case (Pass e now)
    obtain s1 m1 out where p: "core1_pass (wire rom d) e now (s, m) = ((s1, m1), out)" by (metis prod.exhaust)
    obtain outs1 where r: "core1_usb_main (wire rom d) evs (s1, m1) = ((s', m'), outs1, ins)" "outs = out @ outs1"
      using Cons.prems(3) Pass p by (auto simp: Let_def split: prod.splits)
    note q = pass_console [OF sv p]
    obtain cs where cs: "to_terminal s = concat cs @ to_terminal s1" "sv_term m1 = fold (console_chunk rom) cs (sv_term m)"
      using q(1) by blast
    from Cons.IH [OF q(3) evs r(1)] obtain cs1 where
      cs1: "concat cs1 @ to_terminal s' = to_terminal s1 @ ins" "sv_term m' = fold (console_chunk rom) cs1 (sv_term m1)"
      and usb: "list_all usb_present evs \<longrightarrow> outs1 @ to_usb s' = to_usb s1 @ ins" by blast
    have "concat (cs @ cs1) @ to_terminal s' = to_terminal s @ ins"
      "sv_term m' = fold (console_chunk rom) (cs @ cs1) (sv_term m)"
      using cs cs1 by simp_all
    moreover have "list_all usb_present (ev # evs) \<longrightarrow> outs @ to_usb s' = to_usb s @ ins"
      using usb q(2) r(2) Pass by (simp add: usb_present_def)
    ultimately show ?thesis by blast
  next
    case (KernelWrites xs)
    obtain q n where w: "ring_write (tx (shared (sl_core s))) xs = (q, n)" by fastforce
    let ?s1 = "on_core (\<lambda>c. c\<lparr>shared := (shared c)\<lparr>tx := q\<rparr>\<rparr>) s"
    obtain ins1 where r: "core1_usb_main (wire rom d) evs (?s1, m) = ((s', m'), outs, ins1)" "ins = take n xs @ ins1"
      using Cons.prems(3) KernelWrites w by (auto simp: Let_def split: prod.splits)
    have "length xs < 2 ^ 32" using Cons.prems(2) KernelWrites by (simp add: event_ok_def)
    note k = kernel_write [OF serving_less [OF sv] this w]
    from Cons.IH [OF k(1) evs r(1)] show ?thesis
      unfolding k(2,3) r(2) using KernelWrites by (simp add: usb_present_def)
  next
    case (KernelSubmits code lba count address)
    have "code \<noteq> LINK_BLK_OP_CON" using Cons.prems(2) KernelSubmits by (simp add: event_ok_def)
    note k = serving_submit [OF serving_less [OF sv] this]
    have "core1_usb_main (wire rom d) evs (submit code lba count address s, m) = ((s', m'), outs, ins)"
      using Cons.prems(3) KernelSubmits by simp
    from Cons.IH [OF k evs this] show ?thesis using KernelSubmits by (simp add: usb_present_def)
  qed
qed

text \<open>C4: The console of Linux reaches the screen of the master and the USB host, complete and in order.
  However passes of core 1's loop, writes of the kernel and requests for the disk follow each other,
  what the master's terminal has received is a prefix, cut into chunks with the keys taken after
  each, of what was on its way and what the ring took from the kernel since, and the rest is still
  on its way; a USB host that is present throughout has received its prefix of the same bytes.\<close>

theorem console_reaches_terminal:
  fixes m :: "'d server"
  assumes "serving (length evs) s" "list_all event_ok evs"
    and "core1_usb_main (wire rom d) evs (s, m) = ((s', m'), outs, ins)"
  shows "(\<exists>cs. concat cs @ to_terminal s' = to_terminal s @ ins \<and> sv_term m' = fold (console_chunk rom) cs (sv_term m)) \<and>
    (list_all usb_present evs \<longrightarrow> outs @ to_usb s' = to_usb s @ ins)"
  using assms by (rule main_console)


section \<open>A kernel that says hello\<close>

lemma demo_serving: "serving 3 demo_slave" "to_terminal demo_slave = []"
  by (simp_all add: serving_def demo_slave_def service_ready_def frank_link_console_up_def core1_ok_def FrankRing.ring_ok_def
      disk_only_def to_terminal_def pend_def fan_used_def ring_bytes_def frank_ring_used_def win_def blk_of_def)

theorem console_reaches_terminal_witness:
  "\<exists>s' m' outs ins cs. core1_usb_main (wire (\<lambda>_. 0) demo_disk)
      [KernelSubmits LINK_BLK_OP_READ 3 2 0x11000000, KernelWrites [72, 105], Pass (env_demo 7) 9]
      (demo_slave, demo_server) = ((s', m'), outs, ins) \<and>
    concat cs @ to_terminal s' = to_terminal demo_slave @ ins \<and>
    sv_term m' = fold (console_chunk (\<lambda>_. 0)) cs (sv_term demo_server) \<and> outs @ to_usb s' = to_usb demo_slave @ ins"
proof -
  let ?evs = "[KernelSubmits LINK_BLK_OP_READ 3 2 0x11000000, KernelWrites [72, 105], Pass (env_demo 7) 9]"
  obtain s' m' outs ins where r: "core1_usb_main (wire (\<lambda>_. 0) demo_disk) ?evs (demo_slave, demo_server) = ((s', m'), outs, ins)"
    by (metis prod.exhaust)
  have "serving (length ?evs) demo_slave" using demo_serving(1) by (simp add: numeral_3_eq_3)
  moreover have "list_all event_ok ?evs" "list_all usb_present ?evs"
    by (simp_all add: event_ok_def usb_present_def link_consts env_demo_def)
  ultimately show ?thesis using console_reaches_terminal [OF _ _ r] r by blast
qed


end
