(* ===== verification/LinkPeer.thy ===== *)
theory LinkPeer
  imports Console
begin

text \<open>
  The link part of \<open>blk_transact\<close> (\<open>firmware/common/core1_blk.c\<close>) on the transport: what the
  block link takes as its \<open>peer\<close> is here the sequence of calls to \<open>link_bus.c\<close>.  Every
  transaction comes to an end with the doorbell and VALID released.
\<close>

section \<open>One exchange\<close>

definition db_timeout :: "u32 \<Rightarrow> u64" where
  "db_timeout op = (if op = LINK_BLK_OP_READ \<or> op = LINK_BLK_OP_WRITE then 5000000 else 20000)"

text \<open>The doorbell is lowered and the master's answer to that awaited, in success and failure alike.\<close>

definition hang_up :: "'h link_hw \<Rightarrow> link_outcome \<Rightarrow> 'h link \<Rightarrow> (link_outcome \<times> 'h link) option" where
  "hang_up hw out l = do {
     (_, l) \<leftarrow> link_db_wait hw False 1000000 (link_db_set False l);
     Some (out, l) }"

definition send_frame :: "'h link_hw \<Rightarrow> u64 \<Rightarrow> u8 list \<Rightarrow> 'h link \<Rightarrow> (bool \<times> 'h link) option" where
  "send_frame hw timeout_us bs l = do {
     l \<leftarrow> link_tx_start hw bs l;
     link_tx_finish hw timeout_us l }"

definition receive_reply :: "'h link_hw \<Rightarrow> 'h link \<Rightarrow> (link_outcome \<times> 'h link) option" where
  "receive_reply hw l = do {
     (left, l) \<leftarrow> link_rx_wait hw 3000000 l;
     if left \<noteq> 0 then hang_up hw (RxShort left) l
     else hang_up hw (link_outcome.Answer (hw_rx_data hw (lk_dev l))) l }"

text \<open>The receiver is armed before a byte of the request goes out.\<close>

definition link_exchange :: "'h link_hw \<Rightarrow> u8 list \<Rightarrow> u8 list \<Rightarrow> nat \<Rightarrow> 'h link \<Rightarrow> (link_outcome \<times> 'h link) option" where
  "link_exchange hw hdr payload reply_bytes l = do {
     (up, l) \<leftarrow> link_db_wait hw True (db_timeout (rq_op (req_of_bytes hdr))) (link_db_set True l);
     if \<not> up then Some (NoDoorbell, link_db_set False l)
     else do {
       (sent, l) \<leftarrow> send_frame hw 1000000 hdr (link_rx_arm hw reply_bytes (link_use_ctrl_rate hw l));
       if \<not> sent then hang_up hw SendFailed l
       else if rq_op (req_of_bytes hdr) = LINK_BLK_OP_WRITE \<or> rq_op (req_of_bytes hdr) = LINK_BLK_OP_CON \<and> payload \<noteq> []
       then do {
         (sent, l) \<leftarrow> send_frame hw 3000000 payload l;
         if \<not> sent then hang_up hw SendFailed l else receive_reply hw l }
       else receive_reply hw l } }"

section \<open>Time\<close>

text \<open>Every operation of the hardware takes at most \<open>d\<close> microseconds.\<close>

definition op_ticks :: "nat \<Rightarrow> ('h \<Rightarrow> nat) \<Rightarrow> ('h \<Rightarrow> 'h) \<Rightarrow> bool" where
  "op_ticks d time f \<longleftrightarrow> (\<forall>h. time h \<le> time (f h) \<and> time (f h) \<le> time h + d)"

definition hw_clock :: "nat \<Rightarrow> 'h link_hw \<Rightarrow> ('h \<Rightarrow> nat) \<Rightarrow> bool" where
  "hw_clock d hw time \<longleftrightarrow> us_clock d hw time \<and> op_ticks d time (hw_drain hw) \<and> op_ticks d time (hw_tx_abort hw) \<and>
     op_ticks d time (hw_rx_abort hw) \<and> (\<forall>r. op_ticks d time (hw_set_clkdiv hw r)) \<and>
     (\<forall>n. op_ticks d time (hw_rx_words hw n)) \<and> (\<forall>bs. op_ticks d time (hw_tx_words hw bs))"

text \<open>\<open>f\<close> returns within \<open>n\<close> microseconds, before the clock gets near its end, with \<open>P\<close> of its result.\<close>

definition ends_by :: "('h \<Rightarrow> nat) \<Rightarrow> nat \<Rightarrow> ('h link \<Rightarrow> ('a \<times> 'h link) option) \<Rightarrow> 'h link \<Rightarrow> ('a \<Rightarrow> 'h link \<Rightarrow> bool) \<Rightarrow> bool" where
  "ends_by time n f l P \<longleftrightarrow> time (lk_dev l) + n < 2 ^ 60 \<longrightarrow>
     (\<exists>r l'. f l = Some (r, l') \<and> time (lk_dev l) \<le> time (lk_dev l') \<and> time (lk_dev l') \<le> time (lk_dev l) + n \<and> P r l')"

lemma ends_by_bind:
  assumes "ends_by time n f l P" "\<And>r l1. P r l1 \<Longrightarrow> ends_by time m (g r) l1 Q"
  shows "ends_by time (n + m) (\<lambda>l. do { (r, l) \<leftarrow> f l; g r l }) l Q"
  unfolding ends_by_def
proof
  assume lt: "time (lk_dev l) + (n + m) < 2 ^ 60"
  with assms(1) obtain r l1 where f: "f l = Some (r, l1)" "time (lk_dev l) \<le> time (lk_dev l1)"
    "time (lk_dev l1) \<le> time (lk_dev l) + n" "P r l1" unfolding ends_by_def by auto
  from assms(2) [OF f(4)] f(3) lt show "\<exists>r l'. do { (r, l) \<leftarrow> f l; g r l } = Some (r, l') \<and>
      time (lk_dev l) \<le> time (lk_dev l') \<and> time (lk_dev l') \<le> time (lk_dev l) + (n + m) \<and> Q r l'"
    using f(1,2) unfolding ends_by_def by force
qed

lemma ends_by_weaken:
  assumes "ends_by time n f l P" "n \<le> m" "\<And>r l'. P r l' \<Longrightarrow> Q r l'"
  shows "ends_by time m f l Q"
  unfolding ends_by_def
proof
  assume "time (lk_dev l) + m < 2 ^ 60"
  then have "time (lk_dev l) + n < 2 ^ 60" using assms(2) by simp
  then obtain r l' where f: "f l = Some (r, l')" "time (lk_dev l) \<le> time (lk_dev l')"
    "time (lk_dev l') \<le> time (lk_dev l) + n" "P r l'" using assms(1) unfolding ends_by_def by blast
  then show "\<exists>r l'. f l = Some (r, l') \<and> time (lk_dev l) \<le> time (lk_dev l') \<and>
      time (lk_dev l') \<le> time (lk_dev l) + m \<and> Q r l'"
    using assms(2) assms(3) [OF f(4)] by (intro exI [of _ r] exI [of _ l']) simp
qed

lemma ends_by_return: "P x (g l) \<Longrightarrow> lk_dev (g l) = lk_dev l \<Longrightarrow> ends_by time n (\<lambda>l. Some (x, g l)) l P"
  by (simp add: ends_by_def)

lemma ends_by_step:
  assumes "ends_by time m f (g l) P" "time (lk_dev l) \<le> time (lk_dev (g l))" "time (lk_dev (g l)) \<le> time (lk_dev l) + n"
  shows "ends_by time (n + m) (\<lambda>l. f (g l)) l P"
  using assms unfolding ends_by_def by force

section \<open>The operations of the transport\<close>

lemma wait_within:
  assumes "us_clock d hw time" "look_ticks d time look" "time h0 \<le> time h" "time h \<le> time h0 + unat timeout + S"
    "time h0 + unat timeout + S < 2 ^ 60"
  obtains ok h' where "wait_until look (hw_now hw) (hw_now hw h0 + timeout) h = Some (ok, h')"
    "time h \<le> time h'" "time h' \<le> time h0 + unat timeout + S + d" "ok \<Longrightarrow> \<exists>g. look g = (True, h')"
proof -
  have now: "hw_now hw h = of_nat (time h)" for h using assms(1) by (simp add: us_clock_def)
  have "hw_now hw h0 + timeout = of_nat (time h0 + unat timeout)" by (simp add: now)
  then show thesis
    using wait_until_returns [OF assms(2) now, of "time h0 + unat timeout" S h] assms(1,4,5) that
    by (auto simp: us_clock_def)
qed

lemma db_look_ticks: "us_clock d hw time \<Longrightarrow> look_ticks d time (\<lambda>h. case hw_db_in hw h of (up, h) \<Rightarrow> (up = level, h))"
  by (simp add: us_clock_def look_ticks_def split: prod.split) (metis snd_conv)

lemma db_wait_within:
  assumes "hw_clock d hw time"
  shows "ends_by time (unat timeout + d) (link_db_wait hw level timeout) l
    (\<lambda>ok l'. db_out l' = db_out l \<and> tx_valid l' = tx_valid l \<and> (ok \<longrightarrow> (\<exists>g. fst (hw_db_in hw g) = level)))"
  unfolding ends_by_def
proof
  assume lt: "time (lk_dev l) + (unat timeout + d) < 2 ^ 60"
  let ?look = "\<lambda>h. case hw_db_in hw h of (up, h) \<Rightarrow> (up = level, h)"
  have us: "us_clock d hw time" using assms by (simp add: hw_clock_def)
  obtain ok h' where w: "wait_until ?look (hw_now hw) (hw_now hw (lk_dev l) + timeout) (lk_dev l) = Some (ok, h')"
    "time (lk_dev l) \<le> time h'" "time h' \<le> time (lk_dev l) + unat timeout + 0 + d" "ok \<Longrightarrow> \<exists>g. ?look g = (True, h')"
    by (rule wait_within [OF us db_look_ticks [OF us], where S = 0 and h = "lk_dev l" and h0 = "lk_dev l"]) (use lt in auto)
  have "\<exists>g. fst (hw_db_in hw g) = level" if ok: ok
  proof -
    obtain g where "?look g = (True, h')" using w(4) [OF ok] by (rule exE)
    then have "fst (hw_db_in hw g) = level" by (cases "hw_db_in hw g") simp
    then show ?thesis ..
  qed
  then show "\<exists>r l'. link_db_wait hw level timeout l = Some (r, l') \<and> time (lk_dev l) \<le> time (lk_dev l') \<and>
      time (lk_dev l') \<le> time (lk_dev l) + (unat timeout + d) \<and>
      db_out l' = db_out l \<and> tx_valid l' = tx_valid l \<and> (r \<longrightarrow> (\<exists>g. fst (hw_db_in hw g) = level))"
    using w(1-3) by (simp add: link_db_wait_def)
qed

lemma tx_finish_within:
  assumes "hw_clock d hw time"
  shows "ends_by time (unat timeout + 3 * d) (link_tx_finish hw timeout) l (\<lambda>_ l'. \<not> tx_valid l')"
  unfolding ends_by_def
proof
  assume lt: "time (lk_dev l) + (unat timeout + 3 * d) < 2 ^ 60"
  let ?h = "lk_dev l"
  have us: "us_clock d hw time" and ticks: "look_ticks d time (hw_tx_busy hw)" "look_ticks d time (hw_tx_empty hw)"
    and ops: "op_ticks d time (hw_tx_abort hw)" "op_ticks d time (hw_drain hw)"
    using assms by (simp_all add: hw_clock_def us_clock_def)
  obtain fed h1 where w: "wait_until (not_busy (hw_tx_busy hw)) (hw_now hw) (hw_now hw ?h + timeout) ?h = Some (fed, h1)"
    "time ?h \<le> time h1" "time h1 \<le> time ?h + unat timeout + 0 + d"
    by (rule wait_within [OF us not_busy_ticks [OF ticks(1)], where S = 0 and h = ?h and h0 = ?h]) (use lt in auto)
  obtain ok h2 where v: "wait_until (hw_tx_empty hw) (hw_now hw) (hw_now hw ?h + timeout) h1 = Some (ok, h2)"
    "time h1 \<le> time h2" "time h2 \<le> time ?h + unat timeout + d + d"
    by (rule wait_within [OF us ticks(2), where S = d and h = h1 and h0 = ?h]) (use lt w in auto)
  have "time h \<le> time (hw_tx_abort hw h) \<and> time (hw_tx_abort hw h) \<le> time h + d"
    "time h \<le> time (hw_drain hw h) \<and> time (hw_drain hw h) \<le> time h + d" for h
    using ops by (simp_all add: op_ticks_def)
  note t = this(1) [of h1] this(2) [of h2]
  show "\<exists>r l'. link_tx_finish hw timeout l = Some (r, l') \<and> time ?h \<le> time (lk_dev l') \<and>
      time (lk_dev l') \<le> time ?h + (unat timeout + 3 * d) \<and> \<not> tx_valid l'"
    using w v t unfolding link_tx_finish_def Let_def by (cases fed; cases ok) auto
qed

lemma rx_wait_within:
  assumes "hw_clock d hw time"
  shows "ends_by time (unat timeout + 3 * d) (link_rx_wait hw timeout) l (\<lambda>_ l'. tx_valid l' = tx_valid l)"
  unfolding ends_by_def
proof
  assume lt: "time (lk_dev l) + (unat timeout + 3 * d) < 2 ^ 60"
  let ?h = "lk_dev l"
  have us: "us_clock d hw time" and ticks: "look_ticks d time (hw_rx_busy hw)" and ops: "op_ticks d time (hw_rx_abort hw)"
    using assms by (simp_all add: hw_clock_def us_clock_def)
  obtain got h1 where w: "wait_until (not_busy (hw_rx_busy hw)) (hw_now hw) (hw_now hw ?h + timeout) ?h = Some (got, h1)"
    "time ?h \<le> time h1" "time h1 \<le> time ?h + unat timeout + 0 + d"
    by (rule wait_within [OF us not_busy_ticks [OF ticks], where S = 0 and h = ?h and h0 = ?h]) (use lt in auto)
  obtain busy h2 where b: "hw_rx_busy hw h1 = (busy, h2)" by fastforce
  have t: "time h1 \<le> time h2" "time h2 \<le> time h1 + d"
    using ticks b by (auto simp: look_ticks_def dest!: spec [of _ h1])
  have a: "time h2 \<le> time (hw_rx_abort hw h2)" "time (hw_rx_abort hw h2) \<le> time h2 + d"
    using ops by (simp_all add: op_ticks_def)
  show "\<exists>r l'. link_rx_wait hw timeout l = Some (r, l') \<and> time ?h \<le> time (lk_dev l') \<and>
      time (lk_dev l') \<le> time ?h + (unat timeout + 3 * d) \<and> tx_valid l' = tx_valid l"
    using w b t a unfolding link_rx_wait_def by (cases got; cases busy) (simp_all add: Let_def link_rx_abort_def)
qed

lemma rx_arm_step:
  assumes "hw_clock d hw time"
  shows "time (lk_dev l) \<le> time (lk_dev (link_rx_arm hw n (link_use_ctrl_rate hw l)))"
    "time (lk_dev (link_rx_arm hw n (link_use_ctrl_rate hw l))) \<le> time (lk_dev l) + 3 * d"
proof -
  have "time h \<le> time (hw_set_clkdiv hw r h)" "time (hw_set_clkdiv hw r h) \<le> time h + d"
    "time h \<le> time (hw_rx_abort hw h)" "time (hw_rx_abort hw h) \<le> time h + d"
    "time h \<le> time (hw_rx_words hw k h)" "time (hw_rx_words hw k h) \<le> time h + d" for h k r
    using assms by (simp_all add: hw_clock_def op_ticks_def)
  note op = this
  let ?l = "link_use_ctrl_rate hw l"
  have "time (lk_dev l) \<le> time (lk_dev ?l)" "time (lk_dev ?l) \<le> time (lk_dev l) + d"
    using op(1,2) by (simp_all add: link_use_ctrl_rate_def apply_clkdiv_def)
  then show "time (lk_dev l) \<le> time (lk_dev (link_rx_arm hw n ?l))"
    "time (lk_dev (link_rx_arm hw n ?l)) \<le> time (lk_dev l) + 3 * d"
    using op(3,4) [where h = "lk_dev ?l"] op(5,6) [where h = "hw_rx_abort hw (lk_dev ?l)" and k = "n div 4"] by (simp_all add: link_rx_arm_def)
qed

lemma send_frame_within:
  assumes "hw_clock d hw time" "length bs mod 4 = 0"
  shows "ends_by time (unat timeout + 4 * d) (send_frame hw timeout bs) l (\<lambda>_ l'. \<not> tx_valid l')"
proof -
  let ?go = "\<lambda>l. l\<lparr>tx_valid := True, lk_dev := hw_tx_words hw (take (4 * (length bs div 4)) bs) (lk_dev l)\<rparr>"
  have "send_frame hw timeout bs = (\<lambda>l. link_tx_finish hw timeout (?go l))"
    using assms(2) by (simp add: fun_eq_iff send_frame_def link_tx_start_def)
  moreover have "ends_by time (d + (unat timeout + 3 * d)) (\<lambda>l. link_tx_finish hw timeout (?go l)) l (\<lambda>_ l'. \<not> tx_valid l')"
    by (rule ends_by_step [OF tx_finish_within [OF assms(1)]]) (use assms(1) in \<open>simp_all add: hw_clock_def op_ticks_def\<close>)
  ultimately show ?thesis by (simp add: algebra_simps)
qed

lemma hang_up_within:
  assumes "hw_clock d hw time" "\<not> tx_valid l"
  shows "ends_by time (1000000 + d) (hang_up hw out) l (\<lambda>r l'. r = out \<and> \<not> db_out l' \<and> \<not> tx_valid l')"
proof -
  have "ends_by time (0 + ((1000000 + d) + 0))
      (\<lambda>l. do { (_, l) \<leftarrow> link_db_wait hw False 1000000 (link_db_set False l); Some (out, l) }) l
      (\<lambda>r l'. r = out \<and> \<not> db_out l' \<and> \<not> tx_valid l')"
    by (rule ends_by_step [where g = "link_db_set False"],
        rule ends_by_bind [OF db_wait_within [OF assms(1), where timeout = 1000000, simplified]])
      (use assms(2) in \<open>auto simp: ends_by_def link_db_set_def\<close>)
  then show ?thesis by (simp add: hang_up_def [abs_def])
qed

lemma receive_reply_within:
  assumes "hw_clock d hw time" "\<not> tx_valid l"
  shows "ends_by time (4000000 + 4 * d) (receive_reply hw) (l :: 'a link) (\<lambda>r l'. r \<noteq> NoDoorbell \<and> \<not> db_out l' \<and> \<not> tx_valid l')"
proof -
  have "ends_by time ((3000000 + 3 * d) + (1000000 + d)) (receive_reply hw) l (\<lambda>r l'. r \<noteq> NoDoorbell \<and> \<not> db_out l' \<and> \<not> tx_valid l')"
    unfolding receive_reply_def
  proof (rule ends_by_bind [OF rx_wait_within [OF assms(1), where timeout = 3000000, simplified]])
    fix left and l1 :: "'a link" assume "tx_valid l1 = tx_valid l"
    then have "\<not> tx_valid l1" using assms(2) by simp
    note h = hang_up_within [OF assms(1) this, THEN ends_by_weaken [OF _ le_refl]]
    show "ends_by time (1000000 + d) (\<lambda>l. if left \<noteq> 0 then hang_up hw (RxShort left) l
        else hang_up hw (link_outcome.Answer (hw_rx_data hw (lk_dev l))) l) l1 (\<lambda>r l'. r \<noteq> NoDoorbell \<and> \<not> db_out l' \<and> \<not> tx_valid l')"
      using h [of "RxShort left"] h [of "link_outcome.Answer (hw_rx_data hw (lk_dev l1))"] by (simp add: ends_by_def)
  qed
  then show ?thesis by (simp add: algebra_simps)
qed

section \<open>A transaction\<close>

text \<open>After the doorbell has been answered.\<close>

lemma answered_within:
  assumes "hw_clock d hw time" "length hdr mod 4 = 0" "length payload mod 4 = 0"
  shows "ends_by time (8000000 + 15 * d) (\<lambda>l. do {
       (sent, l) \<leftarrow> send_frame hw 1000000 hdr (link_rx_arm hw n (link_use_ctrl_rate hw l));
       if \<not> sent then hang_up hw SendFailed l
       else if with_payload then do {
         (sent, l) \<leftarrow> send_frame hw 3000000 payload l;
         if \<not> sent then hang_up hw SendFailed l else receive_reply hw l }
       else receive_reply hw l }) l (\<lambda>r l'. r \<noteq> NoDoorbell \<and> \<not> db_out l' \<and> \<not> tx_valid l')"
proof -
  let ?Q = "\<lambda>r l'. r \<noteq> NoDoorbell \<and> \<not> db_out l' \<and> \<not> tx_valid l'"
  have hang: "ends_by time (4000000 + 4 * d) (hang_up hw SendFailed) l ?Q" if "\<not> tx_valid l" for l
    by (rule ends_by_weaken [OF hang_up_within [OF assms(1) that]]) auto
  have recv: "ends_by time (4000000 + 4 * d) (\<lambda>l. if \<not> sent then hang_up hw SendFailed l else receive_reply hw l) l ?Q"
    if "\<not> tx_valid l" for sent l
    using hang [OF that] receive_reply_within [OF assms(1) that] by (cases sent) simp_all
  have pay: "ends_by time ((3000000 + 4 * d) + (4000000 + 4 * d))
      (\<lambda>l. do { (sent, l) \<leftarrow> send_frame hw 3000000 payload l; if \<not> sent then hang_up hw SendFailed l else receive_reply hw l }) l ?Q" for l
    by (rule ends_by_bind [OF send_frame_within [OF assms(1,3), where timeout = 3000000, simplified] recv])
  have rest: "ends_by time (7000000 + 8 * d) (\<lambda>l. if \<not> sent then hang_up hw SendFailed l
       else if with_payload then do {
         (sent, l) \<leftarrow> send_frame hw 3000000 payload l;
         if \<not> sent then hang_up hw SendFailed l else receive_reply hw l }
       else receive_reply hw l) l ?Q" if "\<not> tx_valid l" for sent l
    using ends_by_weaken [OF hang [OF that], where m = "7000000 + 8 * d" and Q = ?Q]
      ends_by_weaken [OF receive_reply_within [OF assms(1) that], where m = "7000000 + 8 * d" and Q = ?Q] pay [of l]
    by (cases sent; cases with_payload) (simp_all add: algebra_simps)
  have "ends_by time (3 * d + ((1000000 + 4 * d) + (7000000 + 8 * d))) (\<lambda>l. do {
       (sent, l) \<leftarrow> send_frame hw 1000000 hdr (link_rx_arm hw n (link_use_ctrl_rate hw l));
       if \<not> sent then hang_up hw SendFailed l
       else if with_payload then do {
         (sent, l) \<leftarrow> send_frame hw 3000000 payload l;
         if \<not> sent then hang_up hw SendFailed l else receive_reply hw l }
       else receive_reply hw l }) l ?Q"
    by (rule ends_by_step [where g = "\<lambda>l. link_rx_arm hw n (link_use_ctrl_rate hw l)", OF _ rx_arm_step [OF assms(1)]],
        rule ends_by_bind [OF send_frame_within [OF assms(1,2), where timeout = 1000000, simplified] rest])
  then show ?thesis by (simp add: algebra_simps)
qed

lemma exchange_ends:
  assumes "hw_clock d hw time" "time (lk_dev l) + 14000000 + 16 * d < 2 ^ 60" "\<not> tx_valid l"
  shows "\<exists>out l'. link_exchange hw (req_bytes r) (request_payload (rq_op r) (rq_count r) buf)
        (unat (armed_bytes (rq_op r) (rq_count r))) l = Some (out, l') \<and>
      \<not> db_out l' \<and> \<not> tx_valid l' \<and>
      time (lk_dev l') \<le> time (lk_dev l) + unat (db_timeout (rq_op r)) + 8000000 + 16 * d \<and>
      (out = NoDoorbell \<longrightarrow> time (lk_dev l') \<le> time (lk_dev l) + unat (db_timeout (rq_op r)) + d) \<and>
      ((\<forall>g. \<not> fst (hw_db_in hw g)) \<longrightarrow> out = NoDoorbell)"
proof -
  let ?pay = "request_payload (rq_op r) (rq_count r) buf" and ?T = "unat (db_timeout (rq_op r))"
  have words: "length (req_bytes r) mod 4 = 0" "length ?pay mod 4 = 0"
    by (simp_all add: request_payload_def wire_words)
  have T: "?T \<le> 5000000" by (simp add: db_timeout_def)
  obtain up l1 where w: "link_db_wait hw True (db_timeout (rq_op r)) (link_db_set True l) = Some (up, l1)"
    "time (lk_dev l) \<le> time (lk_dev l1)" "time (lk_dev l1) \<le> time (lk_dev l) + (?T + d)"
    "tx_valid l1 = tx_valid l" "up \<longrightarrow> (\<exists>g. fst (hw_db_in hw g))"
    using db_wait_within [OF assms(1), of "db_timeout (rq_op r)" True "link_db_set True l"] assms(2) T
    by (auto simp: ends_by_def link_db_set_def)
  show ?thesis
  proof (cases up)
    case False
    then show ?thesis using w assms(3) by (simp add: link_exchange_def req_roundtrip link_db_set_def)
  next
    case True
    obtain out l2 where "link_exchange hw (req_bytes r) ?pay (unat (armed_bytes (rq_op r) (rq_count r))) l = Some (out, l2)"
      "time (lk_dev l2) \<le> time (lk_dev l1) + (8000000 + 15 * d)" "out \<noteq> NoDoorbell" "\<not> db_out l2" "\<not> tx_valid l2"
      using answered_within [OF assms(1) words, of "unat (armed_bytes (rq_op r) (rq_count r))"
          "rq_op r = LINK_BLK_OP_WRITE \<or> rq_op r = LINK_BLK_OP_CON \<and> ?pay \<noteq> []" l1] w(1,3) assms(2) T True
      unfolding link_exchange_def req_roundtrip by (auto simp: ends_by_def)
    then show ?thesis using w(2,3,5) True by (intro exI [of _ out] exI [of _ l2]) auto
  qed
qed


lemma dead_hw_ticks: "hw_clock 3 dead_hw id"
  using dead_hw_clock by (simp add: hw_clock_def op_ticks_def dead_hw_def)


end
