(* ===== verification/LinkBench.thy ===== *)
theory LinkBench
  imports LinkPeer
begin

text \<open>
  Both halves of the board on one bench: a device for the transport of \<open>link_bus.c\<close> whose far end
  is the master of this repository.  A transaction of core 1 over it gives what the wire of
  \<open>Machine\<close> gives, so that everything proved over the wire holds over the calls to the transport.
\<close>

section \<open>The far end\<close>

text \<open>
  The master, the frames it has received in this transaction, the bytes core 1 has armed its receiver
  for, and the reply once it has been sent.
\<close>

record 'd bench =
  bn_time :: nat
  bn_master :: "'d server"
  bn_frames :: "u8 list list"
  bn_armed :: nat
  bn_reply :: "u8 list option"

text \<open>A payload is waited for when the request is accepted and brings one.\<close>

definition wants_payload :: "link_blk_req \<Rightarrow> 'd server \<Rightarrow> bool" where
  "wants_payload req m \<longleftrightarrow> do_request req (capacity_sectors m) = 0 \<and>
     (rq_op req = LINK_BLK_OP_WRITE \<or> rq_op req = LINK_BLK_OP_CON \<and> rq_count req \<noteq> 0)"

definition bench_serve :: "(nat \<Rightarrow> u8) \<Rightarrow> 'd diskio \<Rightarrow> u8 list \<Rightarrow> u8 list option \<Rightarrow> 'd bench \<Rightarrow> 'd bench" where
  "bench_serve rom d hdr payload h =
     (case serve_frame rom d hdr payload (bn_master h) of
        None \<Rightarrow> h
      | Some (_, reply, m) \<Rightarrow> h\<lparr>bn_master := m, bn_reply := Some reply\<rparr>)"

text \<open>A frame that comes when nobody waits for one is lost.\<close>

definition bench_receive :: "(nat \<Rightarrow> u8) \<Rightarrow> 'd diskio \<Rightarrow> u8 list \<Rightarrow> 'd bench \<Rightarrow> 'd bench" where
  "bench_receive rom d bs h =
     (case bn_frames h of
        [] \<Rightarrow> (let h = h\<lparr>bn_frames := [bs]\<rparr>
               in if wants_payload (req_of_bytes bs) (bn_master h) then h else bench_serve rom d bs None h)
      | [hdr] \<Rightarrow> (let wanted = wants_payload (req_of_bytes hdr) (bn_master h); h = h\<lparr>bn_frames := [hdr, bs]\<rparr>
                  in if wanted \<and> bn_reply h = None then bench_serve rom d hdr (Some bs) h else h)
      | _ \<Rightarrow> h)"

definition arrived :: "'d bench \<Rightarrow> u8 list" where
  "arrived h = (case bn_reply h of None \<Rightarrow> [] | Some r \<Rightarrow> take (bn_armed h) r)"

definition look_at :: "('d bench \<Rightarrow> bool) \<Rightarrow> 'd bench \<Rightarrow> bool \<times> 'd bench" where
  "look_at f h = (f h, h\<lparr>bn_time := bn_time h + 1\<rparr>)"

text \<open>Sending is quick, the master's doorbell is up until it has answered, and only looks take time.\<close>

definition bench_hw :: "(nat \<Rightarrow> u8) \<Rightarrow> 'd diskio \<Rightarrow> 'd bench link_hw" where
  "bench_hw rom d = \<lparr>hw_tx_busy = look_at (\<lambda>_. False), hw_tx_empty = look_at (\<lambda>_. True),
     hw_rx_busy = look_at (\<lambda>h. length (arrived h) < bn_armed h),
     hw_rx_count = (\<lambda>h. (bn_armed h - length (arrived h)) div 4),
     hw_db_in = look_at (\<lambda>h. bn_reply h = None), hw_now = (\<lambda>h. of_nat (bn_time h)), hw_drain = (\<lambda>h. h),
     hw_tx_words = bench_receive rom d, hw_rx_words = (\<lambda>n h. h\<lparr>bn_armed := 4 * n\<rparr>),
     hw_tx_abort = (\<lambda>h. h), hw_rx_abort = (\<lambda>h. h), hw_tx_ring = (\<lambda>_ _ h. h), hw_rx_ring = (\<lambda>_ _ h. h),
     hw_set_clkdiv = (\<lambda>_ h. h), hw_setup = (\<lambda>_ h. h), hw_rx_data = arrived, hw_fs_in = (\<lambda>_. False),
     hw_rx_valid = (\<lambda>_. False)\<rparr>"

section \<open>The payload of a request that is refused does not matter\<close>

lemma serve_without_payload:
  assumes "\<not> wants_payload (req_of_bytes hdr) m"
  shows "serve_frame rom d hdr p m = serve_frame rom d hdr q m"
  using assms
  by (auto simp: serve_frame_def serve_data_def wants_payload_def request_bytes_def Let_def)

section \<open>Waiting\<close>

lemma wait_until_now: "look h = (True, h') \<Longrightarrow> wait_until look now t h = Some (True, h')"
  by (subst wait_until.simps) simp

lemma wait_until_keeps:
  "wait_until look now t h = Some r \<Longrightarrow> (\<And>h. v (snd (look h)) = v h) \<Longrightarrow>
    v (snd r) = v h \<and> (fst r \<longrightarrow> (\<exists>g. v g = v h \<and> fst (look g)))"
proof (induction rule: wait_until.raw_induct [rotated, consumes 1, case_names step])
  case (step wait look now t h r)
  obtain ok h1 where l: "look h = (ok, h1)" by fastforce
  then have v: "v h1 = v h" using step.prems by (metis snd_conv)
  show ?case
  proof (cases "ok \<or> passed t (now h1)")
    case True
    then have "r = (ok, h1)" using step.hyps l by (auto split: if_splits)
    then show ?thesis using v l by (auto intro: exI [of _ h])
  next
    case False
    then have "wait look now t h1 = Some r" using step.hyps l by simp
    from step.IH [OF this step.prems] show ?thesis using v by simp
  qed
qed

section \<open>The transport on the bench\<close>

text \<open>Everything but the clock.\<close>

definition still :: "'d bench \<Rightarrow> 'd bench" where
  "still h = h\<lparr>bn_time := 0\<rparr>"

lemma still_fields:
  assumes "still g = still h"
  shows "bn_master g = bn_master h" "bn_frames g = bn_frames h" "bn_armed g = bn_armed h" "bn_reply g = bn_reply h"
    "arrived g = arrived h"
proof -
  show f: "bn_master g = bn_master h" "bn_frames g = bn_frames h" "bn_armed g = bn_armed h" "bn_reply g = bn_reply h"
    using assms by (auto simp: still_def dest: arg_cong [where f = bn_master] arg_cong [where f = bn_frames]
        arg_cong [where f = bn_armed] arg_cong [where f = bn_reply])
  show "arrived g = arrived h" by (simp add: arrived_def f split: option.split)
qed

lemma still_time [simp]: "still (h\<lparr>bn_time := n\<rparr>) = still h"
  by (simp add: still_def)

lemma arrived_time [simp]: "arrived (h\<lparr>bn_time := n\<rparr>) = arrived h"
  by (simp add: arrived_def split: option.split)

lemma bench_up:
  assumes "bn_reply (lk_dev l) = None"
  shows "link_db_wait (bench_hw rom d) True timeout l = Some (True, l\<lparr>lk_dev := (lk_dev l)\<lparr>bn_time := bn_time (lk_dev l) + 1\<rparr>\<rparr>)"
proof -
  have "(case hw_db_in (bench_hw rom d) (lk_dev l) of (up, h) \<Rightarrow> (up = True, h)) =
      (True, (lk_dev l)\<lparr>bn_time := bn_time (lk_dev l) + 1\<rparr>)"
    using assms by (simp add: bench_hw_def look_at_def)
  then show ?thesis unfolding link_db_wait_def by (subst wait_until_now) simp_all
qed

lemma bench_db_keeps:
  assumes "link_db_wait (bench_hw rom d) level timeout l = Some (ok, l')"
  shows "still (lk_dev l') = still (lk_dev l)" "db_out l' = db_out l"
proof -
  obtain h where w: "wait_until (\<lambda>h. case hw_db_in (bench_hw rom d) h of (up, h) \<Rightarrow> (up = level, h)) (hw_now (bench_hw rom d))
      (hw_now (bench_hw rom d) (lk_dev l) + timeout) (lk_dev l) = Some (ok, h)" "l' = l\<lparr>lk_dev := h\<rparr>"
    using assms by (auto simp: link_db_wait_def bind_eq_Some_conv)
  have "still (snd (ok, h)) = still (lk_dev l)"
    by (rule wait_until_keeps [OF w(1), THEN conjunct1]) (simp add: bench_hw_def look_at_def)
  then show "still (lk_dev l') = still (lk_dev l)" "db_out l' = db_out l" by (simp_all add: w(2))
qed

lemma bench_hang_up:
  "hang_up (bench_hw rom d) out l = Some (r, l') \<Longrightarrow> r = out \<and> still (lk_dev l') = still (lk_dev l)"
  by (auto simp: hang_up_def bind_eq_Some_conv link_db_set_def dest: bench_db_keeps)

lemma bench_send:
  assumes "length bs mod 4 = 0"
  shows "\<exists>l'. send_frame (bench_hw rom d) timeout bs l = Some (True, l') \<and>
    still (lk_dev l') = still (bench_receive rom d bs (lk_dev l)) \<and> db_out l' = db_out l"
proof -
  have t: "take (4 * (length bs div 4)) bs = bs" using assms by (simp add: mult_div_mod_eq [symmetric] minus_mod_eq_mult_div [symmetric])
  let ?h = "bench_receive rom d bs (lk_dev l)"
  have "not_busy (hw_tx_busy (bench_hw rom d)) h = (True, h\<lparr>bn_time := bn_time h + 1\<rparr>)"
    "hw_tx_empty (bench_hw rom d) h = (True, h\<lparr>bn_time := bn_time h + 1\<rparr>)" for h
    by (simp_all add: not_busy_def bench_hw_def look_at_def)
  note now = this [THEN wait_until_now]
  show ?thesis
    using assms t by (simp add: send_frame_def link_tx_start_def link_tx_finish_def Let_def now) (simp add: bench_hw_def)
qed

lemma bench_reply:
  assumes "receive_reply (bench_hw rom d) l = Some (out, l')" "(bn_armed (lk_dev l) - length (arrived (lk_dev l))) mod 4 = 0"
  shows "still (lk_dev l') = still (lk_dev l) \<and>
    out = (if length (arrived (lk_dev l)) < bn_armed (lk_dev l) then RxShort (bn_armed (lk_dev l) - length (arrived (lk_dev l)))
           else link_outcome.Answer (arrived (lk_dev l)))"
proof -
  let ?hw = "bench_hw rom d" and ?h = "lk_dev l"
  obtain left l1 where rx: "link_rx_wait ?hw 3000000 l = Some (left, l1)"
    and hang: "if left \<noteq> 0 then hang_up ?hw (RxShort left) l1 = Some (out, l')
      else hang_up ?hw (link_outcome.Answer (hw_rx_data ?hw (lk_dev l1))) l1 = Some (out, l')"
    using assms(1) by (auto simp: receive_reply_def bind_eq_Some_conv split: if_splits)
  obtain got h1 where w: "wait_until (not_busy (hw_rx_busy ?hw)) (hw_now ?hw) (hw_now ?hw ?h + 3000000) ?h = Some (got, h1)"
    using rx by (auto simp: link_rx_wait_def bind_eq_Some_conv)
  have look: "still (snd (not_busy (hw_rx_busy ?hw) h)) = still h" "fst (not_busy (hw_rx_busy ?hw) h) \<longleftrightarrow> \<not> length (arrived h) < bn_armed h" for h
    by (simp_all add: not_busy_def bench_hw_def look_at_def)
  note k = wait_until_keeps [where v = still, OF w look(1), simplified]
  then have s1: "still h1 = still ?h" and all: "got \<Longrightarrow> \<not> length (arrived ?h) < bn_armed ?h"
    unfolding look(2) by (simp, metis still_fields(3,5))
  note f1 = still_fields [OF s1]
  have b: "hw_rx_busy ?hw h1 = (length (arrived ?h) < bn_armed ?h, h1\<lparr>bn_time := bn_time h1 + 1\<rparr>)"
    by (simp add: bench_hw_def look_at_def f1)
  have cnt: "hw_rx_count ?hw (h1\<lparr>bn_time := n\<rparr>) * 4 = bn_armed ?h - length (arrived ?h)" for n
    using assms(2) by (simp add: bench_hw_def f1) (metis mod_0_imp_dvd dvd_div_mult_self)
  have "still (lk_dev l1) = still ?h \<and> left = bn_armed ?h - length (arrived ?h)"
    using rx w b cnt all s1
    by (auto simp: link_rx_wait_def Let_def link_rx_remaining_def link_rx_abort_def split: if_splits) (auto simp: bench_hw_def)
  moreover have "hw_rx_data ?hw (lk_dev l1) = arrived ?h"
    using calculation still_fields [of "lk_dev l1" ?h] by (simp add: bench_hw_def)
  ultimately show ?thesis using hang bench_hang_up by (fastforce split: if_splits)
qed

section \<open>A transaction on the bench\<close>

lemma bench_clock: "hw_clock 1 (bench_hw rom d) bn_time"
proof -
  have "bn_time (bench_receive rom d bs h) = bn_time h" for bs h
    by (auto simp: bench_receive_def bench_serve_def Let_def split: list.splits option.splits prod.splits)
  then show ?thesis
    by (simp add: hw_clock_def us_clock_def look_ticks_def op_ticks_def) (simp add: bench_hw_def look_at_def)
qed

lemma armed_words: "unat (armed_bytes code n) mod 4 = 0 \<and> armed_bytes code n \<noteq> 0"
proof (cases "code = LINK_BLK_OP_READ")
  case True
  then have a: "armed_bytes code n = 8 + n * 512"
    by (simp add: armed_bytes_def wire_bytes_def link_consts)
  have "unat (8 + n * 512 :: u32) = (8 + unat n * 512) mod 2 ^ 32"
    by (simp add: unat_word_ariths mod_simps)
  moreover have "(8 + unat n * 512) mod 2 ^ 32 mod 512 = (8 + unat n * 512) mod 512" by (rule mod_mod_cancel) simp
  moreover have "(8 + unat n * 512) mod 512 = 8" by simp
  ultimately have m: "unat (armed_bytes code n) mod 512 = 8" by (simp add: a)
  have "unat (armed_bytes code n) mod 512 mod 4 = unat (armed_bytes code n) mod 4" by (rule mod_mod_cancel) simp
  moreover have "armed_bytes code n \<noteq> 0" using m by (intro notI) simp
  ultimately show ?thesis using m by simp
qed (simp add: armed_bytes_def link_consts)

text \<open>What the far end has done once the request is complete.\<close>

definition answered :: "(nat \<Rightarrow> u8) \<Rightarrow> 'd diskio \<Rightarrow> u8 list \<Rightarrow> u8 list option \<Rightarrow> 'd server \<Rightarrow> 'd bench \<Rightarrow> bool" where
  "answered rom d hdr p m h \<longleftrightarrow>
     (case serve_frame rom d hdr p m of
        None \<Rightarrow> bn_master h = m \<and> bn_reply h = None
      | Some (_, reply, m') \<Rightarrow> bn_master h = m' \<and> bn_reply h = Some reply)"

lemma answered_still: "still g = still h \<Longrightarrow> answered rom d hdr p m g = answered rom d hdr p m h"
  using still_fields(1,4) [of g h] by (simp add: answered_def split: option.split)

lemma receive_header:
  fixes h :: "'d bench" and d :: "'d diskio" and rom hdr
  assumes "bn_frames h = []" "bn_reply h = None"
  defines "g \<equiv> bench_receive rom d hdr h"
  shows "bn_frames g = [hdr]" "bn_armed g = bn_armed h"
    "wants_payload (req_of_bytes hdr) (bn_master h) \<Longrightarrow> bn_master g = bn_master h \<and> bn_reply g = None"
    "\<not> wants_payload (req_of_bytes hdr) (bn_master h) \<Longrightarrow> answered rom d hdr p (bn_master h) g"
  using assms serve_without_payload [of hdr "bn_master h" rom d None p]
  by (auto simp: g_def bench_receive_def bench_serve_def answered_def Let_def split: option.splits prod.splits)

lemma receive_payload:
  fixes h :: "'d bench" and d :: "'d diskio" and rom p
  assumes "bn_frames h = [hdr]"
  defines "g \<equiv> bench_receive rom d p h"
  shows "bn_armed g = bn_armed h"
    "wants_payload (req_of_bytes hdr) (bn_master h) \<Longrightarrow> bn_reply h = None \<Longrightarrow> answered rom d hdr (Some p) (bn_master h) g"
    "answered rom d hdr q m h \<Longrightarrow> bn_reply h \<noteq> None \<or> \<not> wants_payload (req_of_bytes hdr) (bn_master h) \<Longrightarrow> answered rom d hdr q m g"
  using assms
  by (auto simp: g_def bench_receive_def bench_serve_def answered_def Let_def split: option.splits prod.splits)

text \<open>Once the far end has answered, what core 1 finds is what the wire gives.\<close>

lemma answered_wire:
  assumes "answered rom d hdr (Some p) m h" "n \<noteq> 0"
  shows "bn_armed h = n \<Longrightarrow> wire rom d hdr p n m =
    (if length (arrived h) < n then RxShort (n - length (arrived h)) else link_outcome.Answer (arrived h), bn_master h)"
  using assms by (auto simp: answered_def wire_def arrived_def split: option.splits prod.splits)

lemma answered_words:
  assumes "fills d" "answered rom d (req_bytes r) (Some p) m h" "n mod 4 = 0"
  shows "bn_armed h = n \<Longrightarrow> (n - length (arrived h)) mod 4 = 0"
proof (cases "serve_frame rom d (req_bytes r) (Some p) m")
  case None
  then show "bn_armed h = n \<Longrightarrow> (n - length (arrived h)) mod 4 = 0" using assms(2,3) by (simp add: answered_def arrived_def)
next
  case (Some x)
  then obtain st reply m' where f: "serve_frame rom d (req_bytes r) (Some p) m = Some (st, reply, m')" by (cases x) auto
  then have "length reply mod 4 = 0" using frames_fit [OF assms(1)] by blast
  then have "min (length reply) n mod 4 = 0" using assms(3) by (rule min_words)
  moreover assume "bn_armed h = n"
  then have "arrived h = take n reply" using assms(2) f by (simp add: answered_def arrived_def)
  ultimately show "(n - length (arrived h)) mod 4 = 0"
    using assms(3) by (simp add: min.commute mod_eq_0_iff_dvd dvd_diff_nat)
qed

lemma exchange_outcome:
  fixes l :: "'d bench link" and r :: link_blk_req and buf :: "u8 arr"
  assumes "fills d" "bn_frames (lk_dev l) = []" "bn_reply (lk_dev l) = None"
  defines "p \<equiv> request_payload (rq_op r) (rq_count r) buf" and "n \<equiv> unat (armed_bytes (rq_op r) (rq_count r))"
  assumes x: "link_exchange (bench_hw rom d) (req_bytes r) p n l = Some (out, l')"
  shows "wire rom d (req_bytes r) p n (bn_master (lk_dev l)) = (out, bn_master (lk_dev l'))"
proof -
  let ?hw = "bench_hw rom d" and ?m = "bn_master (lk_dev l)" and ?hdr = "req_bytes r"
  let ?wants = "wants_payload r ?m"
  have hw4: "length ?hdr mod 4 = 0" "length p mod 4 = 0"
    by (simp_all add: p_def request_payload_def wire_words)
  have n: "n mod 4 = 0" "n \<noteq> 0" using armed_words by (simp_all add: n_def unat_eq_0)
  define l1 where "l1 = (link_db_set True l)\<lparr>lk_dev := (lk_dev l)\<lparr>bn_time := bn_time (lk_dev l) + 1\<rparr>\<rparr>"
  have up: "link_db_wait ?hw True (db_timeout (rq_op r)) (link_db_set True l) = Some (True, l1)"
    using bench_up [of "link_db_set True l"] assms(3) by (simp add: l1_def link_db_set_def)
  define l2 where "l2 = link_rx_arm ?hw n (link_use_ctrl_rate ?hw l1)"
  have l2: "bn_frames (lk_dev l2) = []" "bn_reply (lk_dev l2) = None" "bn_master (lk_dev l2) = ?m" "bn_armed (lk_dev l2) = n"
    using assms(2,3) n(1)
    by (auto simp: l2_def l1_def link_rx_arm_def link_use_ctrl_rate_def apply_clkdiv_def bench_hw_def link_db_set_def)
  obtain l3 where l3: "send_frame ?hw 1000000 ?hdr l2 = Some (True, l3)" "still (lk_dev l3) = still (bench_receive rom d ?hdr (lk_dev l2))"
    using bench_send [OF hw4(1)] by blast
  note h = receive_header [OF l2(1,2), where rom = rom and d = d and hdr = ?hdr, unfolded l2(3,4) req_roundtrip]
  note f3 = still_fields [OF l3(2)]
  let ?sends = "rq_op r = LINK_BLK_OP_WRITE \<or> rq_op r = LINK_BLK_OP_CON \<and> p \<noteq> []"
  have finish: "wire rom d ?hdr p n ?m = (out, bn_master (lk_dev l'))"
    if "receive_reply ?hw l4 = Some (out, l')" "answered rom d ?hdr (Some p) ?m (lk_dev l4)" "bn_armed (lk_dev l4) = n" for l4
  proof -
    have "(bn_armed (lk_dev l4) - length (arrived (lk_dev l4))) mod 4 = 0"
      unfolding that(3) by (rule answered_words [OF assms(1) that(2) n(1) that(3)])
    from bench_reply [OF that(1) this] have st: "still (lk_dev l') = still (lk_dev l4)" and
      out: "out = (if length (arrived (lk_dev l4)) < n then RxShort (n - length (arrived (lk_dev l4))) else link_outcome.Answer (arrived (lk_dev l4)))"
      by (simp_all add: that(3))
    from st have "bn_master (lk_dev l') = bn_master (lk_dev l4)" by (rule still_fields(1))
    then show ?thesis using answered_wire [OF that(2) n(2) that(3)] out by simp
  qed
  show ?thesis
  proof (cases ?sends)
    case False
    then have "\<not> ?wants"
    proof -
      have "rq_op r = LINK_BLK_OP_CON \<Longrightarrow> rq_count r \<noteq> 0 \<Longrightarrow> rq_count r \<le> LINK_CON_MAX_TX \<Longrightarrow> p \<noteq> []"
        using padded_le [of "rq_count r"]
        by (auto simp: p_def request_payload_def wire_bytes_def LINK_CON_MAX_TX_def word_le_nat_alt unat_eq_0 mem_get_def)
      then show ?thesis using False by (auto simp: wants_payload_def do_request_def link_consts split: if_splits)
    qed
    then have "answered rom d ?hdr (Some p) ?m (lk_dev l3)" using h(4) answered_still [OF l3(2)] by simp
    moreover have "receive_reply ?hw l3 = Some (out, l')"
      using x False by (simp add: link_exchange_def req_roundtrip up l2_def [symmetric] l3(1))
    moreover have "bn_armed (lk_dev l3) = n" using f3(3) h(2) by simp
    ultimately show ?thesis using finish by blast
  next
    case True
    obtain l4 where l4: "send_frame ?hw 3000000 p l3 = Some (True, l4)" "still (lk_dev l4) = still (bench_receive rom d p (lk_dev l3))"
      using bench_send [OF hw4(2)] by blast
    have fr: "bn_frames (lk_dev l3) = [?hdr]" using f3(2) h(1) by simp
    note q = receive_payload [OF fr, where rom = rom and d = d and p = p, unfolded req_roundtrip]
    have "answered rom d ?hdr (Some p) ?m (lk_dev l4)"
    proof (cases ?wants)
      case True
      then have "bn_master (lk_dev l3) = ?m" "bn_reply (lk_dev l3) = None" using h(3) f3 by simp_all
      then show ?thesis using q(2) True answered_still [OF l4(2)] by simp
    next
      case False
      then have a: "answered rom d ?hdr (Some p) ?m (lk_dev l3)" using h(4) answered_still [OF l3(2)] by simp
      then have "bn_reply (lk_dev l3) \<noteq> None \<or> \<not> wants_payload r (bn_master (lk_dev l3))"
        using False by (auto simp: answered_def split: option.splits prod.splits)
      then show ?thesis using q(3) [OF a] answered_still [OF l4(2)] by simp
    qed
    moreover have "receive_reply ?hw l4 = Some (out, l')"
      using x True by (simp add: link_exchange_def req_roundtrip up l2_def [symmetric] l3(1) l4(1))
    moreover have "bn_armed (lk_dev l4) = n" using still_fields(3) [OF l4(2)] q(1) f3(3) h(2) by simp
    ultimately show ?thesis using finish by blast
  qed
qed


definition demo_bench :: "unit bench link" where
  "demo_bench = link_init (bench_hw (\<lambda>_. 0) demo_disk) 11 1 23 22 21 False
     \<lparr>bn_time = 7, bn_master = demo_server, bn_frames = [], bn_armed = 0, bn_reply = None\<rparr>"


end
