(* ===== verification/Keys.thy ===== *)
theory Keys
  imports Console
begin

text \<open>
  The other direction of the console: from the keyboard of the master, through its key queue and
  the reply to a console request, to the ring Linux reads its input from.
\<close>

section \<open>The reply to a console request\<close>

definition keys_of :: "terminal \<Rightarrow> u8 list" where
  "keys_of t = keyq_bytes (t_keyq t)"

definition linux_input :: "slave \<Rightarrow> u8 list" where
  "linux_input s = ring_bytes (rx (shared (sl_core s)))"

text \<open>The ring takes what it has room for; the rest is gone.\<close>

lemma feed_input:
  assumes "FrankRing.ring_ok (rx (shared c))" "length bs < 2 ^ 32"
  shows "ring_bytes (rx (shared (frank_console_feed c bs))) =
    ring_bytes (rx (shared c)) @ take (2047 - length (ring_bytes (rx (shared c)))) bs"
proof -
  obtain r n where p: "frank_ring_put (rx (shared c)) (\<lambda>i. bs ! i) (of_nat (length bs)) = (r, n)" by fastforce
  note f = frank_ring_put_spec [OF assms(1) p]
  have "unat n = min (length bs) (2047 - length (ring_bytes (rx (shared c))))"
    using f(2) assms(2) by (simp add: unat_of_nat_small)
  then have "map ((!) bs) [0..<unat n] = take (2047 - length (ring_bytes (rx (shared c)))) bs"
    by (intro nth_equalityI) auto
  then show ?thesis using f(3) by (simp add: frank_console_feed_def p)
qed

lemma transact_keys:
  fixes m :: "'d server"
  assumes "blk_link_up s" "unat n \<le> 512" "n = 0 \<longrightarrow> bs = []" "mem_get 0 (unat n) buf = bs"
    and tr: "blk_transact (wire rom d) LINK_BLK_OP_CON 0 n buf (s, m) = (st, cap, buf', s', m')"
    and ok: "FrankRing.ring_ok (rx (shared (sl_core s)))" "keyq_ok (t_keyq t)"
    and t: "t = fold (terminal_receive_char rom) bs (sv_term m)"
  shows "linux_input s' = linux_input s @ take (2047 - length (linux_input s)) (take 32 (keys_of t))"
    "keys_of (sv_term m') = drop 32 (keys_of t)"
proof -
  let ?pay = "request_payload LINK_BLK_OP_CON n buf"
  have armed: "unat (armed_bytes LINK_BLK_OP_CON n) = 40" by (simp add: armed_bytes_def link_consts)
  note pl = console_payload [OF assms(2,3,4)]
  obtain keys m1 where c: "wire rom d (a_request LINK_BLK_OP_CON 0 n) ?pay 40 m =
      (Answer (rsp_bytes \<lparr>rs_status = 0, rs_value = of_nat (length keys)\<rparr> @ keys @ replicate (32 - length keys) 0), m1)"
    "length keys \<le> 32" "sv_term m1 = console_chunk rom bs (sv_term m)"
    "keys = fst (term_compat_take_keys LINK_CON_MAX_KEYS (t_keyq t))"
    unfolding t by (rule console_served [OF assms(2) pl assms(3)])
  obtain q where k: "term_compat_take_keys LINK_CON_MAX_KEYS (t_keyq t) = (keys, q)" using c(4) by (metis prod.collapse)
  have kk: "keys = take 32 (keys_of t)" "keyq_bytes q = drop 32 (keys_of t)"
    using take_keys_spec [OF ok(2) k] by (simp_all add: keys_of_def LINK_CON_MAX_KEYS_def)
  have u: "unat (of_nat (length keys) :: u32) = length keys" using c(2) by (intro unat_of_nat_small) simp
  have con: "LINK_BLK_OP_CON \<noteq> LINK_BLK_OP_READ" by (simp add: link_consts)
  have z: "(of_nat (length keys) :: u32) = 0 \<longleftrightarrow> keys = []" using unat_eq_0 [of "of_nat (length keys) :: u32"] unfolding u by simp
  let ?reply = "rsp_bytes \<lparr>rs_status = 0, rs_value = of_nat (length keys)\<rparr> @ keys @ replicate (32 - length keys) 0"
  have rsp: "rsp_of_bytes ?reply = \<lparr>rs_status = 0, rs_value = of_nat (length keys)\<rparr>" by (rule rsp_roundtrip)
  have rest: "take (min LINK_CON_MAX_KEYS (unat (of_nat (length keys) :: u32))) (drop 8 ?reply) = keys"
    using c(2) by (simp add: u LINK_CON_MAX_KEYS_def)
  have "blk_transact (wire rom d) LINK_BLK_OP_CON 0 n buf (s, m) =
      (0, Some (of_nat (length keys)), buf, if keys = [] then s\<lparr>blk_rx_remaining := 0\<rparr>
        else on_core (\<lambda>c. frank_console_feed c keys) (s\<lparr>blk_rx_remaining := 0\<rparr>), m1)"
    unfolding blk_transact_def prod.case a_request_def [symmetric] armed c(1) link_outcome.case Let_def rsp
    using assms(1) con z rest by simp
  then have "m' = m1" and s': "s' = (if keys = [] then s\<lparr>blk_rx_remaining := 0\<rparr>
      else on_core (\<lambda>c. frank_console_feed c keys) (s\<lparr>blk_rx_remaining := 0\<rparr>))"
    using tr by simp_all
  then show "keys_of (sv_term m') = drop 32 (keys_of t)"
    using c(3) k kk(2) t by (simp add: console_chunk_def keys_of_def Let_def)
  have "length keys < 2 ^ 32" using c(2) by simp
  from feed_input [OF ok(1) this]
  show "linux_input s' = linux_input s @ take (2047 - length (linux_input s)) (take 32 (keys_of t))"
    by (simp add: s' linux_input_def on_core_def kk(1) [symmetric])
qed

section \<open>A pass of core 1\<close>

text \<open>A console request is made when something waits for the master's screen or 5 ms have passed since the last.\<close>

definition poll_due :: "u32 \<Rightarrow> slave \<Rightarrow> bool" where
  "poll_due now s \<longleftrightarrow> \<not> sint (now - next_poll_us s) < 0"

lemma pump_keys:
  fixes m :: "'d server"
  assumes up: "blk_link_up s" and ok: "core1_ok (sl_core s)" and p: "console_pump now (wire rom d) (s, m) = (s', m')"
    and due: "poll_due now s" and quiet: "pend (sl_core s) (fan_link_tail (sl_core s)) = []"
    and k: "keyq_ok (t_keyq (sv_term m))"
  shows "linux_input s' = linux_input s @ take (2047 - length (linux_input s)) (take 32 (keys_of (sv_term m)))"
    "keys_of (sv_term m') = drop 32 (keys_of (sv_term m))"
proof -
  let ?c0 = "sl_core s"
  obtain c bs where t: "frank_console_take ?c0 LINK_CON_MAX_TX = (c, bs)" by fastforce
  obtain tl where ft: "fan_take ?c0 (fan_link_tail ?c0) LINK_CON_MAX_TX = (tl, bs)" and
    c: "c = ?c0\<lparr>fan_link_tail := tl\<rparr>"
    using t by (auto simp: frank_console_take_def split: prod.splits)
  have h: "unat (fan_head ?c0) < 4096" "unat (fan_link_tail ?c0) < 4096" using ok by (simp_all add: core1_ok_def)
  have bs: "bs = []" using fan_take_spec(1) [OF h ft] quiet by simp
  let ?s = "s\<lparr>sl_core := c, out_buf := mem_put 0 bs (out_buf s)\<rparr>"
  let ?pad = "unat ((0 + 3) AND NOT 3 :: u32) - unat (0 :: u32)"
  let ?s1 = "?s\<lparr>next_poll_us := now + 5000, out_buf := mem_put (unat (0 :: u32)) (replicate ?pad 0) (out_buf ?s)\<rparr>"
  obtain st cap buf s2 m2 where
    tr: "blk_transact (wire rom d) LINK_BLK_OP_CON 0 0 (out_buf ?s1) (?s1, m) = (st, cap, buf, s2, m2)"
    by (metis prod_cases5)
  have res: "s' = s2\<lparr>out_buf := buf\<rparr>" "m' = m2"
    using p t due tr unfolding console_pump_def Let_def bs by (auto simp: poll_due_def)
  have pre: "blk_link_up ?s1" "unat (0 :: u32) \<le> 512" "(0 :: u32) = 0 \<longrightarrow> ([] :: u8 list) = []"
    "mem_get 0 (unat (0 :: u32)) (out_buf ?s1) = []" "FrankRing.ring_ok (rx (shared (sl_core ?s1)))"
    "sv_term m = fold (terminal_receive_char rom) [] (sv_term m)"
    using up ok by (simp_all add: mem_get_def core1_ok_def c)
  have "linux_input ?s1 = linux_input s" by (simp add: linux_input_def c)
  then show "linux_input s' = linux_input s @ take (2047 - length (linux_input s)) (take 32 (keys_of (sv_term m)))"
    "keys_of (sv_term m') = drop 32 (keys_of (sv_term m))"
    using transact_keys [OF pre(1-4) tr pre(5) k pre(6)] res by (simp_all add: linux_input_def)
qed

lemma serve_input:
  fixes m :: "'d server"
  assumes b: "disk_only s" and v: "serve_blk (wire rom d) (s, m) = (s', m')"
  shows "linux_input s' = linux_input s"
proof (cases "blk_seq (blk_of s) = blk_done (blk_of s)")
  case True
  then show ?thesis using v by (simp add: serve_blk_def)
next
  case False
  let ?b = "blk_of s"
  let ?buf = "\<lambda>i. psram s (unat (blk_addr ?b) + i)"
  obtain st cap buf s1 m1 where
    tr: "blk_transact (wire rom d) (blk_op ?b) (blk_lba ?b) (blk_count ?b) ?buf (s, m) = (st, cap, buf, s1, m1)"
    by (metis prod_cases5)
  have code: "blk_op ?b \<noteq> LINK_BLK_OP_CON" using b False by (simp add: disk_only_def)
  obtain s2 f g where "s' = on_blk f (s2\<lparr>psram := g\<rparr>)" "s2 = s \<or> s2 = s1"
    using v False tr unfolding serve_blk_def Let_def by (auto split: if_splits)
  then show ?thesis using transact_quiet(1) [OF code tr] by (auto simp: linux_input_def on_blk_def on_core_def)
qed

text \<open>Nothing to print and nobody typing on USB.\<close>

lemma service_once_input:
  assumes ok: "core1_ok c" and s: "service_once True e c = (c', out, n)" and q: "\<not> tud_cdc_available e"
  shows "rx (shared c') = rx (shared c)"
proof -
  let ?c1 = "fan_fill c (tud_ready e) True"
  obtain c2 c3 where t: "service_tx e ?c1 = (c2, out)" and r: "service_rx e c2 = (c3, n)"
    and c': "c' = service_dtr e (c3\<lparr>shared := (shared c3)\<lparr>core1_alive := core1_alive (shared c3) + 1\<rparr>\<rparr>)"
    using s by (auto simp: service_once_def Let_def split: prod.splits)
  have "c3 = c2" using r q by (simp add: service_rx_def)
  note ff = fan_fill_spec(1,5) [OF ok, of "tud_ready e" True]
  then have "rx (shared c2) = rx (shared c)" using service_tx_spec(3) [OF _ t] by simp
  then show ?thesis by (simp add: c' \<open>c3 = c2\<close> service_tail_simps)
qed

lemma pass_keys:
  fixes m :: "'d server"
  assumes sv: "serving 1 s" and p: "core1_pass (wire rom d) e now (s, m) = ((s', m'), out)"
    and quiet: "to_terminal s = []" "\<not> tud_cdc_available e" and due: "poll_due now s"
    and k: "keyq_ok (t_keyq (sv_term m))"
  shows "linux_input s' = linux_input s @ take (2047 - length (linux_input s)) (take 32 (keys_of (sv_term m)))"
    "keys_of (sv_term m') = drop 32 (keys_of (sv_term m))"
proof -
  have up: "frank_link_console_up s" and ok: "core1_ok (sl_core s)" and b: "disk_only s" and rdy: "service_ready 1 s"
    using sv by (simp_all add: serving_def)
  obtain c n where o: "service_once True e (sl_core s) = (c, out, n)"
    and fb: "frank_blk_service now (wire rom d) (s\<lparr>sl_core := c\<rparr>, m) = (s', m')"
    using p up by (auto simp: core1_pass_def split: prod.splits)
  note parts = service_once_parts [OF ok o]
  have okc: "core1_ok c" using service_once_ok [OF ok o] .
  let ?s0 = "s\<lparr>sl_core := c, warmup := warmup s + 1\<rparr>"
  have r1: "service_ready 1 (s\<lparr>sl_core := c\<rparr>)" using rdy by (simp add: service_ready_def)
  obtain s1 m1 where pu: "console_pump now (wire rom d) (?s0, m) = (s1, m1)" by fastforce
  have sb: "serve_blk (wire rom d) (s1, m1) = (s', m')"
    using fb pu service_ready_warm [OF r1] r1 by (simp add: frank_blk_service_def service_ready_def)
  have up0: "blk_link_up ?s0" and ok0: "core1_ok (sl_core ?s0)" and due0: "poll_due now ?s0"
    using rdy okc due by (simp_all add: service_ready_def poll_due_def)
  have none: "pend (sl_core ?s0) (fan_link_tail (sl_core ?s0)) = []"
    using parts(2) quiet(1) by (simp add: to_terminal_def)
  note q = pump_keys [OF up0 ok0 pu due0 none k]
  have b1: "disk_only s1" using b pump_console(5) [OF up0 ok0 pu] parts(3) by (simp add: disk_only_def blk_of_def)
  have "linux_input ?s0 = linux_input s"
    using service_once_input [OF ok o quiet(2)] by (simp add: linux_input_def)
  then show "linux_input s' = linux_input s @ take (2047 - length (linux_input s)) (take 32 (keys_of (sv_term m)))"
    using q(1) serve_input [OF b1 sb] by simp
  show "keys_of (sv_term m') = drop 32 (keys_of (sv_term m))"
    using q(2) serve_quiet(3) [OF b1 sb] by simp
qed

section \<open>From the keyboard to Linux\<close>



text \<open>When Linux has not read for so long that its ring is full, the keys of the reply are gone: the master has
  dropped them from its queue and the ring has not taken them.\<close>

lemma keys_lost_when_ring_full:
  fixes m :: "'d server"
  assumes "serving 1 s" "core1_pass (wire rom d) e now (s, m) = ((s', m'), out)" "to_terminal s = []"
    "\<not> tud_cdc_available e" "poll_due now s" "keyq_ok (t_keyq (sv_term m))" "length (linux_input s) = 2047"
  shows "linux_input s' = linux_input s \<and> keys_of (sv_term m') = drop 32 (keys_of (sv_term m))"
  using pass_keys [OF assms(1-6)] assms(7) by simp

end
