(* ===== verification/UsbDesc.thy ===== *)
theory UsbDesc
  imports CoreUsb TermCompat
begin

text \<open>
  \<open>firmware/common/usb_descriptors.c\<close>: what the console port tells a USB host about itself.
  The two descriptor macros of TinyUSB are an argument; the numbers of the USB standard
  (descriptor types and classes) are written out.
\<close>

section \<open>The device\<close>

definition USB_VID :: u16 where "USB_VID = 0x2E8A"
definition USB_PID :: u16 where "USB_PID = 0x000A"
definition USB_BCD :: u16 where "USB_BCD = 0x0200"

definition le_bytes16 :: "u16 \<Rightarrow> u8 list" where
  "le_bytes16 v = [ucast v, ucast (drop_bit 8 v)]"

text \<open>The layout of \<open>tusb_desc_device_t\<close>; the class is the one of composite devices with associations.\<close>

definition desc_device :: "u8 \<Rightarrow> u8 list" where
  "desc_device ep0_size =
     [18, 1] @ le_bytes16 USB_BCD @ [0xEF, 2, 1, ep0_size] @ le_bytes16 USB_VID @ le_bytes16 USB_PID @
     le_bytes16 0x0100 @ [1, 2, 3, 1]"

section \<open>The configuration\<close>

definition ITF_NUM_CDC :: u8 where "ITF_NUM_CDC = 0"
definition ITF_NUM_CDC_DATA :: u8 where "ITF_NUM_CDC_DATA = 1"
definition ITF_NUM_RESET :: u8 where "ITF_NUM_RESET = 2"
definition ITF_NUM_TOTAL :: u8 where "ITF_NUM_TOTAL = 3"

definition EPNUM_CDC_NOTIF :: u8 where "EPNUM_CDC_NOTIF = 0x81"
definition EPNUM_CDC_OUT :: u8 where "EPNUM_CDC_OUT = 0x02"
definition EPNUM_CDC_IN :: u8 where "EPNUM_CDC_IN = 0x82"

text \<open>TinyUSB's macros, with the lengths it gives for them.\<close>

record tud_macros =
  config_descriptor :: "u8 \<Rightarrow> u8 \<Rightarrow> u8 \<Rightarrow> u16 \<Rightarrow> u8 \<Rightarrow> u16 \<Rightarrow> u8 list"
  cdc_descriptor :: "u8 \<Rightarrow> u8 \<Rightarrow> u8 \<Rightarrow> u16 \<Rightarrow> u8 \<Rightarrow> u8 \<Rightarrow> u16 \<Rightarrow> u8 list"
  config_desc_len :: nat
  cdc_desc_len :: nat

definition TUD_RPI_RESET_DESC_LEN :: nat where "TUD_RPI_RESET_DESC_LEN = 9"

definition rpi_reset_descriptor :: "u8 \<Rightarrow> u8 \<Rightarrow> u8 list" where
  "rpi_reset_descriptor itfnum stridx =
     [9, 4, itfnum, 0, 0, 0xFF, RESET_INTERFACE_SUBCLASS, RESET_INTERFACE_PROTOCOL, stridx]"

definition config_total_len :: "tud_macros \<Rightarrow> nat" where
  "config_total_len u = config_desc_len u + cdc_desc_len u + TUD_RPI_RESET_DESC_LEN"

definition desc_configuration :: "tud_macros \<Rightarrow> u8 list" where
  "desc_configuration u =
     config_descriptor u 1 ITF_NUM_TOTAL 0 (of_nat (config_total_len u)) 0x00 100 @
     cdc_descriptor u ITF_NUM_CDC 4 EPNUM_CDC_NOTIF 8 EPNUM_CDC_OUT EPNUM_CDC_IN 64 @
     rpi_reset_descriptor ITF_NUM_RESET 0"

section \<open>Strings\<close>

definition string_desc_arr :: "u8 list list" where
  "string_desc_arr = [[0x09, 0x04], bytes_of ''rh1.tech'', bytes_of ''FRANK Linux console'',
     bytes_of ''FRANKLINUX01'', bytes_of ''FRANK Linux CDC'']"

text \<open>Whether there is such a string, and the static buffer afterwards.\<close>

definition tud_descriptor_string_cb :: "u8 \<Rightarrow> u16 arr \<Rightarrow> bool \<times> u16 arr" where
  "tud_descriptor_string_cb index desc_str =
     (let header = (\<lambda>chr_count :: u8. 0x0300 OR (2 * ucast chr_count + 2) :: u16)
      in if index = 0 then
           (True, (desc_str(1 := ucast (string_desc_arr ! 0 ! 0) OR push_bit 8 (ucast (string_desc_arr ! 0 ! 1)))) (0 := header 1))
         else if \<not> unat index < length string_desc_arr then (False, desc_str)
         else
           (let str = string_desc_arr ! unat index;
                chr_count = of_nat (length str) :: u8;
                chr_count = (if chr_count > 31 then 31 else chr_count);
                desc_str = fold (\<lambda>i d. d(1 + i := ucast (str ! i))) [0..<unat chr_count] desc_str
            in (True, desc_str(0 := header chr_count))))"

section \<open>What the host sees\<close>

text \<open>A string descriptor read as the host reads it: the low byte of the first element is the length in bytes.\<close>

definition usb_string :: "u16 arr \<Rightarrow> u16 list" where
  "usb_string d = map (\<lambda>i. d (1 + i)) [0..<(unat (d 0 AND 0xFF) - 2) div 2]"

lemma fill_string:
  "fold (\<lambda>i d. d(1 + i := f i)) [0..<n] d j = (if 1 \<le> j \<and> j \<le> n then f (j - 1) else (d j :: u16))"
  by (induction n) auto

lemma string_read_back:
  fixes str :: "u8 list" and n :: u8
  defines "h \<equiv> 0x0300 OR (2 * ucast n + 2) :: u16"
  assumes "n = of_nat (length str)" "n \<le> 31" "length str < 256" "index \<noteq> 0" "unat index < 5" "str = string_desc_arr ! unat index"
    and "drop_bit 8 h = 3" "unat (h AND 0xFF) = 2 * length str + 2"
  shows "case tud_descriptor_string_cb index d of (ok, d') \<Rightarrow>
    ok \<and> (\<lambda>i. d' (32 + i)) = (\<lambda>i. d (32 + i)) \<and> drop_bit 8 (d' 0) = 3 \<and> usb_string d' = map ucast str"
proof -
  have u: "unat n = length str" using assms(2,4) by (simp add: unat_of_nat_small)
  then have "length str \<le> 31" using assms(3) by (simp add: word_le_nat_alt)
  have five: "length string_desc_arr = 5" by (simp add: string_desc_arr_def)
  have "\<not> n > 31" using assms(3) by simp
  then have cb: "tud_descriptor_string_cb index d =
      (True, (fold (\<lambda>i d. d(1 + i := ucast (str ! i))) [0..<length str] d)(0 := h))"
    using assms(5,6) five u by (simp add: tud_descriptor_string_cb_def Let_def assms(7) [symmetric] assms(2) [symmetric] h_def)
  then show ?thesis
    using assms(8,9) \<open>length str \<le> 31\<close>
    by (simp add: cb usb_string_def fill_string [simplified]) (auto intro: nth_equalityI)
qed

text \<open>A configuration is a chain of descriptors, each of which starts with its length.\<close>

fun descriptors :: "u8 list \<Rightarrow> u8 list list option" where
  "descriptors [] = Some []"
| "descriptors (n # bs) =
     (if unat n < 2 \<or> length bs < unat n - 1 then None
      else map_option (Cons (n # take (unat n - 1) bs)) (descriptors (drop (unat n - 1) bs)))"

lemma descriptors_append:
  "descriptors xs = Some ds \<Longrightarrow> descriptors (xs @ ys) = map_option ((@) ds) (descriptors ys)"
proof (induction xs arbitrary: ds rule: descriptors.induct)
  case 1
  then show ?case by (simp add: option.map_ident_strong)
next
  case (2 n bs)
  then obtain es where e: "\<not> (unat n < 2 \<or> length bs < unat n - 1)" "ds = (n # take (unat n - 1) bs) # es"
    "descriptors (drop (unat n - 1) bs) = Some es" by (auto split: if_splits)
  moreover have "unat n - Suc (length bs) = 0" using e(1) by linarith
  ultimately show ?case using "2.IH" [OF e(1,3)] by (simp add: option.map_comp comp_def)
qed

text \<open>An interface descriptor as the class driver gets it.\<close>

definition interface_of :: "u8 list \<Rightarrow> tusb_interface" where
  "interface_of d = \<lparr>bInterfaceNumber = d ! 2, bInterfaceClass = d ! 5, bInterfaceSubClass = d ! 6, bInterfaceProtocol = d ! 7\<rparr>"

text \<open>
  TinyUSB's macros: the configuration header of nine bytes, with the total length and the number of
  interfaces in it, and a chain of descriptors for the serial port, none of them a vendor interface.
\<close>

definition macros_ok :: "tud_macros \<Rightarrow> bool" where
  "macros_ok u \<longleftrightarrow> config_desc_len u = 9 \<and> cdc_desc_len u < 60000 \<and>
     (\<forall>c n s len a p. config_descriptor u c n s len a p = [9, 2] @ le_bytes16 len @ [n, c, s, 0x80 OR a, ucast (p div 2)]) \<and>
     (\<forall>i s e1 n1 e2 e3 n2. length (cdc_descriptor u i s e1 n1 e2 e3 n2) = cdc_desc_len u \<and>
        (\<exists>ds. descriptors (cdc_descriptor u i s e1 n1 e2 e3 n2) = Some ds \<and>
              (\<forall>d \<in> set ds. \<not> (d ! 1 = 4 \<and> d ! 5 = 0xFF))))"

lemma le_bytes16_value: "n < 65536 \<Longrightarrow> unat (le_bytes16 (of_nat n) ! 0) + 256 * unat (le_bytes16 (of_nat n) ! 1) = n"
proof -
  assume n: "n < 65536"
  then have u: "unat (of_nat n :: u16) = n" by (intro unat_of_nat_small) simp
  have "unat (drop_bit 8 (of_nat n :: u16)) = n div 256" using u by (simp add: drop_bit_eq_div unat_div_distrib)
  then show ?thesis using u n by (simp add: le_bytes16_def unsigned_ucast_eq take_bit_eq_mod)
qed

text \<open>The strings the port shows are the strings of the table: for each of the five the host reads back, from the
  length in the first element, all of the string with no character cut off; there is no sixth, and
  asking for one changes nothing.  Nothing is written outside the 32 elements of the buffer.\<close>

theorem usb_strings_read_back:
  "case tud_descriptor_string_cb index d of (ok, d') \<Rightarrow>
     (ok \<longleftrightarrow> unat index < 5) \<and> (\<lambda>i. d' (32 + i)) = (\<lambda>i. d (32 + i)) \<and>
     (if ok then drop_bit 8 (d' 0) = 3 \<and>
        usb_string d' = (if index = 0 then [0x0409] else map ucast (string_desc_arr ! unat index))
      else d' = d)"
proof (cases "unat index < 5")
  case False
  then have "index \<noteq> 0" by (metis unat_0 zero_less_numeral)
  then show ?thesis using False by (simp add: tud_descriptor_string_cb_def string_desc_arr_def)
next
  case True
  have "unat index \<in> {0, 1, 2, 3, 4}" using True by auto
  then have idx: "index \<in> {0, 1, 2, 3, 4}" by (simp add: word_unat_eq_iff)
  show ?thesis
  proof (cases "index = 0")
    case True
    then show ?thesis
      by (simp add: tud_descriptor_string_cb_def string_desc_arr_def usb_string_def fun_eq_iff Let_def)
  next
    case False
    have "case tud_descriptor_string_cb index d of (ok, d') \<Rightarrow>
        ok \<and> (\<lambda>i. d' (32 + i)) = (\<lambda>i. d (32 + i)) \<and> drop_bit 8 (d' 0) = 3 \<and> usb_string d' = map ucast (string_desc_arr ! unat index)"
      by (rule string_read_back [where n = "of_nat (length (string_desc_arr ! unat index))"])
        (use idx False in \<open>auto simp: string_desc_arr_def bytes_of_def\<close>)
    then show ?thesis using True False by (simp split: prod.splits)
  qed
qed

text \<open>C25: The board can always be put into its boot ROM over USB: the configuration is one chain of descriptors
  whose total length is the one it states, its last descriptor is the only vendor interface, the reset
  driver takes that interface, and of two control requests with the boot request the one to this
  interface enters the ROM while the one to an interface of the serial port is refused.\<close>

theorem configuration_offers_reset:
  assumes "macros_ok u"
  shows "\<exists>h ds. descriptors (desc_configuration u) = Some (h # ds @ [rpi_reset_descriptor ITF_NUM_RESET 0]) \<and>
    unat (h ! 2) + 256 * unat (h ! 3) = length (desc_configuration u) \<and> h ! 4 = ITF_NUM_TOTAL \<and>
    filter (\<lambda>d. d ! 1 = 4 \<and> d ! 5 = 0xFF) ds = [] \<and>
    (let c' = fst (resetd_open c (interface_of (rpi_reset_descriptor ITF_NUM_RESET 0)) 9)
     in resetd_control_xfer_cb c' True 2 RESET_REQUEST_BOOTSEL = EnterBootrom \<and>
        resetd_control_xfer_cb c' True (ucast ITF_NUM_CDC) RESET_REQUEST_BOOTSEL = Answer False \<and>
        resetd_control_xfer_cb c' True (ucast ITF_NUM_CDC_DATA) RESET_REQUEST_BOOTSEL = Answer False)"
proof -
  let ?cdc = "cdc_descriptor u ITF_NUM_CDC 4 EPNUM_CDC_NOTIF 8 EPNUM_CDC_OUT EPNUM_CDC_IN 64"
  let ?h = "config_descriptor u 1 ITF_NUM_TOTAL 0 (of_nat (config_total_len u)) 0x00 100"
  have h: "?h = [9, 2] @ le_bytes16 (of_nat (config_total_len u)) @ [ITF_NUM_TOTAL, 1, 0, 0x80, 50]"
    and len: "config_desc_len u = 9" "length ?cdc = cdc_desc_len u" "cdc_desc_len u < 60000"
    using assms by (simp_all add: macros_ok_def)
  obtain ds where ds: "descriptors ?cdc = Some ds" "\<forall>d \<in> set ds. \<not> (d ! 1 = 4 \<and> d ! 5 = 0xFF)"
    using assms unfolding macros_ok_def by blast
  have dh: "descriptors ?h = Some [?h]" by (simp add: h le_bytes16_def)
  have dr: "descriptors (rpi_reset_descriptor ITF_NUM_RESET 0) = Some [rpi_reset_descriptor ITF_NUM_RESET 0]"
    by (simp add: rpi_reset_descriptor_def)
  have chain: "descriptors (desc_configuration u) = Some (?h # ds @ [rpi_reset_descriptor ITF_NUM_RESET 0])"
    unfolding desc_configuration_def by (simp add: descriptors_append [OF dh] descriptors_append [OF ds(1)] dr)
  have "length (desc_configuration u) = config_total_len u"
  proof -
    have "length ?h = 9" by (simp add: h le_bytes16_def)
    moreover have "length (desc_configuration u) = length ?h + length ?cdc + 9"
      by (simp add: desc_configuration_def rpi_reset_descriptor_def)
    ultimately show ?thesis by (simp only: config_total_len_def len TUD_RPI_RESET_DESC_LEN_def)
  qed
  moreover have "config_total_len u < 65536"
    using len by (simp add: config_total_len_def TUD_RPI_RESET_DESC_LEN_def)
  then have "unat (?h ! 2) + 256 * unat (?h ! 3) = config_total_len u" "?h ! 4 = ITF_NUM_TOTAL"
    using le_bytes16_value [of "config_total_len u"] by (simp_all add: h le_bytes16_def)
  moreover have "filter (\<lambda>d. d ! 1 = 4 \<and> d ! 5 = 0xFF) ds = []" using ds(2) by (simp add: filter_empty_conv)
  moreover have "let c' = fst (resetd_open c (interface_of (rpi_reset_descriptor ITF_NUM_RESET 0)) 9)
     in resetd_control_xfer_cb c' True 2 RESET_REQUEST_BOOTSEL = EnterBootrom \<and>
        resetd_control_xfer_cb c' True (ucast ITF_NUM_CDC) RESET_REQUEST_BOOTSEL = Answer False \<and>
        resetd_control_xfer_cb c' True (ucast ITF_NUM_CDC_DATA) RESET_REQUEST_BOOTSEL = Answer False"
    by (simp add: resetd_open_def interface_of_def rpi_reset_descriptor_def resetd_control_xfer_cb_def ITF_NUM_RESET_def
        ITF_NUM_CDC_def ITF_NUM_CDC_DATA_def)
  ultimately show ?thesis using chain by (intro exI [of _ ?h] exI [of _ ds]) simp
qed

text \<open>The macros as TinyUSB has them.\<close>

definition tinyusb_macros :: tud_macros where
  "tinyusb_macros = \<lparr>
     config_descriptor = (\<lambda>c n s len a p. [9, 2] @ le_bytes16 len @ [n, c, s, 0x80 OR a, ucast (p div 2)]),
     cdc_descriptor = (\<lambda>i s e1 n1 e2 e3 n2.
       [8, 11, i, 2, 2, 2, 0, 0, 9, 4, i, 0, 1, 2, 2, 0, s, 5, 36, 0, 0x20, 1, 5, 36, 1, 0, i + 1, 4, 36, 2, 6,
        5, 36, 6, i, i + 1, 7, 5, e1, 3] @ le_bytes16 n1 @ [16, 9, 4, i + 1, 0, 2, 10, 0, 0, 0,
        7, 5, e2, 2] @ le_bytes16 n2 @ [0, 7, 5, e3, 2] @ le_bytes16 n2 @ [0]),
     config_desc_len = 9, cdc_desc_len = 66\<rparr>"

theorem configuration_offers_reset_witness:
  "\<exists>ds. descriptors (desc_configuration tinyusb_macros) = Some ds \<and> length (desc_configuration tinyusb_macros) = 84"
proof -
  have "macros_ok tinyusb_macros" by (simp add: macros_ok_def tinyusb_macros_def le_bytes16_def)
  from configuration_offers_reset [OF this] obtain ds where "descriptors (desc_configuration tinyusb_macros) = Some ds" by blast
  then show ?thesis
    by (simp add: desc_configuration_def tinyusb_macros_def rpi_reset_descriptor_def le_bytes16_def)
qed

end
