(* ===== verification/HwAtomics.thy ===== *)
theory HwAtomics
  imports Prelude "HOL-Library.Monad_Syntax"
begin

text \<open>
  The programs that decide how this board does atomic operations: \<open>hwtests/exclusives/src/main.c\<close>,
  which looks for memory where \<open>LDREX\<close> and \<open>STREX\<close> work, and \<open>castest.c\<close> of the root file
  system, which tests the compare-and-exchange the kernel offers instead.  The memory, the exclusive
  monitor and the kernel are arguments: the theorems say which of them the programs tell apart.
\<close>

section \<open>Exclusive monitors\<close>

text \<open>
  One word of memory; an attempt to increment it with an exclusive pair gives whether \<open>STREX\<close> reported
  success (its result 0), and so does an attempt with a \<open>CLREX\<close> between the two.
\<close>

record 'm excl_env =
  word_get :: "'m \<Rightarrow> u32"
  word_set :: "u32 \<Rightarrow> 'm \<Rightarrow> 'm"
  exclusive_try_increment :: "'m \<Rightarrow> bool \<times> 'm"
  clrex_try_increment :: "'m \<Rightarrow> bool \<times> 'm"

record excl_result =
  ops_ok :: u32
  ops_failed :: u32
  attempts_total :: u32
  attempts_worst :: u32
  value_wrong :: u32
  plain_ok :: u32

definition MAX_ATTEMPTS :: nat where "MAX_ATTEMPTS = 1000"
definition OPS_PER_REGION :: nat where "OPS_PER_REGION = 1000"

text \<open>Whether it took, in which attempt, with \<open>n\<close> attempts left.\<close>

primrec exclusive_attempts :: "'m excl_env \<Rightarrow> nat \<Rightarrow> u32 \<Rightarrow> 'm \<Rightarrow> bool \<times> u32 \<times> 'm" where
  "exclusive_attempts e 0 attempt m = (False, of_nat MAX_ATTEMPTS, m)"
| "exclusive_attempts e (Suc n) attempt m =
     (case exclusive_try_increment e m of (took, m) \<Rightarrow>
        if took then (True, attempt, m) else exclusive_attempts e n (attempt + 1) m)"

definition exclusive_increment :: "'m excl_env \<Rightarrow> 'm \<Rightarrow> bool \<times> u32 \<times> 'm" where
  "exclusive_increment e = exclusive_attempts e MAX_ATTEMPTS 1"

primrec plain_access :: "'m excl_env \<Rightarrow> u32 list \<Rightarrow> 'm \<Rightarrow> bool \<times> 'm" where
  "plain_access e [] m = (True, m)"
| "plain_access e (p # ps) m =
     (let m = word_set e p m in if word_get e m \<noteq> p then (False, m) else plain_access e ps m)"

definition plain_access_works :: "'m excl_env \<Rightarrow> 'm \<Rightarrow> bool \<times> 'm" where
  "plain_access_works e = plain_access e [0x00000000, 0xFFFFFFFF, 0xA5A5A5A5, 0x5A5A5A5A, 0xDEADBEEF]"

primrec region_ops :: "'m excl_env \<Rightarrow> nat \<Rightarrow> excl_result \<times> 'm \<Rightarrow> excl_result \<times> 'm" where
  "region_ops e 0 om = om"
| "region_ops e (Suc n) om =
     (case om of (out, m) \<Rightarrow> case exclusive_increment e m of (ok, attempts, m) \<Rightarrow>
        let out = out\<lparr>attempts_total := attempts_total out + attempts\<rparr>;
            out = (if attempts > attempts_worst out then out\<lparr>attempts_worst := attempts\<rparr> else out);
            out = (if ok then out\<lparr>ops_ok := ops_ok out + 1\<rparr> else out\<lparr>ops_failed := ops_failed out + 1\<rparr>)
        in region_ops e n (out, m))"

definition no_result :: excl_result where
  "no_result = \<lparr>ops_ok = 0, ops_failed = 0, attempts_total = 0, attempts_worst = 0, value_wrong = 0, plain_ok = 0\<rparr>"

definition test_region :: "'m excl_env \<Rightarrow> bool \<Rightarrow> 'm \<Rightarrow> excl_result \<times> 'm" where
  "test_region e writable m =
     (if \<not> writable then (no_result, m)
      else case plain_access_works e m of (works, m) \<Rightarrow>
        let m = word_set e 0 m
        in case region_ops e OPS_PER_REGION (no_result\<lparr>plain_ok := (if works then 1 else 0)\<rparr>, m) of (out, m) \<Rightarrow>
             (if word_get e m \<noteq> ops_ok out then out\<lparr>value_wrong := 1\<rparr> else out, m))"

definition interrupt_clears_monitor :: "'m excl_env \<Rightarrow> 'm \<Rightarrow> bool \<times> 'm" where
  "interrupt_clears_monitor e m = (case clrex_try_increment e (word_set e 0 m) of (took, m) \<Rightarrow> (\<not> took, m))"

text \<open>What replaces the exclusives: a plain read and write with interrupts masked.\<close>

definition irq_masked_increment :: "'m excl_env \<Rightarrow> 'm \<Rightarrow> 'm" where
  "irq_masked_increment e m = word_set e (word_get e m + 1) m"

definition measure_irq_atomic :: "'m excl_env \<Rightarrow> 'm \<Rightarrow> bool \<times> 'm" where
  "measure_irq_atomic e m =
     (let m = (irq_masked_increment e ^^ 100000) (word_set e 0 m) in (word_get e m = 100000, m))"

section \<open>The kernel's compare-and-exchange\<close>

text \<open>
  The system call: the expected value, the new one, at the test's own word or (\<open>kc_wild\<close>) at an address
  no process owns; the result is 0, 1 or a negative error number.
\<close>

record 'm kernel =
  kc_word :: "'m \<Rightarrow> u32"
  kc_set :: "u32 \<Rightarrow> 'm \<Rightarrow> 'm"
  kernel_cas :: "u32 \<Rightarrow> u32 \<Rightarrow> 'm \<Rightarrow> int \<times> 'm"
  kc_wild :: "u32 \<Rightarrow> u32 \<Rightarrow> 'm \<Rightarrow> int \<times> 'm"

text \<open>\<open>do seen = word; while (kernel_cas(seen, seen + 1, &word) != 0);\<close>\<close>

partial_function (option) cas_increment :: "'m kernel \<Rightarrow> 'm \<Rightarrow> 'm option" where
  "cas_increment k m =
     (case kernel_cas k (kc_word k m) (kc_word k m + 1) m of (r, m) \<Rightarrow>
        if r \<noteq> 0 then cas_increment k m else Some m)"

primrec cas_count :: "'m kernel \<Rightarrow> nat \<Rightarrow> 'm \<Rightarrow> 'm option" where
  "cas_count k 0 m = Some m"
| "cas_count k (Suc n) m = do { m \<leftarrow> cas_increment k m; cas_count k n m }"

text \<open>The exit status: 2 without the system call, 1 when a check failed, else 0.\<close>

definition castest_main :: "'m kernel \<Rightarrow> u32 \<Rightarrow> 'm \<Rightarrow> (int \<times> 'm) option" where
  "castest_main k rounds m =
     (let m = kc_set k 0x11111111 m
      in case kernel_cas k 0x11111111 0x22222222 m of (r, m) \<Rightarrow>
        if r = - 38 then Some (2, m)
        else
          let swap = (r = 0 \<and> kc_word k m = 0x22222222)
          in case kernel_cas k 0xdeadbeef 0x33333333 m of (r, m) \<Rightarrow>
            let no_swap = (r = 1 \<and> kc_word k m = 0x22222222)
            in case kc_wild k 0 1 m of (r, m) \<Rightarrow>
              let wild = (r = 1 \<or> r = - 14)
              in do {
                m \<leftarrow> cas_count k (unat rounds) (kc_set k 0 m);
                let counter = (kc_word k m = rounds);
                Some (if swap \<and> no_swap \<and> wild \<and> counter then 0 else 1, m) })"

section \<open>What the exclusives program finds out\<close>

definition plain_memory :: "'m excl_env \<Rightarrow> bool" where
  "plain_memory e \<longleftrightarrow> (\<forall>v m. word_get e (word_set e v m) = v)"

text \<open>
  Kinds of memory: a monitor that stores exactly when it says so; one that never grants the store; one that claims a
  store it did not make; and one that stores while it reports failure.
\<close>

definition sound_monitor :: "'m excl_env \<Rightarrow> bool" where
  "sound_monitor e \<longleftrightarrow> (\<forall>m. case exclusive_try_increment e m of (took, m') \<Rightarrow>
     word_get e m' = word_get e m + (if took then 1 else 0))"

definition never_grants :: "'m excl_env \<Rightarrow> bool" where
  "never_grants e \<longleftrightarrow> (\<forall>m. \<not> fst (exclusive_try_increment e m))"

definition false_success :: "'m excl_env \<Rightarrow> bool" where
  "false_success e \<longleftrightarrow> (\<forall>m. case exclusive_try_increment e m of (took, m') \<Rightarrow> took \<and> word_get e m' = word_get e m)"

definition stores_on_failure :: "'m excl_env \<Rightarrow> bool" where
  "stores_on_failure e \<longleftrightarrow> (\<forall>m. case exclusive_try_increment e m of (took, m') \<Rightarrow> \<not> took \<and> word_get e m' = word_get e m + 1)"

lemma attempts_sound:
  "sound_monitor e \<Longrightarrow> exclusive_attempts e n a m = (ok, k, m') \<Longrightarrow> word_get e m' = word_get e m + (if ok then 1 else 0)"
proof (induction n arbitrary: a m)
  case (Suc n)
  obtain took m1 where t: "exclusive_try_increment e m = (took, m1)" by fastforce
  then have "word_get e m1 = word_get e m + (if took then 1 else 0)"
    using Suc.prems(1) by (auto simp: sound_monitor_def dest: spec [of _ m])
  then show ?case using Suc.prems Suc.IH [OF Suc.prems(1)] t by (cases took) auto
qed simp

lemma attempts_refused:
  "never_grants e \<Longrightarrow> exclusive_attempts e n a m = (ok, k, m') \<Longrightarrow>
    \<not> ok \<and> k = 1000 \<and> (stores_on_failure e \<longrightarrow> word_get e m' = word_get e m + of_nat n)"
proof (induction n arbitrary: a m)
  case (Suc n)
  obtain took m1 where t: "exclusive_try_increment e m = (took, m1)" by fastforce
  then have f: "\<not> took" using Suc.prems(1) by (auto simp: never_grants_def dest: spec [of _ m])
  have w: "stores_on_failure e \<longrightarrow> word_get e m1 = word_get e m + 1"
    using t by (auto simp: stores_on_failure_def dest: spec [of _ m])
  show ?case using Suc.prems Suc.IH [OF Suc.prems(1), of "a + 1" m1] t f w by auto
qed (simp add: MAX_ATTEMPTS_def)

text \<open>One operation of the loop.\<close>

definition count_op :: "bool \<Rightarrow> u32 \<Rightarrow> excl_result \<Rightarrow> excl_result" where
  "count_op ok attempts out = out\<lparr>attempts_total := attempts_total out + attempts,
     attempts_worst := max (attempts_worst out) attempts,
     ops_ok := ops_ok out + (if ok then 1 else 0), ops_failed := ops_failed out + (if ok then 0 else 1)\<rparr>"

lemma region_ops_step:
  "region_ops e (Suc n) (out, m) =
     (case exclusive_increment e m of (ok, attempts, m') \<Rightarrow> region_ops e n (count_op ok attempts out, m'))"
  by (auto simp: count_op_def max_def Let_def not_less split: prod.split intro!: arg_cong [where f = "region_ops e n"])

lemma ops_counted:
  "region_ops e n (out, m) = (out', m') \<Longrightarrow>
    ops_ok out' + ops_failed out' = ops_ok out + ops_failed out + of_nat n \<and> plain_ok out' = plain_ok out \<and> value_wrong out' = value_wrong out"
proof (induction n arbitrary: out m)
  case (Suc n)
  obtain ok a m1 where i: "exclusive_increment e m = (ok, a, m1)" by (metis prod_cases3)
  from Suc.IH [of "count_op ok a out" m1] Suc.prems show ?case
    unfolding region_ops_step i by (simp add: count_op_def algebra_simps)
qed simp

lemma ops_sound:
  assumes "sound_monitor e"
  shows "region_ops e n (out, m) = (out', m') \<Longrightarrow> word_get e m' - ops_ok out' = word_get e m - ops_ok out"
proof (induction n arbitrary: out m)
  case (Suc n)
  obtain ok a m1 where i: "exclusive_increment e m = (ok, a, m1)" by (metis prod_cases3)
  then have "word_get e m1 = word_get e m + (if ok then 1 else 0)"
    using attempts_sound [OF assms] by (simp add: exclusive_increment_def)
  with Suc.IH [of "count_op ok a out" m1] Suc.prems show ?case
    unfolding region_ops_step i by (simp add: count_op_def)
qed simp

lemma ops_refused:
  assumes "never_grants e"
  shows "region_ops e n (out, m) = (out', m') \<Longrightarrow>
    ops_ok out' = ops_ok out \<and> ops_failed out' = ops_failed out + of_nat n \<and> attempts_total out' = attempts_total out + 1000 * of_nat n \<and>
    (attempts_worst out \<le> 1000 \<longrightarrow> n > 0 \<longrightarrow> attempts_worst out' = 1000) \<and>
    (stores_on_failure e \<longrightarrow> word_get e m' = word_get e m + 1000 * of_nat n)"
proof (induction n arbitrary: out m)
  case (Suc n)
  obtain ok a m1 where i: "exclusive_increment e m = (ok, a, m1)" by (metis prod_cases3)
  then have r: "\<not> ok" "a = 1000" "stores_on_failure e \<longrightarrow> word_get e m1 = word_get e m + 1000"
    using attempts_refused [OF assms, of 1000 1 m] by (auto simp: exclusive_increment_def MAX_ATTEMPTS_def)
  from Suc.IH [of "count_op ok a out" m1] Suc.prems r show ?case
    unfolding region_ops_step i by (cases n) (auto simp: count_op_def max_def algebra_simps)
qed simp

lemma ops_false_success:
  assumes "false_success e"
  shows "region_ops e n (out, m) = (out', m') \<Longrightarrow> ops_ok out' = ops_ok out + of_nat n \<and> word_get e m' = word_get e m"
proof (induction n arbitrary: out m)
  case (Suc n)
  obtain took m1 where t: "exclusive_try_increment e m = (took, m1)" by fastforce
  then have f: "took" "word_get e m1 = word_get e m" using assms by (auto simp: false_success_def dest: spec [of _ m])
  then have i: "exclusive_increment e m = (True, 1, m1)" using t by (simp add: exclusive_increment_def MAX_ATTEMPTS_def numeral_eq_Suc)
  from Suc.IH [of "count_op True 1 out" m1] Suc.prems f show ?case
    unfolding region_ops_step i by (simp add: count_op_def algebra_simps)
qed simp

lemma plain_access_ok: "plain_memory e \<Longrightarrow> fst (plain_access e ps m)"
  by (induction ps arbitrary: m) (auto simp: plain_memory_def Let_def)

text \<open>The exclusives program tells the four kinds of memory apart.  In ordinary memory it reports that plain accesses
  work and accounts for all 1000 operations.  A sound monitor passes; where the store is never granted, 1000 failures
  of 1000 attempts each are reported and no success; a monitor that claims a store it did not make, and one that
  stores while it reports failure, are both reported as wrong values.\<close>

theorem exclusives_report_is_right:
  assumes "plain_memory e" "test_region e True m = (out, m')"
  shows "plain_ok out = 1 \<and> ops_ok out + ops_failed out = 1000 \<and>
    (sound_monitor e \<longrightarrow> value_wrong out = 0) \<and>
    (never_grants e \<longrightarrow> ops_ok out = 0 \<and> ops_failed out = 1000 \<and> attempts_total out = 1000000 \<and> attempts_worst out = 1000) \<and>
    (false_success e \<longrightarrow> ops_ok out = 1000 \<and> value_wrong out = 1) \<and>
    (stores_on_failure e \<longrightarrow> ops_ok out = 0 \<and> value_wrong out = 1)"
proof -
  obtain m1 where p: "plain_access_works e m = (True, m1)"
    using plain_access_ok [OF assms(1)] unfolding plain_access_works_def by (metis prod.collapse)
  let ?s = "(no_result\<lparr>plain_ok := 1\<rparr>, word_set e 0 m1)"
  obtain o1 m2 where r: "region_ops e OPS_PER_REGION ?s = (o1, m2)" by fastforce
  then have out: "out = (if word_get e m2 \<noteq> ops_ok o1 then o1\<lparr>value_wrong := 1\<rparr> else o1)"
    using assms(2) p by (auto simp: test_region_def)
  have z: "word_get e (word_set e 0 m1) = 0" using assms(1) by (simp add: plain_memory_def)
  have n: "OPS_PER_REGION = 1000" by (rule OPS_PER_REGION_def)
  note r' = r [unfolded n]
  have counted: "ops_ok o1 + ops_failed o1 = 1000" "plain_ok o1 = 1" "value_wrong o1 = 0"
    using ops_counted [OF r'] by (simp_all add: no_result_def)
  have "value_wrong out = 0" if "sound_monitor e"
    using ops_sound [OF that r'] z counted by (simp add: out no_result_def)
  moreover have refused: "ops_ok o1 = 0 \<and> ops_failed o1 = 1000 \<and> attempts_total o1 = 1000000 \<and> attempts_worst o1 = 1000 \<and>
      (stores_on_failure e \<longrightarrow> word_get e m2 = 1000000)" if "never_grants e"
    using ops_refused [OF that r'] z by (simp add: no_result_def)
  moreover have "ops_ok out = 1000 \<and> value_wrong out = 1" if "false_success e"
    using ops_false_success [OF that r'] z by (simp add: out no_result_def)
  moreover have "never_grants e" if "stores_on_failure e"
    using that by (auto simp: never_grants_def stores_on_failure_def case_prod_beta)
  ultimately show ?thesis using counted by (auto simp: out)
qed

definition sram_env :: "u32 excl_env" where
  "sram_env = \<lparr>word_get = (\<lambda>m. m), word_set = (\<lambda>v m. v), exclusive_try_increment = (\<lambda>m. (True, m + 1)),
     clrex_try_increment = (\<lambda>m. (False, m))\<rparr>"

theorem exclusives_report_is_right_witness:
  "value_wrong (fst (test_region sram_env True 7)) = 0 \<and> plain_ok (fst (test_region sram_env True 7)) = 1"
proof -
  have "plain_memory sram_env" "sound_monitor sram_env" by (simp_all add: plain_memory_def sound_monitor_def sram_env_def)
  with exclusives_report_is_right [OF this(1), of 7 "fst (test_region sram_env True 7)" "snd (test_region sram_env True 7)"]
  show ?thesis by simp
qed

text \<open>The replacement counts right in any memory that holds what is written to it, with or without a monitor.\<close>

theorem irq_masked_counts:
  assumes "plain_memory e"
  shows "fst (measure_irq_atomic e m)"
proof -
  have "word_get e ((irq_masked_increment e ^^ n) (word_set e 0 m)) = of_nat n" for n
    using assms by (induction n) (simp_all add: plain_memory_def irq_masked_increment_def)
  from this [of 100000] show ?thesis by (simp add: measure_irq_atomic_def Let_def)
qed

section \<open>What the test of the system call finds out\<close>

definition kernel_memory :: "'m kernel \<Rightarrow> bool" where
  "kernel_memory k \<longleftrightarrow> (\<forall>v m. kc_word k (kc_set k v m) = v)"

definition cas_correct :: "'m kernel \<Rightarrow> bool" where
  "cas_correct k \<longleftrightarrow>
     (\<forall>old new m. case kernel_cas k old new m of (r, m') \<Rightarrow>
        if kc_word k m = old then r = 0 \<and> kc_word k m' = new else r = 1 \<and> kc_word k m' = kc_word k m) \<and>
     (\<forall>m. fst (kc_wild k 0 1 m) \<in> {1, - 14})"

definition cas_stores_on_mismatch :: "'m kernel \<Rightarrow> bool" where
  "cas_stores_on_mismatch k \<longleftrightarrow> (\<forall>old new m. kc_word k m \<noteq> old \<longrightarrow> kc_word k (snd (kernel_cas k old new m)) = new)"

lemma cas_correctD:
  assumes "cas_correct k" "kernel_cas k old new m = (r, m')"
  shows "kc_word k m = old \<Longrightarrow> r = 0 \<and> kc_word k m' = new"
    and "kc_word k m \<noteq> old \<Longrightarrow> r = 1 \<and> kc_word k m' = kc_word k m"
proof -
  have "case kernel_cas k old new m of (r, m') \<Rightarrow>
      if kc_word k m = old then r = 0 \<and> kc_word k m' = new else r = 1 \<and> kc_word k m' = kc_word k m"
    by (rule assms(1) [unfolded cas_correct_def, THEN conjunct1, THEN spec, THEN spec, THEN spec])
  then show "kc_word k m = old \<Longrightarrow> r = 0 \<and> kc_word k m' = new"
    and "kc_word k m \<noteq> old \<Longrightarrow> r = 1 \<and> kc_word k m' = kc_word k m"
    using assms(2) by simp_all
qed

lemma cas_counts:
  assumes "cas_correct k"
  shows "\<exists>m'. cas_count k n m = Some m' \<and> kc_word k m' = kc_word k m + of_nat n"
proof (induction n arbitrary: m)
  case (Suc n)
  obtain r m1 where c: "kernel_cas k (kc_word k m) (kc_word k m + 1) m = (r, m1)" by fastforce
  then have "r = 0" and w: "kc_word k m1 = kc_word k m + 1" using cas_correctD(1) [OF assms c] by simp_all
  then have "cas_increment k m = Some m1" using c by (subst cas_increment.simps) simp
  then show ?case using Suc [of m1] w by (auto simp: algebra_simps)
qed simp

text \<open>The test of the kernel's compare-and-exchange is right in both directions: with a call that replaces the word
  exactly when it matches and reports which, it ends with status 0 after any number of rounds; with one that stores
  although the word does not match, which is what \<open>STREX\<close> does in this board's PSRAM, it never ends with status 0.\<close>

theorem castest_is_right:
  assumes "kernel_memory k"
  shows "(cas_correct k \<longrightarrow> (\<exists>m'. castest_main k rounds m = Some (0, m') \<and> kc_word k m' = rounds)) \<and>
    (cas_stores_on_mismatch k \<longrightarrow> castest_main k rounds m \<noteq> Some (0, m'))"
proof -
  have set: "kc_word k (kc_set k v m) = v" for v m using assms by (simp add: kernel_memory_def)
  obtain r1 m1 where c1: "kernel_cas k 0x11111111 0x22222222 (kc_set k 0x11111111 m) = (r1, m1)" by fastforce
  obtain r2 m2 where c2: "kernel_cas k 0xdeadbeef 0x33333333 m1 = (r2, m2)" by fastforce
  obtain r3 m3 where c3: "kc_wild k 0 1 m2 = (r3, m3)" by fastforce
  note cs = c1 c2 c3
  have A: "\<exists>m'. castest_main k rounds m = Some (0, m') \<and> kc_word k m' = rounds" if k: "cas_correct k"
  proof -
    have 1: "r1 = 0" "kc_word k m1 = 0x22222222" using cas_correctD(1) [OF k c1] set by simp_all
    have 2: "r2 = 1" "kc_word k m2 = 0x22222222" using cas_correctD(2) [OF k c2] 1(2) by simp_all
    have "fst (kc_wild k 0 1 m2) \<in> {1, - 14}" using k unfolding cas_correct_def by blast
    then have 3: "r3 = 1 \<or> r3 = - 14" using c3 by simp
    obtain m4 where "cas_count k (unat rounds) (kc_set k 0 m3) = Some m4" "kc_word k m4 = rounds"
      using cas_counts [OF k, of "unat rounds" "kc_set k 0 m3"] set by auto
    then show ?thesis using 1 2 3 by (simp add: castest_main_def Let_def cs)
  qed
  moreover have "castest_main k rounds m \<noteq> Some (0, m')" if k: "cas_stores_on_mismatch k"
  proof
    assume s: "castest_main k rounds m = Some (0, m')"
    then have "kc_word k m1 = 0x22222222" "kc_word k m2 = 0x22222222"
      by (auto simp: castest_main_def Let_def cs bind_eq_Some_conv split: if_splits)
    moreover from this have "kc_word k m1 \<noteq> 0xdeadbeef" by simp
    then have "kc_word k (snd (kernel_cas k 0xdeadbeef 0x33333333 m1)) = 0x33333333"
      using k unfolding cas_stores_on_mismatch_def by blast
    ultimately show False using c2 by simp
  qed
  ultimately show ?thesis by blast
qed

text \<open>A kernel as it should be: the word itself is the state.\<close>

definition good_kernel :: "u32 kernel" where
  "good_kernel = \<lparr>kc_word = (\<lambda>m. m), kc_set = (\<lambda>v m. v), kernel_cas = (\<lambda>old new m. if m = old then (0, new) else (1, m)),
     kc_wild = (\<lambda>_ _ m. (- 14, m))\<rparr>"

theorem castest_is_right_witness:
  "\<exists>m'. castest_main good_kernel 100000 0 = Some (0, m') \<and> m' = 100000"
proof -
  have "kernel_memory good_kernel" "cas_correct good_kernel"
    by (simp_all add: kernel_memory_def cas_correct_def good_kernel_def)
  with castest_is_right [OF this(1), of 100000 0] show ?thesis by (simp add: good_kernel_def)
qed

end
