(* ===== verification/Xinput.thy ===== *)
theory Xinput
  imports Hid
begin

text \<open>
  \<open>firmware/master-ioserver/usbhid/xinput_host.c\<close>: the class driver under the XInput callbacks.
  TinyUSB's endpoints are an argument; a transfer that has ended comes with the contents of the
  endpoint buffer.  Waiting for an output transfer changes no state of the driver and is left
  out.
\<close>

section \<open>State\<close>

definition CFG_TUH_DEVICE_MAX :: nat where "CFG_TUH_DEVICE_MAX = 5"
definition CFG_TUH_XINPUT :: nat where "CFG_TUH_XINPUT = 1"

datatype xinput_type = XINPUT_UNKNOWN | XBOXONE | XBOX360_WIRELESS | XBOX360_WIRED | XBOXOG

record xinputh_interface =
  xi_type :: xinput_type
  xi_pad :: xinput_gamepad
  xi_connected :: bool
  new_pad_data :: bool
  itf_num :: u8
  ep_in :: u8
  ep_out :: u8
  epin_size :: u16
  epout_size :: u16
  last_xfer_ok :: bool
  last_xferred_bytes :: u32

record xinputh_device =
  inst_count :: nat
  instances :: "xinputh_interface arr"

text \<open>The driver's devices, the application above it, and the transfers submitted: armed endpoints and packets out.\<close>

record xhost =
  xinputh_dev :: "xinputh_device arr"
  xh_hid :: hid
  xh_armed :: "(u8 \<times> u8) list"
  xh_sent :: "(u8 \<times> u8 \<times> u8 list) list"

record usbh =
  usbh_edpt_claim :: "u8 \<Rightarrow> u8 \<Rightarrow> bool"
  usbh_edpt_xfer :: "u8 \<Rightarrow> u8 \<Rightarrow> bool"
  tuh_edpt_open :: "u8 \<Rightarrow> u8 list \<Rightarrow> bool"

definition get_instance :: "u8 \<Rightarrow> nat \<Rightarrow> xhost \<Rightarrow> xinputh_interface" where
  "get_instance dev inst s = instances (xinputh_dev s (unat (dev - 1))) inst"

definition on_device :: "u8 \<Rightarrow> (xinputh_device \<Rightarrow> xinputh_device) \<Rightarrow> xhost \<Rightarrow> xhost" where
  "on_device dev f s = s\<lparr>xinputh_dev := (xinputh_dev s)(unat (dev - 1) := f (xinputh_dev s (unat (dev - 1))))\<rparr>"

definition on_instance :: "u8 \<Rightarrow> nat \<Rightarrow> (xinputh_interface \<Rightarrow> xinputh_interface) \<Rightarrow> xhost \<Rightarrow> xhost" where
  "on_instance dev inst f = on_device dev (\<lambda>d. d\<lparr>instances := (instances d)(inst := f (instances d inst))\<rparr>)"

text \<open>The first instance with the property, or 0xff.\<close>

definition instance_id :: "(xinputh_interface \<Rightarrow> bool) \<Rightarrow> u8 \<Rightarrow> xhost \<Rightarrow> nat" where
  "instance_id p dev s =
     (case filter (\<lambda>i. p (get_instance dev i s)) [0..<CFG_TUH_XINPUT] of i # _ \<Rightarrow> i | [] \<Rightarrow> 0xff)"

definition get_instance_id_by_epaddr :: "u8 \<Rightarrow> u8 \<Rightarrow> xhost \<Rightarrow> nat" where
  "get_instance_id_by_epaddr dev ep = instance_id (\<lambda>x. ep = ep_in x \<or> ep = ep_out x) dev"

definition get_instance_id_by_itfnum :: "u8 \<Rightarrow> u8 \<Rightarrow> xhost \<Rightarrow> nat" where
  "get_instance_id_by_itfnum dev itf = instance_id (\<lambda>x. itf_num x = itf \<and> (ep_in x \<noteq> 0 \<or> ep_out x \<noteq> 0)) dev"

section \<open>Transfers\<close>

definition tuh_xinput_receive_report :: "usbh \<Rightarrow> u8 \<Rightarrow> nat \<Rightarrow> xhost \<Rightarrow> bool \<times> xhost" where
  "tuh_xinput_receive_report u dev inst s =
     (let ep = ep_in (get_instance dev inst s)
      in if \<not> usbh_edpt_claim u dev ep then (False, s)
         else if \<not> usbh_edpt_xfer u dev ep then (False, s)
         else (True, s\<lparr>xh_armed := xh_armed s @ [(dev, ep)]\<rparr>))"

definition tuh_xinput_send_report :: "usbh \<Rightarrow> u8 \<Rightarrow> nat \<Rightarrow> u8 list \<Rightarrow> xhost \<Rightarrow> bool \<times> xhost" where
  "tuh_xinput_send_report u dev inst txbuf s =
     (let x = get_instance dev inst s
      in if \<not> length txbuf \<le> unat (epout_size x) then (False, s)
         else if \<not> usbh_edpt_claim u dev (ep_out x) then (False, s)
         else if \<not> usbh_edpt_xfer u dev (ep_out x) then (False, s)
         else (True, s\<lparr>xh_sent := xh_sent s @ [(dev, ep_out x, txbuf)]\<rparr>))"

definition xbox360_wired_led :: "u8 list" where "xbox360_wired_led = [0x01, 0x03, 0x00]"
definition xbox360_wired_rumble :: "u8 list" where "xbox360_wired_rumble = [0x00, 0x08, 0, 0, 0, 0, 0, 0]"
definition xboxone_power_on :: "u8 list" where "xboxone_power_on = [0x05, 0x20, 0, 1, 0x00]"
definition xboxone_s_init :: "u8 list" where
  "xboxone_s_init = [0x05, 0x20, 0, 15, 0x06, 0, 0, 0, 0, 0, 0, 0x55, 0x53, 0, 0, 0, 0, 0, 0]"
definition extra_input_packet_init :: "u8 list" where "extra_input_packet_init = [0x4d, 0x10, 0, 0x02, 0x07, 0x00]"
definition xboxone_pdp_led_on :: "u8 list" where "xboxone_pdp_led_on = [0x0a, 0x20, 0, 3, 0x00, 0x01, 0x14]"
definition xboxone_pdp_auth :: "u8 list" where "xboxone_pdp_auth = [0x06, 0x20, 0, 2, 0x01, 0x00]"
definition xboxone_rumble :: "u8 list" where
  "xboxone_rumble = [0x09, 0x00, 0x00, 9, 0x00, 0x0F, 0, 0, 0, 0, 0xFF, 0x00, 0xFF]"
definition xbox360w_led :: "u8 list" where "xbox360w_led = [0x00, 0x00, 0x08, 0x40]"
definition xbox360w_rumble :: "u8 list" where "xbox360w_rumble = [0x00, 0x01, 0x0F, 0xC0, 0, 0, 0]"
definition xbox360w_inquire_present :: "u8 list" where "xbox360w_inquire_present = [0x08, 0x00, 0x0F, 0xC0]"
definition xboxog_rumble :: "u8 list" where "xboxog_rumble = [0x00, 0x06, 0, 0, 0, 0]"

definition xboxone_init :: "usbh \<Rightarrow> tuh \<Rightarrow> u8 \<Rightarrow> nat \<Rightarrow> xhost \<Rightarrow> xhost" where
  "xboxone_init u t dev inst s =
     (case tuh_vid_pid_get t dev of (VID, PID) \<Rightarrow>
        let send = (\<lambda>bs s. snd (tuh_xinput_send_report u dev inst bs s));
            s = send xboxone_s_init (send xboxone_power_on s);
            s = (if VID = 0x045e \<and> PID = 0x0b00 then send extra_input_packet_init s else s)
        in if VID = 0x0e6f then send xboxone_pdp_auth (send xboxone_pdp_led_on s) else s)"

definition tuh_xinput_set_led :: "usbh \<Rightarrow> u8 \<Rightarrow> nat \<Rightarrow> u8 \<Rightarrow> xhost \<Rightarrow> bool \<times> xhost" where
  "tuh_xinput_set_led u dev inst quadrant s =
     (case xi_type (get_instance dev inst s) of
        XBOX360_WIRELESS \<Rightarrow>
          tuh_xinput_send_report u dev inst
            (xbox360w_led[3 := if quadrant = 0 then 0x40 else 0x40 OR (quadrant + 5)]) s
      | XBOX360_WIRED \<Rightarrow>
          tuh_xinput_send_report u dev inst (xbox360_wired_led[2 := if quadrant = 0 then 0 else quadrant + 5]) s
      | _ \<Rightarrow> (True, s))"

text \<open>The result is always true, also when the report could not be sent.\<close>

definition rumble_packet :: "xinput_type \<Rightarrow> u8 \<Rightarrow> u8 \<Rightarrow> u8 list option" where
  "rumble_packet ty l r =
     (case ty of
        XBOX360_WIRELESS \<Rightarrow> Some (xbox360w_rumble[5 := l, 6 := r])
      | XBOX360_WIRED \<Rightarrow> Some (xbox360_wired_rumble[3 := l, 4 := r])
      | XBOXONE \<Rightarrow> Some (xboxone_rumble[8 := l div 2, 9 := r div 2])
      | XBOXOG \<Rightarrow> Some (xboxog_rumble[2 := l, 3 := l, 4 := r, 5 := r])
      | XINPUT_UNKNOWN \<Rightarrow> None)"

definition tuh_xinput_set_rumble :: "usbh \<Rightarrow> u8 \<Rightarrow> nat \<Rightarrow> u8 \<Rightarrow> u8 \<Rightarrow> xhost \<Rightarrow> bool \<times> xhost" where
  "tuh_xinput_set_rumble u dev inst l r s =
     (case rumble_packet (xi_type (get_instance dev inst s)) l r of
        None \<Rightarrow> (True, s)
      | Some bs \<Rightarrow> (True, snd (tuh_xinput_send_report u dev inst bs s)))"

section \<open>The application above\<close>

text \<open>The calls the application's callbacks make, carried out in their order.\<close>

definition host_call :: "usbh \<Rightarrow> host_call \<Rightarrow> xhost \<Rightarrow> xhost" where
  "host_call u c s =
     (case c of
        XinputReceive dev inst \<Rightarrow> snd (tuh_xinput_receive_report u dev (unat inst) s)
      | XinputSetLed dev inst q _ \<Rightarrow> snd (tuh_xinput_set_led u dev (unat inst) q s)
      | HidReceive _ _ \<Rightarrow> s)"

definition callback :: "usbh \<Rightarrow> (hid \<Rightarrow> hid) \<Rightarrow> xhost \<Rightarrow> xhost" where
  "callback u f s =
     (let h = xh_hid s; h' = f h
      in fold (host_call u) (drop (length (host_calls h)) (host_calls h')) (s\<lparr>xh_hid := h'\<rparr>))"

section \<open>Packets\<close>

definition le16 :: "u8 arr \<Rightarrow> nat \<Rightarrow> u16" where
  "le16 d i = push_bit 8 (ucast (d (i + 1))) OR ucast (d i)"

text \<open>\<open>if (w & (1 << n)) pad->wButtons |= flag;\<close> for each pair.\<close>

definition map_buttons :: "(nat \<times> u16) list \<Rightarrow> u16 \<Rightarrow> u16" where
  "map_buttons ps w = fold (\<lambda>(n, flag) b. if w AND push_bit n 1 \<noteq> 0 then b OR flag else b) ps 0"

definition XINPUT_GAMEPAD_GUIDE :: u16 where "XINPUT_GAMEPAD_GUIDE = 0x0400"
definition XINPUT_GAMEPAD_SHARE :: u16 where "XINPUT_GAMEPAD_SHARE = 0x0800"

definition buttons_360 :: "(nat \<times> u16) list" where
  "buttons_360 = [(0, 0x0001), (1, 0x0002), (2, 0x0004), (3, 0x0008), (4, 0x0010), (5, 0x0020), (6, 0x0040), (7, 0x0080),
     (8, 0x0100), (9, 0x0200), (10, 0x0400), (12, 0x1000), (13, 0x2000), (14, 0x4000), (15, 0x8000)]"

definition buttons_one :: "(nat \<times> u16) list" where
  "buttons_one = [(8, 0x0001), (9, 0x0002), (10, 0x0004), (11, 0x0008), (2, 0x0010), (3, 0x0020), (14, 0x0040), (15, 0x0080),
     (12, 0x0100), (13, 0x0200), (4, 0x1000), (5, 0x2000), (6, 0x4000), (7, 0x8000)]"

definition buttons_og :: "(nat \<times> u16) list" where
  "buttons_og = [(0, 0x0001), (1, 0x0002), (2, 0x0004), (3, 0x0008), (4, 0x0010), (5, 0x0020), (6, 0x0040), (7, 0x0080)]"

definition pad_360 :: "nat \<Rightarrow> u8 arr \<Rightarrow> xinput_gamepad" where
  "pad_360 k d = \<lparr>wButtons = map_buttons buttons_360 (le16 d (k + 2)), bLeftTrigger = d (k + 4), bRightTrigger = d (k + 5),
     sThumbLX = le16 d (k + 6), sThumbLY = le16 d (k + 8), sThumbRX = le16 d (k + 10), sThumbRY = le16 d (k + 12)\<rparr>"

text \<open>The share button is taken from \<open>rdata[22] && 0x01\<close>: any value but zero.\<close>

definition pad_one :: "u8 arr \<Rightarrow> xinput_gamepad" where
  "pad_one d = \<lparr>
     wButtons = map_buttons buttons_one (le16 d 4) OR (if d 22 \<noteq> 0 then XINPUT_GAMEPAD_SHARE else 0),
     bLeftTrigger = ucast (drop_bit 2 (le16 d 6)), bRightTrigger = ucast (drop_bit 2 (le16 d 8)),
     sThumbLX = le16 d 10, sThumbLY = le16 d 12, sThumbRX = le16 d 14, sThumbRY = le16 d 16\<rparr>"

text \<open>The original pad has six pressure-sensitive buttons.\<close>

definition pad_og :: "u8 arr \<Rightarrow> xinput_gamepad" where
  "pad_og d = \<lparr>
     wButtons = fold (\<lambda>(i, flag) b. if d i > 0x20 then b OR flag else b)
       [(4, 0x1000), (5, 0x2000), (6, 0x4000), (7, 0x8000), (8, 0x0200), (9, 0x0100)]
       (map_buttons buttons_og (le16 d 2)),
     bLeftTrigger = d 10, bRightTrigger = d 11,
     sThumbLX = le16 d 12, sThumbLY = le16 d 14, sThumbRX = le16 d 16, sThumbRY = le16 d 18\<rparr>"

definition new_pad :: "xinput_gamepad \<Rightarrow> xinputh_interface \<Rightarrow> xinputh_interface" where
  "new_pad p x = x\<lparr>xi_pad := p, new_pad_data := True\<rparr>"

definition packet_wireless :: "u8 arr \<Rightarrow> xinputh_interface \<Rightarrow> xinputh_interface" where
  "packet_wireless d x =
     (let x = (if d 0 AND 0x08 \<noteq> 0 then
                 (if d 1 \<noteq> 0 \<and> \<not> xi_connected x then x\<lparr>xi_connected := True\<rparr>
                  else if d 1 = 0 \<and> xi_connected x then x\<lparr>xi_connected := False\<rparr> else x)
               else x)
      in if d 1 AND 1 \<noteq> 0 \<and> d 5 = 0x13 then new_pad (pad_360 4 d) x else x)"

definition packet_virtual_key :: "u8 arr \<Rightarrow> xinputh_interface \<Rightarrow> xinputh_interface" where
  "packet_virtual_key d x =
     (let p = xi_pad x; w = wButtons p
      in if d 4 = 0x01 \<and> w AND XINPUT_GAMEPAD_GUIDE = 0 then
           new_pad (p\<lparr>wButtons := w OR XINPUT_GAMEPAD_GUIDE\<rparr>) x
         else if d 4 = 0x00 \<and> w AND XINPUT_GAMEPAD_GUIDE \<noteq> 0 then
           new_pad (p\<lparr>wButtons := w AND NOT XINPUT_GAMEPAD_GUIDE\<rparr>) x
         else x)"

text \<open>What a packet does to the interface; an announcement starts the initialisation again.\<close>

definition packet :: "u8 arr \<Rightarrow> xinputh_interface \<Rightarrow> xinputh_interface" where
  "packet d x =
     (case xi_type x of
        XBOX360_WIRED \<Rightarrow> if d 1 = 0x14 then new_pad (pad_360 0 d) x else x
      | XBOX360_WIRELESS \<Rightarrow> packet_wireless d x
      | XBOXONE \<Rightarrow>
          if d 0 = 0x20 then new_pad (pad_one d) x
          else if d 0 = 0x07 then packet_virtual_key d x else x
      | XBOXOG \<Rightarrow> if d 1 = 0x14 then new_pad (pad_og d) x else x
      | XINPUT_UNKNOWN \<Rightarrow> x)"

section \<open>The driver's entry points\<close>

definition xinputh_init :: "xinputh_device \<Rightarrow> xhost \<Rightarrow> xhost" where
  "xinputh_init zero s = s\<lparr>xinputh_dev := (\<lambda>i. if i < CFG_TUH_DEVICE_MAX then zero else xinputh_dev s i)\<rparr>"

definition received :: "usbh \<Rightarrow> u8 \<Rightarrow> nat \<Rightarrow> xhost \<Rightarrow> xhost" where
  "received u dev inst s =
     callback u (tuh_xinput_report_received_cb dev (of_nat inst) (Some (xi_pad (get_instance dev inst s)))) s"

definition xinputh_xfer_cb :: "usbh \<Rightarrow> tuh \<Rightarrow> u8 \<Rightarrow> u8 \<Rightarrow> bool \<Rightarrow> u32 \<Rightarrow> u8 arr \<Rightarrow> xhost \<Rightarrow> bool \<times> xhost" where
  "xinputh_xfer_cb u t dev ep ok n rdata s =
     (let inst = get_instance_id_by_epaddr dev ep s;
          s = on_instance dev inst (\<lambda>x. x\<lparr>last_xfer_ok := ok, last_xferred_bytes := n\<rparr>) s;
          dir_in = (ep AND 0x80 \<noteq> 0)
      in if \<not> ok then (False, if dir_in then received u dev inst s else s)
         else if \<not> dir_in then (True, s)
         else let s = (if xi_type (get_instance dev inst s) = XBOXONE \<and> rdata 0 = 0x02
                       then xboxone_init u t dev inst s else s);
                  s = on_instance dev inst (packet rdata) s
              in (True, if new_pad_data (get_instance dev inst s) then
                          on_instance dev inst (\<lambda>x. x\<lparr>new_pad_data := False\<rparr>) (received u dev inst s)
                        else snd (tuh_xinput_receive_report u dev inst s)))"

definition xinputh_set_config :: "usbh \<Rightarrow> tuh \<Rightarrow> u8 \<Rightarrow> u8 \<Rightarrow> xhost \<Rightarrow> xhost" where
  "xinputh_set_config u t dev itf s =
     (let inst = get_instance_id_by_itfnum dev itf s;
          s = on_instance dev inst (\<lambda>x. x\<lparr>xi_connected := True\<rparr>) s;
          s = (case xi_type (get_instance dev inst s) of
                 XBOX360_WIRELESS \<Rightarrow>
                   snd (tuh_xinput_send_report u dev inst xbox360w_inquire_present
                     (on_instance dev inst (\<lambda>x. x\<lparr>xi_connected := False\<rparr>) s))
               | XBOXONE \<Rightarrow> xboxone_init u t dev inst s
               | _ \<Rightarrow> s)
      in callback u (tuh_xinput_mount_cb t dev (of_nat inst)) s)"

text \<open>The type an interface descriptor stands for.\<close>

definition xinput_type_of :: "nat \<Rightarrow> u8 \<Rightarrow> u8 \<Rightarrow> u8 \<Rightarrow> xinput_type" where
  "xinput_type_of endpoints cls sub prot =
     (if endpoints < 2 then XINPUT_UNKNOWN
      else if sub = 0x5D \<and> prot = 0x81 then XBOX360_WIRELESS
      else if sub = 0x5D \<and> prot = 0x01 then XBOX360_WIRED
      else if sub = 0x47 \<and> prot = 0xD0 then XBOXONE
      else if cls = 0x58 \<and> sub = 0x42 then XBOXOG
      else XINPUT_UNKNOWN)"

text \<open>
  The loop over the descriptors from the interface's on: \<open>pos\<close> is the offset of \<open>p_desc\<close>.
  The result is \<open>None\<close> if the loop never ends, and within it whether every endpoint opened.
\<close>

partial_function (option) open_endpoints ::
    "usbh \<Rightarrow> u8 \<Rightarrow> u8 arr \<Rightarrow> nat \<Rightarrow> nat \<Rightarrow> nat \<Rightarrow> nat \<Rightarrow> xinputh_interface \<Rightarrow> (bool \<times> xinputh_interface) option" where
  "open_endpoints u dev desc count mx endpoint pos x =
     (if endpoint < count \<and> pos < mx then
        let len = unat (desc pos) in
        if desc (pos + 1) \<noteq> 0x05 then open_endpoints u dev desc count mx endpoint (pos + len) x
        else let addr = desc (pos + 2); sz = le16 desc (pos + 4) AND 0x7FF in
          if \<not> tuh_edpt_open u dev (map desc [pos ..< pos + 7]) then Some (False, x)
          else open_endpoints u dev desc count mx (endpoint + 1) (pos + len)
                 (if addr AND 0x80 = 0 then x\<lparr>ep_out := addr, epout_size := sz\<rparr>
                  else x\<lparr>ep_in := addr, epin_size := sz\<rparr>)
      else Some (True, x))"

text \<open>
  The interface descriptor begins at offset 0: number, endpoints, class, subclass and protocol
  are its bytes 2 and 4 to 7.
\<close>

definition xinputh_open :: "usbh \<Rightarrow> u8 \<Rightarrow> u8 arr \<Rightarrow> u16 \<Rightarrow> xhost \<Rightarrow> (bool \<times> xhost) option" where
  "xinputh_open u dev desc max_len s =
     (let ty = xinput_type_of (unat (desc 4)) (desc 5) (desc 6) (desc 7)
      in if \<not> unat dev \<le> CFG_TUH_DEVICE_MAX then Some (False, s)
         else if ty = XINPUT_UNKNOWN then Some (False, s)
         else let inst = inst_count (xinputh_dev s (unat (dev - 1))) in
           if \<not> inst < CFG_TUH_XINPUT then Some (False, s)
           else let s = on_instance dev inst (\<lambda>x. x\<lparr>itf_num := desc 2, xi_type := ty\<rparr>) s
                in map_option (\<lambda>(ok, x).
                     let s = on_instance dev inst (\<lambda>_. x) s
                     in if ok then (True, on_device dev (\<lambda>d. d\<lparr>inst_count := inst_count d + 1\<rparr>) s) else (False, s))
                   (open_endpoints u dev desc (unat (desc 4)) (unat max_len) 0 0 (get_instance dev inst s)))"

definition xinputh_close :: "usbh \<Rightarrow> xinputh_device \<Rightarrow> u8 \<Rightarrow> xhost \<Rightarrow> xhost" where
  "xinputh_close u zero dev s =
     (if \<not> unat dev \<le> CFG_TUH_DEVICE_MAX then s
      else on_device dev (\<lambda>_. zero)
        (fold (\<lambda>i. callback u (tuh_xinput_umount_cb dev (of_nat i))) [0 ..< inst_count (xinputh_dev s (unat (dev - 1)))] s))"

end
