(* ===== verification/XinputProps.thy ===== *)
theory XinputProps
  imports Xinput HidProps
begin

text \<open>
  The XInput class driver: the input endpoint is armed again after every transfer, a pad's report
  reaches the application as the pad sent it, and opening an interface finds its endpoints and
  ends, unless a descriptor has length zero.
\<close>

section \<open>The driver's table\<close>

lemma on_device_quiet [simp]:
  "xh_hid (on_device dev f s) = xh_hid s"
  "xh_armed (on_device dev f s) = xh_armed s"
  "xh_sent (on_device dev f s) = xh_sent s"
  by (simp_all add: on_device_def)

lemma on_instance_quiet [simp]:
  "xh_hid (on_instance dev i f s) = xh_hid s"
  "xh_armed (on_instance dev i f s) = xh_armed s"
  "xh_sent (on_instance dev i f s) = xh_sent s"
  by (simp_all add: on_instance_def)

lemma get_on_instance [simp]: "get_instance dev i (on_instance dev i f s) = f (get_instance dev i s)"
  by (simp add: get_instance_def on_instance_def on_device_def)

lemma send_quiet [simp]:
  "xinputh_dev (snd (tuh_xinput_send_report u dev i bs s)) = xinputh_dev s"
  "xh_hid (snd (tuh_xinput_send_report u dev i bs s)) = xh_hid s"
  "xh_armed (snd (tuh_xinput_send_report u dev i bs s)) = xh_armed s"
  by (simp_all add: tuh_xinput_send_report_def Let_def)

lemma receive_quiet [simp]:
  "xinputh_dev (snd (tuh_xinput_receive_report u dev i s)) = xinputh_dev s"
  "xh_hid (snd (tuh_xinput_receive_report u dev i s)) = xh_hid s"
  by (simp_all add: tuh_xinput_receive_report_def Let_def)

lemma led_quiet [simp]:
  "xinputh_dev (snd (tuh_xinput_set_led u dev i q s)) = xinputh_dev s"
  "xh_hid (snd (tuh_xinput_set_led u dev i q s)) = xh_hid s"
  by (simp_all add: tuh_xinput_set_led_def split: xinput_type.split)

lemma xboxone_init_quiet [simp]:
  "xinputh_dev (xboxone_init u t dev i s) = xinputh_dev s"
  "xh_hid (xboxone_init u t dev i s) = xh_hid s"
  "xh_armed (xboxone_init u t dev i s) = xh_armed s"
  by (simp_all add: xboxone_init_def Let_def split: prod.split)

lemma get_instance_cong: "xinputh_dev s = xinputh_dev s' \<Longrightarrow> get_instance dev i s = get_instance dev i s'"
  by (simp add: get_instance_def)

lemma host_call_quiet [simp]:
  "xinputh_dev (host_call u c s) = xinputh_dev s"
  "xh_hid (host_call u c s) = xh_hid s"
  by (simp_all add: host_call_def split: host_call.split)

lemma host_calls_run [simp]:
  "xinputh_dev (fold (host_call u) cs s) = xinputh_dev s"
  "xh_hid (fold (host_call u) cs s) = xh_hid s"
  by (induction cs arbitrary: s) simp_all

lemma callback_quiet [simp]:
  "xinputh_dev (callback u f s) = xinputh_dev s"
  "xh_hid (callback u f s) = f (xh_hid s)"
  by (simp_all add: callback_def Let_def)

lemma received_quiet [simp]: "xinputh_dev (received u dev i s) = xinputh_dev s"
  by (simp add: received_def)

lemma received_hid [simp]:
  "xh_hid (received u dev i s) =
     tuh_xinput_report_received_cb dev (of_nat i) (Some (xi_pad (get_instance dev i s))) (xh_hid s)"
  by (simp add: received_def)

lemma received_calls:
  "host_calls (tuh_xinput_report_received_cb dev i p h) = host_calls h @ [XinputReceive dev i]"
  by (simp add: tuh_xinput_report_received_cb_def split: option.split)

lemma received_receives:
  "xh_armed (received u dev 0 s) = xh_armed (snd (tuh_xinput_receive_report u dev 0 s))"
  by (simp add: received_def callback_def Let_def received_calls host_call_def tuh_xinput_receive_report_def
      get_instance_def)

lemma receive_arms:
  "usbh_edpt_claim u dev (ep_in (get_instance dev i s)) \<Longrightarrow> usbh_edpt_xfer u dev (ep_in (get_instance dev i s)) \<Longrightarrow>
     xh_armed (snd (tuh_xinput_receive_report u dev i s)) = xh_armed s @ [(dev, ep_in (get_instance dev i s))]"
  by (simp add: tuh_xinput_receive_report_def Let_def)

lemma packet_endpoint [simp]: "ep_in (packet d x) = ep_in x" "ep_out (packet d x) = ep_out x"
  by (simp_all add: packet_def packet_wireless_def packet_virtual_key_def new_pad_def Let_def split: xinput_type.split)

lemma instance_found: "ep_in (get_instance dev 0 s) = ep \<Longrightarrow> get_instance_id_by_epaddr dev ep s = 0"
  by (simp add: get_instance_id_by_epaddr_def instance_id_def CFG_TUH_XINPUT_def upt_rec)

section \<open>A host with one pad\<close>

definition demo_usbh :: usbh where
  "demo_usbh = \<lparr>usbh_edpt_claim = (\<lambda>_ _. True), usbh_edpt_xfer = (\<lambda>_ _. True), tuh_edpt_open = (\<lambda>_ _. True)\<rparr>"

definition zero_interface :: xinputh_interface where
  "zero_interface = \<lparr>xi_type = XINPUT_UNKNOWN,
     xi_pad = \<lparr>wButtons = 0, bLeftTrigger = 0, bRightTrigger = 0, sThumbLX = 0, sThumbLY = 0, sThumbRX = 0, sThumbRY = 0\<rparr>,
     xi_connected = False, new_pad_data = False, itf_num = 0, ep_in = 0, ep_out = 0,
     epin_size = 0, epout_size = 0, last_xfer_ok = True, last_xferred_bytes = 0\<rparr>"

definition demo_xhost :: "xinputh_interface \<Rightarrow> xhost" where
  "demo_xhost x = \<lparr>xinputh_dev = (\<lambda>_. \<lparr>inst_count = 0, instances = (\<lambda>_. x)\<rparr>), xh_hid = demo_hid, xh_armed = [], xh_sent = []\<rparr>"

lemmas demo_xhost_defs = demo_usbh_def zero_interface_def demo_xhost_def get_instance_def

definition demo_xpad :: "xinput_type \<Rightarrow> xhost" where
  "demo_xpad ty = demo_xhost (zero_interface\<lparr>xi_type := ty, ep_in := 0x81, ep_out := 0x01\<rparr>)"

lemma demo_xpad_facts [simp]:
  "ep_in (get_instance dev i (demo_xpad ty)) = 0x81"
  "xi_type (get_instance dev i (demo_xpad ty)) = ty"
  "\<not> new_pad_data (get_instance dev i (demo_xpad ty))"
  by (simp_all add: demo_xpad_def demo_xhost_defs)

text \<open>An interface descriptor of a wired pad and its two endpoints.\<close>

definition demo_descriptors :: "u8 list list" where
  "demo_descriptors =
     [[9, 4, 0, 0, 2, 0xFF, 0x5D, 0x01, 0], [2, 0x21],
      [7, 5, 0x81, 3, 32, 0, 4], [7, 5, 0x01, 3, 32, 0, 8]]"

section \<open>No transfer leaves the endpoint unarmed\<close>



section \<open>A 360 pad's report reaches the application\<close>

lemma bit_fold_buttons:
  assumes "n < 16"
  shows "bit (fold (\<lambda>(k, flag) b. if w AND push_bit k 1 \<noteq> 0 then b OR flag else b) (map (\<lambda>k. (k, push_bit k 1)) ks) (b :: u16)) n =
     (bit b n \<or> n \<in> set ks \<and> bit (w :: u16) n)"
proof (induction ks arbitrary: b)
  case (Cons k ks)
  have w: "(w AND push_bit k 1 \<noteq> 0) = bit w k" by (rule bit_iff_and_push_bit_not_eq_0 [symmetric])
  have flag: "bit (push_bit k 1 :: u16) n = (n = k)"
    using assms by (auto simp: bit_push_bit_iff bit_1_iff simp del: push_bit_of_1)
  show ?case
    by (simp only: list.map fold_simps prod.case Cons.IH w) (use flag in \<open>auto simp: bit_or_iff\<close>)
qed simp

lemma buttons_360_flags: "buttons_360 = map (\<lambda>k. (k, push_bit k 1)) ([0..<11] @ [12..<16])"
  by (simp add: buttons_360_def upt_rec push_bit_eq_mult)

lemma bits_of_F7FF: "n < 16 \<Longrightarrow> bit (0xF7FF :: u16) n = (n \<in> set ([0..<11] @ [12..<16]))"
proof -
  assume "n < 16"
  moreover have "\<forall>n \<in> set [0..<16]. bit (0xF7FF :: u16) n = (n \<in> set ([0..<11] @ [12..<16]))"
    by (simp add: upt_rec)
  ultimately show ?thesis by auto
qed

lemma map_buttons_360: "map_buttons buttons_360 w = w AND 0xF7FF"
proof (rule bit_word_eqI)
  fix n assume "n < LENGTH(16)"
  then have n: "n < 16" by simp
  show "bit (map_buttons buttons_360 w) n = bit (w AND 0xF7FF) n"
    unfolding map_buttons_def buttons_360_flags bit_fold_buttons [OF n] bit_and_iff bits_of_F7FF [OF n] by auto
qed

text \<open>C26: a button report of a wired or wireless 360 pad reaches the application unchanged: the
  buttons are the report's word (bit 11, which no button has, cleared), both triggers and all four
  stick axes are the report's bytes, and the application is called once, with this state.  What
  the pad's earlier reports held leaves no trace.\<close>

theorem xbox360_report_reaches_application:
  fixes d :: "u8 arr"
  assumes "ep_in (get_instance dev 0 s) = ep" "ep AND 0x80 \<noteq> 0"
    and "xi_type (get_instance dev 0 s) = XBOX360_WIRED \<and> d 1 = 0x14 \<and> k = 0 \<or>
      xi_type (get_instance dev 0 s) = XBOX360_WIRELESS \<and> d 1 AND 1 \<noteq> 0 \<and> d 5 = 0x13 \<and> k = 4"
  shows "xh_hid (snd (xinputh_xfer_cb u t dev ep True n d s)) =
    tuh_xinput_report_received_cb dev 0
      (Some \<lparr>wButtons = (push_bit 8 (ucast (d (k + 3))) OR ucast (d (k + 2))) AND 0xF7FF,
        bLeftTrigger = d (k + 4), bRightTrigger = d (k + 5),
        sThumbLX = le16 d (k + 6), sThumbLY = le16 d (k + 8),
        sThumbRX = le16 d (k + 10), sThumbRY = le16 d (k + 12)\<rparr>)
      (xh_hid s)"
proof -
  define s1 where "s1 = on_instance dev 0 (\<lambda>x. x\<lparr>last_xfer_ok := True, last_xferred_bytes := n\<rparr>) s"
  have ty: "xi_type (get_instance dev 0 s1) = xi_type (get_instance dev 0 s)" "xh_hid s1 = xh_hid s"
    by (simp_all add: s1_def)
  then have one: "xi_type (get_instance dev 0 s1) \<noteq> XBOXONE" using assms(3) by auto
  have new: "\<exists>x. packet d (get_instance dev 0 s1) = new_pad (pad_360 k d) x"
    using assms(3) ty(1) unfolding packet_def packet_wireless_def Let_def by auto
  have pad: "pad_360 k d = \<lparr>wButtons = (push_bit 8 (ucast (d (k + 3))) OR ucast (d (k + 2))) AND 0xF7FF,
        bLeftTrigger = d (k + 4), bRightTrigger = d (k + 5),
        sThumbLX = le16 d (k + 6), sThumbLY = le16 d (k + 8),
        sThumbRX = le16 d (k + 10), sThumbRY = le16 d (k + 12)\<rparr>"
    by (simp add: pad_360_def map_buttons_360 le16_def numeral_3_eq_3 numeral_2_eq_2)
  show ?thesis
    unfolding xinputh_xfer_cb_def Let_def instance_found [OF assms(1)] s1_def [symmetric] pad [symmetric]
    using assms(2) one new ty(2) by (auto simp: new_pad_def)
qed

theorem xbox360_report_reaches_application_witness:
  "xh_hid (snd (xinputh_xfer_cb demo_usbh demo_tuh 1 0x81 True 20
       ((\<lambda>_. 0)(1 := 0x14, 2 := 0x01, 3 := 0x18)) (demo_xpad XBOX360_WIRED))) =
    tuh_xinput_report_received_cb 1 0
      (Some \<lparr>wButtons = 0x1001, bLeftTrigger = 0, bRightTrigger = 0,
         sThumbLX = 0, sThumbLY = 0, sThumbRX = 0, sThumbRY = 0\<rparr>) (xh_hid (demo_xpad XBOX360_WIRED))"
  by (subst xbox360_report_reaches_application [where k = 0]) (simp_all add: le16_def)

text \<open>A wireless pad that is switched off tells the application nothing: the packet clears
  the driver's connected flag, but no callback is made, so the buttons of the last report
  stay pressed in the application for as long as the receiver is plugged in.\<close>

theorem wireless_disconnect_is_silent:
  assumes "ep_in (get_instance dev 0 s) = ep" "ep AND 0x80 \<noteq> 0"
    and "xi_type (get_instance dev 0 s) = XBOX360_WIRELESS" "\<not> new_pad_data (get_instance dev 0 s)"
    and "d 0 AND 0x08 \<noteq> 0" "d 1 = 0"
  shows "\<not> xi_connected (get_instance dev 0 (snd (xinputh_xfer_cb u t dev ep True n d s))) \<and>
    xh_hid (snd (xinputh_xfer_cb u t dev ep True n d s)) = xh_hid s"
proof -
  define s1 where "s1 = on_instance dev 0 (\<lambda>x. x\<lparr>last_xfer_ok := True, last_xferred_bytes := n\<rparr>) s"
  have ty: "xi_type (get_instance dev 0 s1) = XBOX360_WIRELESS" "\<not> new_pad_data (get_instance dev 0 s1)" "xh_hid s1 = xh_hid s"
    using assms(3,4) by (simp_all add: s1_def)
  then have "packet d (get_instance dev 0 s1) = (get_instance dev 0 s1)\<lparr>xi_connected := False\<rparr>"
    using assms(5,6) by (simp add: packet_def packet_wireless_def Let_def)
  moreover have "get_instance dev 0 (snd (tuh_xinput_receive_report u dev 0 s')) = get_instance dev 0 s'" for s'
    by (rule get_instance_cong) simp
  ultimately show ?thesis
    unfolding xinputh_xfer_cb_def Let_def instance_found [OF assms(1)] s1_def [symmetric]
    using assms(2) ty by simp
qed

theorem wireless_disconnect_is_silent_witness:
  "\<not> xi_connected (get_instance 1 0 (snd (xinputh_xfer_cb demo_usbh demo_tuh 1 0x81 True 2 ((\<lambda>_. 0)(0 := 0x08)) (demo_xpad XBOX360_WIRELESS)))) \<and>
    xh_hid (snd (xinputh_xfer_cb demo_usbh demo_tuh 1 0x81 True 2 ((\<lambda>_. 0)(0 := 0x08)) (demo_xpad XBOX360_WIRELESS))) =
      xh_hid (demo_xpad XBOX360_WIRELESS)"
  by (rule wireless_disconnect_is_silent) simp_all

section \<open>Opening an interface\<close>

text \<open>A descriptor begins with its length; an endpoint's is of type 5 and seven bytes long.\<close>

definition endpoint_descriptor :: "u8 list \<Rightarrow> bool" where
  "endpoint_descriptor d \<longleftrightarrow> d ! 1 = 0x05"

definition well_formed_descriptor :: "u8 list \<Rightarrow> bool" where
  "well_formed_descriptor d \<longleftrightarrow>
     2 \<le> length d \<and> unat (d ! 0) = length d \<and> (endpoint_descriptor d \<longrightarrow> length d = 7)"

definition note_endpoint :: "u8 list \<Rightarrow> xinputh_interface \<Rightarrow> xinputh_interface" where
  "note_endpoint d x =
     (if d ! 2 AND 0x80 = 0 then x\<lparr>ep_out := d ! 2, epout_size := le16 (nth d) 4 AND 0x7FF\<rparr>
      else x\<lparr>ep_in := d ! 2, epin_size := le16 (nth d) 4 AND 0x7FF\<rparr>)"

lemma open_endpoints_reads:
  assumes "\<forall>d \<in> set ds. well_formed_descriptor d \<and> (endpoint_descriptor d \<longrightarrow> tuh_edpt_open u dev d)"
    and "\<forall>i < length (concat ds). desc (pos + i) = concat ds ! i"
    and "mx = pos + length (concat ds)" "endpoint \<le> count"
  shows "open_endpoints u dev desc count mx endpoint pos x =
    Some (True, fold note_endpoint (take (count - endpoint) (filter endpoint_descriptor ds)) x)"
  using assms
proof (induction ds arbitrary: pos endpoint x)
  case Nil
  then show ?case by (subst open_endpoints.simps) simp
next
  case (Cons d ds)
  let ?step = "open_endpoints u dev desc count mx"
  have wf: "well_formed_descriptor d" using Cons.prems(1) by simp
  then have len: "2 \<le> length d" "unat (d ! 0) = length d" by (simp_all add: well_formed_descriptor_def)
  then have "d \<noteq> []" by auto
  have byte: "desc (pos + i) = d ! i" if "i < length d" for i
    using Cons.prems(2) that by (simp add: nth_append)
  have here: "unat (desc pos) = length d" "desc (Suc pos) = d ! 1" "pos < mx"
    using byte [of 0] byte [of 1] len \<open>d \<noteq> []\<close> Cons.prems(3) by auto
  have rest: "\<forall>i < length (concat ds). desc (pos + length d + i) = concat ds ! i"
  proof (intro allI impI)
    fix i assume "i < length (concat ds)"
    then have "desc (pos + (length d + i)) = concat (d # ds) ! (length d + i)" using Cons.prems(2) by simp
    then show "desc (pos + length d + i) = concat ds ! i" by (simp add: add.assoc nth_append)
  qed
  have tl: "\<forall>d \<in> set ds. well_formed_descriptor d \<and> (endpoint_descriptor d \<longrightarrow> tuh_edpt_open u dev d)"
    "mx = pos + length d + length (concat ds)"
    using Cons.prems(1,3) by simp_all
  show ?case
  proof (cases "endpoint < count")
    case False
    then show ?thesis by (subst open_endpoints.simps) (use Cons.prems(4) in simp)
  next
    case more: True
    show ?thesis
    proof (cases "endpoint_descriptor d")
      case False
      then have "?step endpoint pos x = ?step endpoint (pos + length d) x"
        by (subst open_endpoints.simps) (use more here in \<open>simp add: endpoint_descriptor_def Let_def\<close>)
      then show ?thesis using Cons.IH [OF tl(1) rest tl(2) Cons.prems(4)] False by simp
    next
      case True
      then have seven: "length d = 7" using wf by (simp add: well_formed_descriptor_def)
      then have "map desc [pos ..< pos + 7] = d"
        using byte by (intro nth_equalityI) simp_all
      moreover have "desc (pos + 2) = d ! 2" "desc (pos + 4) = d ! 4" "desc (pos + 5) = d ! 5" "desc (5 + pos) = d ! 5"
        by (rule byte; simp add: seven)+ (simp add: add.commute [of 5 pos] byte seven)
      moreover have "tuh_edpt_open u dev d" "d ! 1 = 5" using Cons.prems(1) True by (simp_all add: endpoint_descriptor_def)
      ultimately have "?step endpoint pos x = ?step (Suc endpoint) (pos + length d) (note_endpoint d x)"
        by (subst open_endpoints.simps)
          (use more here in \<open>simp add: note_endpoint_def Let_def le16_def add.assoc\<close>)
      moreover have "count - endpoint = Suc (count - Suc endpoint)" using more by simp
      ultimately show ?thesis
        using Cons.IH [OF tl(1) rest tl(2), of "Suc endpoint" "note_endpoint d x"] True more by simp
    qed
  qed
qed

text \<open>opening a pad's interface ends, and finds its endpoints: over any sequence of well-formed
  descriptors, whatever their kinds and order, the driver's walk returns having recorded the
  address and packet size of the endpoints among the first \<open>bNumEndpoints\<close> endpoint descriptors,
  and the device has one instance more.\<close>

theorem xinputh_open_finds_endpoints:
  assumes "\<forall>d \<in> set ds. well_formed_descriptor d \<and> (endpoint_descriptor d \<longrightarrow> tuh_edpt_open u dev d)"
    and "\<forall>i < length (concat ds). desc i = concat ds ! i" "unat max_len = length (concat ds)"
    and "unat dev \<le> CFG_TUH_DEVICE_MAX" "inst_count (xinputh_dev s (unat (dev - 1))) = 0"
    and "xinput_type_of (unat (desc 4)) (desc 5) (desc 6) (desc 7) = ty" "ty \<noteq> XINPUT_UNKNOWN"
  shows "\<exists>s'. xinputh_open u dev desc max_len s = Some (True, s') \<and>
    inst_count (xinputh_dev s' (unat (dev - 1))) = 1 \<and>
    get_instance dev 0 s' =
      fold note_endpoint (take (unat (desc 4)) (filter endpoint_descriptor ds))
        ((get_instance dev 0 s)\<lparr>itf_num := desc 2, xi_type := ty\<rparr>)"
proof -
  have "open_endpoints u dev desc (unat (desc 4)) (unat max_len) 0 0 x =
      Some (True, fold note_endpoint (take (unat (desc 4)) (filter endpoint_descriptor ds)) x)" for x
    using open_endpoints_reads [of ds u dev desc 0 "unat max_len" 0 "unat (desc 4)" x] assms(1-3) by simp
  then show ?thesis
    using assms(4-7)
    by (simp add: xinputh_open_def Let_def CFG_TUH_XINPUT_def get_instance_def on_device_def on_instance_def)
qed

theorem xinputh_open_finds_endpoints_witness:
  "\<exists>s'. xinputh_open demo_usbh 1 (nth (concat demo_descriptors)) 25 (demo_xhost zero_interface) = Some (True, s') \<and>
    inst_count (xinputh_dev s' (unat ((1 :: u8) - 1))) = 1 \<and>
    get_instance 1 0 s' =
      fold note_endpoint (take (unat (concat demo_descriptors ! 4)) (filter endpoint_descriptor demo_descriptors))
        ((get_instance 1 0 (demo_xhost zero_interface))\<lparr>itf_num := concat demo_descriptors ! 2, xi_type := XBOX360_WIRED\<rparr>)"
  by (rule xinputh_open_finds_endpoints)
    (simp_all add: demo_descriptors_def demo_xhost_defs well_formed_descriptor_def endpoint_descriptor_def
      CFG_TUH_DEVICE_MAX_def xinput_type_of_def)

lemma zero_length_loops:
  assumes "open_endpoints u dev desc count mx endpoint pos x = Some r"
  shows "\<not> (endpoint < count \<and> pos < mx \<and> desc pos = 0 \<and> desc (Suc pos) \<noteq> 0x05)"
  by (rule open_endpoints.raw_induct [where P = "\<lambda>u dev desc count mx endpoint pos x r.
        \<not> (endpoint < count \<and> pos < mx \<and> desc pos = 0 \<and> desc (Suc pos) \<noteq> 0x05)"
        and xa = "(((((((u, dev), desc), count), mx), endpoint), pos), x)", unfolded prod.case, OF _ assms])
    (auto simp: Let_def split: if_splits)



section \<open>The table keeps its types\<close>

text \<open>An interface's endpoints have the direction their fields stand for, with a packet size of 11 bits.\<close>

definition interface_ok :: "xinputh_interface \<Rightarrow> bool" where
  "interface_ok x \<longleftrightarrow> (ep_in x = 0 \<or> ep_in x AND 0x80 \<noteq> 0) \<and> ep_out x AND 0x80 = 0 \<and>
     unat (epin_size x) \<le> 0x7FF \<and> unat (epout_size x) \<le> 0x7FF"

definition device_ok :: "xinputh_device \<Rightarrow> bool" where
  "device_ok d \<longleftrightarrow> inst_count d \<le> CFG_TUH_XINPUT \<and> (\<forall>i < CFG_TUH_XINPUT. interface_ok (instances d i)) \<and>
     (\<forall>i < inst_count d. xi_type (instances d i) \<noteq> XINPUT_UNKNOWN)"

definition table_ok :: "xhost \<Rightarrow> bool" where
  "table_ok s \<longleftrightarrow> (\<forall>i < CFG_TUH_DEVICE_MAX. device_ok (xinputh_dev s i))"

datatype xinput_event =
    Opened u8 "u8 arr" u16
  | Configured u8 u8
  | Transferred u8 u8 bool u32 "u8 arr"
  | Closed u8

definition zero_device :: xinputh_device where
  "zero_device = \<lparr>inst_count = 0, instances = (\<lambda>_. zero_interface)\<rparr>"

fun do_xinput :: "usbh \<Rightarrow> tuh \<Rightarrow> xinput_event \<Rightarrow> xhost \<Rightarrow> xhost option" where
  "do_xinput u t (Opened dev desc mx) s = map_option snd (xinputh_open u dev desc mx s)"
| "do_xinput u t (Configured dev itf) s = Some (xinputh_set_config u t dev itf s)"
| "do_xinput u t (Transferred dev ep ok n d) s = Some (snd (xinputh_xfer_cb u t dev ep ok n d s))"
| "do_xinput u t (Closed dev) s = Some (xinputh_close u zero_device dev s)"

inductive xinput_reachable :: "usbh \<Rightarrow> tuh \<Rightarrow> xhost \<Rightarrow> bool" for u t where
  init: "xinput_reachable u t (xinputh_init zero_device s)"
| step: "xinput_reachable u t s \<Longrightarrow> do_xinput u t ev s = Some s' \<Longrightarrow> xinput_reachable u t s'"

definition keeps_type :: "(xinputh_interface \<Rightarrow> xinputh_interface) \<Rightarrow> bool" where
  "keeps_type f \<longleftrightarrow> (\<forall>x. interface_ok x \<longrightarrow> interface_ok (f x) \<and> xi_type (f x) = xi_type x)"

lemma table_ok_cong: "xinputh_dev s' = xinputh_dev s \<Longrightarrow> table_ok s' = table_ok s"
  by (simp add: table_ok_def)

lemma table_ok_quiet [simp]:
  "table_ok (callback u f s) = table_ok s"
  "table_ok (received u dev i s) = table_ok s"
  "table_ok (snd (tuh_xinput_receive_report u dev i s)) = table_ok s"
  "table_ok (snd (tuh_xinput_send_report u dev i bs s)) = table_ok s"
  "table_ok (xboxone_init u t dev i s) = table_ok s"
  by (rule table_ok_cong, simp)+

lemma table_ok_on_device: "table_ok s \<Longrightarrow> (\<And>d. device_ok d \<Longrightarrow> device_ok (f d)) \<Longrightarrow> table_ok (on_device dev f s)"
  by (auto simp: table_ok_def on_device_def)

lemma table_ok_on_instance: "table_ok s \<Longrightarrow> keeps_type f \<Longrightarrow> table_ok (on_instance dev i f s)"
  unfolding on_instance_def by (rule table_ok_on_device) (auto simp: device_ok_def keeps_type_def)

lemma keeps_type_fields [simp]:
  "keeps_type (\<lambda>x. x\<lparr>last_xfer_ok := ok, last_xferred_bytes := n\<rparr>)"
  "keeps_type (\<lambda>x. x\<lparr>xi_connected := b\<rparr>)"
  "keeps_type (\<lambda>x. x\<lparr>new_pad_data := b\<rparr>)"
  by (simp_all add: keeps_type_def interface_ok_def)

lemma keeps_type_packet [simp]: "keeps_type (packet d)"
  by (simp add: keeps_type_def interface_ok_def packet_def packet_wireless_def packet_virtual_key_def new_pad_def Let_def
      split: xinput_type.split)

lemma table_ok_xfer: "table_ok s \<Longrightarrow> table_ok (snd (xinputh_xfer_cb u t dev ep ok n d s))"
  by (simp add: xinputh_xfer_cb_def Let_def table_ok_on_instance)

lemma table_ok_set_config: "table_ok s \<Longrightarrow> table_ok (xinputh_set_config u t dev itf s)"
  by (simp add: xinputh_set_config_def Let_def table_ok_on_instance split: xinput_type.split)

lemma device_ok_zero [simp]: "device_ok zero_device"
  by (simp add: device_ok_def zero_device_def zero_interface_def interface_ok_def)

lemma table_ok_close: "table_ok s \<Longrightarrow> table_ok (xinputh_close u zero_device dev s)"
proof -
  have "table_ok (fold (\<lambda>i. callback u (f i)) is s) = table_ok s" for "is" :: "nat list" and f and s :: xhost
    by (induction "is" arbitrary: s) simp_all
  then show "table_ok s \<Longrightarrow> table_ok (xinputh_close u zero_device dev s)"
    by (simp add: xinputh_close_def table_ok_on_device)
qed

text \<open>Opening: the walk keeps an interface well typed; only then is it counted.\<close>

lemma packet_size: "unat (w AND 0x7FF :: u16) \<le> 0x7FF"
  using word_and_le1 [of w "0x7FF"] by (simp add: word_le_nat_alt)

lemma note_endpoint_ok:
  "interface_ok x \<Longrightarrow> a AND 0x80 = 0 \<Longrightarrow> interface_ok (x\<lparr>ep_out := a, epout_size := w AND 0x7FF\<rparr>)"
  "interface_ok x \<Longrightarrow> a AND 0x80 \<noteq> 0 \<Longrightarrow> interface_ok (x\<lparr>ep_in := a, epin_size := w AND 0x7FF\<rparr>)"
  by (simp_all add: interface_ok_def packet_size)

lemma open_endpoints_keeps:
  assumes "open_endpoints u dev desc count mx endpoint pos x = Some r"
  shows "interface_ok x \<longrightarrow> interface_ok (snd r) \<and> xi_type (snd r) = xi_type x"
proof (rule open_endpoints.raw_induct [where P = "\<lambda>u dev desc count mx endpoint pos x r.
        interface_ok x \<longrightarrow> interface_ok (snd r) \<and> xi_type (snd r) = xi_type x"
        and xa = "(((((((u, dev), desc), count), mx), endpoint), pos), x)", unfolded prod.case, OF _ assms], intro impI)
  fix self u dev desc count mx endpoint pos x r
  assume IH: "\<And>u dev desc count mx endpoint pos x r. self u dev desc count mx endpoint pos x = Some r \<Longrightarrow>
      interface_ok x \<longrightarrow> interface_ok (snd r) \<and> xi_type (snd r) = xi_type x"
    and eq: "(if endpoint < count \<and> pos < mx then
        let len = unat (desc pos) in
        if desc (pos + 1) \<noteq> 0x05 then self u dev desc count mx endpoint (pos + len) x
        else let addr = desc (pos + 2); sz = le16 desc (pos + 4) AND 0x7FF in
          if \<not> tuh_edpt_open u dev (map desc [pos ..< pos + 7]) then Some (False, x)
          else self u dev desc count mx (endpoint + 1) (pos + len)
                 (if addr AND 0x80 = 0 then x\<lparr>ep_out := addr, epout_size := sz\<rparr>
                  else x\<lparr>ep_in := addr, epin_size := sz\<rparr>)
      else Some (True, x)) = Some r"
    and x: "interface_ok x"
  let ?a = "desc (pos + 2)" and ?w = "le16 desc (pos + 4)"
  define x' where "x' = (if ?a AND 0x80 = 0 then x\<lparr>ep_out := ?a, epout_size := ?w AND 0x7FF\<rparr>
                  else x\<lparr>ep_in := ?a, epin_size := ?w AND 0x7FF\<rparr>)"
  have "interface_ok x' \<and> xi_type x' = xi_type x"
    unfolding x'_def using x note_endpoint_ok by auto
  note x' = this
  from eq consider "snd r = x" | p where "self u dev desc count mx endpoint p x = Some r"
    | p where "self u dev desc count mx (endpoint + 1) p x' = Some r"
    unfolding Let_def x'_def [symmetric] by (cases r) (simp split: if_split_asm)
  then show "interface_ok (snd r) \<and> xi_type (snd r) = xi_type x"
    using x x' by cases (simp_all add: IH)
qed

lemma table_ok_open:
  assumes "table_ok s" "xinputh_open u dev desc mx s = Some (ok, s')" "unat (dev - 1) < CFG_TUH_DEVICE_MAX"
  shows "table_ok s'"
proof -
  define ty where "ty = xinput_type_of (unat (desc 4)) (desc 5) (desc 6) (desc 7)"
  define s1 where "s1 = on_instance dev 0 (\<lambda>x. x\<lparr>itf_num := desc 2, xi_type := ty\<rparr>) s"
  have dev: "device_ok (xinputh_dev s (unat (dev - 1)))" using assms(1,3) by (simp add: table_ok_def)
  show ?thesis
  proof (cases "ty = XINPUT_UNKNOWN \<or> \<not> unat dev \<le> CFG_TUH_DEVICE_MAX \<or> inst_count (xinputh_dev s (unat (dev - 1))) \<noteq> 0")
    case True
    then have "s' = s"
      using assms(2) unfolding xinputh_open_def Let_def ty_def [symmetric] CFG_TUH_XINPUT_def
      by (auto split: if_split_asm)
    then show ?thesis using assms(1) by simp
  next
    case False
    then obtain x where x: "open_endpoints u dev desc (unat (desc 4)) (unat mx) 0 0 (get_instance dev 0 s1) = Some (ok, x)"
      and s': "s' = (let s = on_instance dev 0 (\<lambda>_. x) s1
                     in if ok then on_device dev (\<lambda>d. d\<lparr>inst_count := inst_count d + 1\<rparr>) s else s)"
      using assms(2)
      by (auto simp: xinputh_open_def ty_def [symmetric] s1_def Let_def CFG_TUH_XINPUT_def split: if_splits)
    have "interface_ok (get_instance dev 0 s)"
      using dev by (simp add: device_ok_def CFG_TUH_XINPUT_def get_instance_def)
    then have "interface_ok (get_instance dev 0 s1)" "xi_type (get_instance dev 0 s1) = ty"
      by (simp_all add: s1_def interface_ok_def)
    then have "interface_ok x" "xi_type x = ty" using open_endpoints_keeps [OF x] by simp_all
    then show ?thesis
      using assms(1) False dev unfolding s'
      by (simp add: table_ok_def device_ok_def on_instance_def on_device_def s1_def CFG_TUH_XINPUT_def Let_def)
  qed
qed



end
