(* ===== verification/Spec2Isabelle.thy ===== *)
theory Spec2Isabelle
  imports FrankRing Spsc CoreUsb CoreUsbProps CellBuf FrameBuf FrameBufProps TermCompat
    Terminal TermCommand Petscii TermReceive TermInv TermEcho TermProps TermCsi TermQuirks
    Hid HidProps Input InputProps Storage Display VMode ScanOut Server Bringup BlkLink LinkProps Machine MasterRun
    Sdcard SdTime SdProtocol SdStore SdDisk Loader LoaderProps LinkBus Console LinkPeer LinkBench Keys Psram UsbDesc HwAtomics Xinput XinputProps
begin

text \<open>
  The firmware of the FRANK board, modelled from its C sources.

  \<^bold>\<open>The program.\<close>  The board has two RP2350 halves.  One runs Linux on core 0 (entered through
  the loader \<open>afboot-rp2350/src/main.c\<close>) and a service on core 1 (\<open>common/core1_usb.c\<close> and
  \<open>common/core1_blk.c\<close>); the two share a block of SRAM with two byte rings and a block request
  slot (\<open>common/frank_ring.h\<close>).  The other half, the master (\<open>master-ioserver\<close>), owns the
  SD card, the screen, the USB keyboard and the gamepads.  The halves talk over a parallel link
  (\<open>common/link_bus.c\<close>) in the request format of \<open>common/link_blk.h\<close>: core 1 sends a header
  and a payload, the master answers with a status and data.  Console output travels the same way
  and is drawn by the terminal engine; keys go back in the replies.

  \<^bold>\<open>Theories and sources\<close>, in the order of the imports.
  \<^item> \<open>Prelude\<close>, \<open>Fifo\<close>: C integers as words, memory as a function of addresses, windows
    of rings; the interfaces \<open>bounded_fifo\<close> and \<open>byte_pipe\<close> behind every queue.
  \<^item> \<open>FrankRing\<close> (\<open>frank_ring.h\<close>), \<open>Spsc\<close>: the rings, and the two cores interleaved access by
    access as a step relation.
  \<^item> \<open>CoreUsb\<close>, \<open>CoreUsbProps\<close> (\<open>core1_usb.c\<close>): console fan-out to USB and link, DTR, reset interface.
  \<^item> \<open>CellBuf\<close>, \<open>FrameBuf\<close>, \<open>FrameBufProps\<close> (\<open>term/cellbuf.c\<close>, \<open>term/framebuf.c\<close>): the character grid.
  \<^item> \<open>TermCompat\<close>, \<open>Terminal\<close>, \<open>TermCommand\<close>, \<open>Petscii\<close>, \<open>TermReceive\<close>
    (\<open>term/term_compat.c\<close>, \<open>term/terminal.c\<close>): the terminal engine; \<open>TermInv\<close>, \<open>TermEcho\<close>,
    \<open>TermProps\<close>, \<open>TermCsi\<close>, \<open>TermQuirks\<close>: its invariant, the recursion of local echo, printing,
    control sequences, and where it departs from its documentation.
  \<^item> \<open>Hid\<close>, \<open>HidProps\<close> (\<open>usbhid/hid_app.c\<close>), \<open>Xinput\<close>, \<open>XinputProps\<close> (\<open>usbhid/xinput_host.c\<close>):
    keyboards, mice and gamepads, and the class driver under the XInput callbacks.
  \<^item> \<open>Input\<close>, \<open>InputProps\<close> (\<open>term/input.c\<close>, \<open>term/term_input.c\<close>, \<open>keyboard_tick\<close> of \<open>main.c\<close>): from a key
    to a byte for Linux.
  \<^item> \<open>Storage\<close> (\<open>src/storage.c\<close>): RAM disk and card behind one interface, \<open>block_device\<close>.
  \<^item> \<open>Display\<close> (\<open>term/palette.c\<close>, \<open>term/font.c\<close>, \<open>term/textmode_render.c\<close>, \<open>src/display_tick.c\<close>): what is shown.
  \<^item> \<open>VMode\<close> (\<open>DispHSTX/_display/disphstx/disphstx_vmode.c\<close>, \<open>term/display.c\<close>): the video mode built from strips and
    slots; \<open>ScanOut\<close> (\<open>disphstx_dvi.c\<close>): its DMA commands and the interrupt that sends line after line.
  \<^item> \<open>Bringup\<close> (\<open>disphstx_picolibsk.c\<close>, \<open>clocks_bringup\<close> and \<open>main\<close> of \<open>src/main.c\<close>): PLL, voltage, flash divider and clocks
    from reset to the running picture.
  \<^item> \<open>Server\<close>, \<open>MasterRun\<close> (\<open>src/main.c\<close>, \<open>link_blk.h\<close>): the master's request server and main loop.
  \<^item> \<open>BlkLink\<close>, \<open>LinkProps\<close>, \<open>Machine\<close> (\<open>core1_blk.c\<close>): core 1's side, the interface
    \<open>block_server\<close> it needs, and both halves joined.
  \<^item> \<open>Sdcard\<close> (\<open>sdcard/sdcard.c\<close>), \<open>SdTime\<close> (its waits end), \<open>SdProtocol\<close> (a card that follows the SD
    protocol), \<open>SdStore\<close> (the driver under the storage), \<open>SdDisk\<close> (the disk of Linux on a simulated card).
  \<^item> \<open>Loader\<close>, \<open>LoaderProps\<close> (\<open>afboot-rp2350/src/main.c\<close>): from reset to the kernel's first instruction.
  \<^item> \<open>LinkBus\<close> (\<open>common/link_bus.c\<close>): the transport's set-up, dividers, starts, waits and aborts.
  \<^item> \<open>Console\<close> (\<open>core1_usb_main\<close> of \<open>core1_usb.c\<close>): the loop of core 1 between the kernel, the USB
    host and the master's terminal.
  \<^item> \<open>LinkPeer\<close> (the link part of \<open>blk_transact\<close>): one transaction as calls to the transport, with its time.
  \<^item> \<open>LinkBench\<close>: the transport with the master of this repository at its far end refines the wire of \<open>Machine\<close>.
  \<^item> \<open>Keys\<close>: the other direction, from a key on the master to the ring Linux reads.
  \<^item> \<open>Psram\<close> (\<open>hwtests/common/psram_init.c\<close>, linked into the loader): the timings of the PSRAM.
  \<^item> \<open>UsbDesc\<close> (\<open>common/usb_descriptors.c\<close>): what the console port tells a USB host, and the reset interface in it.
  \<^item> \<open>HwAtomics\<close> (\<open>hwtests/exclusives\<close>, \<open>castest.c\<close> of the root file system): the programs that found
    out how atomic operations can be done on this board.

  \<^bold>\<open>Correspondence.\<close>  A C file's statics are a record; its functions are definitions of the same
  name from the state to the result and the new state (a name that clashes with a library
  constant has a suffix or prefix).  Integers keep their width as words wherever the source
  computes with them; lengths and indices the source bounds are natural numbers.  A call that
  may not return has an option result, \<open>None\<close> for never: \<open>partial_function\<close> for the polls of
  the SD driver, of the link, of the XInput descriptor walk and of the start of the scan-out on the other core.  Memory is a total function, so
  a write out of bounds is a visible change; the frame lemmas (\<open>term_frame\<close>, \<open>fb_frame\<close>,
  \<open>hid_frame\<close>) state that there is none.

  \<^bold>\<open>Parameters.\<close>  TinyUSB (\<open>tuh\<close>, \<open>usbh\<close>), the SPI bus with a card (\<open>spi\<close>), DMA and PIO
  (\<open>link_hw\<close>), the clocks of the SDK (\<open>clock_sdk\<close>), the memory bus and what the PSRAM answers to its set-up (\<open>bus\<close>, \<open>board\<close>), the exclusive
  monitor and the kernel's system call (\<open>excl_env\<close>, \<open>kernel\<close>), TinyUSB's descriptor macros, the disk layer (\<open>diskio\<close>,
  instantiated by the RAM disk and by the SD driver), the wire (instantiated by the master), the
  font sheet.  Every property over one has a witness with a concrete instance.

  \<^bold>\<open>Fuel.\<close>  \<open>input_poll\<close> and \<open>poll_all\<close> carry 32 rounds; the queue they drain holds at most 31
  actions, and \<open>keyboard_polling_returns\<close> proves that they end by themselves.  Local echo
  recursion is unrolled twice; \<open>local_echo_terminates\<close> proves that deeper levels change nothing.
  Looks at the doorbell are a list, as long as the environment gives; the loader's waits are the
  counted loops of the source.

  \<^bold>\<open>Not modelled.\<close>  Pin and register set-up (\<open>init_spi\<close>, pins and serialiser in \<open>DispHstxDviInit\<close>), which leaves no
  state the rest reads.  The link's byte rate and drain time, computed in floating point.  \<open>tuh_task\<close> called
  again while the XInput driver waits for an output transfer.  Log lines on the debug console.
  Of the vendored library DispHSTX
  the drawing canvases, VGA, the built-in formats and their palettes, which \<open>term/config.h\<close> compiles out, and the exchange
  of a running mode, which nothing calls; what the DMA engine and the HSTX expander do with the command lists is a
  specification (\<open>run_cmds\<close>, \<open>expand\<close>) and not code.  The hardware tests \<open>xip\<close>,
  \<open>linkecho\<close> and \<open>usbring\<close> and the time measurements of \<open>exclusives\<close>, whose results only the hardware
  decides, and \<open>memtouch\<close> and \<open>mputest\<close>, which try whether an access faults.
\<close>

section \<open>The master on the SD driver\<close>



end
